(* ===== verification/GoTime.thy ===== *)
theory GoTime
  imports Prelude "HOL-Library.Monad_Syntax"
begin

text \<open>
  What the repository uses of Go's \<open>time\<close> package: durations, which are 64-bit integers of
  nanoseconds and wrap around, the comparison and shifting of instants, Unix time, and the
  RFC 3339 text in which an instant travels inside JSON. The zone of an instant is a display
  attribute without influence on any comparison; instants are formatted in UTC.
\<close>

section \<open>Durations\<close>

type_synonym duration = int

text \<open>The product of two 64-bit integers, as in \<open>time.Duration(n) * time.Second\<close>.\<close>

definition mul_int64 :: "int \<Rightarrow> int \<Rightarrow> int" where
  "mul_int64 a b = sint ((word_of_int a :: 64 word) * word_of_int b)"

definition nanos_per_second :: int where
  "nanos_per_second = 1000000000"

definition seconds :: "int \<Rightarrow> duration" where
  "seconds n = mul_int64 n nanos_per_second"

definition max_duration :: int where
  "max_duration = 9223372036854775807"

definition min_duration :: int where
  "min_duration = - 9223372036854775808"

text \<open>\<open>a.Sub(b)\<close> saturates.\<close>

definition time_sub :: "time \<Rightarrow> time \<Rightarrow> duration" where
  "time_sub a b = max min_duration (min max_duration (a - b))"

lemma sint_word_of_int_64:
  "- (2 ^ 63) \<le> x \<Longrightarrow> x < 2 ^ 63 \<Longrightarrow> sint (word_of_int x :: 64 word) = x"
  by (simp add: signed_of_int signed_take_bit_int_eq_self)

lemma mul_int64_exact:
  "- (2 ^ 63) \<le> a * b \<Longrightarrow> a * b < 2 ^ 63 \<Longrightarrow> mul_int64 a b = a * b"
  unfolding mul_int64_def
  by (metis of_int_mult sint_word_of_int_64)

lemma seconds_exact:
  "\<bar>n\<bar> \<le> 9223372036 \<Longrightarrow> seconds n = n * nanos_per_second"
  unfolding seconds_def
  by (rule mul_int64_exact) (auto simp: nanos_per_second_def)

lemma seconds_mono:
  "\<bar>m\<bar> \<le> 9223372036 \<Longrightarrow> \<bar>n\<bar> \<le> 9223372036 \<Longrightarrow> m \<le> n \<Longrightarrow> seconds m \<le> seconds n"
  by (simp add: seconds_exact nanos_per_second_def)

lemma sint_word_of_int_wrap:
  assumes "2 ^ 63 \<le> x" "x < 2 ^ 64"
  shows "sint (word_of_int x :: 64 word) = x - 2 ^ 64"
proof -
  have "word_of_int x = (word_of_int (x - 2 ^ 64) :: 64 word)"
    by (simp add: word_of_int_eq_iff take_bit_eq_mod)
  moreover have "sint (word_of_int (x - 2 ^ 64) :: 64 word) = x - 2 ^ 64"
    by (rule sint_word_of_int_64) (use assms in auto)
  ultimately show ?thesis by (simp only:)
qed

lemma seconds_wrap:
  assumes "9223372037 \<le> n" "n \<le> 18446744073"
  shows "seconds n = n * nanos_per_second - 2 ^ 64"
proof -
  have "(word_of_int n :: 64 word) * word_of_int nanos_per_second =
      word_of_int (n * nanos_per_second)"
    by simp
  then show ?thesis
    unfolding seconds_def mul_int64_def
    using sint_word_of_int_wrap [of "n * nanos_per_second"] assms
    by (simp add: nanos_per_second_def)
qed

section \<open>Unix time\<close>

definition unix_epoch :: time where
  "unix_epoch = 62135596800 * 1000000000"

definition UnixNano :: "time \<Rightarrow> int" where
  "UnixNano t = sint (word_of_int (t - unix_epoch) :: 64 word)"

definition Unix :: "time \<Rightarrow> int" where
  "Unix t = (t - unix_epoch) div nanos_per_second"

text \<open>The instants of 1678 to 2262, whose \<open>UnixNano\<close> does not overflow.\<close>

definition nano_range :: "time \<Rightarrow> bool" where
  "nano_range t \<longleftrightarrow> unix_epoch - 2 ^ 63 \<le> t \<and> t < unix_epoch + 2 ^ 63"

lemma UnixNano_exact: "nano_range t \<Longrightarrow> UnixNano t = t - unix_epoch"
  unfolding UnixNano_def nano_range_def by (rule sint_word_of_int_64) auto

section \<open>The civil calendar\<close>

definition is_leap :: "int \<Rightarrow> bool" where
  "is_leap y \<longleftrightarrow> y mod 4 = 0 \<and> (y mod 100 \<noteq> 0 \<or> y mod 400 = 0)"

definition month_lengths :: "bool \<Rightarrow> int list" where
  "month_lengths leap = [31, if leap then 29 else 28, 31, 30, 31, 30, 31, 31, 30, 31, 30, 31]"

text \<open>Month (from \<open>m\<close> on) and day of month of the day \<open>d\<close> counted from 0.\<close>

fun month_day :: "int list \<Rightarrow> int \<Rightarrow> int \<Rightarrow> int \<times> int" where
  "month_day [] m d = (m, d + 1)"
| "month_day (l # ls) m d = (if d < l then (m, d + 1) else month_day ls (m + 1) (d - l))"

text \<open>Year and day of year (from 0) of the day \<open>d\<close> counted from 0001-01-01.\<close>

definition year_day :: "int \<Rightarrow> int \<times> int" where
  "year_day d =
     (let n400 = d div 146097; d1 = d mod 146097;
          n100 = min 3 (d1 div 36524); d2 = d1 - n100 * 36524;
          n4 = d2 div 1461; d3 = d2 - n4 * 1461;
          n1 = min 3 (d3 div 365)
      in (1 + 400 * n400 + 100 * n100 + 4 * n4 + n1, d3 - n1 * 365))"

definition days_before_year :: "int \<Rightarrow> int" where
  "days_before_year y =
     365 * (y - 1) + (y - 1) div 4 - (y - 1) div 100 + (y - 1) div 400"

definition days_of_date :: "int \<Rightarrow> int \<Rightarrow> int \<Rightarrow> int" where
  "days_of_date y m d =
     days_before_year y + sum_list (take (nat (m - 1)) (month_lengths (is_leap y))) + (d - 1)"

lemma div_cycle:
  fixes a b c e :: int
  assumes "0 \<le> b" "b \<le> 3" "0 \<le> c" "c \<le> 24" "0 \<le> e" "e \<le> 3"
  shows "(400 * a + 100 * b + 4 * c + e) div 4 = 100 * a + 25 * b + c"
    and "(400 * a + 100 * b + 4 * c + e) div 100 = 4 * a + b"
    and "(400 * a + 100 * b + 4 * c + e) div 400 = a"
proof -
  have div_eq: "(n * q + r) div n = q" if "0 \<le> r" "r < n" for n q r :: int
    using that by (simp add: div_pos_pos_trivial)
  have "400 * a + 100 * b + 4 * c + e = 4 * (100 * a + 25 * b + c) + e" by simp
  then show "(400 * a + 100 * b + 4 * c + e) div 4 = 100 * a + 25 * b + c"
    using assms by (simp only: div_eq)
  have "400 * a + 100 * b + 4 * c + e = 100 * (4 * a + b) + (4 * c + e)" by simp
  then show "(400 * a + 100 * b + 4 * c + e) div 100 = 4 * a + b"
    using assms by (simp add: div_eq)
  have "400 * a + 100 * b + 4 * c + e = 400 * a + (100 * b + 4 * c + e)" by simp
  then show "(400 * a + 100 * b + 4 * c + e) div 400 = a"
    using assms by (simp add: div_eq)
qed

text \<open>A quotient cut off at 3: the shape of the centuries of a cycle and the years of four.\<close>

lemma min3_div:
  fixes x n :: int
  assumes "0 \<le> x" "x \<le> 4 * n" "0 < n"
  defines "q \<equiv> min 3 (x div n)"
  shows "0 \<le> q" "q \<le> 3" "0 \<le> x - q * n" "x - q * n \<le> x - 3 * n \<or> x - q * n < n"
    "q < 3 \<longrightarrow> x - q * n < n"
proof -
  have m: "x - (x div n) * n = x mod n" by (simp add: minus_div_mult_eq_mod)
  have lt: "x mod n < n" and ge: "0 \<le> x mod n" using assms by simp_all
  have "0 \<le> x div n" using assms by (simp add: pos_imp_zdiv_nonneg_iff)
  then show "0 \<le> q" "q \<le> 3" by (simp_all add: q_def)
  have three: "3 * n \<le> x" if "3 \<le> x div n"
  proof -
    have "3 * n \<le> (x div n) * n" using that assms(3) by simp
    also have "\<dots> \<le> x" using m ge by linarith
    finally show ?thesis .
  qed
  show "0 \<le> x - q * n" using m ge three by (auto simp: q_def min_def)
  show "q < 3 \<longrightarrow> x - q * n < n" using m lt by (auto simp: q_def min_def)
  then show "x - q * n \<le> x - 3 * n \<or> x - q * n < n" using \<open>q \<le> 3\<close> by fastforce
qed

lemma year_day_parts:
  fixes d :: int
  obtains a b c e r where
    "year_day d = (1 + (400 * a + 100 * b + 4 * c + e), r)"
    "d = 146097 * a + 36524 * b + 1461 * c + 365 * e + r"
    "0 \<le> b" "b \<le> 3" "0 \<le> c" "c \<le> 24" "0 \<le> e" "e \<le> 3" "0 \<le> r" "r \<le> 365"
    "e < 3 \<longrightarrow> r < 365" "b < 3 \<longrightarrow> c = 24 \<longrightarrow> e = 3 \<longrightarrow> r < 365"
proof -
  define a where "a = d div 146097"
  define d1 where "d1 = d mod 146097"
  define b where "b = min 3 (d1 div 36524)"
  define d2 where "d2 = d1 - b * 36524"
  define c where "c = d2 div 1461"
  define d3 where "d3 = d2 - c * 1461"
  define e where "e = min 3 (d3 div 365)"
  define r where "r = d3 - e * 365"
  have d: "d = 146097 * a + d1" by (simp add: a_def d1_def)
  have d1: "0 \<le> d1" "d1 < 146097" by (simp_all add: d1_def)
  note b0 = min3_div [of d1 36524, folded b_def d2_def]
  have b: "0 \<le> b" "b \<le> 3" "0 \<le> d2" "d2 \<le> 36524" "b < 3 \<longrightarrow> d2 < 36524"
    using b0 d1 by auto
  have cm: "d3 = d2 mod 1461" by (simp add: d3_def c_def minus_div_mult_eq_mod)
  have d3: "0 \<le> d3" "d3 < 1461" by (simp_all add: cm)
  have d2: "d2 = c * 1461 + d3" by (simp add: d3_def)
  have c: "0 \<le> c" "c \<le> 24" using b d2 d3 by linarith+
  have c24: "c = 24 \<longrightarrow> d2 < 36524 \<longrightarrow> d3 < 1460" using d2 by auto
  note e0 = min3_div [of d3 365, folded e_def r_def]
  have e: "0 \<le> e" "e \<le> 3" "0 \<le> r" "r \<le> 365" "e < 3 \<longrightarrow> r < 365" "e = 3 \<longrightarrow> d3 < 1460 \<longrightarrow> r < 365"
    using e0 d3 by (auto simp: r_def)
  show thesis
  proof (rule that)
    show "year_day d = (1 + (400 * a + 100 * b + 4 * c + e), r)"
      unfolding year_day_def Let_def a_def [symmetric] d1_def [symmetric] b_def [symmetric]
        d2_def [symmetric] c_def [symmetric] d3_def [symmetric] e_def [symmetric] r_def [symmetric]
      by simp
    show "d = 146097 * a + 36524 * b + 1461 * c + 365 * e + r"
      using d by (simp add: d2_def d3_def r_def)
  qed (use b c c24 e in auto)
qed

lemma year_day_inverse: "year_day d = (y, r) \<Longrightarrow> days_before_year y + r = d"
  by (rule year_day_parts [of d]) (auto simp: days_before_year_def div_cycle)

lemma year_day_leap:
  assumes "year_day d = (y, r)"
  shows "0 \<le> r" and "r < (if is_leap y then 366 else 365)"
proof -
  obtain a b c e r' where p:
    "year_day d = (1 + (400 * a + 100 * b + 4 * c + e), r')"
    "0 \<le> b" "b \<le> 3" "0 \<le> c" "c \<le> 24" "0 \<le> e" "e \<le> 3" "0 \<le> r'" "r' \<le> 365"
    "e < 3 \<longrightarrow> r' < 365" "b < 3 \<longrightarrow> c = 24 \<longrightarrow> e = 3 \<longrightarrow> r' < 365"
    by (rule year_day_parts [of d]) blast
  with assms have y: "y = 400 * a + 100 * b + 4 * c + (e + 1)" and r: "r = r'" by auto
  show "0 \<le> r" using p r by simp
  have "y = 4 * (100 * a + 25 * b + c) + (e + 1)" unfolding y by simp
  then have mod4: "y mod 4 = (e + 1) mod 4" by (simp only: mod_mult_self4)
  have "y = 100 * (4 * a + b) + (4 * c + e + 1)" unfolding y by simp
  then have mod100: "y mod 100 = (4 * c + e + 1) mod 100" by (simp only: mod_mult_self4)
  have "y = 400 * a + (100 * b + 4 * c + e + 1)" unfolding y by simp
  then have mod400: "y mod 400 = (100 * b + 4 * c + e + 1) mod 400" by (simp only: mod_mult_self4)
  have "is_leap y" if "r' = 365"
  proof -
    from that p have e: "e = 3" and c: "c \<noteq> 24 \<or> b = 3" by auto
    have "y mod 4 = 0" using mod4 e by simp
    moreover have "y mod 100 \<noteq> 0" if "c \<noteq> 24"
      using mod100 e p(4,5) that by (simp add: mod_pos_pos_trivial)
    moreover have "y mod 400 = 0" if "c = 24"
      using mod400 e c that by auto
    ultimately show ?thesis by (cases "c = 24") (simp_all add: is_leap_def)
  qed
  then have "r' \<noteq> 365 \<or> is_leap y" by blast
  then show "r < (if is_leap y then 366 else 365)" using p(9) r by (cases "r' = 365") auto
qed

lemma month_day_inverse:
  "0 \<le> d \<Longrightarrow> d < sum_list ls \<Longrightarrow> \<forall>l \<in> set ls. 0 < l \<Longrightarrow> month_day ls m d = (m', d') \<Longrightarrow>
   m \<le> m' \<and> m' < m + int (length ls) \<and> 1 \<le> d' \<and> d' \<le> ls ! nat (m' - m) \<and>
   sum_list (take (nat (m' - m)) ls) + (d' - 1) = d"
proof (induction ls m d rule: month_day.induct)
  case (2 l ls m d)
  show ?case
  proof (cases "d < l")
    case True
    with 2 show ?thesis by auto
  next
    case False
    with 2 have IH: "m + 1 \<le> m' \<and> m' < m + 1 + int (length ls) \<and> 1 \<le> d' \<and>
        d' \<le> ls ! nat (m' - (m + 1)) \<and>
        sum_list (take (nat (m' - (m + 1))) ls) + (d' - 1) = d - l"
      by auto
    then have n: "nat (m' - m) = Suc (nat (m' - (m + 1)))" by auto
    show ?thesis using IH unfolding n by auto
  qed
qed simp

section \<open>RFC 3339 text\<close>

fun pad :: "nat \<Rightarrow> nat \<Rightarrow> string" where
  "pad 0 n = []"
| "pad (Suc k) n = digit_char (n div 10 ^ k mod 10) # pad k n"

fun parse_digits :: "nat \<Rightarrow> string \<Rightarrow> nat option" where
  "parse_digits acc [] = Some acc"
| "parse_digits acc (c # cs) =
     (case digit_val c of None \<Rightarrow> None | Some d \<Rightarrow> parse_digits (10 * acc + d) cs)"

definition parse_range :: "string \<Rightarrow> int \<Rightarrow> int \<Rightarrow> int option" where
  "parse_range s lo hi =
     (case parse_digits 0 s of None \<Rightarrow> None
      | Some n \<Rightarrow> if lo \<le> int n \<and> int n \<le> hi then Some (int n) else None)"

definition nanos_per_day :: int where
  "nanos_per_day = 86400 * nanos_per_second"

text \<open>The fraction of a second: nine digits less the trailing zeros, nothing if it is zero.\<close>

definition strip_zeros :: "string \<Rightarrow> string" where
  "strip_zeros ds = rev (dropWhile (\<lambda>c. c = CHR ''0'') (rev ds))"

definition format_frac :: "nat \<Rightarrow> string" where
  "format_frac ns = (let ds = strip_zeros (pad 9 ns) in if ds = [] then [] else CHR ''.'' # ds)"

definition format_date :: "int \<Rightarrow> string" where
  "format_date d =
     (let (y, r) = year_day d; (m, day) = month_day (month_lengths (is_leap y)) 1 r
      in pad 4 (nat y) @ ''-'' @ pad 2 (nat m) @ ''-'' @ pad 2 (nat day))"

definition format_clock :: "int \<Rightarrow> string" where
  "format_clock s = pad 2 (nat (s div 3600)) @ '':'' @ pad 2 (nat (s div 60 mod 60)) @ '':''
     @ pad 2 (nat (s mod 60))"

text \<open>\<open>t.UTC().Format(time.RFC3339Nano)\<close>, the text of \<open>Time.MarshalJSON\<close>.\<close>

definition format_rfc3339 :: "time \<Rightarrow> string" where
  "format_rfc3339 t =
     (let d = t div nanos_per_day; n = t mod nanos_per_day
      in format_date d @ ''T'' @ format_clock (n div nanos_per_second)
         @ format_frac (nat (n mod nanos_per_second)) @ ''Z'')"

definition is_digit :: "char \<Rightarrow> bool" where
  "is_digit c \<longleftrightarrow> digit_val c \<noteq> None"

definition parse_frac :: "string \<Rightarrow> int \<times> string" where
  "parse_frac s =
     (case s of c # e # s' \<Rightarrow>
        if c = CHR ''.'' \<and> is_digit e then
          (let ds = takeWhile is_digit (e # s')
           in (case parse_digits 0 (take 9 (ds @ replicate 9 (CHR ''0''))) of
                 None \<Rightarrow> 0 | Some n \<Rightarrow> int n,
               dropWhile is_digit (e # s')))
        else (0, s)
      | _ \<Rightarrow> (0, s))"

text \<open>The zone: \<open>Z\<close> or \<open>+hh:mm\<close> or \<open>-hh:mm\<close>; its offset in seconds.\<close>

definition parse_zone :: "string \<Rightarrow> int option" where
  "parse_zone s =
     (if s = ''Z'' then Some 0
      else if length s \<noteq> 6 then None
      else do {
        hr \<leftarrow> parse_range (take 2 (drop 1 s)) 0 23;
        mm \<leftarrow> parse_range (take 2 (drop 4 s)) 0 59;
        (if s ! 3 \<noteq> CHR '':'' then None
         else if s ! 0 = CHR ''+'' then Some ((hr * 60 + mm) * 60)
         else if s ! 0 = CHR ''-'' then Some (- ((hr * 60 + mm) * 60))
         else None) })"

definition parse_date :: "string \<Rightarrow> int option" where
  "parse_date s = do {
     y \<leftarrow> parse_range (take 4 s) 0 9999;
     m \<leftarrow> parse_range (take 2 (drop 5 s)) 1 12;
     d \<leftarrow> parse_range (take 2 (drop 8 s)) 1 (month_lengths (is_leap y) ! nat (m - 1));
     (if s ! 4 = CHR ''-'' \<and> s ! 7 = CHR ''-'' then Some (days_of_date y m d) else None) }"

definition parse_clock :: "string \<Rightarrow> int option" where
  "parse_clock s = do {
     h \<leftarrow> parse_range (take 2 s) 0 23;
     m \<leftarrow> parse_range (take 2 (drop 3 s)) 0 59;
     sc \<leftarrow> parse_range (take 2 (drop 6 s)) 0 59;
     (if s ! 2 = CHR '':'' \<and> s ! 5 = CHR '':'' then Some (h * 3600 + m * 60 + sc) else None) }"

text \<open>\<open>Time.UnmarshalJSON\<close> on the text between the quotes.\<close>

definition parse_rfc3339 :: "string \<Rightarrow> time option" where
  "parse_rfc3339 s =
     (if length s < 19 then None
      else do {
        d \<leftarrow> parse_date (take 10 s);
        c \<leftarrow> (if s ! 10 = CHR ''T'' then parse_clock (take 8 (drop 11 s)) else None);
        (case parse_frac (drop 19 s) of (ns, rest) \<Rightarrow> do {
           off \<leftarrow> parse_zone rest;
           Some (d * nanos_per_day + (c - off) * nanos_per_second + ns) }) })"

text \<open>The years of four digits: the instants that \<open>MarshalJSON\<close> can write.\<close>

definition time_ok :: "time \<Rightarrow> bool" where
  "time_ok t \<longleftrightarrow> 0 \<le> t \<and> t < 3652059 * nanos_per_day"

subsection \<open>The text of an instant parses back\<close>

lemma length_pad [simp]: "length (pad k n) = k"
  by (induction k) auto

lemma parse_digits_pad: "parse_digits acc (pad k n) = Some (acc * 10 ^ k + n mod 10 ^ k)"
proof (induction k arbitrary: acc)
  case (Suc k)
  have "n mod 10 ^ Suc k = 10 ^ k * (n div 10 ^ k mod 10) + n mod 10 ^ k"
    by (simp add: mod_mult2_eq mult.commute [of 10])
  with Suc show ?case by (simp add: algebra_simps)
qed simp

lemma parse_range_pad:
  "0 \<le> i \<Longrightarrow> i < 10 ^ k \<Longrightarrow> lo \<le> i \<Longrightarrow> i \<le> hi \<Longrightarrow> parse_range (pad k (nat i)) lo hi = Some i"
proof -
  assume i: "0 \<le> i" "i < 10 ^ k" "lo \<le> i" "i \<le> hi"
  then have "nat i < 10 ^ k" by (simp add: nat_less_iff)
  with i show ?thesis by (simp add: parse_range_def parse_digits_pad)
qed

lemma set_pad_digits: "c \<in> set (pad k n) \<Longrightarrow> is_digit c"
  by (induction k) (auto simp: is_digit_def)

lemma strip_zeros_append: "\<exists>k. ds = strip_zeros ds @ replicate k (CHR ''0'')"
proof -
  let ?z = "takeWhile (\<lambda>c. c = CHR ''0'') (rev ds)"
  have "?z = replicate (length ?z) (CHR ''0'')"
    by (rule replicate_eqI) (auto dest: set_takeWhileD)
  then have "rev ?z = rev (replicate (length ?z) (CHR ''0''))" by (rule arg_cong)
  then have "rev ?z = replicate (length ?z) (CHR ''0'')" by simp
  moreover have "ds = strip_zeros ds @ rev ?z"
    unfolding strip_zeros_def by (metis rev_append rev_rev_ident takeWhile_dropWhile_id)
  ultimately show ?thesis by metis
qed

lemma set_strip_zeros: "set (strip_zeros ds) \<subseteq> set ds"
  by (metis Un_upper1 set_append strip_zeros_append)

lemma parse_frac_format:
  assumes "ns < 1000000000"
  shows "parse_frac (format_frac ns @ ''Z'') = (int ns, ''Z'')"
proof -
  define ds where "ds = pad 9 ns"
  obtain k where k: "ds = strip_zeros ds @ replicate k (CHR ''0'')"
    using strip_zeros_append by blast
  have Z: "\<not> is_digit (CHR ''Z'')" by (simp add: is_digit_def digit_val_def)
  have val: "parse_digits 0 ds = Some ns"
    using assms by (simp add: ds_def parse_digits_pad)
  show ?thesis
  proof (cases "strip_zeros ds")
    case Nil
    have "length ds = 9" by (simp add: ds_def)
    with k Nil have "ds = replicate 9 (CHR ''0'')" by (metis append_Nil length_replicate)
    with val have "ns = 0" by (simp add: digit_val_def eval_nat_numeral)
    with Nil show ?thesis by (simp add: format_frac_def ds_def parse_frac_def Let_def)
  next
    case (Cons c cs)
    have dig: "\<forall>x \<in> set (c # cs). is_digit x"
      using set_strip_zeros [of ds] set_pad_digits Cons unfolding ds_def by auto
    have tw: "takeWhile is_digit ((c # cs) @ ''Z'') = c # cs"
      "dropWhile is_digit ((c # cs) @ ''Z'') = ''Z''"
      using dig Z by (simp_all add: takeWhile_append2 dropWhile_append2)
    have len: "length (c # cs) + k = 9"
      using k Cons by (metis ds_def length_append length_pad length_replicate)
    have "take 9 ((c # cs) @ replicate 9 (CHR ''0'')) = (c # cs) @ replicate k (CHR ''0'')"
      using len by (simp add: take_replicate)
    then have t9: "take 9 ((c # cs) @ replicate 9 (CHR ''0'')) = ds"
      using k Cons by simp
    have fmt: "format_frac ns @ ''Z'' = CHR ''.'' # c # (cs @ ''Z'')"
      using Cons by (simp add: format_frac_def ds_def Let_def)
    have tw': "takeWhile is_digit (c # (cs @ ''Z'')) = c # cs"
      "dropWhile is_digit (c # (cs @ ''Z'')) = ''Z''"
      using tw by simp_all
    have "parse_frac (CHR ''.'' # c # (cs @ ''Z'')) =
        (case parse_digits 0 ds of None \<Rightarrow> 0 | Some n \<Rightarrow> int n, ''Z'')"
      using dig unfolding parse_frac_def list.case Let_def tw' t9 by simp
    then show ?thesis unfolding fmt val by simp
  qed
qed

lemma take_drop_field: "length a = n \<Longrightarrow> length b = k \<Longrightarrow> take k (drop n (a @ b @ c)) = b"
  by auto

lemma sum_month_lengths: "sum_list (month_lengths leap) = (if leap then 366 else 365)"
  by (simp add: month_lengths_def)

lemma year_bounds:
  assumes "year_day d = (y, r)" "0 \<le> d" "d < 3652059"
  shows "1 \<le> y \<and> y \<le> 9999"
proof -
  obtain a b c e r' where p:
    "year_day d = (1 + (400 * a + 100 * b + 4 * c + e), r')"
    "d = 146097 * a + 36524 * b + 1461 * c + 365 * e + r'"
    "0 \<le> b" "b \<le> 3" "0 \<le> c" "c \<le> 24" "0 \<le> e" "e \<le> 3" "0 \<le> r'" "r' \<le> 365"
    "b < 3 \<longrightarrow> c = 24 \<longrightarrow> e = 3 \<longrightarrow> r' < 365"
    by (rule year_day_parts [of d]) blast
  have a: "0 \<le> a" "a \<le> 24" using p assms(2,3) by linarith+
  have "400 * a + 100 * b + 4 * c + e \<le> 9998"
  proof (rule ccontr)
    assume "\<not> ?thesis"
    then have "a = 24 \<and> b = 3 \<and> c = 24 \<and> e = 3" using a p(3-8) by linarith
    then show False using p assms(3) by linarith
  qed
  then show ?thesis using assms(1) p a by auto
qed

lemma month_lengths_bounds:
  "m < 12 \<Longrightarrow> 28 \<le> month_lengths leap ! m \<and> month_lengths leap ! m \<le> 31"
  by (auto simp: month_lengths_def numeral_eq_Suc less_Suc_eq)

lemma nth_field: "length a = n \<Longrightarrow> (a @ c # b) ! n = c"
  by auto

lemma parse_format_date:
  assumes "0 \<le> d" "d < 3652059"
  shows "parse_date (format_date d) = Some d"
proof -
  obtain y r where yr: "year_day d = (y, r)" by fastforce
  obtain m day where md: "month_day (month_lengths (is_leap y)) 1 r = (m, day)" by fastforce
  have y: "1 \<le> y \<and> y \<le> 9999" using yr assms by (rule year_bounds)
  have r: "0 \<le> r" "r < sum_list (month_lengths (is_leap y))"
    using year_day_leap [OF yr] by (simp_all add: sum_month_lengths)
  have "\<forall>l \<in> set (month_lengths (is_leap y)). 0 < l" by (simp add: month_lengths_def)
  from month_day_inverse [OF r this md]
  have m: "1 \<le> m" "m \<le> 12" and day: "1 \<le> day" "day \<le> month_lengths (is_leap y) ! nat (m - 1)"
    and sum: "sum_list (take (nat (m - 1)) (month_lengths (is_leap y))) + (day - 1) = r"
    by (auto simp: month_lengths_def)
  have "day \<le> 31" using day m month_lengths_bounds [of "nat (m - 1)" "is_leap y"] by linarith
  note fields = parse_range_pad [of y 4 0 9999] parse_range_pad [of m 2 1 12]
    parse_range_pad [of day 2 1 "month_lengths (is_leap y) ! nat (m - 1)"]
  have fmt: "format_date d = pad 4 (nat y) @ ''-'' @ pad 2 (nat m) @ ''-'' @ pad 2 (nat day)"
    using yr md by (simp add: format_date_def)
  have "days_of_date y m day = d"
    using year_day_inverse [OF yr] sum by (simp add: days_of_date_def)
  then show ?thesis
    unfolding parse_date_def fmt
    using fields y m day \<open>day \<le> 31\<close> by (simp add: nth_append)
qed

lemma div_less_bound: "0 < k \<Longrightarrow> x < n * k \<Longrightarrow> x div k < (n::int)"
proof (rule ccontr)
  assume k: "0 < k" "x < n * k" and "\<not> x div k < n"
  then have "n * k \<le> (x div k) * k" by simp
  also have "\<dots> \<le> x" using k(1) div_mult_mod_eq [of x k] pos_mod_sign [of k x] by linarith
  finally show False using k(2) by simp
qed

lemma parse_clock_fields:
  assumes "0 \<le> h" "h \<le> 23" "0 \<le> m" "m \<le> 59" "0 \<le> sc" "sc \<le> 59"
  shows "parse_clock (pad 2 (nat h) @ '':'' @ pad 2 (nat m) @ '':'' @ pad 2 (nat sc)) =
    Some (h * 3600 + m * 60 + sc)"
  unfolding parse_clock_def
  using parse_range_pad [of h 2 0 23] parse_range_pad [of m 2 0 59] parse_range_pad [of sc 2 0 59]
    assms
  by (simp add: nth_append)

lemma parse_format_clock:
  assumes "0 \<le> n" "n < 86400"
  shows "parse_clock (format_clock n) = Some n"
proof -
  have h: "0 \<le> n div 3600" "n div 3600 \<le> 23"
    using assms div_less_bound [of 3600 n 24] by (simp_all add: pos_imp_zdiv_nonneg_iff)
  have "n div 60 div 60 = n div 3600" using zdiv_zmult2_eq [of 60 n 60] by simp
  then have sum: "n div 3600 * 3600 + n div 60 mod 60 * 60 + n mod 60 = n"
    using div_mult_mod_eq [of n 60] div_mult_mod_eq [of "n div 60" 60] by linarith
  have m: "0 \<le> n div 60 mod 60" "n div 60 mod 60 \<le> 59" "0 \<le> n mod 60" "n mod 60 \<le> 59"
    by simp_all
  show ?thesis
    unfolding format_clock_def parse_clock_fields [OF h m] sum ..
qed

lemma length_format_date [simp]: "length (format_date d) = 10"
  by (simp add: format_date_def split: prod.split)

lemma length_format_clock [simp]: "length (format_clock n) = 8"
  by (simp add: format_clock_def)

lemma parse_format_rfc3339 [decode_simps]:
  assumes "time_ok t"
  shows "parse_rfc3339 (format_rfc3339 t) = Some t"
proof -
  define d where "d = t div nanos_per_day"
  define n where "n = t mod nanos_per_day"
  define c where "c = n div nanos_per_second"
  define ns where "ns = n mod nanos_per_second"
  have pos: "0 < nanos_per_day" "0 < nanos_per_second"
    by (simp_all add: nanos_per_day_def nanos_per_second_def)
  have d: "0 \<le> d" "d < 3652059"
    using assms pos unfolding time_ok_def d_def
    by (auto simp: pos_imp_zdiv_nonneg_iff intro: div_less_bound)
  have n: "0 \<le> n" "n < nanos_per_day" using pos by (simp_all add: n_def)
  then have c: "0 \<le> c" "c < 86400"
    using pos unfolding c_def nanos_per_day_def
    by (auto simp: pos_imp_zdiv_nonneg_iff intro: div_less_bound)
  have ns: "0 \<le> ns" "nat ns < 1000000000"
    using pos by (simp_all add: ns_def nanos_per_second_def nat_less_iff)
  have fmt: "format_rfc3339 t =
      format_date d @ ''T'' @ format_clock c @ format_frac (nat ns) @ ''Z''"
    by (simp add: format_rfc3339_def Let_def d_def n_def c_def ns_def)
  have "t = d * nanos_per_day + c * nanos_per_second + ns"
    by (simp add: d_def n_def c_def ns_def)
  moreover have "parse_rfc3339 (format_rfc3339 t) = Some (d * nanos_per_day + c * nanos_per_second + ns)"
    unfolding parse_rfc3339_def fmt
    using parse_format_date [OF d] parse_format_clock [OF c] parse_frac_format [OF ns(2)] ns
    by (simp add: nth_append parse_zone_def)
  ultimately show ?thesis by simp
qed

end
