(* ===== verification/GoJson.thy ===== *)
theory GoJson
  imports GoTime
begin

text \<open>
  JSON as \<open>encoding/json\<close> reads and writes it. A \<open>json.RawMessage\<close> is a parsed value, or
  \<open>None\<close> for the empty byte slice, which is not JSON. A struct is decoded member by member:
  the member's key selects the field of exactly that name, else the one whose name agrees
  under ASCII case folding; unknown keys are skipped, \<open>null\<close> leaves a plain field alone, a
  value of the wrong kind is an error, and the other members are still decoded. Strings are
  carried unchanged, as \<open>encoding/json\<close> does with valid UTF-8; the bytes are in theory \<open>JsonText\<close>.
\<close>

section \<open>Values\<close>

text \<open>\<open>JReal\<close> is a number with a fraction or an exponent, which fits no Go integer.\<close>

datatype json =
    JNull
  | JBool bool
  | JNum int
  | JReal string
  | JStr string
  | JArr "json list"
  | JObj "(string \<times> json) list"

type_synonym raw = "json option"

section \<open>Decoding into a struct\<close>

text \<open>A field's decoder updates the struct and says whether the value had the right kind.\<close>

type_synonym 'r field = "json \<Rightarrow> 'r \<Rightarrow> 'r \<times> bool"

definition lower_char :: "char \<Rightarrow> char" where
  "lower_char c =
     (case map_of (zip ''ABCDEFGHIJKLMNOPQRSTUVWXYZ'' ''abcdefghijklmnopqrstuvwxyz'') c of
        None \<Rightarrow> c | Some d \<Rightarrow> d)"

definition fold_name :: "string \<Rightarrow> string" where
  "fold_name s = map lower_char s"

definition find_field :: "(string \<times> 'r field) list \<Rightarrow> string \<Rightarrow> 'r field option" where
  "find_field fs k =
     (case map_of fs k of
        Some f \<Rightarrow> Some f
      | None \<Rightarrow> map_option snd (find (\<lambda>(n, f). fold_name n = fold_name k) fs))"

fun decode_members :: "(string \<times> 'r field) list \<Rightarrow> (string \<times> json) list \<Rightarrow> 'r \<times> bool \<Rightarrow> 'r \<times> bool" where
  "decode_members fs [] acc = acc"
| "decode_members fs ((k, v) # kvs) (r, ok) =
     (case find_field fs k of
        None \<Rightarrow> decode_members fs kvs (r, ok)
      | Some f \<Rightarrow> (case f v r of (r', ok') \<Rightarrow> decode_members fs kvs (r', ok \<and> ok')))"

text \<open>\<open>json.Unmarshal\<close> into a struct that holds \<open>r\<close>: the struct after it, and whether \<open>err == nil\<close>.\<close>

definition Unmarshal :: "(string \<times> 'r field) list \<Rightarrow> 'r \<Rightarrow> raw \<Rightarrow> 'r \<times> bool" where
  "Unmarshal fs r raw =
     (case raw of
        None \<Rightarrow> (r, False)
      | Some JNull \<Rightarrow> (r, True)
      | Some (JObj kvs) \<Rightarrow> decode_members fs kvs (r, True)
      | Some _ \<Rightarrow> (r, False))"

text \<open>The same for the callers that drop the struct on an error.\<close>

definition decode :: "(string \<times> 'r field) list \<Rightarrow> 'r \<Rightarrow> raw \<Rightarrow> 'r option" where
  "decode fs r raw = (case Unmarshal fs r raw of (r', ok) \<Rightarrow> if ok then Some r' else None)"

definition string_field :: "((string \<Rightarrow> string) \<Rightarrow> 'r \<Rightarrow> 'r) \<Rightarrow> 'r field" where
  "string_field upd v r =
     (case v of JStr s \<Rightarrow> (upd (\<lambda>_. s) r, True) | JNull \<Rightarrow> (r, True) | _ \<Rightarrow> (r, False))"

definition bool_field :: "((bool \<Rightarrow> bool) \<Rightarrow> 'r \<Rightarrow> 'r) \<Rightarrow> 'r field" where
  "bool_field upd v r =
     (case v of JBool b \<Rightarrow> (upd (\<lambda>_. b) r, True) | JNull \<Rightarrow> (r, True) | _ \<Rightarrow> (r, False))"

definition int_field :: "((int \<Rightarrow> int) \<Rightarrow> 'r \<Rightarrow> 'r) \<Rightarrow> 'r field" where
  "int_field upd v r =
     (case v of
        JNum n \<Rightarrow> if - (2 ^ 63) \<le> n \<and> n < 2 ^ 63 then (upd (\<lambda>_. n) r, True) else (r, False)
      | JNull \<Rightarrow> (r, True)
      | _ \<Rightarrow> (r, False))"

definition time_field :: "((time \<Rightarrow> time) \<Rightarrow> 'r \<Rightarrow> 'r) \<Rightarrow> 'r field" where
  "time_field upd v r =
     (case v of
        JStr s \<Rightarrow> (case parse_rfc3339 s of Some t \<Rightarrow> (upd (\<lambda>_. t) r, True) | None \<Rightarrow> (r, False))
      | JNull \<Rightarrow> (r, True)
      | _ \<Rightarrow> (r, False))"

definition raw_field :: "((raw \<Rightarrow> raw) \<Rightarrow> 'r \<Rightarrow> 'r) \<Rightarrow> 'r field" where
  "raw_field upd v r = (upd (\<lambda>_. Some v) r, True)"

text \<open>The last member of each name, as a map or a JSONB value keeps them.\<close>

fun keep_last :: "(string \<times> 'v) list \<Rightarrow> (string \<times> 'v) list" where
  "keep_last [] = []"
| "keep_last ((k, v) # kvs) = (if k \<in> fst ` set kvs then keep_last kvs else (k, v) # keep_last kvs)"

section \<open>Encoding\<close>

definition time_json :: "time \<Rightarrow> json" where
  "time_json t = JStr (format_rfc3339 t)"

definition raw_json :: "raw \<Rightarrow> json" where
  "raw_json r = (case r of None \<Rightarrow> JNull | Some v \<Rightarrow> v)"

text \<open>A member with the tag \<open>omitempty\<close> is left out at the zero value.\<close>

definition omit_empty :: "string \<Rightarrow> string \<Rightarrow> (string \<times> json) list" where
  "omit_empty k s = (if s = [] then [] else [(k, JStr s)])"

section \<open>Facts for decoding\<close>

lemma string_field_JStr [decode_simps]: "string_field upd (JStr s) r = (upd (\<lambda>_. s) r, True)"
  by (simp add: string_field_def)

lemma bool_field_JBool [decode_simps]: "bool_field upd (JBool b) r = (upd (\<lambda>_. b) r, True)"
  by (simp add: bool_field_def)

lemma int_field_JNum [decode_simps]:
  "- (2 ^ 63) \<le> n \<Longrightarrow> n < 2 ^ 63 \<Longrightarrow> int_field upd (JNum n) r = (upd (\<lambda>_. n) r, True)"
  by (simp add: int_field_def)

lemma time_field_json [decode_simps]:
  "time_ok t \<Longrightarrow> time_field upd (time_json t) r = (upd (\<lambda>_. t) r, True)"
  by (simp add: time_field_def time_json_def parse_format_rfc3339)

lemma raw_field_json [decode_simps]: "raw_field upd v r = (upd (\<lambda>_. Some v) r, True)"
  by (simp add: raw_field_def)

lemma find_field_exact: "map_of fs k = Some f \<Longrightarrow> find_field fs k = Some f"
  by (simp add: find_field_def)

lemma decode_members_exact [decode_simps]:
  "map_of fs k = Some f \<Longrightarrow>
   decode_members fs ((k, v) # kvs) (r, ok) =
     (case f v r of (r', ok') \<Rightarrow> decode_members fs kvs (r', ok \<and> ok'))"
  by (simp add: find_field_exact)

lemma decode_members_unknown:
  "find_field fs k = None \<Longrightarrow>
   decode_members fs ((k, v) # kvs) (r, ok) = decode_members fs kvs (r, ok)"
  by simp

lemma decode_members_append:
  "decode_members fs (xs @ ys) acc = decode_members fs ys (decode_members fs xs acc)"
proof (induction xs arbitrary: acc)
  case (Cons x xs)
  then show ?case
    by (cases x; cases acc) (auto split: option.split prod.split)
qed simp

declare decode_members.simps(2) [simp del]

lemma decode_obj [decode_simps]:
  "decode fs r (Some (JObj kvs)) =
     (case decode_members fs kvs (r, True) of (r', ok) \<Rightarrow> if ok then Some r' else None)"
  by (simp add: decode_def Unmarshal_def)

end
