(* ===== verification/Types.thy ===== *)
theory Types
  imports GoJson
begin

text \<open>
  The data of package \<open>pkg/hearsay\<close> (files \<open>provider.go\<close>, \<open>claims.go\<close>, \<open>mailbox.go\<close>,
  \<open>audit.go\<close>, \<open>client.go\<close>): claims, log messages, mailbox messages, tasks, audit events, the
  errors the code returns, and the JSON forms of those that travel as payloads. A Go struct is
  a record whose fields carry a short prefix in front of the Go name; Go's string enumerations
  stay strings, since any string can arrive in them.
\<close>

section \<open>Enumerations\<close>

abbreviation OpRead :: string where "OpRead \<equiv> ''read''"
abbreviation OpWrite :: string where "OpWrite \<equiv> ''write''"
abbreviation OpDelete :: string where "OpDelete \<equiv> ''delete''"
abbreviation OpRename :: string where "OpRename \<equiv> ''rename''"
abbreviation OpRefactor :: string where "OpRefactor \<equiv> ''refactor''"

abbreviation OutcomeSucceeded :: string where "OutcomeSucceeded \<equiv> ''succeeded''"
abbreviation OutcomeAbandoned :: string where "OutcomeAbandoned \<equiv> ''abandoned''"
abbreviation OutcomeConflicted :: string where "OutcomeConflicted \<equiv> ''conflicted''"

abbreviation MsgClaim :: string where "MsgClaim \<equiv> ''claim''"
abbreviation MsgHeartbeat :: string where "MsgHeartbeat \<equiv> ''heartbeat''"
abbreviation MsgRelease :: string where "MsgRelease \<equiv> ''release''"
abbreviation MsgTransfer :: string where "MsgTransfer \<equiv> ''transfer''"
abbreviation MsgEscalate :: string where "MsgEscalate \<equiv> ''escalate''"
abbreviation MsgIntent :: string where "MsgIntent \<equiv> ''intent''"
abbreviation MsgMailboxSend :: string where "MsgMailboxSend \<equiv> ''mailbox_send''"
abbreviation MsgMailboxRead :: string where "MsgMailboxRead \<equiv> ''mailbox_read''"
abbreviation MsgMailboxArchive :: string where "MsgMailboxArchive \<equiv> ''mailbox_archive''"

abbreviation EventClaim :: string where "EventClaim \<equiv> ''claim''"
abbreviation EventRelease :: string where "EventRelease \<equiv> ''release''"
abbreviation EventHeartbeat :: string where "EventHeartbeat \<equiv> ''heartbeat''"
abbreviation EventMailbox :: string where "EventMailbox \<equiv> ''mailbox_send''"

section \<open>Claims and conflicts\<close>

record claim =
  c_ClaimID :: string
  c_AgentID :: string
  c_ResourceURI :: string
  c_Operation :: string
  c_Intent :: string
  c_ProjectedEnd :: string
  c_TTLSeconds :: int
  c_ParentClaimID :: string
  c_CreatedAt :: time

record conflict =
  cf_ClaimID :: string
  cf_AgentID :: string
  cf_Resource :: string
  cf_Operation :: string
  cf_Intent :: string
  cf_Since :: time

record conflict_report =
  HasConflict :: bool
  Conflicts :: "conflict list"

section \<open>Errors\<close>

text \<open>
  \<open>Errorf\<close> is \<open>fmt.Errorf\<close>; \<open>ExternalError\<close> is the error of a library or service outside the
  repository (a database driver, an HTTP transport); \<open>RPCError\<close> is the \<open>JSONRPCError\<close> of package
  \<open>a2a\<close>; the others are the error types of \<open>claims.go\<close> and \<open>validation.go\<close>.
\<close>

datatype error =
    Errorf string
  | ConflictError conflict_report
  | ExpiredError string
  | NotFoundError string
  | ProviderError error
  | ValidationError string string
  | ExternalError string
  | RPCError int string raw

text \<open>The \<open>Error()\<close> methods.\<close>

primrec error_text :: "error \<Rightarrow> string" where
  "error_text (Errorf s) = s"
| "error_text (ConflictError rep) =
     ''conflict detected: '' @ itoa (int (length (Conflicts rep))) @ '' active claims''"
| "error_text (ExpiredError cid) = ''claim '' @ cid @ '' expired''"
| "error_text (NotFoundError res) = ''not found: '' @ res"
| "error_text (ProviderError cause) = ''provider error: '' @ error_text cause"
| "error_text (ValidationError fld msg) = ''validation error on '' @ fld @ '': '' @ msg"
| "error_text (ExternalError s) = s"
| "error_text (RPCError code msg data) = msg"

section \<open>The message log\<close>

record namespace =
  ns_ID :: string
  ns_CreatedAt :: time

record message =
  m_Offset :: int
  m_Type :: string
  m_Namespace :: string
  m_AgentID :: string
  m_Payload :: raw
  m_Timestamp :: time

record query_opts =
  q_Since :: int
  q_Types :: "string list"
  q_AgentID :: string
  q_Limit :: int

definition no_opts :: query_opts where
  "no_opts = \<lparr>q_Since = 0, q_Types = [], q_AgentID = [], q_Limit = 0\<rparr>"

record event =
  ev_Seq :: int
  ev_Type :: string
  ev_Payload :: raw
  ev_Timestamp :: time

record agent_state =
  as_AgentID :: string
  as_ActiveClaims :: "string list"
  as_LastSeen :: time

section \<open>The mailbox\<close>

record mailbox_message =
  mb_MessageID :: string
  mb_From :: string
  mb_To :: string
  mb_Type :: string
  mb_Content :: string
  mb_RelatedClaimID :: string
  mb_Read :: bool
  mb_Archived :: bool
  mb_CreatedAt :: time
  mb_ExpiresAt :: time

record mailbox_query_opts =
  mq_Unread :: bool
  mq_IncludeClaims :: bool
  mq_Limit :: int

abbreviation MailboxToBroadcast :: string where "MailboxToBroadcast \<equiv> ''broadcast''"

definition ValidMailboxTypes :: "string list" where
  "ValidMailboxTypes =
     [''yield_request'', ''yield_ack'', ''escalation'', ''all_clear'', ''note'', ''ping'']"

definition IsValidMailboxType :: "string \<Rightarrow> bool" where
  "IsValidMailboxType t \<longleftrightarrow> t \<in> set ValidMailboxTypes"

section \<open>Stored tasks\<close>

record a2a_task =
  t_ID :: string
  t_SessionID :: string
  t_State :: string
  t_StatusMsg :: raw
  t_StatusTime :: time
  t_ClaimID :: string
  t_Namespace :: string
  t_Metadata :: raw
  t_CreatedAt :: time

record a2a_message =
  h_Role :: string
  h_Parts :: raw
  h_Metadata :: raw

record a2a_artifact =
  art_Name :: string
  art_Description :: string
  art_Parts :: raw
  art_Index :: int
  art_Append :: bool
  art_LastChunk :: bool
  art_Metadata :: raw

section \<open>Audit events\<close>

record audit_event =
  ae_Namespace :: string
  ae_Timestamp :: time
  ae_Level :: string
  ae_EventType :: string
  ae_AgentID :: string
  ae_ResourceURI :: string
  ae_Outcome :: string
  ae_Metadata :: raw

text \<open>The audit levels are the integers 0 to 3 of \<open>audit.go\<close>.\<close>

abbreviation (input) AuditOff :: int where "AuditOff \<equiv> 0"
abbreviation (input) AuditCoordination :: int where "AuditCoordination \<equiv> 1"
abbreviation (input) AuditSecurity :: int where "AuditSecurity \<equiv> 2"
abbreviation (input) AuditFull :: int where "AuditFull \<equiv> 3"

definition ParseAuditLevel :: "string \<Rightarrow> int" where
  "ParseAuditLevel s =
     (if s = ''coordination'' then AuditCoordination
      else if s = ''security'' then AuditSecurity
      else if s = ''full'' then AuditFull
      else AuditOff)"

abbreviation AuditEventClaim :: string where "AuditEventClaim \<equiv> ''claim''"
abbreviation AuditEventRelease :: string where "AuditEventRelease \<equiv> ''release''"
abbreviation AuditEventExpire :: string where "AuditEventExpire \<equiv> ''expire''"
abbreviation AuditEventDeath :: string where "AuditEventDeath \<equiv> ''death_release''"
abbreviation AuditEventAuthFailure :: string where "AuditEventAuthFailure \<equiv> ''auth_failure''"
abbreviation AuditEventRateLimit :: string where "AuditEventRateLimit \<equiv> ''rate_limit''"

definition ShouldLog :: "int \<Rightarrow> string \<Rightarrow> bool" where
  "ShouldLog level eventType =
     (if level \<ge> AuditFull then True
      else if level \<ge> AuditSecurity then
        eventType = AuditEventClaim \<or> eventType = AuditEventRelease \<or> eventType = AuditEventExpire
        \<or> eventType = AuditEventDeath \<or> eventType = AuditEventAuthFailure
        \<or> eventType = AuditEventRateLimit
      else if level \<ge> AuditCoordination then
        eventType = AuditEventClaim \<or> eventType = AuditEventRelease \<or> eventType = AuditEventExpire
        \<or> eventType = AuditEventDeath
      else False)"

section \<open>JSON forms of claims\<close>

definition claim_json :: "claim \<Rightarrow> json" where
  "claim_json c = JObj (
     [(''claim_id'', JStr (c_ClaimID c)), (''agent_id'', JStr (c_AgentID c)),
      (''resource_uri'', JStr (c_ResourceURI c)), (''operation'', JStr (c_Operation c)),
      (''intent'', JStr (c_Intent c))]
     @ omit_empty ''projected_end'' (c_ProjectedEnd c)
     @ [(''ttl_seconds'', JNum (c_TTLSeconds c))]
     @ omit_empty ''parent_claim_id'' (c_ParentClaimID c)
     @ [(''created_at'', time_json (c_CreatedAt c))])"

definition claim_fields :: "(string \<times> claim field) list" where
  "claim_fields =
     [(''claim_id'', string_field c_ClaimID_update), (''agent_id'', string_field c_AgentID_update),
      (''resource_uri'', string_field c_ResourceURI_update),
      (''operation'', string_field c_Operation_update), (''intent'', string_field c_Intent_update),
      (''projected_end'', string_field c_ProjectedEnd_update),
      (''ttl_seconds'', int_field c_TTLSeconds_update),
      (''parent_claim_id'', string_field c_ParentClaimID_update),
      (''created_at'', time_field c_CreatedAt_update)]"

definition zero_claim :: claim where
  "zero_claim = \<lparr>c_ClaimID = [], c_AgentID = [], c_ResourceURI = [], c_Operation = [], c_Intent = [],
     c_ProjectedEnd = [], c_TTLSeconds = 0, c_ParentClaimID = [], c_CreatedAt = 0\<rparr>"

definition decode_claim :: "raw \<Rightarrow> claim option" where
  "decode_claim p = decode claim_fields zero_claim p"

text \<open>The anonymous struct with the single member \<open>claim_id\<close>.\<close>

definition decode_ref :: "raw \<Rightarrow> string option" where
  "decode_ref p = decode [(''claim_id'', string_field (\<lambda>f. f))] [] p"

text \<open>A claim that the JSON encoding can carry: its instant and its TTL are in range.\<close>

definition claim_ok :: "claim \<Rightarrow> bool" where
  "claim_ok c \<longleftrightarrow> time_ok (c_CreatedAt c) \<and> - (2 ^ 63) \<le> c_TTLSeconds c \<and> c_TTLSeconds c < 2 ^ 63"

lemma decode_omit_empty:
  assumes "map_of fs k = Some (string_field upd)" and "s = [] \<Longrightarrow> upd (\<lambda>_. s) r = r"
  shows "decode_members fs (omit_empty k s @ kvs) (r, ok) =
    decode_members fs kvs (upd (\<lambda>_. s) r, ok)"
  using assms
  by (cases "s = []") (simp_all add: omit_empty_def decode_members_exact string_field_JStr)

lemma decode_claim_json [decode_simps]:
  assumes "claim_ok c"
  shows "decode_claim (Some (claim_json c)) = Some c"
proof -
  have "decode_members claim_fields
    ([(''claim_id'', JStr (c_ClaimID c)), (''agent_id'', JStr (c_AgentID c)),
      (''resource_uri'', JStr (c_ResourceURI c)), (''operation'', JStr (c_Operation c)),
      (''intent'', JStr (c_Intent c))]
     @ omit_empty ''projected_end'' (c_ProjectedEnd c)
     @ [(''ttl_seconds'', JNum (c_TTLSeconds c))]
     @ omit_empty ''parent_claim_id'' (c_ParentClaimID c)
     @ [(''created_at'', time_json (c_CreatedAt c))]) (zero_claim, True) = (c, True)"
    using assms
    by (simp add: decode_members_exact claim_fields_def decode_omit_empty string_field_JStr
        int_field_JNum time_field_json claim_ok_def zero_claim_def)
  then show ?thesis
    by (simp only: decode_claim_def claim_json_def decode_obj prod.case) simp
qed

lemma decode_ref_first [decode_simps]:
  "\<forall>x \<in> set kvs. fold_name (fst x) \<noteq> ''claim_id'' \<Longrightarrow>
   decode_ref (Some (JObj ((''claim_id'', JStr cid) # kvs))) = Some cid"
proof -
  let ?fs = "[(''claim_id'', string_field (\<lambda>f. f))] :: (string \<times> string field) list"
  have skip: "decode_members ?fs kvs (r, ok) = (r, ok)"
    if "\<forall>x \<in> set kvs. fold_name (fst x) \<noteq> ''claim_id''" for kvs r ok
    using that
  proof (induction kvs)
    case (Cons x kvs)
    have fold_id: "fold_name ''claim_id'' = ''claim_id''" by code_simp
    obtain k v where x: "x = (k, v)" by fastforce
    with Cons.prems have "fold_name k \<noteq> ''claim_id''" by simp
    then have "find_field ?fs k = None"
      using fold_id by (auto simp: find_field_def)
    with Cons x show ?case by (simp add: decode_members_unknown)
  qed simp
  assume "\<forall>x \<in> set kvs. fold_name (fst x) \<noteq> ''claim_id''"
  then show ?thesis
    by (simp add: decode_ref_def decode_obj decode_members_exact string_field_JStr skip)
qed

end
