(* ===== verification/GoPath.thy ===== *)
theory GoPath
  imports Prelude
begin

text \<open>
  Go's \<open>path.Match\<close>, on which the repository's resource patterns rest (\<open>filepath.Match\<close> is the
  same function on Unix): shell patterns with \<open>*\<close>, \<open>?\<close>, character classes and backslash
  escapes. \<open>None\<close> is \<open>ErrBadPattern\<close>.
\<close>

section \<open>UTF-8\<close>

definition byte :: "char \<Rightarrow> nat" where
  "byte c = of_char c"

definition RuneError :: int where
  "RuneError = 65533"

definition continuation :: "nat \<Rightarrow> bool" where
  "continuation b \<longleftrightarrow> 128 \<le> b \<and> b \<le> 191"

text \<open>\<open>utf8.DecodeRuneInString\<close>: the first rune and its width; a bad byte is one \<open>RuneError\<close>.\<close>

definition decode_rune :: "string \<Rightarrow> int \<times> nat" where
  "decode_rune s =
     (if s = [] then (RuneError, 0)
      else let b0 = byte (s ! 0) in
      if b0 < 128 then (int b0, 1)
      else if 194 \<le> b0 \<and> b0 \<le> 223 then
        (if 2 \<le> length s \<and> continuation (byte (s ! 1))
         then (int ((b0 - 192) * 64 + (byte (s ! 1) - 128)), 2) else (RuneError, 1))
      else if 224 \<le> b0 \<and> b0 \<le> 239 then
        (if 3 \<le> length s
            \<and> (if b0 = 224 then 160 else 128) \<le> byte (s ! 1)
            \<and> byte (s ! 1) \<le> (if b0 = 237 then 159 else 191)
            \<and> continuation (byte (s ! 2))
         then (int ((b0 - 224) * 4096 + (byte (s ! 1) - 128) * 64 + (byte (s ! 2) - 128)), 3)
         else (RuneError, 1))
      else if 240 \<le> b0 \<and> b0 \<le> 244 then
        (if 4 \<le> length s
            \<and> (if b0 = 240 then 144 else 128) \<le> byte (s ! 1)
            \<and> byte (s ! 1) \<le> (if b0 = 244 then 143 else 191)
            \<and> continuation (byte (s ! 2)) \<and> continuation (byte (s ! 3))
         then (int ((b0 - 240) * 262144 + (byte (s ! 1) - 128) * 4096
                    + (byte (s ! 2) - 128) * 64 + (byte (s ! 3) - 128)), 4)
         else (RuneError, 1))
      else (RuneError, 1))"

lemma decode_rune_width: "s \<noteq> [] \<Longrightarrow> 0 < snd (decode_rune s)"
  by (simp add: decode_rune_def Let_def)

section \<open>Character classes\<close>

definition getEsc :: "string \<Rightarrow> (int \<times> string) option" where
  "getEsc chunk =
     (case chunk of
        [] \<Rightarrow> None
      | c # cs \<Rightarrow>
          if c = CHR ''-'' \<or> c = CHR '']'' then None
          else let chunk' = (if c = CHR 0x5C then cs else chunk) in
            if chunk' = [] then None
            else case decode_rune chunk' of (r, n) \<Rightarrow>
              if r = RuneError \<and> n = 1 then None
              else if drop n chunk' = [] then None
              else Some (r, drop n chunk'))"

lemma getEsc_cases:
  assumes "getEsc chunk = Some (r, chunk')"
  obtains u n where "u \<noteq> []" "length u \<le> length chunk" "decode_rune u = (r, n)"
    "chunk' = drop n u" "drop n u \<noteq> []"
proof -
  from assms obtain c cs where chunk: "chunk = c # cs" by (cases chunk) (auto simp: getEsc_def)
  define u where "u = (if c = CHR 0x5C then cs else chunk)"
  obtain r' n where dec: "decode_rune u = (r', n)" by fastforce
  have "getEsc chunk = (if c = CHR ''-'' \<or> c = CHR '']'' then None else if u = [] then None
      else case decode_rune u of (r, n) \<Rightarrow>
        if r = RuneError \<and> n = 1 then None else if drop n u = [] then None else Some (r, drop n u))"
    unfolding u_def getEsc_def chunk by (simp add: Let_def)
  with assms dec have "u \<noteq> []" "r' = r" "chunk' = drop n u" "drop n u \<noteq> []"
    by (auto split: if_splits)
  with dec show thesis by (intro that [of u n]) (auto simp: u_def chunk)
qed

lemma getEsc_shorter: "getEsc chunk = Some (r, chunk') \<Longrightarrow> length chunk' < length chunk"
proof (erule getEsc_cases)
  fix u n
  assume u: "u \<noteq> []" "length u \<le> length chunk" "decode_rune u = (r, n)" "chunk' = drop n u"
  then have "0 < n" using decode_rune_width [of u] by simp
  then have "length (drop n u) < length u" using u(1) by (cases u) simp_all
  then show "length chunk' < length chunk" using u by simp
qed

lemma getEsc_nonempty: "getEsc chunk = Some (r, chunk') \<Longrightarrow> chunk' \<noteq> []"
  by (erule getEsc_cases) simp

text \<open>The ranges of a class up to its closing bracket: whether one holds \<open>r\<close>, and what follows.\<close>

function class_ranges :: "string \<Rightarrow> int \<Rightarrow> nat \<Rightarrow> bool \<Rightarrow> (bool \<times> string) option" where
  "class_ranges chunk r nrange m =
     (if chunk \<noteq> [] \<and> hd chunk = CHR '']'' \<and> 0 < nrange then Some (m, tl chunk)
      else case getEsc chunk of
        None \<Rightarrow> None
      | Some (lo, chunk1) \<Rightarrow>
          if hd chunk1 = CHR ''-'' then
            (case getEsc (tl chunk1) of
               None \<Rightarrow> None
             | Some (hi, chunk2) \<Rightarrow>
                 class_ranges chunk2 r (Suc nrange) (m \<or> lo \<le> r \<and> r \<le> hi))
          else class_ranges chunk1 r (Suc nrange) (m \<or> lo \<le> r \<and> r \<le> lo))"
  by pat_completeness auto
termination
  by (relation "measure (\<lambda>(chunk, r, nrange, m). length chunk)")
    (auto dest!: getEsc_shorter)

declare class_ranges.simps [simp del]

lemma class_ranges_shorter:
  "class_ranges chunk r n m = Some (m', rest) \<Longrightarrow> length rest < length chunk"
proof (induction chunk r n m arbitrary: m' rest rule: class_ranges.induct)
  case (1 chunk r n m)
  show ?case
  proof (cases "chunk \<noteq> [] \<and> hd chunk = CHR '']'' \<and> 0 < n")
    case True
    with "1.prems" show ?thesis by (auto simp: class_ranges.simps [of chunk])
  next
    case close: False
    with "1.prems" obtain lo c1 where lo: "getEsc chunk = Some (lo, c1)"
      by (auto simp: class_ranges.simps [of chunk] split: option.splits)
    note short1 = getEsc_shorter [OF lo]
    show ?thesis
    proof (cases "hd c1 = CHR ''-''")
      case True
      with "1.prems" close lo obtain hi c2 where hi: "getEsc (tl c1) = Some (hi, c2)"
        and rec: "class_ranges c2 r (Suc n) (m \<or> lo \<le> r \<and> r \<le> hi) = Some (m', rest)"
        by (auto simp: class_ranges.simps [of chunk] split: option.splits)
      have "length rest < length c2"
        using "1.IH"(1) [OF close lo refl True hi refl rec] .
      with getEsc_shorter [OF hi] short1 show ?thesis by simp
    next
      case False
      with "1.prems" close lo
      have rec: "class_ranges c1 r (Suc n) (m \<or> lo \<le> r \<and> r \<le> lo) = Some (m', rest)"
        by (auto simp: class_ranges.simps [of chunk])
      have "length rest < length c1" using "1.IH"(2) [OF close lo refl False rec] .
      with short1 show ?thesis by simp
    qed
  qed
qed

section \<open>Chunks\<close>

text \<open>
  One chunk (a pattern without \<open>*\<close> outside a class) against the start of \<open>s\<close>: \<open>Some None\<close> is
  no match, \<open>Some (Some rest)\<close> a match that leaves \<open>rest\<close>. After a failure the chunk is still
  read to its end, to find bad patterns.
\<close>

function matchChunk :: "string \<Rightarrow> string \<Rightarrow> bool \<Rightarrow> string option option" where
  "matchChunk chunk s failed0 =
     (if chunk = [] then Some (if failed0 then None else Some s)
      else let failed = (failed0 \<or> s = []) in
      if hd chunk = CHR ''['' then
        (let r = (if failed then 0 else fst (decode_rune s));
             s' = (if failed then s else drop (snd (decode_rune s)) s);
             negated = (tl chunk \<noteq> [] \<and> hd (tl chunk) = CHR ''^'')
         in case class_ranges (if negated then tl (tl chunk) else tl chunk) r 0 False of
              None \<Rightarrow> None
            | Some (m, rest) \<Rightarrow> matchChunk rest s' (failed \<or> m = negated))
      else if hd chunk = CHR ''?'' then
        (if failed then matchChunk (tl chunk) s failed
         else matchChunk (tl chunk) (drop (snd (decode_rune s)) s) (hd s = CHR ''/''))
      else if hd chunk = CHR 0x5C then
        (if tl chunk = [] then None
         else if failed then matchChunk (tl (tl chunk)) s failed
         else matchChunk (tl (tl chunk)) (tl s) (hd (tl chunk) \<noteq> hd s))
      else
        (if failed then matchChunk (tl chunk) s failed
         else matchChunk (tl chunk) (tl s) (hd chunk \<noteq> hd s)))"
  by pat_completeness auto
termination
proof (relation "measure (\<lambda>(chunk, s, failed). length chunk)", goal_cases)
  case (2 chunk s failed0 failed r s' negated x m rest)
  then have "length rest < length (if negated then tl (tl chunk) else tl chunk)"
    using class_ranges_shorter by metis
  then show ?case by (auto split: if_splits)
qed auto

declare matchChunk.simps [simp del]

fun scan :: "bool \<Rightarrow> string \<Rightarrow> string \<times> string" where
  "scan inrange [] = ([], [])"
| "scan inrange (c # cs) =
     (if c = CHR 0x5C then
        (case cs of
           [] \<Rightarrow> ([c], [])
         | d # ds \<Rightarrow> (case scan inrange ds of (a, b) \<Rightarrow> (c # d # a, b)))
      else if c = CHR ''*'' \<and> \<not> inrange then ([], c # cs)
      else case scan (if c = CHR ''['' then True else if c = CHR '']'' then False else inrange) cs of
        (a, b) \<Rightarrow> (c # a, b))"

definition scanChunk :: "string \<Rightarrow> bool \<times> string \<times> string" where
  "scanChunk pattern =
     (pattern \<noteq> [] \<and> hd pattern = CHR ''*'', scan False (dropWhile (\<lambda>c. c = CHR ''*'') pattern))"

lemma scan_append: "scan inrange p = (a, b) \<Longrightarrow> p = a @ b"
proof (induction inrange p arbitrary: a b rule: scan.induct)
  case (2 inrange c cs)
  then show ?case by (cases cs) (auto split: if_splits prod.splits)
qed simp

lemma scanChunk_shorter:
  assumes "scanChunk p = (star, chunk, rest)" "p \<noteq> []"
  shows "length rest < length p"
proof -
  obtain c cs where p: "p = c # cs" using assms(2) by (cases p) auto
  show ?thesis
  proof (cases "c = CHR ''*''")
    case True
    then have "scan False (dropWhile (\<lambda>c. c = CHR ''*'') cs) = (chunk, rest)"
      using assms(1) p by (simp add: scanChunk_def)
    then have "length rest \<le> length (dropWhile (\<lambda>c. c = CHR ''*'') cs)"
      using scan_append by fastforce
    also have "\<dots> \<le> length cs" by (rule length_dropWhile_le)
    finally show ?thesis using p by simp
  next
    case False
    then have sc: "scan False (c # cs) = (chunk, rest)"
      using assms(1) p by (simp add: scanChunk_def)
    then have "chunk \<noteq> []" using False by (cases cs) (auto split: if_splits prod.splits)
    moreover have "p = chunk @ rest" using scan_append [OF sc] p by simp
    ultimately show ?thesis by simp
  qed
qed

section \<open>The match\<close>

text \<open>After a star: skip one byte after the other, but no slash.\<close>

fun skip_match :: "string \<Rightarrow> bool \<Rightarrow> string \<Rightarrow> string option option" where
  "skip_match chunk final [] = Some None"
| "skip_match chunk final (c # cs) =
     (if c = CHR ''/'' then Some None
      else case matchChunk chunk cs False of
        None \<Rightarrow> None
      | Some (Some t) \<Rightarrow> if final \<and> t \<noteq> [] then skip_match chunk final cs else Some (Some t)
      | Some None \<Rightarrow> skip_match chunk final cs)"

text \<open>The rest of a failed pattern is checked for its syntax.\<close>

function check_rest :: "string \<Rightarrow> bool option" where
  "check_rest pattern =
     (if pattern = [] then Some False
      else case scanChunk pattern of (star, chunk, rest) \<Rightarrow>
        (case matchChunk chunk [] False of None \<Rightarrow> None | Some _ \<Rightarrow> check_rest rest))"
  by pat_completeness auto
termination
  by (relation "measure length") (auto dest: sym scanChunk_shorter)

declare check_rest.simps [simp del]

function Match :: "string \<Rightarrow> string \<Rightarrow> bool option" where
  "Match pattern name =
     (if pattern = [] then Some (name = [])
      else case scanChunk pattern of (star, chunk, rest) \<Rightarrow>
        if star \<and> chunk = [] then Some (CHR ''/'' \<notin> set name)
        else case matchChunk chunk name False of
          None \<Rightarrow> None
        | Some m \<Rightarrow>
            (case m of
               Some t \<Rightarrow>
                 if t = [] \<or> rest \<noteq> [] then Match rest t
                 else if star then
                   (case skip_match chunk (rest = []) name of
                      None \<Rightarrow> None | Some None \<Rightarrow> check_rest rest | Some (Some t') \<Rightarrow> Match rest t')
                 else check_rest rest
             | None \<Rightarrow>
                 if star then
                   (case skip_match chunk (rest = []) name of
                      None \<Rightarrow> None | Some None \<Rightarrow> check_rest rest | Some (Some t') \<Rightarrow> Match rest t')
                 else check_rest rest))"
  by pat_completeness auto
termination
  by (relation "measure (\<lambda>(p, n). length p)") (auto dest: sym scanChunk_shorter)

declare Match.simps [simp del]

section \<open>Literal patterns and a trailing star\<close>

definition literal :: "string \<Rightarrow> bool" where
  "literal p \<longleftrightarrow> (\<forall>c \<in> set p. c \<notin> {CHR ''*'', CHR ''?'', CHR ''['', CHR 0x5C})"

lemma literal_Cons:
  "literal (c # p) \<longleftrightarrow> c \<noteq> CHR ''*'' \<and> c \<noteq> CHR ''?'' \<and> c \<noteq> CHR ''['' \<and> c \<noteq> CHR 0x5C \<and> literal p"
  by (auto simp: literal_def)

lemma literal_append: "literal (p @ q) \<longleftrightarrow> literal p \<and> literal q"
  by (auto simp: literal_def)

lemma literal_Nil [simp]: "literal []"
  by (simp add: literal_def)

lemma matchChunk_failed: "literal p \<Longrightarrow> matchChunk p s True = Some None"
  by (induction p) (simp_all add: matchChunk.simps literal_Cons Let_def)

lemma matchChunk_literal:
  "literal p \<Longrightarrow>
   matchChunk p s False = Some (if HasPrefix s p then Some (drop (length p) s) else None)"
proof (induction p arbitrary: s)
  case Nil
  then show ?case by (simp add: matchChunk.simps HasPrefix_def)
next
  case (Cons c p)
  show ?case
  proof (cases s)
    case Nil
    with Cons.prems show ?thesis
      by (simp add: matchChunk.simps [of "c # p"] literal_Cons matchChunk_failed HasPrefix_def)
  next
    case (Cons a s')
    with Cons.prems \<open>\<And>s. literal p \<Longrightarrow> matchChunk p s False = _\<close> show ?thesis
      by (cases "c = a")
        (simp_all add: matchChunk.simps [of "c # p"] matchChunk.simps [of "a # p"] literal_Cons
          matchChunk_failed HasPrefix_def)
  qed
qed

lemma scan_literal:
  "literal p \<Longrightarrow> q = [] \<or> hd q = CHR ''*'' \<Longrightarrow> scan False (p @ q) = (p, q)"
proof (induction p)
  case Nil
  then show ?case by (cases q) auto
next
  case (Cons c p)
  then show ?case by (simp add: literal_Cons)
qed

lemma scanChunk_literal:
  assumes "literal p" "p \<noteq> []" "q = [] \<or> hd q = CHR ''*''"
  shows "scanChunk (p @ q) = (False, p, q)"
proof -
  obtain c p' where p: "p = c # p'" using assms(2) by (cases p) auto
  then have "c \<noteq> CHR ''*''" using assms(1) by (simp add: literal_Cons)
  then show ?thesis using scan_literal [OF assms(1,3)] by (simp add: scanChunk_def p)
qed

lemma check_rest_literal: "literal p \<Longrightarrow> check_rest p = Some False"
proof (cases "p = []")
  case False
  assume p: "literal p"
  then show ?thesis
    using scanChunk_literal [OF p False, of "[]"]
    by (simp add: check_rest.simps [of p] check_rest.simps [of "[]"] matchChunk_literal)
qed (simp add: check_rest.simps)

lemma check_rest_star: "check_rest ''*'' = Some False"
  by (simp add: check_rest.simps scanChunk_def matchChunk.simps)

lemma Match_Nil: "Match [] s = Some (s = [])"
  by (simp add: Match.simps)

lemma Match_literal: "literal p \<Longrightarrow> Match p s = Some (s = p)"
proof (cases "p = []")
  case False
  assume p: "literal p"
  show ?thesis
    using scanChunk_literal [OF p False, of "[]"] False
    by (auto simp: Match.simps [of p] Match_Nil matchChunk_literal [OF p] check_rest_literal
        HasPrefix_iff)
qed (simp add: Match_Nil)

lemma Match_star: "Match ''*'' s = Some (CHR ''/'' \<notin> set s)"
  by (simp add: Match.simps scanChunk_def)

lemma Match_literal_star:
  assumes p: "literal p"
  shows "Match (p @ ''*'') s = Some (\<exists>t. s = p @ t \<and> CHR ''/'' \<notin> set t)"
proof (cases "p = []")
  case True
  then show ?thesis by (simp add: Match_star)
next
  case False
  have "Match (p @ ''*'') s =
      (if HasPrefix s p then Match ''*'' (drop (length p) s) else check_rest ''*'')"
    using scanChunk_literal [OF p False, of "''*''"]
    by (simp add: Match.simps [of "p @ ''*''"] matchChunk_literal [OF p])
  then show ?thesis by (auto simp: Match_star check_rest_star HasPrefix_iff)
qed

end
