(* ===== verification/Claims.thy ===== *)
theory Claims
  imports Types GoPath
begin

text \<open>
  Conflict detection, \<open>pkg/hearsay/claims.go\<close>: which resource patterns meet
  (\<open>resourceMatches\<close>), which operations exclude each other (\<open>isConflicting\<close>), and the report of
  a new claim against the active ones (\<open>CheckConflict\<close>).
\<close>

section \<open>Resource patterns\<close>

text \<open>The result of \<open>path.Match\<close> where the code drops the error.\<close>

definition glob_matches :: "string \<Rightarrow> string \<Rightarrow> bool" where
  "glob_matches p s = (case Match p s of Some ok \<Rightarrow> ok | None \<Rightarrow> False)"

definition resourceMatches :: "string \<Rightarrow> string \<Rightarrow> bool" where
  "resourceMatches a b =
     (if a = b then True
      else if HasSuffix a ''/**'' then HasPrefix b (TrimSuffix a ''/**'' @ ''/'')
      else if HasSuffix b ''/**'' then HasPrefix a (TrimSuffix b ''/**'' @ ''/'')
      else if Contains a ''*'' then glob_matches a b
      else if Contains b ''*'' then glob_matches b a
      else False)"

definition ResourceMatchesPattern :: "string \<Rightarrow> string \<Rightarrow> bool" where
  "ResourceMatchesPattern pattern resourceURI =
     (if pattern = [] \<or> pattern = ''*'' \<or> resourceURI = [] \<or> resourceURI = ''*'' then True
      else resourceMatches pattern resourceURI)"

section \<open>Conflicts\<close>

definition isConflicting :: "string \<Rightarrow> string \<Rightarrow> claim \<Rightarrow> bool" where
  "isConflicting resource op other =
     (if \<not> resourceMatches resource (c_ResourceURI other) then False
      else if op = OpWrite then
        c_Operation other = OpWrite \<or> c_Operation other = OpDelete
        \<or> c_Operation other = OpRename \<or> c_Operation other = OpRefactor
      else if op = OpDelete then
        c_Operation other = OpRead \<or> c_Operation other = OpWrite
        \<or> c_Operation other = OpDelete \<or> c_Operation other = OpRename
        \<or> c_Operation other = OpRefactor
      else if op = OpRename then True
      else if op = OpRefactor then True
      else if op = OpRead then c_Operation other = OpDelete \<or> c_Operation other = OpRename
      else False)"

definition conflict_of :: "claim \<Rightarrow> conflict" where
  "conflict_of a = \<lparr>cf_ClaimID = c_ClaimID a, cf_AgentID = c_AgentID a,
     cf_Resource = c_ResourceURI a, cf_Operation = c_Operation a, cf_Intent = c_Intent a,
     cf_Since = c_CreatedAt a\<rparr>"

fun conflicts_loop :: "claim \<Rightarrow> claim list \<Rightarrow> conflict list \<Rightarrow> conflict list" where
  "conflicts_loop c [] conflicts = conflicts"
| "conflicts_loop c (a # active) conflicts =
     (if c_AgentID a = c_AgentID c then conflicts_loop c active conflicts
      else if isConflicting (c_ResourceURI c) (c_Operation c) a
      then conflicts_loop c active (conflicts @ [conflict_of a])
      else conflicts_loop c active conflicts)"

definition CheckConflict :: "claim \<Rightarrow> claim list \<Rightarrow> conflict_report" where
  "CheckConflict c active =
     (let conflicts = conflicts_loop c active []
      in \<lparr>HasConflict = 0 < length conflicts, Conflicts = conflicts\<rparr>)"

section \<open>The report\<close>

text \<open>A claim \<open>c\<close> is blocked by the active claim \<open>a\<close> of another agent.\<close>

definition blocks :: "claim \<Rightarrow> claim \<Rightarrow> bool" where
  "blocks a c \<longleftrightarrow> c_AgentID a \<noteq> c_AgentID c \<and> isConflicting (c_ResourceURI c) (c_Operation c) a"

lemma conflicts_loop_eq:
  "conflicts_loop c active acc = acc @ map conflict_of (filter (\<lambda>a. blocks a c) active)"
  by (induction active arbitrary: acc) (auto simp: blocks_def)

lemma CheckConflict_eq:
  "CheckConflict c active =
     \<lparr>HasConflict = (\<exists>a \<in> set active. blocks a c),
      Conflicts = map conflict_of (filter (\<lambda>a. blocks a c) active)\<rparr>"
  by (simp add: CheckConflict_def conflicts_loop_eq filter_empty_conv)

lemma HasConflict_iff [simp]:
  "HasConflict (CheckConflict c active) \<longleftrightarrow> (\<exists>a \<in> set active. blocks a c)"
  by (simp add: CheckConflict_eq)

text \<open>The report of a conflict check names, in log order and with their
  id, agent, resource, operation, intent and time, exactly the active claims of other agents that
  conflict with the new claim, and its flag says whether there is one.\<close>

theorem check_conflict_report:
  "Conflicts (CheckConflict c active) =
     map conflict_of (filter (\<lambda>a. c_AgentID a \<noteq> c_AgentID c
       \<and> isConflicting (c_ResourceURI c) (c_Operation c) a) active) \<and>
   (HasConflict (CheckConflict c active) \<longleftrightarrow> Conflicts (CheckConflict c active) \<noteq> [])"
  by (auto simp: CheckConflict_eq blocks_def filter_empty_conv)

section \<open>Operations\<close>

definition modifying :: "string \<Rightarrow> bool" where
  "modifying op \<longleftrightarrow> op \<in> {OpWrite, OpDelete, OpRename, OpRefactor}"

lemma isConflicting_modifying:
  "modifying op \<Longrightarrow> modifying (c_Operation a) \<Longrightarrow>
   isConflicting res op a \<longleftrightarrow> resourceMatches res (c_ResourceURI a)"
  by (auto simp: isConflicting_def modifying_def)

lemma isConflicting_matches: "isConflicting res op a \<Longrightarrow> resourceMatches res (c_ResourceURI a)"
  by (simp add: isConflicting_def split: if_splits)

text \<open>The conflict matrix. Two modifying operations on matching resources
  always conflict; a read conflicts with a held delete or rename only; against a held read a
  delete, rename or refactor conflicts and a write does not; and on resources that do not match
  nothing conflicts.\<close>

theorem conflict_matrix:
  "isConflicting res op a \<longleftrightarrow>
     resourceMatches res (c_ResourceURI a) \<and>
     (op \<in> {OpRename, OpRefactor} \<or>
      op = OpWrite \<and> modifying (c_Operation a) \<or>
      op = OpDelete \<and> (modifying (c_Operation a) \<or> c_Operation a = OpRead) \<or>
      op = OpRead \<and> c_Operation a \<in> {OpDelete, OpRename})"
  by (auto simp: isConflicting_def modifying_def)

section \<open>What the patterns cover\<close>

lemma resourceMatches_refl [simp]: "resourceMatches a a"
  by (simp add: resourceMatches_def)

lemma resourceMatches_tree:
  "resourceMatches (d @ ''/**'') b \<longleftrightarrow> b = d @ ''/**'' \<or> HasPrefix b (d @ ''/'')"
  by (auto simp: resourceMatches_def)

text \<open>A resource without wildcard characters.\<close>

lemma literal_star: "literal b \<Longrightarrow> CHR ''*'' \<notin> set b"
  by (auto simp: literal_def)

lemma literal_no_star: "literal b \<Longrightarrow> \<not> Contains b ''*''"
  by (simp add: Contains_char literal_star)

lemma literal_no_tree: "literal b \<Longrightarrow> \<not> HasSuffix b ''/**''"
proof
  assume "literal b" "HasSuffix b ''/**''"
  then obtain t where "b = t @ ''/**''" by (simp only: HasSuffix_iff) blast
  with literal_star [OF \<open>literal b\<close>] show False by simp
qed

lemma literal_neq: "literal b \<Longrightarrow> CHR ''*'' \<in> set q \<Longrightarrow> b \<noteq> q"
  using literal_star by blast

lemma star_no_tree: "literal p \<Longrightarrow> \<not> HasSuffix (p @ ''*'') ''/**''"
proof
  assume p: "literal p" and "HasSuffix (p @ ''*'') ''/**''"
  then obtain t where "p @ ''*'' = (t @ ''/*'') @ ''*''" by (simp only: HasSuffix_iff) auto
  then have "p = t @ ''/*''" by (simp only: append_same_eq)
  then show False using literal_star [OF p] by simp
qed

lemma resourceMatches_literal:
  "literal a \<Longrightarrow> literal b \<Longrightarrow> resourceMatches a b \<longleftrightarrow> a = b"
  by (simp add: resourceMatches_def literal_no_tree literal_no_star)

lemma resourceMatches_tree_literal:
  assumes "literal b"
  shows "resourceMatches (d @ ''/**'') b \<longleftrightarrow> HasPrefix b (d @ ''/'')"
    and "resourceMatches b (d @ ''/**'') \<longleftrightarrow> HasPrefix b (d @ ''/'')"
  using literal_neq [OF assms, of "d @ ''/**''"] literal_no_tree [OF assms]
  by (simp_all add: resourceMatches_def)

lemma resourceMatches_star_literal:
  assumes "literal b" "literal p"
  shows "resourceMatches (p @ ''*'') b \<longleftrightarrow> (\<exists>t. b = p @ t \<and> CHR ''/'' \<notin> set t)"
    and "resourceMatches b (p @ ''*'') \<longleftrightarrow> (\<exists>t. b = p @ t \<and> CHR ''/'' \<notin> set t)"
proof -
  have ne: "b \<noteq> p @ ''*''" "p @ ''*'' \<noteq> b" using literal_neq [OF assms(1), of "p @ ''*''"] by auto
  have c: "Contains (p @ ''*'') ''*''" by (simp add: Contains_char)
  note facts = star_no_tree [OF assms(2)] literal_no_tree [OF assms(1)] literal_no_star [OF assms(1)]
    Match_literal_star [OF assms(2)]
  show "resourceMatches (p @ ''*'') b \<longleftrightarrow> (\<exists>t. b = p @ t \<and> CHR ''/'' \<notin> set t)"
    using ne c facts by (simp add: resourceMatches_def glob_matches_def)
  show "resourceMatches b (p @ ''*'') \<longleftrightarrow> (\<exists>t. b = p @ t \<and> CHR ''/'' \<notin> set t)"
    using ne c facts by (simp add: resourceMatches_def glob_matches_def)
qed

text \<open>What a pattern covers of the plain resources, those without
  wildcard characters. Two plain resources match when they are equal; the tree pattern
  \<open>d/**\<close> matches exactly what lies below \<open>d/\<close>, at any depth; the pattern \<open>p*\<close> matches exactly
  the resources that extend \<open>p\<close> without a further slash; and for a plain resource the order of
  the two arguments does not matter.\<close>

theorem resource_matches_cases:
  assumes "literal a" and "literal b" and "literal p"
  shows "(resourceMatches a b \<longleftrightarrow> a = b) \<and>
    (resourceMatches (d @ ''/**'') b \<longleftrightarrow> HasPrefix b (d @ ''/'')) \<and>
    (resourceMatches b (d @ ''/**'') \<longleftrightarrow> HasPrefix b (d @ ''/'')) \<and>
    (resourceMatches (p @ ''*'') b \<longleftrightarrow> (\<exists>t. b = p @ t \<and> CHR ''/'' \<notin> set t)) \<and>
    (resourceMatches b (p @ ''*'') \<longleftrightarrow> (\<exists>t. b = p @ t \<and> CHR ''/'' \<notin> set t))"
  using resourceMatches_literal [OF assms(1,2)] resourceMatches_tree_literal [OF assms(2)]
    resourceMatches_star_literal [OF assms(2,3)]
  by blast

theorem resource_matches_cases_witness:
  "resourceMatches (''file://src'' @ ''/**'') ''file://src/a/b.go'' \<and>
   \<not> resourceMatches (''file://src/'' @ ''*'') ''file://src/a/b.go'' \<and>
   resourceMatches ''file://src/b.go'' (''file://src/'' @ ''*'')"
  using resource_matches_cases [of "''x''" "''file://src/a/b.go''" "''file://src/''" "''file://src''"]
    resource_matches_cases [of "''x''" "''file://src/b.go''" "''file://src/''" "''file://src''"]
  by (simp add: literal_def HasPrefix_def)

text \<open>The match of two tree patterns depends on their order: the outer
  pattern \<open>d/**\<close> meets the inner \<open>d/e/**\<close> when it comes first, and never when it comes second,
  because the second argument's pattern is not looked at once the first one ends in \<open>/**\<close>.\<close>

theorem nested_trees_one_way:
  "resourceMatches (d @ ''/**'') (d @ ''/'' @ e @ ''/**'') \<and>
   \<not> resourceMatches (d @ ''/'' @ e @ ''/**'') (d @ ''/**'')"
proof
  show "resourceMatches (d @ ''/**'') (d @ ''/'' @ e @ ''/**'')"
    using HasPrefix_append [of "d @ ''/''" "e @ ''/**''"] by (simp add: resourceMatches_tree)
  have "\<not> HasPrefix (d @ ''/**'') (d @ ''/'' @ e @ ''/'')"
    by (cases e) (auto simp: HasPrefix_iff Cons_eq_append_conv append_eq_Cons_conv)
  moreover have "d @ ''/**'' \<noteq> d @ ''/'' @ e @ ''/**''"
    by (cases e) auto
  ultimately show "\<not> resourceMatches (d @ ''/'' @ e @ ''/**'') (d @ ''/**'')"
    using resourceMatches_tree [of "d @ ''/'' @ e"] by simp
qed

end
