(* ===== verification/ActiveClaims.thy ===== *)
theory ActiveClaims
  imports Claims
begin

text \<open>
  Which claims of a message log are active, \<open>pkg/hearsay/activeclaims.go\<close>: the scan for one claim
  (\<open>IsClaimActive\<close>) and the two passes over the whole log (\<open>FilterActiveClaims\<close>). The
  characterisation \<open>FilterActiveClaims_eq\<close> states the second one without its maps: a claim
  message survives unless the earliest release of its id comes after it, or its deadline, which
  the latest heartbeat extends, has passed. Everything else in the development rests on it.
\<close>

section \<open>One claim\<close>

definition is_release :: "message \<Rightarrow> bool" where
  "is_release m \<longleftrightarrow> m_Type m = MsgRelease \<or> m_Type m = MsgTransfer"

fun release_found :: "message list \<Rightarrow> int \<Rightarrow> claim \<Rightarrow> bool" where
  "release_found [] claimOffset c = False"
| "release_found (m # msgs) claimOffset c =
     (if m_Offset m \<le> claimOffset then release_found msgs claimOffset c
      else if \<not> is_release m then release_found msgs claimOffset c
      else case decode_ref (m_Payload m) of
        None \<Rightarrow> release_found msgs claimOffset c
      | Some cid \<Rightarrow> if cid = c_ClaimID c then True else release_found msgs claimOffset c)"

fun heartbeat_deadline :: "message list \<Rightarrow> int \<Rightarrow> claim \<Rightarrow> time \<Rightarrow> time" where
  "heartbeat_deadline [] claimOffset c deadline = deadline"
| "heartbeat_deadline (m # msgs) claimOffset c deadline =
     (if m_Offset m \<le> claimOffset then heartbeat_deadline msgs claimOffset c deadline
      else if m_Type m \<noteq> MsgHeartbeat then heartbeat_deadline msgs claimOffset c deadline
      else case decode_ref (m_Payload m) of
        None \<Rightarrow> heartbeat_deadline msgs claimOffset c deadline
      | Some cid \<Rightarrow>
          if cid = c_ClaimID c then
            (let hbDeadline = m_Timestamp m + seconds (c_TTLSeconds c)
             in heartbeat_deadline msgs claimOffset c
                  (if hbDeadline > deadline then hbDeadline else deadline))
          else heartbeat_deadline msgs claimOffset c deadline)"

definition IsClaimActive :: "time \<Rightarrow> message list \<Rightarrow> int \<Rightarrow> claim \<Rightarrow> time \<Rightarrow> bool" where
  "IsClaimActive now msgs claimOffset c maxAgeSince =
     (if release_found msgs claimOffset c then False
      else let since = (if maxAgeSince = 0 then now else maxAgeSince);
               deadline = heartbeat_deadline msgs claimOffset c
                 (c_CreatedAt c + seconds (c_TTLSeconds c))
           in \<not> since > deadline)"

section \<open>The whole log\<close>

definition note_release :: "message \<Rightarrow> (string \<rightharpoonup> int) \<Rightarrow> (string \<rightharpoonup> int)" where
  "note_release m released =
     (if is_release m then
        (case decode_ref (m_Payload m) of
           None \<Rightarrow> released
         | Some cid \<Rightarrow>
             if cid \<noteq> [] then
               (case released cid of
                  None \<Rightarrow> released(cid \<mapsto> m_Offset m)
                | Some existing \<Rightarrow>
                    if m_Offset m < existing then released(cid \<mapsto> m_Offset m) else released)
             else released)
      else released)"

definition note_heartbeat :: "message \<Rightarrow> (string \<rightharpoonup> time) \<Rightarrow> (string \<rightharpoonup> time)" where
  "note_heartbeat m beats =
     (if m_Type m = MsgHeartbeat then
        (case decode_ref (m_Payload m) of
           None \<Rightarrow> beats
         | Some cid \<Rightarrow>
             if cid \<noteq> [] then
               (if m_Timestamp m > (case beats cid of None \<Rightarrow> 0 | Some t \<Rightarrow> t)
                then beats(cid \<mapsto> m_Timestamp m) else beats)
             else beats)
      else beats)"

fun first_pass ::
  "message list \<Rightarrow> (string \<rightharpoonup> int) \<times> (string \<rightharpoonup> time) \<Rightarrow> (string \<rightharpoonup> int) \<times> (string \<rightharpoonup> time)" where
  "first_pass [] acc = acc"
| "first_pass (m # msgs) (released, beats) =
     first_pass msgs (note_release m released, note_heartbeat m beats)"

definition claim_survives ::
  "time \<Rightarrow> (string \<rightharpoonup> int) \<Rightarrow> (string \<rightharpoonup> time) \<Rightarrow> int \<Rightarrow> claim \<Rightarrow> bool" where
  "claim_survives now released beats offset c =
     (if (case released (c_ClaimID c) of None \<Rightarrow> False | Some r \<Rightarrow> r > offset) then False
      else
        let ttl = seconds (c_TTLSeconds c);
            deadline0 = c_CreatedAt c + ttl;
            deadline = (case beats (c_ClaimID c) of
                None \<Rightarrow> deadline0
              | Some hb \<Rightarrow>
                  if hb > c_CreatedAt c
                  then (if hb + ttl > deadline0 then hb + ttl else deadline0)
                  else deadline0)
        in \<not> now > deadline)"

fun second_pass ::
  "time \<Rightarrow> (string \<rightharpoonup> int) \<Rightarrow> (string \<rightharpoonup> time) \<Rightarrow> message list \<Rightarrow> claim list" where
  "second_pass now released beats [] = []"
| "second_pass now released beats (m # msgs) =
     (if m_Type m \<noteq> MsgClaim then second_pass now released beats msgs
      else case decode_claim (m_Payload m) of
        None \<Rightarrow> second_pass now released beats msgs
      | Some c \<Rightarrow>
          if claim_survives now released beats (m_Offset m) c
          then c # second_pass now released beats msgs
          else second_pass now released beats msgs)"

definition FilterActiveClaims :: "time \<Rightarrow> message list \<Rightarrow> claim list" where
  "FilterActiveClaims now msgs =
     (case first_pass msgs (Map.empty, Map.empty) of
        (released, beats) \<Rightarrow> second_pass now released beats msgs)"

section \<open>The log without maps\<close>

text \<open>The claim messages with their offsets; the offsets of the releases of an id; the times of
  its heartbeats.\<close>

definition claim_entries :: "message list \<Rightarrow> (int \<times> claim) list" where
  "claim_entries msgs = List.map_filter (\<lambda>m.
     if m_Type m = MsgClaim then map_option (\<lambda>c. (m_Offset m, c)) (decode_claim (m_Payload m))
     else None) msgs"

definition release_offsets :: "message list \<Rightarrow> string \<Rightarrow> int list" where
  "release_offsets msgs cid =
     map m_Offset (filter (\<lambda>m. is_release m \<and> decode_ref (m_Payload m) = Some cid) msgs)"

definition heartbeat_times :: "message list \<Rightarrow> string \<Rightarrow> time list" where
  "heartbeat_times msgs cid =
     map m_Timestamp
       (filter (\<lambda>m. m_Type m = MsgHeartbeat \<and> decode_ref (m_Payload m) = Some cid) msgs)"

text \<open>The instant up to which a claim lives: the later of its creation and its last heartbeat, plus
  its TTL. Heartbeats at the zero instant or before do not count.\<close>

definition deadline :: "message list \<Rightarrow> claim \<Rightarrow> time" where
  "deadline msgs c =
     fold max (filter (\<lambda>t. c_ClaimID c \<noteq> [] \<and> 0 < t) (heartbeat_times msgs (c_ClaimID c)))
       (c_CreatedAt c)
     + seconds (c_TTLSeconds c)"

text \<open>Some release of the claim lies after it and none before it.\<close>

definition released_in :: "message list \<Rightarrow> int \<Rightarrow> claim \<Rightarrow> bool" where
  "released_in msgs offset c \<longleftrightarrow>
     c_ClaimID c \<noteq> [] \<and> release_offsets msgs (c_ClaimID c) \<noteq> [] \<and>
     (\<forall>r \<in> set (release_offsets msgs (c_ClaimID c)). offset < r)"

definition live :: "time \<Rightarrow> message list \<Rightarrow> int \<times> claim \<Rightarrow> bool" where
  "live now msgs e \<longleftrightarrow> \<not> released_in msgs (fst e) (snd e) \<and> now \<le> deadline msgs (snd e)"

lemma release_offsets_simps [simp]:
  "release_offsets [] cid = []"
  "release_offsets (m # msgs) cid =
     (if is_release m \<and> decode_ref (m_Payload m) = Some cid then m_Offset m # release_offsets msgs cid
      else release_offsets msgs cid)"
  "release_offsets (xs @ ys) cid = release_offsets xs cid @ release_offsets ys cid"
  by (simp_all add: release_offsets_def)

lemma heartbeat_times_simps [simp]:
  "heartbeat_times [] cid = []"
  "heartbeat_times (m # msgs) cid =
     (if m_Type m = MsgHeartbeat \<and> decode_ref (m_Payload m) = Some cid
      then m_Timestamp m # heartbeat_times msgs cid
      else heartbeat_times msgs cid)"
  "heartbeat_times (xs @ ys) cid = heartbeat_times xs cid @ heartbeat_times ys cid"
  by (simp_all add: heartbeat_times_def)

lemma claim_entries_simps [simp]:
  "claim_entries [] = []"
  "claim_entries (m # msgs) =
     (if m_Type m = MsgClaim then
        (case decode_claim (m_Payload m) of
           None \<Rightarrow> claim_entries msgs | Some c \<Rightarrow> (m_Offset m, c) # claim_entries msgs)
      else claim_entries msgs)"
  "claim_entries (xs @ ys) = claim_entries xs @ claim_entries ys"
  by (simp_all add: claim_entries_def List.map_filter_simps split: option.split)
    (induction xs; simp add: List.map_filter_simps split: option.split)

lemma fold_max_le_iff: "fold max xs (a::'a::linorder) \<le> b \<longleftrightarrow> a \<le> b \<and> (\<forall>x \<in> set xs. x \<le> b)"
  by (induction xs arbitrary: a) auto

lemma fold_max_ge_iff: "b \<le> fold max xs (a::'a::linorder) \<longleftrightarrow> b \<le> a \<or> (\<exists>x \<in> set xs. b \<le> x)"
  by (induction xs arbitrary: a) (auto simp: le_max_iff_disj)

lemma fold_max_ge: "(a::'a::linorder) \<le> fold max xs a"
  by (simp add: fold_max_ge_iff)

lemma fold_max_mono: "(a::'a::linorder) \<le> b \<Longrightarrow> fold max xs a \<le> fold max xs b"
  by (subst fold_max_le_iff) (auto simp: fold_max_ge_iff)

lemma fold_max_split: "fold max xs (max (a::'a::linorder) b) = max a (fold max xs b)"
proof (induction xs arbitrary: b)
  case (Cons x xs)
  have "max x (max a b) = max a (max x b)" by (rule max.left_commute)
  with Cons show ?case by simp
qed simp

lemma first_pass_released:
  assumes "cid \<noteq> []"
  shows "(case fst (first_pass msgs (rel, hb)) cid of None \<Rightarrow> False | Some r \<Rightarrow> off < r) \<longleftrightarrow>
    (rel cid \<noteq> None \<or> release_offsets msgs cid \<noteq> []) \<and>
    (\<forall>r. rel cid = Some r \<longrightarrow> off < r) \<and> (\<forall>r \<in> set (release_offsets msgs cid). off < r)"
proof (induction msgs arbitrary: rel hb)
  case Nil
  then show ?case by (auto split: option.split)
next
  case (Cons m msgs)
  show ?case
  proof (cases "is_release m \<and> decode_ref (m_Payload m) = Some cid")
    case True
    then have "note_release m rel cid =
        (case rel cid of None \<Rightarrow> Some (m_Offset m) | Some e \<Rightarrow> Some (min (m_Offset m) e))"
      using assms by (auto simp: note_release_def min_def split: option.split)
    with True Cons show ?thesis by (auto split: option.splits)
  next
    case False
    then have "note_release m rel cid = rel cid"
      by (auto simp: note_release_def split: option.splits)
    with False Cons show ?thesis by auto
  qed
qed

lemma first_pass_released_Nil: "fst (first_pass msgs (rel, hb)) [] = rel []"
proof (induction msgs arbitrary: rel hb)
  case (Cons m msgs)
  have "note_release m rel [] = rel []"
    by (auto simp: note_release_def split: option.split)
  with Cons show ?case by simp
qed simp

definition beat_of :: "time option \<Rightarrow> time list \<Rightarrow> time option" where
  "beat_of b ts =
     (if b = None \<and> ts = [] then None
      else Some (fold max ts (case b of None \<Rightarrow> 0 | Some t \<Rightarrow> t)))"

lemma first_pass_beats:
  assumes "cid \<noteq> []" "\<forall>t. hb cid = Some t \<longrightarrow> 0 < t"
  shows "snd (first_pass msgs (rel, hb)) cid =
    beat_of (hb cid) (filter (\<lambda>t. 0 < t) (heartbeat_times msgs cid))"
  using assms(2)
proof (induction msgs arbitrary: rel hb)
  case Nil
  then show ?case by (auto simp: beat_of_def split: option.split)
next
  case (Cons m msgs)
  let ?rest = "filter (\<lambda>t. 0 < t) (heartbeat_times msgs cid)"
  show ?case
  proof (cases "m_Type m = MsgHeartbeat \<and> decode_ref (m_Payload m) = Some cid \<and> 0 < m_Timestamp m")
    case True
    then have nh: "note_heartbeat m hb cid =
        Some (max (m_Timestamp m) (case hb cid of None \<Rightarrow> 0 | Some t \<Rightarrow> t))"
      using assms(1) by (auto simp: note_heartbeat_def max_def split: option.split)
    then have "\<forall>t. note_heartbeat m hb cid = Some t \<longrightarrow> 0 < t"
      using True by auto
    from Cons.IH [of "note_heartbeat m hb" "note_release m rel"] this nh True show ?thesis by (simp add: beat_of_def)
  next
    case False
    then have nh: "note_heartbeat m hb cid = hb cid"
      using Cons.prems by (fastforce simp: note_heartbeat_def split: option.splits if_splits)
    with Cons.prems have "\<forall>t. note_heartbeat m hb cid = Some t \<longrightarrow> 0 < t" by simp
    from Cons.IH [of "note_heartbeat m hb" "note_release m rel"] this nh False show ?thesis by auto
  qed
qed

lemma first_pass_beats_Nil: "snd (first_pass msgs (rel, hb)) [] = hb []"
proof (induction msgs arbitrary: rel hb)
  case (Cons m msgs)
  have "note_heartbeat m hb [] = hb []"
    by (auto simp: note_heartbeat_def split: option.split)
  with Cons show ?case by simp
qed simp

lemma fold_max_from_zero:
  fixes a :: int
  shows "ts \<noteq> [] \<Longrightarrow> \<forall>t \<in> set ts. 0 < t \<Longrightarrow> max a (fold max ts 0) = fold max ts a"
proof (cases ts)
  case (Cons t ts')
  assume "\<forall>t \<in> set ts. 0 < t"
  then have "max a (max t 0) = max t a" using Cons by (simp add: max.commute)
  then have "fold max ts' (max a (max t 0)) = fold max ts' (max t a)" by simp
  with Cons show ?thesis by (simp add: fold_max_split)
qed simp

text \<open>The two passes with their maps compute the live claim messages.\<close>

lemma claim_survives_eq:
  assumes "first_pass msgs (Map.empty, Map.empty) = (released, beats)"
  shows "claim_survives now released beats off c \<longleftrightarrow> live now msgs (off, c)"
proof -
  have fst_eq: "released = fst (first_pass msgs (Map.empty, Map.empty))"
    and snd_eq: "beats = snd (first_pass msgs (Map.empty, Map.empty))"
    using assms by simp_all
  let ?cid = "c_ClaimID c" and ?ttl = "seconds (c_TTLSeconds c)"
  let ?ts = "filter (\<lambda>t. 0 < t) (heartbeat_times msgs ?cid)"
  have rel: "(case released ?cid of None \<Rightarrow> False | Some r \<Rightarrow> off < r) \<longleftrightarrow> released_in msgs off c"
    unfolding fst_eq
    by (cases "?cid = []") (simp_all add: first_pass_released first_pass_released_Nil released_in_def)
  have beats: "beats ?cid = (if ?cid = [] then None else beat_of None ?ts)"
    unfolding snd_eq by (simp add: first_pass_beats first_pass_beats_Nil)
  have dl: "(case beats ?cid of None \<Rightarrow> c_CreatedAt c + ?ttl
      | Some hb \<Rightarrow> if hb > c_CreatedAt c
          then (if hb + ?ttl > c_CreatedAt c + ?ttl then hb + ?ttl else c_CreatedAt c + ?ttl)
          else c_CreatedAt c + ?ttl) = deadline msgs c"
  proof (cases "?cid = [] \<or> ?ts = []")
    case True
    then have "filter (\<lambda>t. ?cid \<noteq> [] \<and> 0 < t) (heartbeat_times msgs ?cid) = []"
      by (auto simp: filter_empty_conv)
    then have "deadline msgs c = c_CreatedAt c + ?ttl" by (simp add: deadline_def)
    moreover have "beats ?cid = None" using True beats by (auto simp: beat_of_def)
    ultimately show ?thesis by simp
  next
    case False
    then have b: "beats ?cid = Some (fold max ?ts 0)" using beats by (simp add: beat_of_def)
    have "?ts \<noteq> []" "\<forall>t \<in> set ?ts. 0 < t" using False by auto
    then have mx: "max (c_CreatedAt c) (fold max ?ts 0) = fold max ?ts (c_CreatedAt c)"
      by (rule fold_max_from_zero)
    have "filter (\<lambda>t. ?cid \<noteq> [] \<and> 0 < t) (heartbeat_times msgs ?cid) = ?ts"
      using False by (intro filter_cong) auto
    then have "deadline msgs c = max (c_CreatedAt c) (fold max ?ts 0) + ?ttl"
      unfolding deadline_def mx by (rule arg_cong)
    with b show ?thesis by (simp add: max_def)
  qed
  show ?thesis
    unfolding claim_survives_def Let_def live_def fst_conv snd_conv dl
    by (simp add: rel not_less)
qed

lemma second_pass_eq:
  assumes "\<And>off c. claim_survives now released beats off c \<longleftrightarrow> P (off, c)"
  shows "second_pass now released beats msgs = map snd (filter P (claim_entries msgs))"
  using assms by (induction msgs) (auto split: option.split)

lemma FilterActiveClaims_eq:
  "FilterActiveClaims now msgs = map snd (filter (live now msgs) (claim_entries msgs))"
proof -
  obtain released beats where fp: "first_pass msgs (Map.empty, Map.empty) = (released, beats)"
    by fastforce
  from claim_survives_eq [OF fp] show ?thesis
    by (simp add: FilterActiveClaims_def fp second_pass_eq)
qed

lemma FilterActiveClaims_iff:
  "c \<in> set (FilterActiveClaims now msgs) \<longleftrightarrow> (\<exists>off. (off, c) \<in> set (claim_entries msgs) \<and> live now msgs (off, c))"
  by (force simp: FilterActiveClaims_eq)


section \<open>The scan for one claim agrees\<close>

lemma release_found_iff:
  "release_found msgs off c \<longleftrightarrow> (\<exists>r \<in> set (release_offsets msgs (c_ClaimID c)). off < r)"
  by (induction msgs) (auto split: option.split)

lemma heartbeat_deadline_eq:
  "heartbeat_deadline msgs off c d =
     fold max (map (\<lambda>t. t + seconds (c_TTLSeconds c))
       (heartbeat_times (filter (\<lambda>m. off < m_Offset m) msgs) (c_ClaimID c))) d"
  by (induction msgs arbitrary: d) (auto simp: max_def Let_def split: option.split)

lemma heartbeat_times_iff:
  "t \<in> set (heartbeat_times msgs cid) \<longleftrightarrow>
     (\<exists>m \<in> set msgs. m_Type m = MsgHeartbeat \<and> decode_ref (m_Payload m) = Some cid \<and> m_Timestamp m = t)"
  by (auto simp: heartbeat_times_def)

lemma le_deadline_iff:
  "now \<le> deadline msgs c \<longleftrightarrow>
     now \<le> c_CreatedAt c + seconds (c_TTLSeconds c) \<or>
     c_ClaimID c \<noteq> [] \<and>
     (\<exists>t \<in> set (heartbeat_times msgs (c_ClaimID c)). 0 < t \<and> now \<le> t + seconds (c_TTLSeconds c))"
proof -
  have "now \<le> deadline msgs c \<longleftrightarrow> now - seconds (c_TTLSeconds c) \<le>
      fold max (filter (\<lambda>t. c_ClaimID c \<noteq> [] \<and> 0 < t) (heartbeat_times msgs (c_ClaimID c))) (c_CreatedAt c)"
    by (simp add: deadline_def algebra_simps)
  then show ?thesis by (auto simp: fold_max_ge_iff algebra_simps)
qed

text \<open>Heartbeats up to the claim itself do not extend it beyond its TTL.\<close>

lemma late_heartbeats:
  assumes "0 \<le> c_CreatedAt c"
    and hb: "\<forall>m \<in> set msgs. m_Type m = MsgHeartbeat \<longrightarrow> decode_ref (m_Payload m) = Some (c_ClaimID c) \<longrightarrow>
      m_Offset m \<le> off \<longrightarrow> m_Timestamp m \<le> c_CreatedAt c"
  shows "now \<le> c_CreatedAt c + ttl \<or> (\<exists>t \<in> set (heartbeat_times msgs (c_ClaimID c)). 0 < t \<and> now \<le> t + ttl) \<longleftrightarrow>
    now \<le> c_CreatedAt c + ttl \<or>
      (\<exists>t \<in> set (heartbeat_times (filter (\<lambda>m. off < m_Offset m) msgs) (c_ClaimID c)). now \<le> t + ttl)"
    (is "?A \<longleftrightarrow> ?B")
proof
  assume ?A
  then show ?B
  proof
    assume "\<exists>t \<in> set (heartbeat_times msgs (c_ClaimID c)). 0 < t \<and> now \<le> t + ttl"
    then obtain m where m: "m \<in> set msgs" "m_Type m = MsgHeartbeat"
      "decode_ref (m_Payload m) = Some (c_ClaimID c)" "now \<le> m_Timestamp m + ttl"
      by (auto simp: heartbeat_times_iff)
    show ?B
    proof (cases "m_Offset m \<le> off")
      case True
      then have "m_Timestamp m \<le> c_CreatedAt c" using hb m by blast
      with m show ?thesis by auto
    next
      case False
      then have "m_Timestamp m \<in> set (heartbeat_times (filter (\<lambda>m. off < m_Offset m) msgs) (c_ClaimID c))"
        using m by (auto simp: heartbeat_times_iff)
      with m show ?thesis by blast
    qed
  qed simp
next
  assume ?B
  then show ?A
  proof
    assume "\<exists>t \<in> set (heartbeat_times (filter (\<lambda>m. off < m_Offset m) msgs) (c_ClaimID c)). now \<le> t + ttl"
    then obtain t where "t \<in> set (heartbeat_times msgs (c_ClaimID c))" "now \<le> t + ttl"
      by (auto simp: heartbeat_times_def)
    then show ?A using assms(1) by (cases "0 < t") auto
  qed simp
qed

lemma live_iff_IsClaimActive:
  assumes "c_ClaimID c \<noteq> []" "0 \<le> c_CreatedAt c"
    and rel: "\<forall>r \<in> set (release_offsets msgs (c_ClaimID c)). off < r"
    and hb: "\<forall>m \<in> set msgs. m_Type m = MsgHeartbeat \<longrightarrow> decode_ref (m_Payload m) = Some (c_ClaimID c) \<longrightarrow>
      m_Offset m \<le> off \<longrightarrow> m_Timestamp m \<le> c_CreatedAt c"
  shows "live now msgs (off, c) \<longleftrightarrow> IsClaimActive now msgs off c 0"
proof -
  let ?ttl = "seconds (c_TTLSeconds c)"
  let ?late = "heartbeat_times (filter (\<lambda>m. off < m_Offset m) msgs) (c_ClaimID c)"
  have "released_in msgs off c \<longleftrightarrow> release_found msgs off c"
    using assms(1) rel by (cases "release_offsets msgs (c_ClaimID c)") (auto simp: released_in_def release_found_iff)
  moreover have "now \<le> deadline msgs c \<longleftrightarrow> now \<le> heartbeat_deadline msgs off c (c_CreatedAt c + ?ttl)"
  proof -
    have "now \<le> heartbeat_deadline msgs off c (c_CreatedAt c + ?ttl) \<longleftrightarrow>
        now \<le> c_CreatedAt c + ?ttl \<or> (\<exists>t \<in> set ?late. now \<le> t + ?ttl)"
      by (simp add: heartbeat_deadline_eq fold_max_ge_iff)
    then show ?thesis using late_heartbeats [OF assms(2) hb, of now ?ttl] assms(1) by (simp only: le_deadline_iff) simp
  qed
  ultimately show ?thesis by (auto simp: live_def IsClaimActive_def Let_def)
qed

text \<open>The scan for one claim and the scan of the whole log agree on every claim
  whose id occurs once in the log, has no release before the claim, and has no heartbeat that
  lies before the claim in the log but carries a later time.\<close>

theorem scans_agree:
  assumes "(off, c) \<in> set (claim_entries msgs)"
    and "\<forall>e \<in> set (claim_entries msgs). c_ClaimID (snd e) = c_ClaimID c \<longrightarrow> e = (off, c)"
    and "c_ClaimID c \<noteq> []" and "0 \<le> c_CreatedAt c"
    and "\<forall>m \<in> set msgs. decode_ref (m_Payload m) = Some (c_ClaimID c) \<longrightarrow> m_Offset m \<le> off \<longrightarrow>
      \<not> is_release m \<and> (m_Type m = MsgHeartbeat \<longrightarrow> m_Timestamp m \<le> c_CreatedAt c)"
  shows "c \<in> set (FilterActiveClaims now msgs) \<longleftrightarrow> IsClaimActive now msgs off c 0"
proof -
  have "off < m_Offset m" if "m \<in> set msgs" "is_release m"
    "decode_ref (m_Payload m) = Some (c_ClaimID c)" for m
    using assms(5) that by (meson not_le)
  then have "\<forall>r \<in> set (release_offsets msgs (c_ClaimID c)). off < r"
    by (auto simp: release_offsets_def)
  moreover have "\<forall>m \<in> set msgs. m_Type m = MsgHeartbeat \<longrightarrow>
      decode_ref (m_Payload m) = Some (c_ClaimID c) \<longrightarrow> m_Offset m \<le> off \<longrightarrow> m_Timestamp m \<le> c_CreatedAt c"
    using assms(5) by blast
  ultimately have scan: "live now msgs (off, c) \<longleftrightarrow> IsClaimActive now msgs off c 0"
    using live_iff_IsClaimActive [OF assms(3,4)] by blast
  have "c \<in> set (FilterActiveClaims now msgs) \<longleftrightarrow> live now msgs (off, c)"
    unfolding FilterActiveClaims_iff
  proof
    assume "\<exists>o'. (o', c) \<in> set (claim_entries msgs) \<and> live now msgs (o', c)"
    then obtain o' where o': "(o', c) \<in> set (claim_entries msgs)" "live now msgs (o', c)" by blast
    with assms(2) have "(o', c) = (off, c)" by (metis snd_conv)
    with o' show "live now msgs (off, c)" by simp
  qed (use assms(1) in blast)
  with scan show ?thesis by simp
qed


section \<open>Payloads on the log\<close>

text \<open>A log message around a claim, and one that refers to a claim by its id.\<close>

definition claim_msg :: "int \<Rightarrow> time \<Rightarrow> claim \<Rightarrow> message" where
  "claim_msg off t c = \<lparr>m_Offset = off, m_Type = MsgClaim, m_Namespace = [], m_AgentID = c_AgentID c,
     m_Payload = Some (claim_json c), m_Timestamp = t\<rparr>"

definition ref_msg :: "int \<Rightarrow> time \<Rightarrow> string \<Rightarrow> string \<Rightarrow> message" where
  "ref_msg off t ty cid = \<lparr>m_Offset = off, m_Type = ty, m_Namespace = [], m_AgentID = [],
     m_Payload = Some (JObj [(''claim_id'', JStr cid)]), m_Timestamp = t\<rparr>"

lemma msg_simps [simp]:
  "m_Offset (claim_msg off t c) = off" "m_Type (claim_msg off t c) = MsgClaim"
  "m_Timestamp (claim_msg off t c) = t" "m_Payload (claim_msg off t c) = Some (claim_json c)"
  "m_Offset (ref_msg off t ty cid) = off" "m_Type (ref_msg off t ty cid) = ty"
  "m_Timestamp (ref_msg off t ty cid) = t"
  "is_release (ref_msg off t ty cid) \<longleftrightarrow> ty = MsgRelease \<or> ty = MsgTransfer"
  by (simp_all add: claim_msg_def ref_msg_def is_release_def)

lemma claim_msg_not_release [simp]: "\<not> is_release (claim_msg off t c)"
  by (simp add: is_release_def)

lemma decode_ref_msg [simp]: "decode_ref (m_Payload (ref_msg off t ty cid)) = Some cid"
  by (simp add: ref_msg_def decode_ref_first)

lemma decode_ref_claim_json [simp]: "decode_ref (Some (claim_json c)) = Some (c_ClaimID c)"
  unfolding claim_json_def append.simps
  by (subst decode_ref_first) (auto simp: omit_empty_def fold_name_def lower_char_def)

text \<open>A sample claim and instant for the witnesses.\<close>

definition sample_time :: time where
  "sample_time = 63871200000 * 1000000000"

lemma time_ok_sample [simp]: "time_ok sample_time"
  by (simp add: time_ok_def sample_time_def nanos_per_day_def nanos_per_second_def)

definition sample_claim :: "string \<Rightarrow> int \<Rightarrow> claim" where
  "sample_claim cid ttl = \<lparr>c_ClaimID = cid, c_AgentID = ''alice'', c_ResourceURI = ''file://a.go'',
     c_Operation = OpWrite, c_Intent = [], c_ProjectedEnd = [], c_TTLSeconds = ttl,
     c_ParentClaimID = [], c_CreatedAt = sample_time\<rparr>"

lemma sample_claim_simps [simp]:
  "c_ClaimID (sample_claim cid ttl) = cid" "c_AgentID (sample_claim cid ttl) = ''alice''"
  "c_ResourceURI (sample_claim cid ttl) = ''file://a.go''"
  "c_Operation (sample_claim cid ttl) = OpWrite"
  "c_TTLSeconds (sample_claim cid ttl) = ttl" "c_CreatedAt (sample_claim cid ttl) = sample_time"
  by (simp_all add: sample_claim_def)

lemma decode_sample_claim [simp]:
  "- (2 ^ 63) \<le> ttl \<Longrightarrow> ttl < 2 ^ 63 \<Longrightarrow>
   decode_claim (Some (claim_json (sample_claim cid ttl))) = Some (sample_claim cid ttl)"
  by (rule decode_claim_json)
    (simp add: claim_ok_def time_ok_def sample_time_def nanos_per_day_def nanos_per_second_def)

theorem scans_agree_witness:
  "sample_claim ''c'' 60 \<in> set (FilterActiveClaims sample_time
     [claim_msg 1 sample_time (sample_claim ''c'' 60)])"
proof -
  let ?c = "sample_claim ''c'' 60"
  let ?log = "[claim_msg 1 sample_time ?c]"
  have "claim_entries ?log = [(1, ?c)]" by simp
  moreover have "0 \<le> sample_time" by (simp add: sample_time_def)
  ultimately have "?c \<in> set (FilterActiveClaims sample_time ?log) \<longleftrightarrow>
      IsClaimActive sample_time ?log 1 ?c 0"
    by (intro scans_agree) simp_all
  moreover have "IsClaimActive sample_time ?log 1 ?c 0"
    by (simp add: IsClaimActive_def seconds_exact nanos_per_second_def)
  ultimately show ?thesis by blast
qed

section \<open>How the active set changes\<close>

lemma live_time_mono: "now \<le> now' \<Longrightarrow> live now' msgs e \<Longrightarrow> live now msgs e"
  by (auto simp: live_def)

text \<open>With no new message the active set only shrinks as time passes.\<close>

theorem active_set_decays:
  assumes "now \<le> now'"
  shows "set (FilterActiveClaims now' msgs) \<subseteq> set (FilterActiveClaims now msgs)"
  using live_time_mono [OF assms] unfolding FilterActiveClaims_iff subset_iff by blast

theorem active_set_decays_witness:
  "set (FilterActiveClaims (sample_time + 1) []) \<subseteq> set (FilterActiveClaims sample_time [])"
  by (rule active_set_decays) simp

text \<open>A message whose offset is new.\<close>

definition follows :: "message list \<Rightarrow> message \<Rightarrow> bool" where
  "follows msgs m \<longleftrightarrow> (\<forall>x \<in> set msgs. m_Offset x < m_Offset m)"

lemma entry_offset: "(off, c) \<in> set (claim_entries msgs) \<Longrightarrow> \<exists>x \<in> set msgs. m_Offset x = off \<and> m_Type x = MsgClaim"
  by (induction msgs) (auto split: if_splits option.splits)

lemma follows_entry: "follows msgs m \<Longrightarrow> (off, c) \<in> set (claim_entries msgs) \<Longrightarrow> off < m_Offset m"
  unfolding follows_def by (drule entry_offset) auto

lemma deadline_append:
  "deadline (msgs @ [m]) c =
     (if m_Type m = MsgHeartbeat \<and> decode_ref (m_Payload m) = Some (c_ClaimID c)
         \<and> c_ClaimID c \<noteq> [] \<and> 0 < m_Timestamp m
      then max (m_Timestamp m + seconds (c_TTLSeconds c)) (deadline msgs c) else deadline msgs c)"
  by (simp add: deadline_def max_def)

lemma released_in_append:
  assumes "off < m_Offset m"
  shows "released_in (msgs @ [m]) off c \<longleftrightarrow>
    released_in msgs off c \<or>
    is_release m \<and> decode_ref (m_Payload m) = Some (c_ClaimID c) \<and> c_ClaimID c \<noteq> []
      \<and> (\<forall>r \<in> set (release_offsets msgs (c_ClaimID c)). off < r)"
  using assms by (auto simp: released_in_def)

text \<open>No release of the id stands before a claim of that id.\<close>

definition no_early_release :: "message list \<Rightarrow> string \<Rightarrow> bool" where
  "no_early_release msgs cid \<longleftrightarrow>
     (\<forall>e \<in> set (claim_entries msgs). c_ClaimID (snd e) = cid \<longrightarrow>
       (\<forall>r \<in> set (release_offsets msgs cid). fst e < r))"

lemma claim_entries_not_claim: "m_Type m \<noteq> MsgClaim \<Longrightarrow> claim_entries (msgs @ [m]) = claim_entries msgs"
  by simp

lemma release_not_heartbeat: "is_release m \<Longrightarrow> m_Type m \<noteq> MsgHeartbeat \<and> m_Type m \<noteq> MsgClaim"
  by (auto simp: is_release_def)

lemma live_append_release:
  assumes "is_release m" "decode_ref (m_Payload m) = Some cid" "cid \<noteq> []" "off < m_Offset m"
    and "c_ClaimID c = cid \<longrightarrow> (\<forall>r \<in> set (release_offsets msgs cid). off < r)"
  shows "live now (msgs @ [m]) (off, c) \<longleftrightarrow> live now msgs (off, c) \<and> c_ClaimID c \<noteq> cid"
proof -
  have "deadline (msgs @ [m]) c = deadline msgs c"
    using release_not_heartbeat [OF assms(1)] by (simp add: deadline_append)
  moreover have "released_in (msgs @ [m]) off c \<longleftrightarrow> released_in msgs off c \<or> c_ClaimID c = cid"
    using assms by (subst released_in_append) auto
  ultimately show ?thesis by (auto simp: live_def)
qed

lemma FilterActiveClaims_release:
  assumes "is_release m" "decode_ref (m_Payload m) = Some cid" "cid \<noteq> []" "follows msgs m"
    and "no_early_release msgs cid"
  shows "FilterActiveClaims now (msgs @ [m]) =
    filter (\<lambda>c. c_ClaimID c \<noteq> cid) (FilterActiveClaims now msgs)"
proof -
  have "filter (live now (msgs @ [m])) (claim_entries msgs) =
      filter (\<lambda>e. live now msgs e \<and> c_ClaimID (snd e) \<noteq> cid) (claim_entries msgs)"
  proof (rule filter_cong [OF refl])
    fix e assume e: "e \<in> set (claim_entries msgs)"
    obtain off c where [simp]: "e = (off, c)" by fastforce
    show "live now (msgs @ [m]) e = (live now msgs e \<and> c_ClaimID (snd e) \<noteq> cid)"
      using live_append_release [OF assms(1-3)] follows_entry [OF assms(4)] assms(5) e
      unfolding no_early_release_def by fastforce
  qed
  moreover have "claim_entries (msgs @ [m]) = claim_entries msgs"
    using release_not_heartbeat [OF assms(1)] by simp
  ultimately show ?thesis
    by (simp add: FilterActiveClaims_eq filter_map o_def)
qed

text \<open>Appending a release or a transfer of a claim that has no earlier
  release takes every claim of that id off the active set and leaves the others, in their
  order.\<close>

theorem release_ends_claim:
  assumes "m_Type m = MsgRelease \<or> m_Type m = MsgTransfer"
    and "decode_ref (m_Payload m) = Some cid" and "cid \<noteq> []" and "follows msgs m"
    and "no_early_release msgs cid"
  shows "FilterActiveClaims now (msgs @ [m]) =
    filter (\<lambda>c. c_ClaimID c \<noteq> cid) (FilterActiveClaims now msgs)"
  using FilterActiveClaims_release [OF _ assms(2-5)] assms(1) by (simp add: is_release_def)

theorem release_ends_claim_witness:
  "FilterActiveClaims sample_time ([claim_msg 1 sample_time (sample_claim ''c'' 60)] @
     [ref_msg 2 sample_time MsgRelease ''c'']) = []"
  by (subst release_ends_claim [of _ "''c''"])
    (auto simp: follows_def no_early_release_def is_release_def FilterActiveClaims_eq)

end
