(* ===== verification/ProviderIface.thy ===== *)
theory ProviderIface
  imports ActiveClaims "HOL-Library.Multiset"
begin

text \<open>
  The \<open>Provider\<close> interface of \<open>pkg/hearsay/provider.go\<close>: a record of the operations over a
  storage state, the environment a call runs in, and, as locales, the contract that the clients
  of the interface rely on. Every storage back end of the repository is an instance of the
  record; the back ends modelled here discharge the contract in their own theories.
\<close>

section \<open>The environment of a call\<close>

text \<open>
  What a call observes of the outside: the readings of its clock in order, for a storage engine
  the failure of its i-th statement (\<open>None\<close>: it succeeds), the order in which an unstable sort
  leaves equal elements, and the random identifiers it draws. An operation that makes several calls gets one environment per call.
\<close>

record env =
  Now :: clock
  Fault :: "nat \<Rightarrow> error option"
  Tie :: "nat \<Rightarrow> nat"
  Uuid :: "nat \<Rightarrow> string"

type_synonym envs = "nat \<Rightarrow> env"

definition after :: "nat \<Rightarrow> envs \<Rightarrow> envs" where
  "after k es = (\<lambda>i. es (k + i))"

text \<open>An environment in which it is always \<open>t\<close> and nothing fails.\<close>

definition calm :: "time \<Rightarrow> env" where
  "calm t = \<lparr>Now = \<lambda>_. t, Fault = \<lambda>_. None, Tie = \<lambda>i. i, Uuid = \<lambda>i. ''uuid-'' @ itoa (int i)\<rparr>"

lemma calm_simps [simp]: "Now (calm t) i = t" "Fault (calm t) i = None" "Tie (calm t) i = i"
  "Uuid (calm t) i = ''uuid-'' @ itoa (int i)"
  by (simp_all add: calm_def)

text \<open>\<open>sort.Slice\<close>: any order of the elements with equal keys may come out; \<open>tie\<close> chooses one.\<close>

definition sort_slice :: "(nat \<Rightarrow> nat) \<Rightarrow> ('a \<Rightarrow> int) \<Rightarrow> 'a list \<Rightarrow> 'a list" where
  "sort_slice tie key xs =
     sort_key key (map snd (sort_key (\<lambda>(i, _). tie i) (enumerate 0 xs)))"

lemma mset_sort_slice [simp]: "mset (sort_slice tie key xs) = mset xs"
proof -
  have "mset (map snd (sort_key (\<lambda>(i, _). tie i) (enumerate 0 xs))) = mset (map snd (enumerate 0 xs))"
    by (simp only: mset_map mset_sort)
  then show ?thesis by (simp add: sort_slice_def)
qed

lemma set_sort_slice [simp]: "set (sort_slice tie key xs) = set xs"
  by (metis mset_sort_slice set_mset_mset)

lemma length_sort_slice [simp]: "length (sort_slice tie key xs) = length xs"
  by (simp add: sort_slice_def)

lemma sorted_sort_slice: "sorted (map key (sort_slice tie key xs))"
  by (simp add: sort_slice_def)

text \<open>Reading a Go map: a missing key reads as the zero value.\<close>

definition go_get :: "'v \<Rightarrow> ('k \<rightharpoonup> 'v) \<Rightarrow> 'k \<Rightarrow> 'v" where
  "go_get zero m k = (case m k of None \<Rightarrow> zero | Some v \<Rightarrow> v)"

lemma go_get_simps [simp]:
  "go_get z Map.empty k = z" "go_get z (m(k \<mapsto> v)) k' = (if k' = k then v else go_get z m k')"
  "go_get z (m(k := None)) k' = (if k' = k then z else go_get z m k')"
  by (simp_all add: go_get_def)

section \<open>The operations\<close>

record 's provider =
  p_CreateNamespace :: "env \<Rightarrow> namespace \<Rightarrow> 's \<Rightarrow> error option \<times> 's"
  p_DeleteNamespace :: "env \<Rightarrow> string \<Rightarrow> 's \<Rightarrow> error option \<times> 's"
  p_Append :: "env \<Rightarrow> string \<Rightarrow> message list \<Rightarrow> 's \<Rightarrow> error option \<times> 's"
  p_Query :: "env \<Rightarrow> string \<Rightarrow> query_opts \<Rightarrow> 's \<Rightarrow> error + message list"
  p_ActiveClaims :: "env \<Rightarrow> string \<Rightarrow> string \<Rightarrow> 's \<Rightarrow> error + claim list"
  p_AgentState :: "env \<Rightarrow> string \<Rightarrow> string \<Rightarrow> 's \<Rightarrow> error + agent_state"
  p_ReleaseExpired :: "env \<Rightarrow> string \<Rightarrow> time \<Rightarrow> 's \<Rightarrow> error option \<times> 's"
  p_SendMessage :: "env \<Rightarrow> string \<Rightarrow> mailbox_message \<Rightarrow> 's \<Rightarrow> error option \<times> 's"
  p_GetMailbox :: "env \<Rightarrow> string \<Rightarrow> string \<Rightarrow> mailbox_query_opts \<Rightarrow> 's \<Rightarrow> error + mailbox_message list"
  p_MarkRead :: "env \<Rightarrow> string \<Rightarrow> string \<Rightarrow> 's \<Rightarrow> error option \<times> 's"
  p_ArchiveMessage :: "env \<Rightarrow> string \<Rightarrow> string \<Rightarrow> 's \<Rightarrow> error option \<times> 's"
  p_ExpireMessages :: "env \<Rightarrow> string \<Rightarrow> time \<Rightarrow> 's \<Rightarrow> error option \<times> 's"
  p_CreateTask :: "env \<Rightarrow> string \<Rightarrow> a2a_task \<Rightarrow> 's \<Rightarrow> error option \<times> 's"
  p_GetTask :: "env \<Rightarrow> string \<Rightarrow> string \<Rightarrow> 's \<Rightarrow> error + a2a_task"
  p_UpdateTask :: "env \<Rightarrow> string \<Rightarrow> a2a_task \<Rightarrow> 's \<Rightarrow> error option \<times> 's"
  p_AppendTaskHistory :: "env \<Rightarrow> string \<Rightarrow> string \<Rightarrow> int \<Rightarrow> a2a_message \<Rightarrow> 's \<Rightarrow> error option \<times> 's"
  p_GetTaskHistory :: "env \<Rightarrow> string \<Rightarrow> string \<Rightarrow> int \<Rightarrow> 's \<Rightarrow> error + a2a_message list"
  p_CreateArtifact :: "env \<Rightarrow> string \<Rightarrow> string \<Rightarrow> a2a_artifact \<Rightarrow> 's \<Rightarrow> error option \<times> 's"
  p_GetArtifacts :: "env \<Rightarrow> string \<Rightarrow> string \<Rightarrow> 's \<Rightarrow> error + a2a_artifact list"
  p_AppendAudit :: "env \<Rightarrow> string \<Rightarrow> audit_event list \<Rightarrow> 's \<Rightarrow> error option \<times> 's"

text \<open>What every back end's \<open>ActiveClaims\<close> and \<open>AgentState\<close> do with the messages they have read.\<close>

definition matching_claims :: "string \<Rightarrow> claim list \<Rightarrow> claim list" where
  "matching_claims resourcePattern cs =
     filter (\<lambda>c. ResourceMatchesPattern resourcePattern (c_ResourceURI c)) cs"

fun last_seen :: "string \<Rightarrow> message list \<Rightarrow> time \<Rightarrow> time" where
  "last_seen agentID [] lastSeen = lastSeen"
| "last_seen agentID (m # msgs) lastSeen =
     last_seen agentID msgs
       (if m_AgentID m = agentID \<and> m_Timestamp m > lastSeen then m_Timestamp m else lastSeen)"

definition agent_state_of :: "time \<Rightarrow> string \<Rightarrow> message list \<Rightarrow> agent_state" where
  "agent_state_of now agentID msgs =
     \<lparr>as_AgentID = agentID,
      as_ActiveClaims = map c_ClaimID (filter (\<lambda>c. c_AgentID c = agentID) (FilterActiveClaims now msgs)),
      as_LastSeen = last_seen agentID msgs 0\<rparr>"

lemma last_seen_eq:
  "last_seen agentID msgs t = fold max (map m_Timestamp (filter (\<lambda>m. m_AgentID m = agentID) msgs)) t"
  by (induction msgs arbitrary: t) (auto simp: max_def)

text \<open>The times a new mailbox message gets when they are zero; every back end fills them so.\<close>

definition fill_times :: "time \<Rightarrow> mailbox_message \<Rightarrow> mailbox_message" where
  "fill_times now msg =
     (let msg = (if mb_CreatedAt msg = 0 then msg\<lparr>mb_CreatedAt := now\<rparr> else msg)
      in if mb_ExpiresAt msg = 0 then msg\<lparr>mb_ExpiresAt := mb_CreatedAt msg + seconds 300\<rparr> else msg)"

section \<open>The contract of the message log\<close>

text \<open>A stored message is the appended one with an offset, the namespace and a timestamp.\<close>

definition stamped :: "string \<Rightarrow> message \<Rightarrow> message \<Rightarrow> bool" where
  "stamped ns m m' \<longleftrightarrow> m_Type m' = m_Type m \<and> m_AgentID m' = m_AgentID m \<and>
     m_Payload m' = m_Payload m \<and> m_Namespace m' = ns"

definition increasing :: "message list \<Rightarrow> bool" where
  "increasing msgs \<longleftrightarrow> sorted_wrt (<) (map m_Offset msgs)"

lemma increasing_simps [simp]:
  "increasing []"
  "increasing (m # msgs) \<longleftrightarrow> (\<forall>x \<in> set msgs. m_Offset m < m_Offset x) \<and> increasing msgs"
  by (auto simp: increasing_def)

lemma increasing_append:
  "increasing (xs @ ys) \<longleftrightarrow>
     increasing xs \<and> increasing ys \<and> (\<forall>x \<in> set xs. \<forall>y \<in> set ys. m_Offset x < m_Offset y)"
  by (auto simp: increasing_def sorted_wrt_append)

lemma increasing_filter: "increasing msgs \<Longrightarrow> increasing (filter P msgs)"
  unfolding increasing_def sorted_wrt_map by (rule sorted_wrt_filter)

lemma increasing_follows: "increasing (msgs @ [m]) \<Longrightarrow> follows msgs m"
  by (simp add: increasing_append follows_def)

lemma increasing_unique:
  "increasing msgs \<Longrightarrow> x \<in> set msgs \<Longrightarrow> y \<in> set msgs \<Longrightarrow> m_Offset x = m_Offset y \<Longrightarrow> x = y"
  by (induction msgs) (force simp: increasing_def)+

text \<open>
  The operations that claims rest on. \<open>log s ns\<close> is what is stored for the namespace, \<open>seen\<close>
  says which messages the back end reads to compute the active claims, \<open>ok\<close> is its invariant.
\<close>

locale claim_store =
  fixes P :: "'s provider"
    and log :: "'s \<Rightarrow> string \<Rightarrow> message list"
    and ok :: "'s \<Rightarrow> bool"
    and seen :: "message \<Rightarrow> bool"
  assumes log_increasing: "ok s \<Longrightarrow> increasing (log s ns)"
    and append_stored: "ok s \<Longrightarrow> p_Append P e ns msgs s = (None, s') \<Longrightarrow>
      ok s' \<and> (\<exists>new. log s' ns = log s ns @ new \<and> list_all2 (stamped ns) msgs new)"
    and append_other: "ok s \<Longrightarrow> p_Append P e ns msgs s = (r, s') \<Longrightarrow> ns' \<noteq> ns \<Longrightarrow>
      log s' ns' = log s ns'"
    and append_atomic: "ok s \<Longrightarrow> p_Append P e ns msgs s = (Some err, s') \<Longrightarrow> s' = s"
    and active_claims: "ok s \<Longrightarrow> p_ActiveClaims P e ns pat s = Inr cs \<Longrightarrow>
      cs = matching_claims pat (FilterActiveClaims (Now e 0) (filter seen (log s ns)))"
    and seen_types: "m_Type m \<in> {MsgClaim, MsgRelease, MsgTransfer} \<Longrightarrow> seen m"
begin

lemma append_one:
  assumes "ok s" "p_Append P e ns [m] s = (None, s')"
  obtains m' where "log s' ns = log s ns @ [m']" "stamped ns m m'" "follows (log s ns) m'" "ok s'"
proof -
  from append_stored [OF assms] obtain new
    where "ok s'" and new: "log s' ns = log s ns @ new" "list_all2 (stamped ns) [m] new" by blast
  from new(2) obtain m' where "new = [m']" "stamped ns m m'"
    by (auto simp: list_all2_Cons1)
  with new that log_increasing [OF \<open>ok s'\<close>, of ns] \<open>ok s'\<close> show thesis
    by (simp add: increasing_follows)
qed

lemma follows_seen: "follows msgs m \<Longrightarrow> follows (filter seen msgs) m"
  by (simp add: follows_def)

end

section \<open>The contract of queries\<close>

definition query_matches :: "query_opts \<Rightarrow> message \<Rightarrow> bool" where
  "query_matches opts m \<longleftrightarrow> q_Since opts < m_Offset m \<and>
     (q_Types opts = [] \<or> m_Type m \<in> set (q_Types opts)) \<and>
     (q_AgentID opts = [] \<or> m_AgentID m = q_AgentID opts)"

definition limited :: "int \<Rightarrow> 'a list \<Rightarrow> 'a list" where
  "limited limit xs = (if limit > 0 then take (nat limit) xs else xs)"

definition query_result :: "query_opts \<Rightarrow> message list \<Rightarrow> message list" where
  "query_result opts msgs = limited (q_Limit opts) (filter (query_matches opts) msgs)"

lemma query_result_no_opts:
  "(\<And>m. m \<in> set msgs \<Longrightarrow> 0 < m_Offset m) \<Longrightarrow> query_result no_opts msgs = msgs"
  by (simp add: query_result_def limited_def no_opts_def query_matches_def)

text \<open>Reading on from the last message of a page yields the rest.\<close>

lemma filter_after:
  assumes "increasing (xs @ [m] @ ys)"
  shows "filter (\<lambda>x. m_Offset m < m_Offset x) (xs @ [m] @ ys) = ys"
proof -
  have "\<forall>x \<in> set xs. m_Offset x < m_Offset m" "\<forall>y \<in> set ys. m_Offset m < m_Offset y"
    using assms by (auto simp: increasing_append)
  then show ?thesis by (auto simp: filter_empty_conv not_less intro!: filter_True order.strict_implies_order)
qed

lemma query_pages:
  assumes "increasing msgs" "query_result opts msgs \<noteq> []"
  shows "query_result (opts\<lparr>q_Limit := 0\<rparr>) msgs =
    query_result opts msgs
      @ query_result (opts\<lparr>q_Limit := 0, q_Since := m_Offset (last (query_result opts msgs))\<rparr>) msgs"
proof -
  let ?all = "filter (query_matches opts) msgs"
  let ?page = "query_result opts msgs"
  obtain xs m where page: "?page = xs @ [m]" using assms(2) by (metis append_butlast_last_id)
  obtain ys where ys: "?all = ?page @ ys"
    unfolding query_result_def limited_def by (metis append_Nil2 append_take_drop_id)
  then have all: "?all = xs @ [m] @ ys" using page by simp
  have "increasing (xs @ [m] @ ys)" using increasing_filter [OF assms(1)] all by metis
  then have rest: "filter (\<lambda>x. m_Offset m < m_Offset x) ?all = ys" unfolding all by (rule filter_after)
  have "m \<in> set ?all" using all by simp
  then have "q_Since opts < m_Offset m" by (simp add: query_matches_def)
  then have "filter (query_matches (opts\<lparr>q_Limit := 0, q_Since := m_Offset m\<rparr>)) msgs =
      filter (\<lambda>x. m_Offset m < m_Offset x) ?all"
    by (auto simp: query_matches_def intro!: filter_cong)
  moreover have "filter (query_matches (opts\<lparr>q_Limit := 0\<rparr>)) msgs = ?all"
    by (rule filter_cong) (auto simp: query_matches_def)
  ultimately show ?thesis using rest ys page by (simp add: query_result_def [of "opts\<lparr>q_Limit := _\<rparr>"]
        query_result_def [of "opts\<lparr>q_Limit := _, q_Since := _\<rparr>"] limited_def [of 0])
qed

locale query_store = claim_store +
  assumes query: "ok s \<Longrightarrow> p_Query P e ns opts s = Inr ms \<Longrightarrow> ms = query_result opts (log s ns)"
begin

lemma paging:
  assumes "ok s" "p_Query P e ns opts s = Inr page" "page \<noteq> []"
    and "p_Query P e' ns (opts\<lparr>q_Limit := 0, q_Since := m_Offset (last page)\<rparr>) s = Inr rest"
    and "p_Query P e'' ns (opts\<lparr>q_Limit := 0\<rparr>) s = Inr full"
  shows "full = page @ rest"
proof -
  have page: "page = query_result opts (log s ns)" using query [OF assms(1,2)] .
  show ?thesis
    using query [OF assms(1,4)] query [OF assms(1,5)] query_pages [OF log_increasing [OF assms(1)]]
      assms(3) unfolding page by blast
qed

end

section \<open>The contract of tasks\<close>

text \<open>
  What the task handlers need of a back end: \<open>stored s\<close> are the tasks it holds, \<open>log s\<close> its messages.
  Creating and updating may fail, and may change columns of their own, but they store no other
  state or claim than the given one; nothing else touches the tasks.
\<close>

locale task_store =
  fixes P :: "'s provider"
    and stored :: "'s \<Rightarrow> a2a_task set"
    and log :: "'s \<Rightarrow> string \<Rightarrow> message list"
  assumes create_stores: "p_CreateTask P e ns t s = (r, s') \<Longrightarrow> t' \<in> stored s' \<Longrightarrow>
      t' \<in> stored s \<or> t_State t' = t_State t \<and> t_ClaimID t' = t_ClaimID t"
    and update_stores: "p_UpdateTask P e ns t s = (r, s') \<Longrightarrow> t' \<in> stored s' \<Longrightarrow>
      t' \<in> stored s \<or> t_State t' = t_State t \<and> t_ClaimID t' = t_ClaimID t"
    and get_stored: "p_GetTask P e ns i s = Inr t \<Longrightarrow> t \<in> stored s"
    and append_tasks: "stored (snd (p_Append P e ns msgs s)) = stored s"
    and send_tasks: "stored (snd (p_SendMessage P e ns msg s)) = stored s"
    and history_tasks: "stored (snd (p_AppendTaskHistory P e ns i n hm s)) = stored s"
    and artifact_tasks: "stored (snd (p_CreateArtifact P e ns i art s)) = stored s"
    and update_log: "log (snd (p_UpdateTask P e ns t s)) = log s"
begin

lemmas frame_tasks = append_tasks send_tasks history_tasks artifact_tasks

end

end
