(* ===== verification/Validation.thy ===== *)
theory Validation
  imports Types
begin

text \<open>
  Input validation and configuration: \<open>pkg/hearsay/validation.go\<close>, and \<open>NewConfig\<close> of
  \<open>pkg/hearsay/config.go\<close>. A validator returns \<open>None\<close> for Go's \<open>nil\<close> and the error otherwise.
  Reading and writing the TOML file is in theory \<open>Serve\<close>.
\<close>

section \<open>Validators\<close>

definition MaxAgentIDLen :: nat where "MaxAgentIDLen = 128"
definition MaxResourceURILen :: nat where "MaxResourceURILen = 2048"
definition MaxIntentLen :: nat where "MaxIntentLen = 512"
definition MaxNamespaceLen :: nat where "MaxNamespaceLen = 64"

lemmas validation_limits [simp] =
  MaxAgentIDLen_def MaxResourceURILen_def MaxIntentLen_def MaxNamespaceLen_def

definition ValidateAgentID :: "string \<Rightarrow> error option" where
  "ValidateAgentID i =
     (if i = [] then Some (ValidationError ''agent_id'' ''required'')
      else if length i > MaxAgentIDLen then
        Some (ValidationError ''agent_id'' (''max length '' @ itoa (int MaxAgentIDLen)))
      else None)"

definition ValidateResourceURI :: "string \<Rightarrow> error option" where
  "ValidateResourceURI uri =
     (if uri = [] then Some (ValidationError ''resource_uri'' ''required'')
      else if length uri > MaxResourceURILen then
        Some (ValidationError ''resource_uri'' (''max length '' @ itoa (int MaxResourceURILen)))
      else if \<not> Contains uri ''://'' then
        Some (ValidationError ''resource_uri'' ''must contain scheme (e.g. file://)'')
      else None)"

definition ValidateIntent :: "string \<Rightarrow> error option" where
  "ValidateIntent intent =
     (if length intent > MaxIntentLen then
        Some (ValidationError ''intent'' (''max length '' @ itoa (int MaxIntentLen)))
      else None)"

definition ValidateNamespace :: "string \<Rightarrow> error option" where
  "ValidateNamespace ns =
     (if ns = [] then Some (ValidationError ''namespace'' ''required'')
      else if length ns > MaxNamespaceLen then
        Some (ValidationError ''namespace'' (''max length '' @ itoa (int MaxNamespaceLen)))
      else None)"

lemma ValidateAgentID_None [simp]:
  "ValidateAgentID i = None \<longleftrightarrow> i \<noteq> [] \<and> length i \<le> 128"
  by (auto simp: ValidateAgentID_def)

lemma ValidateResourceURI_None [simp]:
  "ValidateResourceURI uri = None \<longleftrightarrow> length uri \<le> 2048 \<and> Contains uri ''://''"
  by (cases uri) (auto simp: ValidateResourceURI_def)

lemma ValidateIntent_None [simp]: "ValidateIntent intent = None \<longleftrightarrow> length intent \<le> 512"
  by (auto simp: ValidateIntent_def)

lemma ValidateNamespace_None [simp]:
  "ValidateNamespace ns = None \<longleftrightarrow> ns \<noteq> [] \<and> length ns \<le> 64"
  by (auto simp: ValidateNamespace_def)

section \<open>Configuration\<close>

text \<open>The provider sub-configurations are pointers, \<open>None\<close> when nil.\<close>

record provider_config =
  pc_SQLite :: "string option"
  pc_PostgreSQL :: "string option"
  pc_DynamoDB :: "string option"
  pc_D1 :: "string option"
  pc_Managed :: "(string \<times> string) option"

record defaults_config =
  df_TTLSeconds :: int
  df_ClaimOnRead :: bool
  df_AutoHeartbeat :: bool
  df_Locking :: bool

record a2a_config =
  a2c_Addr :: string
  a2c_APIKey :: string
  a2c_BearerValidatorURL :: string
  a2c_BearerJWKSURL :: string

record config =
  cfg_Version :: int
  cfg_Namespace :: string
  cfg_Provider :: string
  cfg_ProviderCfg :: provider_config
  cfg_Defaults :: defaults_config
  cfg_A2A :: "a2a_config option"

definition NewConfig :: "string \<Rightarrow> string \<Rightarrow> string \<Rightarrow> string \<Rightarrow> config" where
  "NewConfig ns prov sqlitePath postgresURL =
     (let none = \<lparr>pc_SQLite = None, pc_PostgreSQL = None, pc_DynamoDB = None, pc_D1 = None,
            pc_Managed = None\<rparr>;
          cfg = \<lparr>cfg_Version = 1, cfg_Namespace = ns, cfg_Provider = prov, cfg_ProviderCfg = none,
            cfg_Defaults = \<lparr>df_TTLSeconds = 300, df_ClaimOnRead = False, df_AutoHeartbeat = True,
              df_Locking = False\<rparr>, cfg_A2A = None\<rparr>
      in if prov = ''sqlite'' then
           cfg\<lparr>cfg_ProviderCfg := none\<lparr>pc_SQLite := Some sqlitePath\<rparr>\<rparr>
         else if prov = ''postgresql'' then
           cfg\<lparr>cfg_ProviderCfg := none\<lparr>pc_PostgreSQL := Some postgresURL\<rparr>\<rparr>
         else if prov = ''d1'' then cfg\<lparr>cfg_ProviderCfg := none\<lparr>pc_D1 := Some []\<rparr>\<rparr>
         else cfg)"

end
