(* ===== verification/Client.thy ===== *)
theory Client
  imports ProviderIface Validation
begin

text \<open>
  The client of the coordination log, \<open>pkg/hearsay/client.go\<close>: every operation on a provider,
  with the environments of its calls. The facts about it are proved once, in the contexts of the
  contracts \<open>claim_store\<close> and \<open>query_store\<close>, and reach the back ends through their
  interpretations.
\<close>

section \<open>Requests and responses\<close>

record claim_request =
  rq_ResourceURI :: string
  rq_AgentID :: string
  rq_Operation :: string
  rq_Intent :: string
  rq_ProjectedEnd :: string
  rq_TTLSeconds :: int
  rq_ParentClaimID :: string

record claim_response =
  rs_ClaimID :: string
  rs_Conflict :: "conflict_report option"

definition generateClaimID :: "time \<Rightarrow> string" where
  "generateClaimID now = ''claim_'' @ itoa (UnixNano now)"

text \<open>A message as the client builds it; the provider fills the rest.\<close>

definition new_message :: "string \<Rightarrow> string \<Rightarrow> json \<Rightarrow> message" where
  "new_message ty agent payload = \<lparr>m_Offset = 0, m_Type = ty, m_Namespace = [], m_AgentID = agent,
     m_Payload = Some payload, m_Timestamp = 0\<rparr>"

section \<open>Claiming\<close>

definition default_ttl :: "claim_request \<Rightarrow> claim_request" where
  "default_ttl req = (if rq_TTLSeconds req = 0 then req\<lparr>rq_TTLSeconds := 300\<rparr> else req)"

text \<open>The claim that a request makes at the instants of \<open>generateClaimID()\<close> and of \<open>CreatedAt\<close>.\<close>

definition request_claim :: "claim_request \<Rightarrow> time \<Rightarrow> time \<Rightarrow> claim" where
  "request_claim req t_id t_created =
     \<lparr>c_ClaimID = generateClaimID t_id, c_AgentID = rq_AgentID req,
      c_ResourceURI = rq_ResourceURI req, c_Operation = rq_Operation req, c_Intent = rq_Intent req,
      c_ProjectedEnd = rq_ProjectedEnd req, c_TTLSeconds = rq_TTLSeconds req,
      c_ParentClaimID = rq_ParentClaimID req, c_CreatedAt = t_created\<rparr>"

text \<open>\<open>es 0\<close> is the call of \<open>ActiveClaims\<close>, \<open>es 1\<close> the client itself, \<open>es 2\<close> the call of \<open>Append\<close>.\<close>

definition client_Claim ::
  "'s provider \<Rightarrow> string \<Rightarrow> envs \<Rightarrow> claim_request \<Rightarrow> 's \<Rightarrow> (claim_response option \<times> error option) \<times> 's" where
  "client_Claim P ns es req0 s =
     (let req = default_ttl req0
      in case p_ActiveClaims P (es 0) ns (rq_ResourceURI req) s of
           Inl err \<Rightarrow> ((None, Some (ProviderError err)), s)
         | Inr active \<Rightarrow>
             let c = request_claim req (Now (es 1) 0) (Now (es 1) 1);
                 report = CheckConflict c active
             in if HasConflict report then
                  ((Some \<lparr>rs_ClaimID = c_ClaimID c, rs_Conflict = Some report\<rparr>,
                    Some (ConflictError report)), s)
                else
                  (case p_Append P (es 2) ns [new_message MsgClaim (rq_AgentID req) (claim_json c)] s of
                     (Some err, s') \<Rightarrow> ((None, Some (ProviderError err)), s')
                   | (None, s') \<Rightarrow> ((Some \<lparr>rs_ClaimID = c_ClaimID c, rs_Conflict = None\<rparr>, None), s')))"

section \<open>Other messages about a claim\<close>

text \<open>\<open>json.Marshal\<close> writes the keys of a map in sorted order.\<close>

definition client_Release ::
  "'s provider \<Rightarrow> string \<Rightarrow> envs \<Rightarrow> string \<Rightarrow> string \<Rightarrow> 's \<Rightarrow> error option \<times> 's" where
  "client_Release P ns es claimID outcome s =
     p_Append P (es 1) ns [new_message MsgRelease [] (JObj
       [(''claim_id'', JStr claimID), (''outcome'', JStr outcome),
        (''released_at'', time_json (Now (es 0) 0))])] s"

definition client_Heartbeat :: "'s provider \<Rightarrow> string \<Rightarrow> envs \<Rightarrow> string \<Rightarrow> 's \<Rightarrow> error option \<times> 's" where
  "client_Heartbeat P ns es claimID s =
     p_Append P (es 1) ns [new_message MsgHeartbeat [] (JObj
       [(''claim_id'', JStr claimID), (''heartbeat_at'', time_json (Now (es 0) 0))])] s"

definition client_Transfer ::
  "'s provider \<Rightarrow> string \<Rightarrow> envs \<Rightarrow> string \<Rightarrow> string \<Rightarrow> 's \<Rightarrow> error option \<times> 's" where
  "client_Transfer P ns es claimID toAgentID s =
     p_Append P (es 1) ns [new_message MsgTransfer [] (JObj
       [(''claim_id'', JStr claimID), (''to_agent_id'', JStr toAgentID),
        (''transferred_at'', time_json (Now (es 0) 0))])] s"

definition client_UpdateIntent ::
  "'s provider \<Rightarrow> string \<Rightarrow> envs \<Rightarrow> string \<Rightarrow> string \<Rightarrow> 's \<Rightarrow> error option \<times> 's" where
  "client_UpdateIntent P ns es claimID intent s =
     p_Append P (es 1) ns [new_message MsgIntent [] (JObj
       [(''claim_id'', JStr claimID), (''intent'', JStr intent),
        (''updated_at'', time_json (Now (es 0) 0))])] s"

section \<open>Reading\<close>

definition decoded_claims :: "message list \<Rightarrow> claim list" where
  "decoded_claims msgs = List.map_filter
     (\<lambda>m. if m_Type m = MsgClaim then decode_claim (m_Payload m) else None) msgs"

definition client_QueryClaims ::
  "'s provider \<Rightarrow> string \<Rightarrow> env \<Rightarrow> query_opts \<Rightarrow> 's \<Rightarrow> error + claim list" where
  "client_QueryClaims P ns e opts s =
     (case p_Query P e ns opts s of Inl err \<Rightarrow> Inl err | Inr msgs \<Rightarrow> Inr (decoded_claims msgs))"

definition client_CheckConflict ::
  "'s provider \<Rightarrow> string \<Rightarrow> env \<Rightarrow> string \<Rightarrow> string \<Rightarrow> 's \<Rightarrow> error + conflict_report" where
  "client_CheckConflict P ns e resourceURI op s =
     (case p_ActiveClaims P e ns resourceURI s of
        Inl err \<Rightarrow> Inl err
      | Inr active \<Rightarrow> Inr (CheckConflict
          (zero_claim\<lparr>c_ResourceURI := resourceURI, c_Operation := op, c_AgentID := ''_check_''\<rparr>) active))"

definition client_ActiveClaims :: "'s provider \<Rightarrow> string \<Rightarrow> env \<Rightarrow> string \<Rightarrow> 's \<Rightarrow> error + claim list" where
  "client_ActiveClaims P ns e pat s = p_ActiveClaims P e ns pat s"

section \<open>Facts about the messages\<close>

lemma request_claim_simps [simp]:
  "c_ClaimID (request_claim req t u) = generateClaimID t" "c_AgentID (request_claim req t u) = rq_AgentID req"
  "c_ResourceURI (request_claim req t u) = rq_ResourceURI req"
  "c_Operation (request_claim req t u) = rq_Operation req"
  "c_TTLSeconds (request_claim req t u) = rq_TTLSeconds req" "c_CreatedAt (request_claim req t u) = u"
  by (simp_all add: request_claim_def)

lemma default_ttl_simps [simp]:
  "rq_ResourceURI (default_ttl req) = rq_ResourceURI req" "rq_AgentID (default_ttl req) = rq_AgentID req"
  "rq_Operation (default_ttl req) = rq_Operation req"
  "rq_TTLSeconds (default_ttl req) = (if rq_TTLSeconds req = 0 then 300 else rq_TTLSeconds req)"
  by (simp_all add: default_ttl_def)

lemma new_message_simps [simp]:
  "m_Type (new_message ty a p) = ty" "m_AgentID (new_message ty a p) = a"
  "m_Payload (new_message ty a p) = Some p"
  by (simp_all add: new_message_def)

lemma generateClaimID_nonempty [simp]: "generateClaimID t \<noteq> []"
  by (simp add: generateClaimID_def)

text \<open>Ids of instants that fit 64 bits of nanoseconds are unique.\<close>

lemma generateClaimID_inj:
  "nano_range t \<Longrightarrow> nano_range u \<Longrightarrow> generateClaimID t = generateClaimID u \<Longrightarrow> t = u"
  by (auto simp: generateClaimID_def UnixNano_exact dest!: itoa_inj)

lemma fold_name_keys:
  "fold_name ''outcome'' \<noteq> ''claim_id''" "fold_name ''released_at'' \<noteq> ''claim_id''"
  "fold_name ''heartbeat_at'' \<noteq> ''claim_id''" "fold_name ''to_agent_id'' \<noteq> ''claim_id''"
  "fold_name ''transferred_at'' \<noteq> ''claim_id''" "fold_name ''intent'' \<noteq> ''claim_id''"
  "fold_name ''updated_at'' \<noteq> ''claim_id''"
  by (simp_all add: fold_name_def lower_char_def)

text \<open>The back ends return only the claims whose resource matches the requested one. This loses no
  conflict.\<close>

lemma blocks_matches: "blocks a c \<Longrightarrow> ResourceMatchesPattern (c_ResourceURI c) (c_ResourceURI a)"
  by (auto simp: blocks_def ResourceMatchesPattern_def dest: isConflicting_matches)

lemma CheckConflict_prefilter:
  "CheckConflict c (matching_claims (c_ResourceURI c) cs) = CheckConflict c cs"
proof -
  have "filter (\<lambda>a. blocks a c) (matching_claims (c_ResourceURI c) cs) = filter (\<lambda>a. blocks a c) cs"
    unfolding matching_claims_def filter_filter
    by (rule filter_cong) (auto dest: blocks_matches)
  moreover have "(\<exists>a \<in> set (matching_claims (c_ResourceURI c) cs). blocks a c) \<longleftrightarrow> (\<exists>a \<in> set cs. blocks a c)"
    by (auto simp: matching_claims_def dest: blocks_matches)
  ultimately show ?thesis by (simp only: CheckConflict_eq)
qed

section \<open>What the contract gives\<close>

context claim_store
begin

text \<open>The claims that the back end considers active at an instant.\<close>

definition active_at :: "time \<Rightarrow> string \<Rightarrow> 's \<Rightarrow> claim list" where
  "active_at now ns s = FilterActiveClaims now (filter seen (log s ns))"

lemma claim_granted:
  assumes "ok s" "client_Claim P ns es req s = ((Some resp, None), s')"
  shows "let c = request_claim (default_ttl req) (Now (es 1) 0) (Now (es 1) 1) in
    rs_ClaimID resp = c_ClaimID c \<and> rs_Conflict resp = None \<and>
    (\<forall>a \<in> set (active_at (Now (es 0) 0) ns s). \<not> blocks a c) \<and> ok s' \<and>
    (\<exists>m. log s' ns = log s ns @ [m] \<and> m_Type m = MsgClaim \<and> m_Payload m = Some (claim_json c)
      \<and> m_AgentID m = rq_AgentID req \<and> follows (log s ns) m)"
proof -
  let ?req = "default_ttl req"
  let ?c = "request_claim ?req (Now (es 1) 0) (Now (es 1) 1)"
  obtain active where act: "p_ActiveClaims P (es 0) ns (rq_ResourceURI ?req) s = Inr active"
    using assms(2) by (auto simp: client_Claim_def Let_def split: sum.splits)
  have report: "CheckConflict ?c active = CheckConflict ?c (active_at (Now (es 0) 0) ns s)"
    using active_claims [OF assms(1) act] CheckConflict_prefilter [of ?c] by (simp add: active_at_def)
  have free: "\<not> HasConflict (CheckConflict ?c active)"
    using assms(2) act by (auto simp: client_Claim_def Let_def split: if_splits)
  then have app: "p_Append P (es 2) ns [new_message MsgClaim (rq_AgentID ?req) (claim_json ?c)] s = (None, s')"
    and resp: "resp = \<lparr>rs_ClaimID = c_ClaimID ?c, rs_Conflict = None\<rparr>"
    using assms(2) act by (auto simp: client_Claim_def Let_def split: prod.splits option.splits)
  obtain m where "log s' ns = log s ns @ [m]" "follows (log s ns) m" "ok s'"
    "stamped ns (new_message MsgClaim (rq_AgentID ?req) (claim_json ?c)) m"
    using append_one [OF assms(1) app] by blast
  moreover from this(4) have "m_Type m = MsgClaim" "m_Payload m = Some (claim_json ?c)"
    "m_AgentID m = rq_AgentID req" by (simp_all add: stamped_def)
  moreover have "\<forall>a \<in> set (active_at (Now (es 0) 0) ns s). \<not> blocks a ?c"
    using free unfolding report by simp
  ultimately show ?thesis by (auto simp: Let_def resp)
qed

lemma claim_refused:
  assumes "ok s" "client_Claim P ns es req s = ((r, Some err), s')"
  shows "s' = s \<and>
    (\<forall>report. err = ConflictError report \<longrightarrow>
      (let c = request_claim (default_ttl req) (Now (es 1) 0) (Now (es 1) 1) in
        report = CheckConflict c (active_at (Now (es 0) 0) ns s) \<and> Conflicts report \<noteq> [] \<and>
        r = Some \<lparr>rs_ClaimID = c_ClaimID c, rs_Conflict = Some report\<rparr>))"
proof -
  let ?req = "default_ttl req"
  let ?c = "request_claim ?req (Now (es 1) 0) (Now (es 1) 1)"
  show ?thesis
  proof (cases "p_ActiveClaims P (es 0) ns (rq_ResourceURI ?req) s")
    case (Inl e)
    with assms(2) show ?thesis by (auto simp: client_Claim_def Let_def)
  next
    case (Inr active)
    have report: "CheckConflict ?c active = CheckConflict ?c (active_at (Now (es 0) 0) ns s)"
      using active_claims [OF assms(1) Inr] CheckConflict_prefilter [of ?c] by (simp add: active_at_def)
    show ?thesis
    proof (cases "HasConflict (CheckConflict ?c active)")
      case True
      then have "Conflicts (CheckConflict ?c active) \<noteq> []"
        by (simp add: CheckConflict_eq filter_empty_conv)
      with assms(2) Inr True report show ?thesis by (auto simp: client_Claim_def Let_def)
    next
      case False
      with assms(2) Inr obtain e where
        "p_Append P (es 2) ns [new_message MsgClaim (rq_AgentID ?req) (claim_json ?c)] s = (Some e, s')"
        and err: "err = ProviderError e"
        by (auto simp: client_Claim_def Let_def split: prod.splits option.splits)
      from append_atomic [OF assms(1) this(1)] err show ?thesis by simp
    qed
  qed
qed

lemma append_active:
  assumes "log s' ns = log s ns @ [m]" "seen m"
  shows "active_at now ns s' = FilterActiveClaims now (filter seen (log s ns) @ [m])"
  using assms by (simp add: active_at_def)

lemma append_unseen:
  assumes "log s' ns = log s ns @ [m]" "\<not> seen m"
  shows "active_at now ns s' = active_at now ns s"
  using assms by (simp add: active_at_def)

text \<open>A granted claim is active from its creation to the end of its TTL.\<close>

lemma granted_active:
  assumes "ok s" "client_Claim P ns es req s = ((Some resp, None), s')"
    and "claim_ok (request_claim (default_ttl req) (Now (es 1) 0) (Now (es 1) 1))"
    and "release_offsets (log s ns) (rs_ClaimID resp) = []"
    and "now \<le> Now (es 1) 1 + seconds (rq_TTLSeconds (default_ttl req))"
  shows "request_claim (default_ttl req) (Now (es 1) 0) (Now (es 1) 1) \<in> set (active_at now ns s')"
proof -
  let ?c = "request_claim (default_ttl req) (Now (es 1) 0) (Now (es 1) 1)"
  obtain m where m: "rs_ClaimID resp = c_ClaimID ?c" "log s' ns = log s ns @ [m]" "m_Type m = MsgClaim"
      "m_Payload m = Some (claim_json ?c)"
    using claim_granted [OF assms(1,2)] by (auto simp: Let_def)
  have seen: "seen m" using m(3) by (intro seen_types) simp
  let ?L = "filter seen (log s ns) @ [m]"
  have "(m_Offset m, ?c) \<in> set (claim_entries ?L)"
    using m(3,4) decode_claim_json [OF assms(3)] by simp
  moreover have "release_offsets ?L (c_ClaimID ?c) = []"
    using assms(4) m(1,3) by (auto simp: release_offsets_def filter_empty_conv is_release_def)
  then have "\<not> released_in ?L (m_Offset m) ?c" by (simp add: released_in_def)
  moreover have "now \<le> deadline ?L ?c" using assms(5) by (subst le_deadline_iff) simp
  ultimately show ?thesis
    unfolding append_active [OF m(2) seen] FilterActiveClaims_iff live_def by auto
qed

lemma release_effect:
  assumes "ok s" "p_Append P e ns [m] s = (None, s')" "is_release m"
    and "decode_ref (m_Payload m) = Some cid" "cid \<noteq> []" "no_early_release (filter seen (log s ns)) cid"
  shows "active_at now ns s' = filter (\<lambda>c. c_ClaimID c \<noteq> cid) (active_at now ns s)"
proof -
  obtain m' where m': "log s' ns = log s ns @ [m']" "stamped ns m m'" "follows (log s ns) m'"
    using append_one [OF assms(1,2)] by blast
  have rel: "is_release m'" "decode_ref (m_Payload m') = Some cid"
    using m'(2) assms(3,4) by (simp_all add: stamped_def is_release_def)
  then have "seen m'" by (intro seen_types) (auto simp: is_release_def)
  from append_active [OF m'(1) this]
    FilterActiveClaims_release [OF rel assms(5) follows_seen [OF m'(3)] assms(6)]
  show ?thesis by (simp add: active_at_def)
qed

end

lemma client_payload_ref:
  "decode_ref (Some (JObj [(''claim_id'', JStr cid), (''outcome'', v), (''released_at'', w)])) = Some cid"
  "decode_ref (Some (JObj [(''claim_id'', JStr cid), (''to_agent_id'', v), (''transferred_at'', w)])) = Some cid"
  "decode_ref (Some (JObj [(''claim_id'', JStr cid), (''heartbeat_at'', w)])) = Some cid"
  "decode_ref (Some (JObj [(''claim_id'', JStr cid), (''intent'', v), (''updated_at'', w)])) = Some cid"
  by (rule decode_ref_first; use fold_name_keys in auto)+

context claim_store
begin

lemma client_release_effect:
  assumes "ok s" "client_Release P ns es cid outcome s = (None, s')"
    and "cid \<noteq> []" "no_early_release (filter seen (log s ns)) cid"
  shows "active_at now ns s' = filter (\<lambda>c. c_ClaimID c \<noteq> cid) (active_at now ns s)"
  using release_effect [OF assms(1) assms(2) [unfolded client_Release_def] _ _ assms(3,4)]
  by (simp add: is_release_def client_payload_ref)

lemma client_transfer_effect:
  assumes "ok s" "client_Transfer P ns es cid to s = (None, s')"
    and "cid \<noteq> []" "no_early_release (filter seen (log s ns)) cid"
  shows "active_at now ns s' = filter (\<lambda>c. c_ClaimID c \<noteq> cid) (active_at now ns s)"
  using release_effect [OF assms(1) assms(2) [unfolded client_Transfer_def] _ _ assms(3,4)]
  by (simp add: is_release_def client_payload_ref)

end

end
