(* ===== verification/MemoryProvider.thy ===== *)
theory MemoryProvider
  imports ProviderIface
begin

text \<open>
  The in-memory back end, \<open>internal/memory/memory.go\<close>: a struct of Go maps behind a mutex, so
  each operation runs alone. Tasks, histories and artifacts are stored under the key
  \<open>namespace + "/" + id\<close>; messages, mailboxes and audit events under the namespace. Offsets are
  counted from 1 without gaps, which is the invariant \<open>mem_ok\<close>.
\<close>

section \<open>The state\<close>

record memory =
  mem_namespaces :: "string \<rightharpoonup> namespace"
  mem_messages :: "string \<rightharpoonup> message list"
  mem_offsets :: "string \<rightharpoonup> int"
  mem_mailbox :: "string \<rightharpoonup> mailbox_message list"
  mem_tasks :: "string \<rightharpoonup> a2a_task"
  mem_history :: "string \<rightharpoonup> a2a_message list"
  mem_artifacts :: "string \<rightharpoonup> a2a_artifact list"
  mem_audit :: "string \<rightharpoonup> audit_event list"

definition mem_New :: memory where
  "mem_New = \<lparr>mem_namespaces = Map.empty, mem_messages = Map.empty, mem_offsets = Map.empty,
     mem_mailbox = Map.empty, mem_tasks = Map.empty, mem_history = Map.empty,
     mem_artifacts = Map.empty, mem_audit = Map.empty\<rparr>"

definition mem_log :: "memory \<Rightarrow> string \<Rightarrow> message list" where
  "mem_log s ns = go_get [] (mem_messages s) ns"

section \<open>Namespaces\<close>

definition mem_CreateNamespace :: "env \<Rightarrow> namespace \<Rightarrow> memory \<Rightarrow> error option \<times> memory" where
  "mem_CreateNamespace e ns s =
     (if mem_namespaces s (ns_ID ns) \<noteq> None then
        (Some (Errorf (''namespace '' @ ns_ID ns @ '' already exists'')), s)
      else (None, s\<lparr>mem_namespaces := (mem_namespaces s)(ns_ID ns \<mapsto> ns),
                    mem_messages := (mem_messages s)(ns_ID ns \<mapsto> []),
                    mem_offsets := (mem_offsets s)(ns_ID ns \<mapsto> 0)\<rparr>))"

text \<open>The keys of the task maps that start with \<open>namespaceID + "/"\<close> and are longer.\<close>

definition key_in :: "string \<Rightarrow> string \<Rightarrow> bool" where
  "key_in namespaceID k \<longleftrightarrow>
     length k > length (namespaceID @ ''/'') \<and>
     take (length (namespaceID @ ''/'')) k = namespaceID @ ''/''"

text \<open>The loop over the keys of \<open>a2aTasks\<close> deletes the histories and artifacts of those keys only.\<close>

definition mem_DeleteNamespace :: "env \<Rightarrow> string \<Rightarrow> memory \<Rightarrow> error option \<times> memory" where
  "mem_DeleteNamespace e namespaceID s =
     (let gone = (\<lambda>k. mem_tasks s k \<noteq> None \<and> key_in namespaceID k)
      in (None, s\<lparr>mem_namespaces := (mem_namespaces s)(namespaceID := None),
                  mem_messages := (mem_messages s)(namespaceID := None),
                  mem_offsets := (mem_offsets s)(namespaceID := None),
                  mem_mailbox := (mem_mailbox s)(namespaceID := None),
                  mem_tasks := (\<lambda>k. if gone k then None else mem_tasks s k),
                  mem_history := (\<lambda>k. if gone k then None else mem_history s k),
                  mem_artifacts := (\<lambda>k. if gone k then None else mem_artifacts s k)\<rparr>))"

section \<open>The message log\<close>

fun mem_append_loop :: "env \<Rightarrow> string \<Rightarrow> nat \<Rightarrow> message list \<Rightarrow> memory \<Rightarrow> memory" where
  "mem_append_loop e namespaceID i [] s = s"
| "mem_append_loop e namespaceID i (m # msgs) s =
     (let off = go_get 0 (mem_offsets s) namespaceID + 1;
          m' = m\<lparr>m_Offset := off, m_Namespace := namespaceID, m_Timestamp := Now e i\<rparr>
      in mem_append_loop e namespaceID (Suc i) msgs
           (s\<lparr>mem_offsets := (mem_offsets s)(namespaceID \<mapsto> off),
              mem_messages := (mem_messages s)(namespaceID \<mapsto>
                go_get [] (mem_messages s) namespaceID @ [m'])\<rparr>))"

definition mem_Append :: "env \<Rightarrow> string \<Rightarrow> message list \<Rightarrow> memory \<Rightarrow> error option \<times> memory" where
  "mem_Append e namespaceID msgs s = (None, mem_append_loop e namespaceID 0 msgs s)"

definition containsType :: "string list \<Rightarrow> string \<Rightarrow> bool" where
  "containsType types t = list_ex (\<lambda>tt. tt = t) types"

fun query_loop :: "query_opts \<Rightarrow> message list \<Rightarrow> message list \<Rightarrow> message list" where
  "query_loop opts [] result = result"
| "query_loop opts (m # msgs) result =
     (if m_Offset m \<le> q_Since opts then query_loop opts msgs result
      else if length (q_Types opts) > 0 \<and> \<not> containsType (q_Types opts) (m_Type m) then
        query_loop opts msgs result
      else if q_AgentID opts \<noteq> [] \<and> m_AgentID m \<noteq> q_AgentID opts then query_loop opts msgs result
      else let result' = result @ [m]
           in if q_Limit opts > 0 \<and> int (length result') \<ge> q_Limit opts then result'
              else query_loop opts msgs result')"

definition mem_Query :: "env \<Rightarrow> string \<Rightarrow> query_opts \<Rightarrow> memory \<Rightarrow> error + message list" where
  "mem_Query e namespaceID opts s = Inr (query_loop opts (mem_log s namespaceID) [])"

definition mem_ActiveClaims :: "env \<Rightarrow> string \<Rightarrow> string \<Rightarrow> memory \<Rightarrow> error + claim list" where
  "mem_ActiveClaims e namespaceID resourcePattern s =
     (case mem_Query e namespaceID no_opts s of
        Inl err \<Rightarrow> Inl err
      | Inr msgs \<Rightarrow> Inr (matching_claims resourcePattern (FilterActiveClaims (Now e 0) msgs)))"

definition mem_AgentState :: "env \<Rightarrow> string \<Rightarrow> string \<Rightarrow> memory \<Rightarrow> error + agent_state" where
  "mem_AgentState e namespaceID agentID s =
     (case mem_Query e namespaceID no_opts s of
        Inl err \<Rightarrow> Inl err
      | Inr msgs \<Rightarrow> Inr (agent_state_of (Now e 0) agentID msgs))"

definition mem_ReleaseExpired :: "env \<Rightarrow> string \<Rightarrow> time \<Rightarrow> memory \<Rightarrow> error option \<times> memory" where
  "mem_ReleaseExpired e namespaceID before s = (None, s)"

section \<open>The mailbox\<close>

definition mem_SendMessage :: "env \<Rightarrow> string \<Rightarrow> mailbox_message \<Rightarrow> memory \<Rightarrow> error option \<times> memory" where
  "mem_SendMessage e namespace msg s =
     (None, s\<lparr>mem_mailbox := (mem_mailbox s)(namespace \<mapsto>
        go_get [] (mem_mailbox s) namespace @ [fill_times (Now e 0) msg])\<rparr>)"

fun mailbox_loop :: "time \<Rightarrow> string \<Rightarrow> mailbox_query_opts \<Rightarrow> mailbox_message list \<Rightarrow> mailbox_message list" where
  "mailbox_loop now agentID opts [] = []"
| "mailbox_loop now agentID opts (m # ms) =
     (if mb_Archived m \<or> mb_ExpiresAt m < now then mailbox_loop now agentID opts ms
      else if mb_To m \<noteq> agentID \<and> mb_To m \<noteq> MailboxToBroadcast then mailbox_loop now agentID opts ms
      else if mq_Unread opts \<and> mb_Read m then mailbox_loop now agentID opts ms
      else m # mailbox_loop now agentID opts ms)"

definition mem_GetMailbox ::
  "env \<Rightarrow> string \<Rightarrow> string \<Rightarrow> mailbox_query_opts \<Rightarrow> memory \<Rightarrow> error + mailbox_message list" where
  "mem_GetMailbox e namespace agentID opts s =
     (let found = mailbox_loop (Now e 0) agentID opts (go_get [] (mem_mailbox s) namespace);
          result = sort_slice (Tie e) (\<lambda>m. - mb_CreatedAt m) found
      in Inr (if mq_Limit opts > 0 \<and> int (length result) > mq_Limit opts
              then take (nat (mq_Limit opts)) result else result))"

text \<open>The loop that updates the first message with the id: \<open>None\<close> if there is none.\<close>

fun update_message ::
  "(mailbox_message \<Rightarrow> mailbox_message) \<Rightarrow> string \<Rightarrow> mailbox_message list \<Rightarrow> mailbox_message list option" where
  "update_message f messageID [] = None"
| "update_message f messageID (m # ms) =
     (if mb_MessageID m = messageID then Some (f m # ms)
      else map_option (\<lambda>ms'. m # ms') (update_message f messageID ms))"

definition mem_MarkRead :: "env \<Rightarrow> string \<Rightarrow> string \<Rightarrow> memory \<Rightarrow> error option \<times> memory" where
  "mem_MarkRead e namespace messageID s =
     (case update_message (mb_Read_update (\<lambda>_. True)) messageID (go_get [] (mem_mailbox s) namespace) of
        Some ms \<Rightarrow> (None, s\<lparr>mem_mailbox := (mem_mailbox s)(namespace \<mapsto> ms)\<rparr>)
      | None \<Rightarrow> (Some (Errorf (''message '' @ messageID @ '' not found'')), s))"

definition mem_ArchiveMessage :: "env \<Rightarrow> string \<Rightarrow> string \<Rightarrow> memory \<Rightarrow> error option \<times> memory" where
  "mem_ArchiveMessage e namespace messageID s =
     (case update_message (mb_Archived_update (\<lambda>_. True)) messageID (go_get [] (mem_mailbox s) namespace) of
        Some ms \<Rightarrow> (None, s\<lparr>mem_mailbox := (mem_mailbox s)(namespace \<mapsto> ms)\<rparr>)
      | None \<Rightarrow> (Some (Errorf (''message '' @ messageID @ '' not found'')), s))"

definition mem_ExpireMessages :: "env \<Rightarrow> string \<Rightarrow> time \<Rightarrow> memory \<Rightarrow> error option \<times> memory" where
  "mem_ExpireMessages e namespace before s =
     (None, s\<lparr>mem_mailbox := (mem_mailbox s)(namespace \<mapsto>
        filter (\<lambda>m. \<not> mb_ExpiresAt m < before) (go_get [] (mem_mailbox s) namespace))\<rparr>)"

section \<open>Tasks\<close>

definition task_key :: "string \<Rightarrow> string \<Rightarrow> string" where
  "task_key namespace taskID = namespace @ ''/'' @ taskID"

definition mem_CreateTask :: "env \<Rightarrow> string \<Rightarrow> a2a_task \<Rightarrow> memory \<Rightarrow> error option \<times> memory" where
  "mem_CreateTask e namespace t s =
     (let key = task_key namespace (t_ID t)
      in if mem_tasks s key \<noteq> None then
           (Some (Errorf (''task '' @ t_ID t @ '' already exists'')), s)
         else (None, s\<lparr>mem_tasks := (mem_tasks s)(key \<mapsto> t)\<rparr>))"

definition mem_GetTask :: "env \<Rightarrow> string \<Rightarrow> string \<Rightarrow> memory \<Rightarrow> error + a2a_task" where
  "mem_GetTask e namespace taskID s =
     (case mem_tasks s (task_key namespace taskID) of
        None \<Rightarrow> Inl (Errorf (''task '' @ taskID @ '' not found''))
      | Some t \<Rightarrow> Inr t)"

definition mem_UpdateTask :: "env \<Rightarrow> string \<Rightarrow> a2a_task \<Rightarrow> memory \<Rightarrow> error option \<times> memory" where
  "mem_UpdateTask e namespace t s =
     (let key = task_key namespace (t_ID t)
      in if mem_tasks s key = None then (Some (Errorf (''task '' @ t_ID t @ '' not found'')), s)
         else (None, s\<lparr>mem_tasks := (mem_tasks s)(key \<mapsto> t)\<rparr>))"

definition mem_AppendTaskHistory ::
  "env \<Rightarrow> string \<Rightarrow> string \<Rightarrow> int \<Rightarrow> a2a_message \<Rightarrow> memory \<Rightarrow> error option \<times> memory" where
  "mem_AppendTaskHistory e namespace taskID seq msg s =
     (let key = task_key namespace taskID
      in (None, s\<lparr>mem_history := (mem_history s)(key \<mapsto> go_get [] (mem_history s) key @ [msg])\<rparr>))"

definition mem_GetTaskHistory ::
  "env \<Rightarrow> string \<Rightarrow> string \<Rightarrow> int \<Rightarrow> memory \<Rightarrow> error + a2a_message list" where
  "mem_GetTaskHistory e namespace taskID limit s =
     (let hist = go_get [] (mem_history s) (task_key namespace taskID)
      in Inr (if limit > 0 \<and> int (length hist) > limit then take (nat limit) hist else hist))"

definition mem_CreateArtifact ::
  "env \<Rightarrow> string \<Rightarrow> string \<Rightarrow> a2a_artifact \<Rightarrow> memory \<Rightarrow> error option \<times> memory" where
  "mem_CreateArtifact e namespace taskID art s =
     (let key = task_key namespace taskID
      in (None, s\<lparr>mem_artifacts := (mem_artifacts s)(key \<mapsto> go_get [] (mem_artifacts s) key @ [art])\<rparr>))"

definition mem_GetArtifacts :: "env \<Rightarrow> string \<Rightarrow> string \<Rightarrow> memory \<Rightarrow> error + a2a_artifact list" where
  "mem_GetArtifacts e namespace taskID s =
     Inr (go_get [] (mem_artifacts s) (task_key namespace taskID))"

definition mem_AppendAudit ::
  "env \<Rightarrow> string \<Rightarrow> audit_event list \<Rightarrow> memory \<Rightarrow> error option \<times> memory" where
  "mem_AppendAudit e namespaceID events s =
     (None, s\<lparr>mem_audit := (mem_audit s)(namespaceID \<mapsto> go_get [] (mem_audit s) namespaceID @ events)\<rparr>)"

definition memory_provider :: "memory provider" where
  "memory_provider = \<lparr>p_CreateNamespace = mem_CreateNamespace,
     p_DeleteNamespace = mem_DeleteNamespace, p_Append = mem_Append, p_Query = mem_Query,
     p_ActiveClaims = mem_ActiveClaims, p_AgentState = mem_AgentState,
     p_ReleaseExpired = mem_ReleaseExpired, p_SendMessage = mem_SendMessage,
     p_GetMailbox = mem_GetMailbox, p_MarkRead = mem_MarkRead,
     p_ArchiveMessage = mem_ArchiveMessage, p_ExpireMessages = mem_ExpireMessages,
     p_CreateTask = mem_CreateTask, p_GetTask = mem_GetTask, p_UpdateTask = mem_UpdateTask,
     p_AppendTaskHistory = mem_AppendTaskHistory, p_GetTaskHistory = mem_GetTaskHistory,
     p_CreateArtifact = mem_CreateArtifact, p_GetArtifacts = mem_GetArtifacts,
     p_AppendAudit = mem_AppendAudit\<rparr>"

lemma memory_provider_simps [simp]:
  "p_CreateNamespace memory_provider = mem_CreateNamespace" "p_DeleteNamespace memory_provider = mem_DeleteNamespace"
  "p_Append memory_provider = mem_Append" "p_Query memory_provider = mem_Query"
  "p_ActiveClaims memory_provider = mem_ActiveClaims" "p_AgentState memory_provider = mem_AgentState"
  "p_ReleaseExpired memory_provider = mem_ReleaseExpired" "p_SendMessage memory_provider = mem_SendMessage"
  "p_GetMailbox memory_provider = mem_GetMailbox" "p_MarkRead memory_provider = mem_MarkRead"
  "p_ArchiveMessage memory_provider = mem_ArchiveMessage" "p_ExpireMessages memory_provider = mem_ExpireMessages"
  "p_CreateTask memory_provider = mem_CreateTask" "p_GetTask memory_provider = mem_GetTask"
  "p_UpdateTask memory_provider = mem_UpdateTask" "p_AppendTaskHistory memory_provider = mem_AppendTaskHistory"
  "p_GetTaskHistory memory_provider = mem_GetTaskHistory" "p_CreateArtifact memory_provider = mem_CreateArtifact"
  "p_GetArtifacts memory_provider = mem_GetArtifacts" "p_AppendAudit memory_provider = mem_AppendAudit"
  by (simp_all add: memory_provider_def)

section \<open>The log\<close>

text \<open>The messages as they are stored, numbered from \<open>off + 1\<close>, with the i-th clock reading on.\<close>

fun stamp_from :: "env \<Rightarrow> string \<Rightarrow> nat \<Rightarrow> int \<Rightarrow> message list \<Rightarrow> message list" where
  "stamp_from e ns i off [] = []"
| "stamp_from e ns i off (m # msgs) =
     m\<lparr>m_Offset := off + 1, m_Namespace := ns, m_Timestamp := Now e i\<rparr>
       # stamp_from e ns (Suc i) (off + 1) msgs"

lemma length_stamp_from [simp]: "length (stamp_from e ns i off msgs) = length msgs"
  by (induction msgs arbitrary: i off) auto

lemma offsets_stamp_from: "map m_Offset (stamp_from e ns i off msgs) = [off + 1..off + int (length msgs)]"
  by (induction msgs arbitrary: i off) (auto simp: upto_rec1 algebra_simps)

lemma stamped_stamp_from: "list_all2 (stamped ns) msgs (stamp_from e ns i off msgs)"
  by (induction msgs arbitrary: i off) (auto simp: stamped_def)

definition mem_ok :: "memory \<Rightarrow> bool" where
  "mem_ok s \<longleftrightarrow> (\<forall>ns. map m_Offset (mem_log s ns) = [1..go_get 0 (mem_offsets s) ns]
     \<and> 0 \<le> go_get 0 (mem_offsets s) ns)"

lemma mem_append_loop_log:
  "mem_log (mem_append_loop e ns i msgs s) ns' =
     (if ns' = ns then mem_log s ns @ stamp_from e ns i (go_get 0 (mem_offsets s) ns) msgs
      else mem_log s ns')"
  by (induction msgs arbitrary: i s) (simp_all add: Let_def mem_log_def)

lemma mem_append_loop_offsets:
  "go_get 0 (mem_offsets (mem_append_loop e ns i msgs s)) ns' =
     go_get 0 (mem_offsets s) ns' + (if ns' = ns then int (length msgs) else 0)"
  by (induction msgs arbitrary: i s) (simp_all add: Let_def)

lemma upto_append: "0 \<le> (k::int) \<Longrightarrow> [1..k] @ [k + 1..k + int n] = [1..k + int n]"
  by (cases "k = 0") (simp_all add: upto_split2 [of 1 k "k + int n"])

lemma mem_ok_Append: "mem_ok s \<Longrightarrow> mem_ok (snd (mem_Append e ns msgs s))"
  by (simp add: mem_ok_def mem_Append_def mem_append_loop_log mem_append_loop_offsets
      offsets_stamp_from upto_append)

lemma mem_ok_New: "mem_ok mem_New"
  by (simp add: mem_ok_def mem_New_def mem_log_def)

lemma mem_ok_CreateNamespace: "mem_ok s \<Longrightarrow> mem_ok (snd (mem_CreateNamespace e ns s))"
  by (simp add: mem_ok_def mem_CreateNamespace_def mem_log_def)

lemma mem_ok_DeleteNamespace: "mem_ok s \<Longrightarrow> mem_ok (snd (mem_DeleteNamespace e ns s))"
  by (simp add: mem_ok_def mem_DeleteNamespace_def mem_log_def Let_def)

lemma increasing_upto: "map m_Offset msgs = [i..j] \<Longrightarrow> increasing msgs"
  by (simp add: increasing_def)

lemma mem_ok_increasing: "mem_ok s \<Longrightarrow> increasing (mem_log s ns)"
  by (auto simp: mem_ok_def intro: increasing_upto)

section \<open>Subscriptions\<close>

definition messageTypeToEventType :: "string \<Rightarrow> string" where
  "messageTypeToEventType t =
     (if t = MsgClaim then EventClaim
      else if t = MsgRelease \<or> t = MsgTransfer then EventRelease
      else if t = MsgHeartbeat then EventHeartbeat
      else if t = MsgMailboxSend \<or> t = MsgMailboxRead \<or> t = MsgMailboxArchive then EventMailbox
      else t)"

definition mem_event :: "message \<Rightarrow> event" where
  "mem_event m = \<lparr>ev_Seq = m_Offset m, ev_Type = messageTypeToEventType (m_Type m),
     ev_Payload = m_Payload m, ev_Timestamp = m_Timestamp m\<rparr>"

text \<open>
  The loops of \<open>SubscribeEvents\<close>. \<open>cancelled i\<close> says that the i-th \<open>select\<close> of the loop takes
  the branch \<open>ctx.Done()\<close>. The result: the events sent, the sequence number to go on from, and
  whether the stream ends. The replay compares with the caller's \<open>since\<close>, the stream with the
  number of the last event sent.
\<close>

fun mem_replay_loop :: "(nat \<Rightarrow> bool) \<Rightarrow> int \<Rightarrow> nat \<Rightarrow> message list \<Rightarrow> int \<Rightarrow> event list \<times> int \<times> bool" where
  "mem_replay_loop cancelled since i [] currentSeq = ([], currentSeq, False)"
| "mem_replay_loop cancelled since i (m # msgs) currentSeq =
     (if m_Offset m \<le> since then mem_replay_loop cancelled since i msgs currentSeq
      else if cancelled i then ([], currentSeq, True)
      else case mem_replay_loop cancelled since (Suc i) msgs (m_Offset m) of
        (evs, s, stop) \<Rightarrow> (mem_event m # evs, s, stop))"

fun mem_stream_loop :: "(nat \<Rightarrow> bool) \<Rightarrow> nat \<Rightarrow> message list \<Rightarrow> int \<Rightarrow> event list \<times> int \<times> bool" where
  "mem_stream_loop cancelled i [] since = ([], since, False)"
| "mem_stream_loop cancelled i (m # msgs) since =
     (if m_Offset m \<le> since then mem_stream_loop cancelled i msgs since
      else if cancelled i then ([], since, True)
      else case mem_stream_loop cancelled (Suc i) msgs (m_Offset m) of
        (evs, s, stop) \<Rightarrow> (mem_event m # evs, s, stop))"

text \<open>The whole goroutine: the replay of the first state, then one poll for each later state.\<close>

fun mem_stream :: "(nat \<Rightarrow> nat \<Rightarrow> bool) \<Rightarrow> nat \<Rightarrow> string \<Rightarrow> memory list \<Rightarrow> int \<Rightarrow> event list" where
  "mem_stream cancelled k ns [] since = []"
| "mem_stream cancelled k ns (s # ss) since =
     (case mem_stream_loop (cancelled k) 0 (mem_log s ns) since of
        (evs, since', stop) \<Rightarrow>
          evs @ (if stop then [] else mem_stream cancelled (Suc k) ns ss since'))"

definition mem_SubscribeEvents ::
  "(nat \<Rightarrow> nat \<Rightarrow> bool) \<Rightarrow> string \<Rightarrow> memory \<Rightarrow> memory list \<Rightarrow> int \<Rightarrow> event list" where
  "mem_SubscribeEvents cancelled ns s polls since =
     (case mem_replay_loop (cancelled 0) since 0 (mem_log s ns) since of
        (evs, since', stop) \<Rightarrow>
          evs @ (if stop then [] else mem_stream cancelled 1 ns polls since'))"

text \<open>One round of the loop of \<open>Subscribe\<close>, and the loop over the states it polls.\<close>

fun mem_send_loop :: "(nat \<Rightarrow> bool) \<Rightarrow> nat \<Rightarrow> message list \<Rightarrow> int \<Rightarrow> message list \<times> int \<times> bool" where
  "mem_send_loop cancelled i [] offset = ([], offset, False)"
| "mem_send_loop cancelled i (m # msgs) offset =
     (if cancelled i then ([], offset, True)
      else case mem_send_loop cancelled (Suc i) msgs (m_Offset m) of
        (sent, off, stop) \<Rightarrow> (m # sent, off, stop))"

fun mem_Subscribe :: "(nat \<Rightarrow> nat \<Rightarrow> bool) \<Rightarrow> nat \<Rightarrow> string \<Rightarrow> memory list \<Rightarrow> int \<Rightarrow> message list" where
  "mem_Subscribe cancelled k ns [] offset = []"
| "mem_Subscribe cancelled k ns (s # ss) offset =
     (case mem_Query (calm 0) ns (no_opts\<lparr>q_Since := offset\<rparr>) s of
        Inl err \<Rightarrow> mem_Subscribe cancelled (Suc k) ns ss offset
      | Inr msgs \<Rightarrow>
          (case mem_send_loop (cancelled k) 0 msgs offset of
             (sent, off, stop) \<Rightarrow>
               sent @ (if stop then [] else mem_Subscribe cancelled (Suc k) ns ss off)))"

end
