(* ===== verification/MemoryFacts.thy ===== *)
theory MemoryFacts
  imports MemoryProvider Client
begin

text \<open>
  The in-memory back end keeps the contract of theory \<open>ProviderIface\<close>, and what its mailbox,
  tasks, namespaces and event streams do. Code: \<open>internal/memory/memory.go\<close>.
\<close>

section \<open>The contract\<close>

lemma query_loop_eq:
  "q_Limit opts > 0 \<longrightarrow> int (length res) < q_Limit opts \<Longrightarrow>
   query_loop opts msgs res =
     res @ (if q_Limit opts > 0 then take (nat (q_Limit opts) - length res) else (\<lambda>xs. xs))
       (filter (query_matches opts) msgs)"
proof (induction msgs arbitrary: res)
  case (Cons m msgs)
  show ?case
  proof (cases "query_matches opts m")
    case False
    with Cons show ?thesis
      by (auto simp: query_matches_def containsType_def list_ex_iff not_less)
  next
    case True
    then have skip: "\<not> m_Offset m \<le> q_Since opts"
      "\<not> (length (q_Types opts) > 0 \<and> \<not> containsType (q_Types opts) (m_Type m))"
      "\<not> (q_AgentID opts \<noteq> [] \<and> m_AgentID m \<noteq> q_AgentID opts)"
      by (auto simp: query_matches_def containsType_def list_ex_iff)
    have loop: "query_loop opts (m # msgs) res =
        (if q_Limit opts > 0 \<and> int (length (res @ [m])) \<ge> q_Limit opts then res @ [m]
         else query_loop opts msgs (res @ [m]))"
      using skip by (simp only: query_loop.simps if_False Let_def)
    show ?thesis
    proof (cases "q_Limit opts > 0 \<and> int (length (res @ [m])) \<ge> q_Limit opts")
      case True
      with Cons.prems have "nat (q_Limit opts) - length res = 1" by auto
      with True \<open>query_matches opts m\<close> show ?thesis unfolding loop by simp
    next
      case False
      then have "q_Limit opts > 0 \<longrightarrow> int (length (res @ [m])) < q_Limit opts" by auto
      note step = Cons.IH [OF this]
      show ?thesis
      proof (cases "q_Limit opts > 0")
        case True
        with Cons.prems have "nat (q_Limit opts) - length res = Suc (nat (q_Limit opts) - length (res @ [m]))"
          by auto
        with True False step \<open>query_matches opts m\<close> show ?thesis unfolding loop by simp
      next
        case unlimited: False
        with False step \<open>query_matches opts m\<close> show ?thesis unfolding loop by simp
      qed
    qed
  qed
qed simp

lemma mem_Query_eq: "mem_Query e ns opts s = Inr (query_result opts (mem_log s ns))"
  by (simp add: mem_Query_def query_loop_eq query_result_def limited_def)

lemma mem_ok_positive: "mem_ok s \<Longrightarrow> m \<in> set (mem_log s ns) \<Longrightarrow> 0 < m_Offset m"
proof -
  assume "mem_ok s" "m \<in> set (mem_log s ns)"
  then have "m_Offset m \<in> set [1..go_get 0 (mem_offsets s) ns]"
    unfolding mem_ok_def by (metis imageI list.set_map)
  then show ?thesis by simp
qed

lemma mem_Query_all: "mem_ok s \<Longrightarrow> mem_Query e ns no_opts s = Inr (mem_log s ns)"
  by (simp add: mem_Query_eq query_result_no_opts mem_ok_positive)

lemma mem_Append_log:
  "mem_log (snd (mem_Append e ns msgs s)) ns' =
     (if ns' = ns then mem_log s ns @ stamp_from e ns 0 (go_get 0 (mem_offsets s) ns) msgs
      else mem_log s ns')"
  by (simp add: mem_Append_def mem_append_loop_log)

lemma mem_New_simps [simp]: "mem_log mem_New ns = []" "go_get 0 (mem_offsets mem_New) ns = 0"
  by (simp_all add: mem_New_def mem_log_def)

interpretation mem: query_store memory_provider mem_log mem_ok "\<lambda>_. True"
proof (unfold_locales, goal_cases)
  case (1 s ns)
  then show ?case by (rule mem_ok_increasing)
next
  case (2 s e ns msgs s')
  then have "s' = snd (mem_Append e ns msgs s)" by (simp add: mem_Append_def)
  with 2 mem_ok_Append [of s e ns msgs] mem_Append_log [of e ns msgs s ns] stamped_stamp_from
  show ?case by auto
next
  case (3 s e ns msgs r s' ns')
  then have "s' = snd (mem_Append e ns msgs s)" by (simp add: mem_Append_def)
  with 3 show ?case by (simp add: mem_Append_log)
next
  case (4 s e ns msgs err s')
  then show ?case by (simp add: mem_Append_def)
next
  case (5 s e ns pat cs)
  then show ?case by (simp add: mem_ActiveClaims_def mem_Query_all)
next
  case (6 m)
  show ?case by simp
next
  case (7 s e ns opts ms)
  then show ?case by (simp add: mem_Query_eq)
qed

text \<open>An append to the in-memory log stores the messages behind the old ones, in
  order, with consecutive offsets from the next free one, the namespace, and one clock reading
  each, and it touches no other namespace.\<close>

theorem memory_append:
  assumes "mem_ok s"
  shows "let s' = snd (mem_Append e ns msgs s); n = int (length (mem_log s ns)) in
    mem_log s' ns = mem_log s ns @ stamp_from e ns 0 n msgs \<and>
    map m_Offset (mem_log s' ns) = [1..n + int (length msgs)] \<and>
    (\<forall>ns'. ns' = ns \<or> mem_log s' ns' = mem_log s ns') \<and> mem_ok s'"
proof -
  have "map m_Offset (mem_log s ns) = [1..go_get 0 (mem_offsets s) ns]" "0 \<le> go_get 0 (mem_offsets s) ns"
    using assms by (simp_all add: mem_ok_def)
  from arg_cong [OF this(1), of length] this(2)
  have n: "go_get 0 (mem_offsets s) ns = int (length (mem_log s ns))" by simp
  have "map m_Offset (mem_log s ns) = [1..int (length (mem_log s ns))]"
    using assms n by (simp add: mem_ok_def)
  then show ?thesis
    using mem_ok_Append [OF assms]
    by (simp add: Let_def mem_Append_log n offsets_stamp_from upto_append)
qed

theorem memory_append_witness:
  "map m_Offset (mem_log (snd (mem_Append (calm 5) ''n'' [ref_msg 0 0 MsgRelease ''a'', ref_msg 0 0 MsgRelease ''b'']
     mem_New)) ''n'') = [1..2]"
  using memory_append [OF mem_ok_New, of "calm 5" "''n''" "[ref_msg 0 0 MsgRelease ''a'', ref_msg 0 0 MsgRelease ''b'']"]
  by (simp add: Let_def upto_rec1)

text \<open>Reading the log of the in-memory back end page by page, each page from the
  offset of the last message of the page before, loses and repeats nothing.\<close>

theorem memory_paging:
  assumes "mem_ok s" and "mem_Query e ns opts s = Inr page" and "page \<noteq> []"
    and "mem_Query e ns (opts\<lparr>q_Limit := 0, q_Since := m_Offset (last page)\<rparr>) s = Inr rest"
  shows "mem_Query e ns (opts\<lparr>q_Limit := 0\<rparr>) s = Inr (page @ rest)"
  using mem.paging [of s e ns opts page e rest e "query_result (opts\<lparr>q_Limit := 0\<rparr>) (mem_log s ns)"] assms
  by (simp add: mem_Query_eq)

definition two_releases :: memory where
  "two_releases = snd (mem_Append (calm 5) ''n''
     [ref_msg 0 0 MsgRelease ''a'', ref_msg 0 0 MsgRelease ''b''] mem_New)"

lemma two_releases_ok: "mem_ok two_releases"
  unfolding two_releases_def by (rule mem_ok_Append [OF mem_ok_New])

lemma two_releases_log:
  "mem_log two_releases ''n'' =
     [(ref_msg 1 5 MsgRelease ''a'')\<lparr>m_Namespace := ''n''\<rparr>, (ref_msg 2 5 MsgRelease ''b'')\<lparr>m_Namespace := ''n''\<rparr>]"
  by (simp add: two_releases_def mem_Append_log ref_msg_def)

theorem memory_paging_witness:
  "mem_Query (calm 0) ''n'' (no_opts\<lparr>q_Limit := 0\<rparr>) two_releases =
     Inr (take 1 (mem_log two_releases ''n'') @ drop 1 (mem_log two_releases ''n''))"
proof -
  have "mem_Query (calm 0) ''n'' (no_opts\<lparr>q_Limit := 1, q_Limit := 0\<rparr>) two_releases =
     Inr (take 1 (mem_log two_releases ''n'') @ drop 1 (mem_log two_releases ''n''))"
    by (rule memory_paging [OF two_releases_ok])
      (simp_all add: mem_Query_eq two_releases_log query_result_def limited_def query_matches_def
        no_opts_def ref_msg_def)
  then show ?thesis by simp
qed

section \<open>The mailbox\<close>

definition in_mailbox :: "time \<Rightarrow> string \<Rightarrow> mailbox_query_opts \<Rightarrow> mailbox_message \<Rightarrow> bool" where
  "in_mailbox now agentID opts m \<longleftrightarrow> \<not> mb_Archived m \<and> now \<le> mb_ExpiresAt m \<and>
     (mb_To m = agentID \<or> mb_To m = MailboxToBroadcast) \<and> (mq_Unread opts \<longrightarrow> \<not> mb_Read m)"

lemma mailbox_loop_eq: "mailbox_loop now agentID opts ms = filter (in_mailbox now agentID opts) ms"
  by (induction ms) (auto simp: in_mailbox_def)

lemma mem_GetMailbox_eq:
  "mem_GetMailbox e ns agentID opts s = Inr (limited (mq_Limit opts)
     (sort_slice (Tie e) (\<lambda>m. - mb_CreatedAt m)
       (filter (in_mailbox (Now e 0) agentID opts) (go_get [] (mem_mailbox s) ns))))"
  by (auto simp: mem_GetMailbox_def mailbox_loop_eq limited_def Let_def)

lemma limited_zero [simp]: "limited 0 xs = xs"
  by (simp add: limited_def)

lemma set_limited: "set (limited n xs) \<subseteq> set xs"
  by (auto simp: limited_def dest: in_set_takeD)

lemma sorted_limited: "sorted xs \<Longrightarrow> sorted (limited n xs)"
  by (simp add: limited_def sorted_wrt_take)

lemma map_limited: "map f (limited n xs) = limited n (map f xs)"
  by (simp add: limited_def take_map)

text \<open>What \<open>take\<close> cuts off a list sorted by a key has no smaller key than what it keeps.\<close>

lemma sorted_take_le:
  assumes "sorted (map key xs)" "x \<in> set (take n xs)" "y \<in> set (drop n xs)"
  shows "key x \<le> key y"
proof -
  have "sorted (map key (take n xs) @ map key (drop n xs))"
    using assms(1) by (metis append_take_drop_id map_append)
  with assms(2,3) show ?thesis by (simp add: sorted_append)
qed

text \<open>An agent's mailbox holds exactly its own and the broadcast messages that
  are neither archived nor expired (and not read, if only unread ones are asked for), newest first;
  a limit keeps the newest: no message that was cut off is newer than one that was returned.\<close>

theorem mailbox_contents:
  assumes "mem_GetMailbox e ns agentID opts s = Inr result"
    and "mem_GetMailbox e ns agentID (opts\<lparr>mq_Limit := 0\<rparr>) s = Inr full"
  shows "mset full = mset (filter (in_mailbox (Now e 0) agentID opts) (go_get [] (mem_mailbox s) ns)) \<and>
    sorted_wrt (\<lambda>a b. mb_CreatedAt b \<le> mb_CreatedAt a) result \<and>
    (0 < mq_Limit opts \<longrightarrow> int (length result) \<le> mq_Limit opts) \<and>
    (\<exists>cut. full = result @ cut \<and> (\<forall>x \<in> set result. \<forall>y \<in> set cut. mb_CreatedAt y \<le> mb_CreatedAt x))"
proof -
  let ?sorted = "sort_slice (Tie e) (\<lambda>m. - mb_CreatedAt m)
    (filter (in_mailbox (Now e 0) agentID opts) (go_get [] (mem_mailbox s) ns))"
  have "in_mailbox (Now e 0) agentID (opts\<lparr>mq_Limit := 0\<rparr>) = in_mailbox (Now e 0) agentID opts"
    by (simp add: in_mailbox_def fun_eq_iff)
  then have full: "full = ?sorted" using assms(2) by (simp add: mem_GetMailbox_eq)
  have result: "result = limited (mq_Limit opts) full"
    using assms(1) full by (simp add: mem_GetMailbox_eq)
  have sorted: "sorted (map (\<lambda>m. - mb_CreatedAt m) full)" unfolding full by (rule sorted_sort_slice)
  then have "sorted_wrt (\<lambda>a b. mb_CreatedAt b \<le> mb_CreatedAt a) result"
    unfolding result by (auto simp: limited_def sorted_wrt_map intro: sorted_wrt_take)
  moreover have "\<exists>cut. full = result @ cut \<and> (\<forall>x \<in> set result. \<forall>y \<in> set cut. mb_CreatedAt y \<le> mb_CreatedAt x)"
  proof (cases "mq_Limit opts > 0")
    case True
    then have "result = take (nat (mq_Limit opts)) full" by (simp add: result limited_def)
    then show ?thesis
      using sorted_take_le [OF sorted] by (intro exI [of _ "drop (nat (mq_Limit opts)) full"]) fastforce
  next
    case False
    then show ?thesis by (simp add: result limited_def)
  qed
  moreover have "0 < mq_Limit opts \<longrightarrow> int (length result) \<le> mq_Limit opts"
    by (auto simp: result limited_def)
  ultimately show ?thesis unfolding full mset_sort_slice by blast
qed

definition sample_mail :: "string \<Rightarrow> string \<Rightarrow> time \<Rightarrow> mailbox_message" where
  "sample_mail mid to t = \<lparr>mb_MessageID = mid, mb_From = ''alice'', mb_To = to, mb_Type = ''note'',
     mb_Content = ''hi'', mb_RelatedClaimID = [], mb_Read = False, mb_Archived = False,
     mb_CreatedAt = t, mb_ExpiresAt = t + 100\<rparr>"

theorem mailbox_contents_witness:
  "sorted_wrt (\<lambda>a b. mb_CreatedAt b \<le> mb_CreatedAt a) [sample_mail ''2'' ''bob'' 9, sample_mail ''1'' ''bob'' 7]"
proof -
  let ?s = "snd (mem_SendMessage (calm 9) ''n'' (sample_mail ''2'' ''bob'' 9)
    (snd (mem_SendMessage (calm 7) ''n'' (sample_mail ''1'' ''bob'' 7) mem_New)))"
  let ?o = "\<lparr>mq_Unread = False, mq_IncludeClaims = False, mq_Limit = 2\<rparr>"
  have "mem_GetMailbox (calm 9) ''n'' ''bob'' ?o ?s =
      Inr [sample_mail ''2'' ''bob'' 9, sample_mail ''1'' ''bob'' 7]"
    and "mem_GetMailbox (calm 9) ''n'' ''bob'' (?o\<lparr>mq_Limit := 0\<rparr>) ?s =
      Inr [sample_mail ''2'' ''bob'' 9, sample_mail ''1'' ''bob'' 7]"
    by (simp_all add: mem_GetMailbox_eq mem_SendMessage_def mem_New_def in_mailbox_def sample_mail_def
        fill_times_def limited_def sort_slice_def sort_key_def enumerate_eq_zip)
  from mailbox_contents [OF this] show ?thesis by blast
qed

definition mailbox_ids :: "memory \<Rightarrow> string \<Rightarrow> string list" where
  "mailbox_ids s ns = map mb_MessageID (go_get [] (mem_mailbox s) ns)"

lemma update_message_None:
  "update_message f mid ms = None \<longleftrightarrow> mid \<notin> mb_MessageID ` set ms"
  by (induction ms) auto

lemma update_message_Some:
  assumes "update_message f mid ms = Some ms'" "distinct (map mb_MessageID ms)"
  shows "ms' = map (\<lambda>m. if mb_MessageID m = mid then f m else m) ms"
  using assms
proof (induction ms arbitrary: ms')
  case (Cons m ms)
  show ?case
  proof (cases "mb_MessageID m = mid")
    case True
    then have "mid \<notin> mb_MessageID ` set ms" using Cons.prems(2) by auto
    then have "\<forall>x \<in> set ms. mb_MessageID x \<noteq> mid" by blast
    then have "map (\<lambda>m. if mb_MessageID m = mid then f m else m) ms = ms"
      by (simp add: map_idI)
    with True Cons.prems(1) show ?thesis by simp
  next
    case False
    with Cons show ?thesis by auto
  qed
qed simp

text \<open>Archiving succeeds exactly for an id of the namespace's mailbox and changes
  nothing otherwise; where ids are distinct it takes that message, and no other, out of every
  later view of the mailbox, whoever asks and whenever.\<close>

theorem archive_hides:
  assumes "distinct (mailbox_ids s ns)" and "mem_ArchiveMessage e ns mid s = (r, s')"
  shows "(r = None \<longleftrightarrow> mid \<in> set (mailbox_ids s ns)) \<and> (r \<noteq> None \<longrightarrow> s' = s) \<and>
    filter (in_mailbox now agentID opts) (go_get [] (mem_mailbox s') ns) =
      filter (\<lambda>m. in_mailbox now agentID opts m \<and> mb_MessageID m \<noteq> mid) (go_get [] (mem_mailbox s) ns)"
proof (cases "update_message (mb_Archived_update (\<lambda>_. True)) mid (go_get [] (mem_mailbox s) ns)")
  case None
  moreover from this have "mid \<notin> mb_MessageID ` set (go_get [] (mem_mailbox s) ns)"
    unfolding update_message_None .
  ultimately show ?thesis
    using assms(2) by (auto simp: mem_ArchiveMessage_def mailbox_ids_def intro!: filter_cong)
next
  case (Some ms)
  moreover from this have "mid \<in> mb_MessageID ` set (go_get [] (mem_mailbox s) ns)"
    using update_message_None by (metis option.distinct(1))
  moreover have "ms = map (\<lambda>m. if mb_MessageID m = mid then m\<lparr>mb_Archived := True\<rparr> else m)
      (go_get [] (mem_mailbox s) ns)"
    using update_message_Some [OF Some] assms(1) by (simp add: mailbox_ids_def)
  moreover have "filter (in_mailbox now agentID opts)
      (map (\<lambda>m. if mb_MessageID m = mid then m\<lparr>mb_Archived := True\<rparr> else m) xs) =
      filter (\<lambda>m. in_mailbox now agentID opts m \<and> mb_MessageID m \<noteq> mid) xs" for xs
    by (induction xs) (auto simp: in_mailbox_def)
  ultimately show ?thesis
    using assms(2) by (auto simp: mem_ArchiveMessage_def mailbox_ids_def)
qed

definition mail_for_bob :: memory where
  "mail_for_bob = mem_New\<lparr>mem_mailbox := [''n'' \<mapsto> [sample_mail ''1'' ''bob'' 7, sample_mail ''2'' ''bob'' 9]]\<rparr>"

theorem archive_hides_witness:
  "filter (in_mailbox 9 ''bob'' \<lparr>mq_Unread = False, mq_IncludeClaims = False, mq_Limit = 0\<rparr>)
     (go_get [] (mem_mailbox (snd (mem_ArchiveMessage (calm 9) ''n'' ''1'' mail_for_bob))) ''n'') =
   [sample_mail ''2'' ''bob'' 9]"
proof -
  have "distinct (mailbox_ids mail_for_bob ''n'')"
    by (simp add: mailbox_ids_def mail_for_bob_def sample_mail_def)
  from archive_hides [OF this surjective_pairing, of "calm 9" "''1''" 9 "''bob''"
      "\<lparr>mq_Unread = False, mq_IncludeClaims = False, mq_Limit = 0\<rparr>"]
  show ?thesis by (simp add: mail_for_bob_def in_mailbox_def sample_mail_def)
qed

section \<open>Tasks and namespaces\<close>

lemma task_key_eq: "task_key ns i = task_key ns j \<longleftrightarrow> i = j"
  by (simp add: task_key_def)

text \<open>A task that was created or updated is read back as it was written; creating a
  task whose id is taken and updating one that does not exist fail and change nothing; and no
  other id of the namespace is touched.\<close>

theorem memory_tasks:
  "(let (r, s') = mem_CreateTask e ns t s in
      (r = None \<longleftrightarrow> mem_tasks s (task_key ns (t_ID t)) = None) \<and> (r = None \<or> s' = s) \<and>
      (r \<noteq> None \<or> mem_GetTask e' ns (t_ID t) s' = Inr t) \<and>
      (i = t_ID t \<or> mem_GetTask e' ns i s' = mem_GetTask e' ns i s)) \<and>
   (let (r, s') = mem_UpdateTask e ns t s in
      (r = None \<longleftrightarrow> mem_tasks s (task_key ns (t_ID t)) \<noteq> None) \<and> (r = None \<or> s' = s) \<and>
      (r \<noteq> None \<or> mem_GetTask e' ns (t_ID t) s' = Inr t) \<and>
      (i = t_ID t \<or> mem_GetTask e' ns i s' = mem_GetTask e' ns i s))"
  by (simp add: mem_CreateTask_def mem_UpdateTask_def mem_GetTask_def Let_def task_key_eq)

definition sample_task :: "string \<Rightarrow> a2a_task" where
  "sample_task i = \<lparr>t_ID = i, t_SessionID = [], t_State = ''submitted'', t_StatusMsg = None,
     t_StatusTime = 5, t_ClaimID = [], t_Namespace = ''n'', t_Metadata = None, t_CreatedAt = 5\<rparr>"

theorem memory_tasks_witness:
  "mem_GetTask (calm 0) ''n'' ''t1'' (snd (mem_CreateTask (calm 0) ''n'' (sample_task ''t1'') mem_New)) =
     Inr (sample_task ''t1'')"
  using memory_tasks [of "calm 0" "''n''" "sample_task ''t1''" mem_New "calm 0" "''t1''"]
  by (simp add: split_beta Let_def mem_New_def sample_task_def mem_GetTask_def mem_CreateTask_def)

lemma key_in_nested: "key_in d (task_key (d @ CHR ''/'' # e) tid)"
  by (simp add: key_in_def task_key_def)

text \<open>Deleting the namespace \<open>d\<close> also deletes every task of each
  namespace \<open>d/e\<close>, because the keys of the task map are split at the first slash only by luck:
  a namespace id may contain slashes.\<close>

theorem delete_reaches_nested:
  "mem_GetTask e' (d @ ''/'' @ ns) tid (snd (mem_DeleteNamespace e d s)) =
     Inl (Errorf (''task '' @ tid @ '' not found'')) \<and>
   mem_log (snd (mem_DeleteNamespace e d s)) (d @ ''/'' @ ns) = mem_log s (d @ ''/'' @ ns)"
  by (simp add: mem_GetTask_def mem_DeleteNamespace_def Let_def key_in_nested mem_log_def)

section \<open>Event streams\<close>

definition later_events :: "int \<Rightarrow> message list \<Rightarrow> event list" where
  "later_events since msgs = map mem_event (filter (\<lambda>m. since < m_Offset m) msgs)"

definition last_offset :: "int \<Rightarrow> message list \<Rightarrow> int" where
  "last_offset since msgs = fold max (map m_Offset msgs) since"

lemma mem_stream_loop_eq:
  "increasing msgs \<Longrightarrow>
   mem_stream_loop (\<lambda>_. False) i msgs since = (later_events since msgs, last_offset since msgs, False)"
proof (induction msgs arbitrary: i since)
  case (Cons m msgs)
  show ?case
  proof (cases "m_Offset m \<le> since")
    case True
    with Cons show ?thesis by (simp add: later_events_def last_offset_def max_def)
  next
    case False
    have "filter (\<lambda>x. m_Offset m < m_Offset x) msgs = msgs" "filter (\<lambda>x. since < m_Offset x) msgs = msgs"
      using Cons.prems False by (auto intro!: filter_True)
    with False Cons show ?thesis by (simp add: later_events_def last_offset_def max_def)
  qed
qed (simp add: later_events_def last_offset_def)

lemma mem_replay_loop_eq:
  "increasing msgs \<Longrightarrow> since \<le> cur \<Longrightarrow> cur = since \<or> (\<forall>x \<in> set msgs. cur < m_Offset x) \<Longrightarrow>
   mem_replay_loop (\<lambda>_. False) since i msgs cur = (later_events since msgs, last_offset cur msgs, False)"
proof (induction msgs arbitrary: i cur)
  case (Cons m msgs)
  then show ?case by (auto simp: later_events_def last_offset_def max_def)
qed (simp add: later_events_def last_offset_def)

lemma last_offset_ge: "since \<le> last_offset since msgs" "x \<in> set msgs \<Longrightarrow> m_Offset x \<le> last_offset since msgs"
  by (auto simp: last_offset_def fold_max_ge_iff)

text \<open>After all of a log has been sent, only what is appended to it remains to send.\<close>

lemma later_events_append:
  assumes "increasing (xs @ ys)"
  shows "later_events since (xs @ ys) = later_events since xs @ later_events (last_offset since xs) (xs @ ys)"
proof -
  have "filter (\<lambda>m. last_offset since xs < m_Offset m) xs = []"
    using last_offset_ge(2) by (auto simp: filter_empty_conv not_less)
  moreover have "filter (\<lambda>m. last_offset since xs < m_Offset m) ys = filter (\<lambda>m. since < m_Offset m) ys"
  proof (rule filter_cong [OF refl])
    fix y assume "y \<in> set ys"
    with assms have "\<forall>x \<in> set xs. m_Offset x < m_Offset y" by (simp add: increasing_append)
    then show "last_offset since xs < m_Offset y \<longleftrightarrow> since < m_Offset y"
      by (auto simp: last_offset_def not_le [symmetric] fold_max_ge_iff)
  qed
  ultimately show ?thesis by (simp add: later_events_def)
qed

fun growing :: "'a list list \<Rightarrow> bool" where
  "growing (xs # ys # zss) = ((\<exists>zs. ys = xs @ zs) \<and> growing (ys # zss))"
| "growing _ = True"

lemma growing_last:
  "growing (xs # xss) \<Longrightarrow> \<exists>zs. last (xs # xss) = xs @ zs"
proof (induction xss arbitrary: xs)
  case (Cons ys yss)
  then show ?case by fastforce
qed simp

lemma mem_stream_eq:
  assumes "growing (map (\<lambda>s. mem_log s ns) ss)" "ss \<noteq> []" "\<forall>s \<in> set ss. increasing (mem_log s ns)"
  shows "mem_stream (\<lambda>_ _. False) k ns ss since = later_events since (mem_log (last ss) ns)"
  using assms
proof (induction ss arbitrary: k since)
  case (Cons s ss)
  show ?case
  proof (cases "ss = []")
    case True
    with Cons.prems show ?thesis by (simp add: mem_stream_loop_eq)
  next
    case False
    then have gr: "growing (map (\<lambda>s. mem_log s ns) ss)" using Cons.prems(1) by (cases ss) auto
    obtain zs where zs: "mem_log (last ss) ns = mem_log s ns @ zs"
      using growing_last [of "mem_log s ns" "map (\<lambda>s. mem_log s ns) ss"] Cons.prems(1) False
      by (auto simp: last_map)
    have inc: "increasing (mem_log s ns @ zs)"
      using Cons.prems(3) False by (metis last_in_set list.set_intros(2) zs)
    have "later_events since (mem_log (last ss) ns) = later_events since (mem_log s ns)
        @ later_events (last_offset since (mem_log s ns)) (mem_log (last ss) ns)"
      unfolding zs by (rule later_events_append [OF inc])
    then show ?thesis
      using Cons.IH [OF gr False] Cons.prems(3) False by (simp add: mem_stream_loop_eq)
  qed
qed simp



section \<open>The contract of tasks\<close>

lemma mem_append_loop_tasks: "mem_tasks (mem_append_loop e ns i msgs s) = mem_tasks s"
  by (induction msgs arbitrary: i s) (simp_all add: Let_def)

interpretation mem_task: task_store memory_provider "\<lambda>s. ran (mem_tasks s)" mem_log
proof (unfold_locales, goal_cases)
  case (1 e ns t s r s' t')
  then show ?case by (auto simp: mem_CreateTask_def Let_def ran_def split: if_splits)
next
  case (2 e ns t s r s' t')
  then show ?case by (auto simp: mem_UpdateTask_def Let_def ran_def split: if_splits)
next
  case (3 e ns i s t)
  then show ?case by (auto simp: mem_GetTask_def ran_def split: option.splits)
qed (simp_all add: mem_Append_def mem_append_loop_tasks mem_SendMessage_def mem_AppendTaskHistory_def
    mem_CreateArtifact_def mem_UpdateTask_def mem_log_def fun_eq_iff Let_def)

end
