(* ===== verification/SqliteProvider.thy ===== *)
theory SqliteProvider
  imports ProviderIface "HOL-Library.List_Lexorder" "HOL-Library.Product_Lexorder" "HOL-Library.Char_ord"
begin

text \<open>
  The SQLite back end, \<open>internal/sqlite/sqlite.go\<close>. A table is the list of its rows in insertion
  order, an SQL statement a function on the tables that can fail: \<open>Fault e i\<close> is the failure of
  the i-th statement (or row scan, or commit) of a call, beside the constraint violations that
  the schema of \<open>migrate\<close> implies. A transaction that does not commit leaves the tables alone;
  statements outside one take effect at once. Time columns are compared as instants, and
  \<open>CURRENT_TIMESTAMP\<close> has a resolution of one second.
\<close>

section \<open>The tables\<close>

record message_row =
  r_Namespace :: string
  r_Offset :: int
  r_Type :: string
  r_AgentID :: string
  r_Payload :: raw
  r_Timestamp :: time
  r_Seq :: "int option"

record mailbox_row =
  b_Namespace :: string
  b_Message :: mailbox_message

record history_row =
  y_TaskID :: string
  y_Seq :: int
  y_Message :: a2a_message
  y_Timestamp :: time

record artifact_row =
  x_TaskID :: string
  x_Artifact :: a2a_artifact
  x_CreatedAt :: time

record sqlite =
  sq_namespaces :: "namespace list"
  sq_messages :: "message_row list"
  sq_mailbox :: "mailbox_row list"
  sq_tasks :: "a2a_task list"
  sq_history :: "history_row list"
  sq_artifacts :: "artifact_row list"
  sq_audit :: "audit_event list"

text \<open>\<open>New\<close> on a database without tables, after \<open>migrate\<close>.\<close>

definition sq_New :: sqlite where
  "sq_New = \<lparr>sq_namespaces = [], sq_messages = [], sq_mailbox = [], sq_tasks = [], sq_history = [],
     sq_artifacts = [], sq_audit = []\<rparr>"

section \<open>Statements and transactions\<close>

text \<open>One statement: the engine's failure, or the result of the statement itself.\<close>

definition exec :: "error option \<Rightarrow> (error + 'a) \<Rightarrow> error + 'a" where
  "exec fault r = (case fault of Some err \<Rightarrow> Inl err | None \<Rightarrow> r)"

definition bindE :: "error + 'a \<Rightarrow> ('a \<Rightarrow> error + 'b) \<Rightarrow> error + 'b" where
  "bindE r f = (case r of Inl err \<Rightarrow> Inl err | Inr a \<Rightarrow> f a)"

lemma exec_Inr [simp]: "exec fault r = Inr a \<longleftrightarrow> fault = None \<and> r = Inr a"
  by (simp add: exec_def split: option.split)

lemma exec_None [simp]: "exec None r = r"
  by (simp add: exec_def)

lemma bindE_Inr [simp]: "bindE r f = Inr b \<longleftrightarrow> (\<exists>a. r = Inr a \<and> f a = Inr b)"
  by (simp add: bindE_def split: sum.split)

lemma bindE_simps [simp]: "bindE (Inl err) f = Inl err" "bindE (Inr a) f = f a"
  by (simp_all add: bindE_def)

text \<open>The end of a transaction, and of a single statement: on an error the tables are the old ones.\<close>

definition committed :: "'s \<Rightarrow> error + 's \<Rightarrow> error option \<times> 's" where
  "committed s r = (case r of Inl err \<Rightarrow> (Some err, s) | Inr s' \<Rightarrow> (None, s'))"

lemma committed_eq [simp]:
  "committed s r = (None, s') \<longleftrightarrow> r = Inr s'"
  "committed s r = (Some err, s') \<longleftrightarrow> r = Inl err \<and> s' = s"
  by (auto simp: committed_def split: sum.split)

text \<open>\<open>INSERT\<close> into a table with a primary key or unique column.\<close>

definition insert_row :: "('r \<Rightarrow> 'k) \<Rightarrow> 'r \<Rightarrow> 'r list \<Rightarrow> error + 'r list" where
  "insert_row key r rows =
     (if key r \<in> key ` set rows then Inl (ExternalError ''UNIQUE constraint failed'')
      else Inr (rows @ [r]))"

text \<open>\<open>SELECT COALESCE(MAX(col), 0) + 1\<close>.\<close>

definition next_number :: "int list \<Rightarrow> int" where
  "next_number xs = (case xs of [] \<Rightarrow> 0 | x # xs' \<Rightarrow> fold max xs' x) + 1"

section \<open>Namespaces and audit\<close>

definition sq_CreateNamespace :: "env \<Rightarrow> namespace \<Rightarrow> sqlite \<Rightarrow> error option \<times> sqlite" where
  "sq_CreateNamespace e ns s = committed s
     (exec (Fault e 0) (bindE (insert_row ns_ID ns (sq_namespaces s)) (\<lambda>t. Inr (s\<lparr>sq_namespaces := t\<rparr>))))"

text \<open>The loop is not a transaction: the events before a failing one stay.\<close>

fun sq_audit_loop :: "env \<Rightarrow> string \<Rightarrow> nat \<Rightarrow> audit_event list \<Rightarrow> sqlite \<Rightarrow> error option \<times> sqlite" where
  "sq_audit_loop e namespaceID i [] s = (None, s)"
| "sq_audit_loop e namespaceID i (ev # evs) s =
     (case exec (Fault e i) (Inr (s\<lparr>sq_audit := sq_audit s @ [ev\<lparr>ae_Namespace := namespaceID\<rparr>]\<rparr>)) of
        Inl err \<Rightarrow> (Some err, s)
      | Inr s' \<Rightarrow> sq_audit_loop e namespaceID (Suc i) evs s')"

definition sq_AppendAudit :: "env \<Rightarrow> string \<Rightarrow> audit_event list \<Rightarrow> sqlite \<Rightarrow> error option \<times> sqlite" where
  "sq_AppendAudit e namespaceID events s = sq_audit_loop e namespaceID 0 events s"

definition task_ids :: "string \<Rightarrow> sqlite \<Rightarrow> string set" where
  "task_ids ns s = t_ID ` set (filter (\<lambda>t. t_Namespace t = ns) (sq_tasks s))"

definition sq_DeleteNamespace :: "env \<Rightarrow> string \<Rightarrow> sqlite \<Rightarrow> error option \<times> sqlite" where
  "sq_DeleteNamespace e ns s = committed s
     (bindE (exec (Fault e 0) (Inr s)) (\<lambda>s.
      bindE (exec (Fault e 1) (Inr (s\<lparr>sq_history := filter (\<lambda>y. y_TaskID y \<notin> task_ids ns s) (sq_history s)\<rparr>))) (\<lambda>s.
      bindE (exec (Fault e 2) (Inr (s\<lparr>sq_artifacts := filter (\<lambda>x. x_TaskID x \<notin> task_ids ns s) (sq_artifacts s)\<rparr>))) (\<lambda>s.
      bindE (exec (Fault e 3) (Inr (s\<lparr>sq_tasks := filter (\<lambda>t. t_Namespace t \<noteq> ns) (sq_tasks s)\<rparr>))) (\<lambda>s.
      bindE (exec (Fault e 4) (Inr (s\<lparr>sq_messages := filter (\<lambda>r. r_Namespace r \<noteq> ns) (sq_messages s)\<rparr>))) (\<lambda>s.
      bindE (exec (Fault e 5) (Inr (s\<lparr>sq_mailbox := filter (\<lambda>b. b_Namespace b \<noteq> ns) (sq_mailbox s)\<rparr>))) (\<lambda>s.
      bindE (exec (Fault e 6) (Inr (s\<lparr>sq_audit := filter (\<lambda>a. ae_Namespace a \<noteq> ns) (sq_audit s)\<rparr>))) (\<lambda>s.
      bindE (exec (Fault e 7) (Inr (s\<lparr>sq_namespaces := filter (\<lambda>n. ns_ID n \<noteq> ns) (sq_namespaces s)\<rparr>))) (\<lambda>s.
      exec (Fault e 8) (Inr s))))))))))"

section \<open>The message log\<close>

definition rows_of :: "string \<Rightarrow> sqlite \<Rightarrow> message_row list" where
  "rows_of ns s = filter (\<lambda>r. r_Namespace r = ns) (sq_messages s)"

definition message_key :: "message_row \<Rightarrow> string \<times> int" where
  "message_key r = (r_Namespace r, r_Offset r)"

definition new_row :: "env \<Rightarrow> string \<Rightarrow> nat \<Rightarrow> int \<Rightarrow> int \<Rightarrow> message \<Rightarrow> message_row" where
  "new_row e ns i off seq m = \<lparr>r_Namespace = ns, r_Offset = off, r_Type = m_Type m,
     r_AgentID = m_AgentID m, r_Payload = m_Payload m,
     r_Timestamp = (if m_Timestamp m = 0 then Now e i else m_Timestamp m), r_Seq = Some seq\<rparr>"

fun sq_insert_loop ::
  "env \<Rightarrow> string \<Rightarrow> nat \<Rightarrow> int \<Rightarrow> int \<Rightarrow> message list \<Rightarrow> message_row list \<Rightarrow> error + message_row list" where
  "sq_insert_loop e ns i nextOffset nextSeq [] rows = Inr rows"
| "sq_insert_loop e ns i nextOffset nextSeq (m # msgs) rows =
     bindE (exec (Fault e (4 + i)) (insert_row message_key (new_row e ns i nextOffset nextSeq m) rows))
       (sq_insert_loop e ns (Suc i) (nextOffset + 1) (nextSeq + 1) msgs)"

definition sq_Append :: "env \<Rightarrow> string \<Rightarrow> message list \<Rightarrow> sqlite \<Rightarrow> error option \<times> sqlite" where
  "sq_Append e ns msgs s = committed s
     (bindE (exec (Fault e 0) (Inr s)) (\<lambda>s.
      bindE (exec (Fault e 1) (Inr (next_number (map r_Offset (rows_of ns s))))) (\<lambda>nextOffset.
      bindE (exec (Fault e 2) (Inr (next_number (List.map_filter r_Seq (rows_of ns s))))) (\<lambda>nextSeq.
      bindE (exec (Fault e 3) (Inr s)) (\<lambda>s.
      bindE (sq_insert_loop e ns 0 nextOffset nextSeq msgs (sq_messages s)) (\<lambda>rows.
      exec (Fault e (4 + length msgs)) (Inr (s\<lparr>sq_messages := rows\<rparr>))))))))"

definition row_message :: "message_row \<Rightarrow> message" where
  "row_message r = \<lparr>m_Offset = r_Offset r, m_Type = r_Type r, m_Namespace = r_Namespace r,
     m_AgentID = r_AgentID r, m_Payload = r_Payload r, m_Timestamp = r_Timestamp r\<rparr>"

text \<open>The conditions that the code adds to the text of the query, and the whole query.\<close>

definition query_where :: "query_opts \<Rightarrow> message_row \<Rightarrow> bool" where
  "query_where opts r \<longleftrightarrow> r_Offset r > q_Since opts \<and>
     (length (q_Types opts) > 0 \<longrightarrow> r_Type r \<in> set (q_Types opts)) \<and>
     (q_AgentID opts \<noteq> [] \<longrightarrow> r_AgentID r = q_AgentID opts)"

definition sq_Query :: "env \<Rightarrow> string \<Rightarrow> query_opts \<Rightarrow> sqlite \<Rightarrow> error + message list" where
  "sq_Query e ns opts s =
     (let found = sort_key r_Offset (filter (query_where opts) (rows_of ns s));
          rows = (if q_Limit opts > 0 then take (nat (q_Limit opts)) found else found)
      in bindE (exec (Fault e 0) (Inr rows)) (\<lambda>rows. exec (Fault e 1) (Inr (map row_message rows))))"

definition sq_ActiveClaims :: "env \<Rightarrow> string \<Rightarrow> string \<Rightarrow> sqlite \<Rightarrow> error + claim list" where
  "sq_ActiveClaims e ns resourcePattern s =
     bindE (sq_Query e ns (no_opts\<lparr>q_Types := [MsgClaim, MsgRelease, MsgTransfer]\<rparr>) s) (\<lambda>msgs.
       Inr (matching_claims resourcePattern (FilterActiveClaims (Now e 0) msgs)))"

definition sq_AgentState :: "env \<Rightarrow> string \<Rightarrow> string \<Rightarrow> sqlite \<Rightarrow> error + agent_state" where
  "sq_AgentState e ns agentID s =
     bindE (sq_Query e ns no_opts s) (\<lambda>msgs. Inr (agent_state_of (Now e 0) agentID msgs))"

text \<open>The offsets to delete; a row that cannot be scanned or decoded is skipped.\<close>

fun expired_offsets :: "env \<Rightarrow> time \<Rightarrow> nat \<Rightarrow> message_row list \<Rightarrow> int list" where
  "expired_offsets e before i [] = []"
| "expired_offsets e before i (r # rows) =
     (if Fault e i \<noteq> None then expired_offsets e before (Suc i) rows
      else case decode_claim (r_Payload r) of
        None \<Rightarrow> expired_offsets e before (Suc i) rows
      | Some c \<Rightarrow>
          if c_CreatedAt c + seconds (c_TTLSeconds c) < before
          then r_Offset r # expired_offsets e before (Suc i) rows
          else expired_offsets e before (Suc i) rows)"

fun delete_loop :: "env \<Rightarrow> string \<Rightarrow> nat \<Rightarrow> int list \<Rightarrow> sqlite \<Rightarrow> error option \<times> sqlite" where
  "delete_loop e ns i [] s = (None, s)"
| "delete_loop e ns i (off # offs) s =
     (case Fault e i of
        Some err \<Rightarrow> (Some err, s)
      | None \<Rightarrow> delete_loop e ns (Suc i) offs
          (s\<lparr>sq_messages := filter (\<lambda>r. \<not> (r_Namespace r = ns \<and> r_Offset r = off)) (sq_messages s)\<rparr>))"

definition sq_ReleaseExpired :: "env \<Rightarrow> string \<Rightarrow> time \<Rightarrow> sqlite \<Rightarrow> error option \<times> sqlite" where
  "sq_ReleaseExpired e ns before s =
     (case exec (Fault e 0) (Inr (filter (\<lambda>r. r_Type r = MsgClaim) (rows_of ns s))) of
        Inl err \<Rightarrow> (Some err, s)
      | Inr rows \<Rightarrow> delete_loop e ns (1 + length rows) (expired_offsets e before 1 rows) s)"

section \<open>Subscriptions\<close>

definition msgTypeToEvent :: "string \<Rightarrow> string" where
  "msgTypeToEvent t =
     (if t = MsgClaim then EventClaim
      else if t = MsgRelease then EventRelease
      else if t = MsgHeartbeat then EventHeartbeat
      else t)"

definition row_event :: "message_row \<Rightarrow> event" where
  "row_event r = \<lparr>ev_Seq = the (r_Seq r), ev_Type = msgTypeToEvent (r_Type r),
     ev_Payload = r_Payload r, ev_Timestamp = r_Timestamp r\<rparr>"

text \<open>\<open>seq > ?\<close> is not true of a row whose \<open>seq\<close> is NULL.\<close>

definition rows_after :: "string \<Rightarrow> int \<Rightarrow> sqlite \<Rightarrow> message_row list" where
  "rows_after ns since s =
     sort_key (\<lambda>r. the (r_Seq r))
       (filter (\<lambda>r. case r_Seq r of None \<Rightarrow> False | Some n \<Rightarrow> n > since) (rows_of ns s))"

text \<open>The loop over the rows; \<open>cancelled i\<close>: the i-th \<open>select\<close> takes \<open>ctx.Done()\<close>.\<close>

fun row_loop :: "(nat \<Rightarrow> bool) \<Rightarrow> nat \<Rightarrow> message_row list \<Rightarrow> int \<Rightarrow> event list \<times> int \<times> bool" where
  "row_loop cancelled i [] since = ([], since, False)"
| "row_loop cancelled i (r # rows) since =
     (if cancelled i then ([], since, True)
      else case row_loop cancelled (Suc i) rows (the (r_Seq r)) of
        (evs, n, stop) \<Rightarrow> (row_event r # evs, n, stop))"

text \<open>A failing query ends the stream in the replay and skips a round afterwards.\<close>

fun sq_stream :: "envs \<Rightarrow> (nat \<Rightarrow> nat \<Rightarrow> bool) \<Rightarrow> nat \<Rightarrow> string \<Rightarrow> sqlite list \<Rightarrow> int \<Rightarrow> event list" where
  "sq_stream es cancelled k ns [] since = []"
| "sq_stream es cancelled k ns (s # ss) since =
     (case exec (Fault (es k) 0) (Inr (rows_after ns since s)) of
        Inl err \<Rightarrow> sq_stream es cancelled (Suc k) ns ss since
      | Inr rows \<Rightarrow>
          (case row_loop (cancelled k) 0 rows since of
             (evs, since', stop) \<Rightarrow>
               evs @ (if stop then [] else sq_stream es cancelled (Suc k) ns ss since')))"

definition sq_SubscribeEvents ::
  "envs \<Rightarrow> (nat \<Rightarrow> nat \<Rightarrow> bool) \<Rightarrow> string \<Rightarrow> sqlite \<Rightarrow> sqlite list \<Rightarrow> int \<Rightarrow> event list" where
  "sq_SubscribeEvents es cancelled ns s polls since =
     (case exec (Fault (es 0) 0) (Inr (rows_after ns since s)) of
        Inl err \<Rightarrow> []
      | Inr rows \<Rightarrow>
          (case row_loop (cancelled 0) 0 rows since of
             (evs, since', stop) \<Rightarrow>
               evs @ (if stop then [] else sq_stream es cancelled 1 ns polls since')))"

section \<open>The mailbox\<close>

definition sq_SendMessage :: "env \<Rightarrow> string \<Rightarrow> mailbox_message \<Rightarrow> sqlite \<Rightarrow> error option \<times> sqlite" where
  "sq_SendMessage e ns msg s = committed s
     (exec (Fault e 0)
       (bindE (insert_row (\<lambda>b. mb_MessageID (b_Message b))
           \<lparr>b_Namespace = ns, b_Message = fill_times (Now e 0) msg\<rparr> (sq_mailbox s))
         (\<lambda>t. Inr (s\<lparr>sq_mailbox := t\<rparr>))))"

definition current_timestamp :: "time \<Rightarrow> time" where
  "current_timestamp now = now - now mod nanos_per_second"

definition mailbox_where :: "time \<Rightarrow> string \<Rightarrow> string \<Rightarrow> mailbox_query_opts \<Rightarrow> mailbox_row \<Rightarrow> bool" where
  "mailbox_where now ns agentID opts b \<longleftrightarrow> b_Namespace b = ns \<and>
     (mb_To (b_Message b) = agentID \<or> mb_To (b_Message b) = MailboxToBroadcast) \<and>
     \<not> mb_Archived (b_Message b) \<and> mb_ExpiresAt (b_Message b) > current_timestamp now \<and>
     (mq_Unread opts \<longrightarrow> \<not> mb_Read (b_Message b))"

definition sq_GetMailbox ::
  "env \<Rightarrow> string \<Rightarrow> string \<Rightarrow> mailbox_query_opts \<Rightarrow> sqlite \<Rightarrow> error + mailbox_message list" where
  "sq_GetMailbox e ns agentID opts s =
     (let found = sort_slice (Tie e) (\<lambda>b. - mb_CreatedAt (b_Message b))
            (filter (mailbox_where (Now e 0) ns agentID opts) (sq_mailbox s));
          rows = (if mq_Limit opts > 0 then take (nat (mq_Limit opts)) found else found)
      in bindE (exec (Fault e 0) (Inr rows)) (\<lambda>rows. exec (Fault e 1) (Inr (map b_Message rows))))"

definition update_rows ::
  "(mailbox_message \<Rightarrow> mailbox_message) \<Rightarrow> string \<Rightarrow> string \<Rightarrow> mailbox_row list \<Rightarrow> mailbox_row list" where
  "update_rows f ns mid rows =
     map (\<lambda>b. if b_Namespace b = ns \<and> mb_MessageID (b_Message b) = mid
              then b\<lparr>b_Message := f (b_Message b)\<rparr> else b) rows"

definition sq_MarkRead :: "env \<Rightarrow> string \<Rightarrow> string \<Rightarrow> sqlite \<Rightarrow> error option \<times> sqlite" where
  "sq_MarkRead e ns mid s = committed s (exec (Fault e 0)
     (Inr (s\<lparr>sq_mailbox := update_rows (mb_Read_update (\<lambda>_. True)) ns mid (sq_mailbox s)\<rparr>)))"

definition sq_ArchiveMessage :: "env \<Rightarrow> string \<Rightarrow> string \<Rightarrow> sqlite \<Rightarrow> error option \<times> sqlite" where
  "sq_ArchiveMessage e ns mid s = committed s (exec (Fault e 0)
     (Inr (s\<lparr>sq_mailbox := update_rows (mb_Archived_update (\<lambda>_. True)) ns mid (sq_mailbox s)\<rparr>)))"

definition sq_ExpireMessages :: "env \<Rightarrow> string \<Rightarrow> time \<Rightarrow> sqlite \<Rightarrow> error option \<times> sqlite" where
  "sq_ExpireMessages e ns before s = committed s (exec (Fault e 0)
     (Inr (s\<lparr>sq_mailbox := filter (\<lambda>b. \<not> (b_Namespace b = ns \<and> mb_ExpiresAt (b_Message b) < before))
        (sq_mailbox s)\<rparr>)))"

section \<open>Tasks\<close>

text \<open>The primary key is the id alone; the namespace column gets the argument.\<close>

definition sq_CreateTask :: "env \<Rightarrow> string \<Rightarrow> a2a_task \<Rightarrow> sqlite \<Rightarrow> error option \<times> sqlite" where
  "sq_CreateTask e ns t s = committed s (exec (Fault e 0)
     (bindE (insert_row t_ID (t\<lparr>t_Namespace := ns\<rparr>) (sq_tasks s)) (\<lambda>ts. Inr (s\<lparr>sq_tasks := ts\<rparr>))))"

definition sq_GetTask :: "env \<Rightarrow> string \<Rightarrow> string \<Rightarrow> sqlite \<Rightarrow> error + a2a_task" where
  "sq_GetTask e ns taskID s = exec (Fault e 0)
     (case filter (\<lambda>t. t_Namespace t = ns \<and> t_ID t = taskID) (sq_tasks s) of
        [] \<Rightarrow> Inl (ExternalError ''sql: no rows in result set'')
      | t # ts \<Rightarrow> Inr t)"

definition sq_UpdateTask :: "env \<Rightarrow> string \<Rightarrow> a2a_task \<Rightarrow> sqlite \<Rightarrow> error option \<times> sqlite" where
  "sq_UpdateTask e ns t s = committed s (exec (Fault e 0)
     (Inr (s\<lparr>sq_tasks := map (\<lambda>r. if t_Namespace r = ns \<and> t_ID r = t_ID t
        then r\<lparr>t_SessionID := t_SessionID t, t_State := t_State t, t_StatusMsg := t_StatusMsg t,
               t_StatusTime := t_StatusTime t, t_ClaimID := t_ClaimID t, t_Metadata := t_Metadata t\<rparr>
        else r) (sq_tasks s)\<rparr>)))"

definition sq_AppendTaskHistory ::
  "env \<Rightarrow> string \<Rightarrow> string \<Rightarrow> int \<Rightarrow> a2a_message \<Rightarrow> sqlite \<Rightarrow> error option \<times> sqlite" where
  "sq_AppendTaskHistory e ns taskID seq msg s = committed s (exec (Fault e 0)
     (bindE (insert_row (\<lambda>y. (y_TaskID y, y_Seq y))
         \<lparr>y_TaskID = taskID, y_Seq = seq, y_Message = msg, y_Timestamp = Now e 0\<rparr> (sq_history s))
       (\<lambda>t. Inr (s\<lparr>sq_history := t\<rparr>))))"

definition sq_GetTaskHistory ::
  "env \<Rightarrow> string \<Rightarrow> string \<Rightarrow> int \<Rightarrow> sqlite \<Rightarrow> error + a2a_message list" where
  "sq_GetTaskHistory e ns taskID limit s =
     (let found = sort_key y_Seq (filter (\<lambda>y. y_TaskID y = taskID) (sq_history s));
          rows = (if limit > 0 then take (nat limit) found else found)
      in bindE (exec (Fault e 0) (Inr rows)) (\<lambda>rows. exec (Fault e 1) (Inr (map y_Message rows))))"

definition artifact_key :: "artifact_row \<Rightarrow> string \<times> string \<times> int" where
  "artifact_key x = (x_TaskID x, art_Name (x_Artifact x), art_Index (x_Artifact x))"

definition sq_CreateArtifact ::
  "env \<Rightarrow> string \<Rightarrow> string \<Rightarrow> a2a_artifact \<Rightarrow> sqlite \<Rightarrow> error option \<times> sqlite" where
  "sq_CreateArtifact e ns taskID art s = committed s (exec (Fault e 0)
     (bindE (insert_row artifact_key
         \<lparr>x_TaskID = taskID, x_Artifact = art, x_CreatedAt = Now e 0\<rparr> (sq_artifacts s))
       (\<lambda>t. Inr (s\<lparr>sq_artifacts := t\<rparr>))))"

definition sq_GetArtifacts :: "env \<Rightarrow> string \<Rightarrow> string \<Rightarrow> sqlite \<Rightarrow> error + a2a_artifact list" where
  "sq_GetArtifacts e ns taskID s =
     (let rows = sort_key (\<lambda>x. (art_Name (x_Artifact x), art_Index (x_Artifact x)))
            (filter (\<lambda>x. x_TaskID x = taskID) (sq_artifacts s))
      in bindE (exec (Fault e 0) (Inr rows)) (\<lambda>rows. exec (Fault e 1) (Inr (map x_Artifact rows))))"

definition sqlite_provider :: "sqlite provider" where
  "sqlite_provider = \<lparr>p_CreateNamespace = sq_CreateNamespace,
     p_DeleteNamespace = sq_DeleteNamespace, p_Append = sq_Append, p_Query = sq_Query,
     p_ActiveClaims = sq_ActiveClaims, p_AgentState = sq_AgentState,
     p_ReleaseExpired = sq_ReleaseExpired, p_SendMessage = sq_SendMessage,
     p_GetMailbox = sq_GetMailbox, p_MarkRead = sq_MarkRead,
     p_ArchiveMessage = sq_ArchiveMessage, p_ExpireMessages = sq_ExpireMessages,
     p_CreateTask = sq_CreateTask, p_GetTask = sq_GetTask, p_UpdateTask = sq_UpdateTask,
     p_AppendTaskHistory = sq_AppendTaskHistory, p_GetTaskHistory = sq_GetTaskHistory,
     p_CreateArtifact = sq_CreateArtifact, p_GetArtifacts = sq_GetArtifacts,
     p_AppendAudit = sq_AppendAudit\<rparr>"

lemma sqlite_provider_simps [simp]:
  "p_CreateNamespace sqlite_provider = sq_CreateNamespace" "p_DeleteNamespace sqlite_provider = sq_DeleteNamespace"
  "p_Append sqlite_provider = sq_Append" "p_Query sqlite_provider = sq_Query"
  "p_ActiveClaims sqlite_provider = sq_ActiveClaims" "p_AgentState sqlite_provider = sq_AgentState"
  "p_ReleaseExpired sqlite_provider = sq_ReleaseExpired" "p_SendMessage sqlite_provider = sq_SendMessage"
  "p_GetMailbox sqlite_provider = sq_GetMailbox" "p_MarkRead sqlite_provider = sq_MarkRead"
  "p_ArchiveMessage sqlite_provider = sq_ArchiveMessage" "p_ExpireMessages sqlite_provider = sq_ExpireMessages"
  "p_CreateTask sqlite_provider = sq_CreateTask" "p_GetTask sqlite_provider = sq_GetTask"
  "p_UpdateTask sqlite_provider = sq_UpdateTask" "p_AppendTaskHistory sqlite_provider = sq_AppendTaskHistory"
  "p_GetTaskHistory sqlite_provider = sq_GetTaskHistory" "p_CreateArtifact sqlite_provider = sq_CreateArtifact"
  "p_GetArtifacts sqlite_provider = sq_GetArtifacts" "p_AppendAudit sqlite_provider = sq_AppendAudit"
  by (simp_all add: sqlite_provider_def)

end
