(* ===== verification/SqliteFacts.thy ===== *)
theory SqliteFacts
  imports SqliteProvider Client
begin

text \<open>
  The SQLite back end keeps the contract of theory \<open>ProviderIface\<close>: the log of a namespace is its
  rows in the order of their offsets, a failing append leaves nothing behind, and the claims it
  reports are computed without the heartbeats. Code: \<open>internal/sqlite/sqlite.go\<close>.
\<close>

section \<open>Keys and numbers\<close>

lemma sort_key_append_above:
  assumes "sorted (map f ys)" "\<forall>x \<in> set xs. \<forall>y \<in> set ys. f x \<le> f y"
  shows "sort_key f (xs @ ys) = sort_key f xs @ ys"
proof (rule properties_for_sort_key)
  show "mset (sort_key f xs @ ys) = mset (xs @ ys)" by simp
  show "filter (\<lambda>x. f k = f x) (sort_key f xs @ ys) = filter (\<lambda>x. f k = f x) (xs @ ys)"
    if "k \<in> set (sort_key f xs @ ys)" for k
    using sort_key_stable [of f "f k" xs] by (simp add: eq_commute [of "f k"])
  show "sorted (map f (sort_key f xs @ ys))" using assms by (simp add: sorted_append)
qed

lemma next_number_gt: "x \<in> set xs \<Longrightarrow> x < next_number xs"
  by (cases xs) (auto simp: next_number_def less_add_one fold_max_ge_iff
      intro: le_less_trans [OF _ less_add_one] fold_max_ge)

lemma next_number_pos: "\<forall>x \<in> set xs. 0 < x \<Longrightarrow> 0 < next_number xs"
proof (cases xs)
  case (Cons a ys)
  assume "\<forall>x \<in> set xs. 0 < x"
  with Cons have "0 < a" "a \<in> set xs" by simp_all
  with next_number_gt [of a xs] show ?thesis by simp
qed (simp add: next_number_def)

fun new_rows :: "env \<Rightarrow> string \<Rightarrow> nat \<Rightarrow> int \<Rightarrow> int \<Rightarrow> message list \<Rightarrow> message_row list" where
  "new_rows e ns i off seq [] = []"
| "new_rows e ns i off seq (m # msgs) =
     new_row e ns i off seq m # new_rows e ns (Suc i) (off + 1) (seq + 1) msgs"

lemma new_rows_simps [simp]:
  "length (new_rows e ns i off seq msgs) = length msgs"
  "map r_Offset (new_rows e ns i off seq msgs) = [off..off + int (length msgs) - 1]"
  "r \<in> set (new_rows e ns i off seq msgs) \<Longrightarrow> r_Namespace r = ns"
  by (induction msgs arbitrary: i off seq) (auto simp: upto_rec1 new_row_def algebra_simps)

lemma insert_loop_rows:
  "sq_insert_loop e ns i off seq msgs rows = Inr rows' \<Longrightarrow> rows' = rows @ new_rows e ns i off seq msgs"
proof (induction msgs arbitrary: i off seq rows)
  case (Cons m msgs)
  then have "sq_insert_loop e ns (Suc i) (off + 1) (seq + 1) msgs (rows @ [new_row e ns i off seq m]) = Inr rows'"
    by (auto simp: insert_row_def split: if_splits)
  from Cons.IH [OF this] show ?case by simp
qed simp

lemma new_rows_offset:
  "r \<in> set (new_rows e ns i off seq msgs) \<Longrightarrow> off \<le> r_Offset r"
  by (induction msgs arbitrary: i off seq) (fastforce simp: new_row_def)+

lemma sorted_new_rows: "sorted (map r_Offset (new_rows e ns i off seq msgs))"
  by simp

lemma map_offset_rows: "map m_Offset (map row_message rs) = map r_Offset rs"
  by (induction rs) (auto simp: row_message_def)

section \<open>The log\<close>

definition sq_log :: "sqlite \<Rightarrow> string \<Rightarrow> message list" where
  "sq_log s ns = map row_message (sort_key r_Offset (rows_of ns s))"

text \<open>The primary key of the table of messages, and offsets above 0.\<close>

definition sq_ok :: "sqlite \<Rightarrow> bool" where
  "sq_ok s \<longleftrightarrow> distinct (map message_key (sq_messages s)) \<and> (\<forall>r \<in> set (sq_messages s). 0 < r_Offset r)"

lemma rows_of_iff [simp]: "r \<in> set (rows_of ns s) \<longleftrightarrow> r \<in> set (sq_messages s) \<and> r_Namespace r = ns"
  by (auto simp: rows_of_def)

lemma sq_ok_distinct: "sq_ok s \<Longrightarrow> distinct (map r_Offset (rows_of ns s))"
proof -
  assume "sq_ok s"
  then have "distinct (map message_key (rows_of ns s))"
    unfolding sq_ok_def rows_of_def by (metis distinct_map_filter)
  then show ?thesis
    by (auto simp: distinct_map message_key_def inj_on_def)
qed

lemma sq_log_increasing: "sq_ok s \<Longrightarrow> increasing (sq_log s ns)"
proof -
  assume "sq_ok s"
  then have "distinct (map r_Offset (sort_key r_Offset (rows_of ns s)))"
    using sq_ok_distinct [of s ns] by (simp add: distinct_map)
  then have "sorted_wrt (<) (map r_Offset (sort_key r_Offset (rows_of ns s)))"
    by (simp add: strict_sorted_iff)
  then show ?thesis
    by (simp add: increasing_def sq_log_def o_def row_message_def)
qed

lemma sq_Append_rows:
  assumes "sq_Append e ns msgs s = (None, s')"
  shows "sq_messages s' = sq_messages s @ new_rows e ns 0 (next_number (map r_Offset (rows_of ns s)))
      (next_number (List.map_filter r_Seq (rows_of ns s))) msgs \<and> s' = s\<lparr>sq_messages := sq_messages s'\<rparr>"
  using assms by (auto simp: sq_Append_def dest: insert_loop_rows)

lemma sq_Append_ok:
  assumes "sq_ok s" "sq_Append e ns msgs s = (None, s')"
  shows "sq_ok s'"
proof -
  let ?off = "next_number (map r_Offset (rows_of ns s))"
  let ?new = "new_rows e ns 0 ?off (next_number (List.map_filter r_Seq (rows_of ns s))) msgs"
  have rows: "sq_messages s' = sq_messages s @ ?new" using sq_Append_rows [OF assms(2)] by blast
  have "0 < ?off" using assms(1) by (intro next_number_pos) (auto simp: sq_ok_def)
  then have pos: "\<forall>r \<in> set ?new. 0 < r_Offset r" using new_rows_offset by fastforce
  have "distinct (map r_Offset ?new)" by simp
  then have "distinct ?new" "inj_on r_Offset (set ?new)" unfolding distinct_map by blast+
  then have "distinct (map message_key ?new)"
    unfolding distinct_map inj_on_def message_key_def by blast
  moreover have "message_key r \<noteq> message_key r'" if "r \<in> set (sq_messages s)" "r' \<in> set ?new" for r r'
  proof
    assume "message_key r = message_key r'"
    then have eq: "r_Namespace r = ns" "r_Offset r = r_Offset r'"
      using that(2) by (auto simp: message_key_def)
    then have "r \<in> set (rows_of ns s)" using that(1) by simp
    then have "r_Offset r \<in> set (map r_Offset (rows_of ns s))" by simp
    then have "r_Offset r < ?off" by (rule next_number_gt)
    with new_rows_offset [OF that(2)] eq show False by simp
  qed
  ultimately show ?thesis
    using assms(1) pos unfolding sq_ok_def rows by (fastforce simp: distinct_append)
qed

lemma sq_Append_log:
  assumes "sq_ok s" "sq_Append e ns msgs s = (None, s')"
  shows "sq_log s' ns' = (if ns' = ns then sq_log s ns @ map row_message
      (new_rows e ns 0 (next_number (map r_Offset (rows_of ns s)))
        (next_number (List.map_filter r_Seq (rows_of ns s))) msgs) else sq_log s ns')"
proof -
  let ?off = "next_number (map r_Offset (rows_of ns s))"
  let ?new = "new_rows e ns 0 ?off (next_number (List.map_filter r_Seq (rows_of ns s))) msgs"
  have rows: "sq_messages s' = sq_messages s @ ?new" using sq_Append_rows [OF assms(2)] by blast
  have new: "filter (\<lambda>r. r_Namespace r = ns') ?new = (if ns' = ns then ?new else [])"
    by (auto simp: filter_empty_conv intro!: filter_True)
  have above: "\<forall>x \<in> set (rows_of ns s). \<forall>y \<in> set ?new. r_Offset x \<le> r_Offset y"
  proof (intro ballI)
    fix x y assume "x \<in> set (rows_of ns s)" "y \<in> set ?new"
    then have "r_Offset x < ?off" "?off \<le> r_Offset y"
      by (auto intro: next_number_gt new_rows_offset)
    then show "r_Offset x \<le> r_Offset y" by simp
  qed
  have "rows_of ns' s' = rows_of ns' s @ (if ns' = ns then ?new else [])"
    by (simp add: rows_of_def rows new)
  then show ?thesis
    using sort_key_append_above [OF sorted_new_rows above] by (simp add: sq_log_def)
qed


lemma stamped_new_rows: "list_all2 (stamped ns) msgs (map row_message (new_rows e ns i off seq msgs))"
  by (induction msgs arbitrary: i off seq) (auto simp: stamped_def new_row_def row_message_def)

lemma sq_Append_error: "sq_Append e ns msgs s = (Some err, s') \<Longrightarrow> s' = s"
  by (simp add: sq_Append_def)

section \<open>Queries and the contract\<close>

lemma query_where_eq: "query_where opts = (\<lambda>r. query_matches opts (row_message r))"
  by (auto simp: query_where_def query_matches_def row_message_def)

lemma sq_Query_eq: "sq_Query e ns opts s = Inr ms \<Longrightarrow> ms = query_result opts (sq_log s ns)"
  by (auto simp: sq_Query_def query_result_def limited_def sq_log_def filter_map o_def
      query_where_eq filter_sort take_map)

lemma sq_log_positive: "sq_ok s \<Longrightarrow> m \<in> set (sq_log s ns) \<Longrightarrow> 0 < m_Offset m"
  by (auto simp: sq_ok_def sq_log_def row_message_def)

definition sq_seen :: "message \<Rightarrow> bool" where
  "sq_seen m \<longleftrightarrow> m_Type m \<in> {MsgClaim, MsgRelease, MsgTransfer}"

lemma query_seen:
  assumes "sq_ok s"
  shows "query_result (no_opts\<lparr>q_Types := [MsgClaim, MsgRelease, MsgTransfer]\<rparr>) (sq_log s ns) =
    filter sq_seen (sq_log s ns)"
  using sq_log_positive [OF assms]
  by (auto simp: query_result_def limited_def no_opts_def query_matches_def sq_seen_def intro!: filter_cong)

interpretation sq: query_store sqlite_provider sq_log sq_ok sq_seen
proof (unfold_locales, goal_cases)
  case (1 s ns)
  then show ?case by (rule sq_log_increasing)
next
  case (2 s e ns msgs s')
  then have app: "sq_Append e ns msgs s = (None, s')" by simp
  show ?case
    using sq_Append_ok [OF 2(1) app] sq_Append_log [OF 2(1) app, of ns] stamped_new_rows by auto
next
  case (3 s e ns msgs r s' ns')
  then have app: "sq_Append e ns msgs s = (r, s')" by simp
  show ?case
  proof (cases r)
    case None
    with app have "sq_Append e ns msgs s = (None, s')" by simp
    from sq_Append_log [OF 3(1) this, of ns'] 3(3) show ?thesis by simp
  next
    case (Some err)
    with app sq_Append_error show ?thesis by blast
  qed
next
  case (4 s e ns msgs err s')
  then show ?case by (simp add: sq_Append_error)
next
  case (5 s e ns pat cs)
  then obtain msgs where "sq_Query e ns (no_opts\<lparr>q_Types := [MsgClaim, MsgRelease, MsgTransfer]\<rparr>) s = Inr msgs"
    and cs: "cs = matching_claims pat (FilterActiveClaims (Now e 0) msgs)"
    by (auto simp: sq_ActiveClaims_def)
  from sq_Query_eq [OF this(1)] query_seen [OF 5(1)] cs show ?case by simp
next
  case (6 m)
  then show ?case by (simp add: sq_seen_def)
next
  case (7 s e ns opts ms)
  then show ?case by (simp add: sq_Query_eq)
qed

section \<open>Append\<close>

definition max_offset :: "message list \<Rightarrow> int" where
  "max_offset msgs = fold max (map m_Offset msgs) 0"

lemma next_number_max: "\<forall>x \<in> set xs. 0 < x \<Longrightarrow> next_number xs = fold max xs 0 + 1"
  by (cases xs) (simp_all add: next_number_def max_def)

lemma fold_max_mset: "mset xs = mset ys \<Longrightarrow> fold max xs (a::int) = fold max ys a"
proof -
  assume "mset xs = mset ys"
  then have "fold max xs = fold max ys"
    by (intro fold_multiset_equiv) (auto simp: fun_eq_iff max.left_commute)
  then show ?thesis by simp
qed

lemma next_offset_eq:
  assumes "sq_ok s"
  shows "next_number (map r_Offset (rows_of ns s)) = max_offset (sq_log s ns) + 1"
proof -
  have "next_number (map r_Offset (rows_of ns s)) = fold max (map r_Offset (rows_of ns s)) 0 + 1"
    using assms by (intro next_number_max) (auto simp: sq_ok_def)
  moreover have "map m_Offset (sq_log s ns) = map r_Offset (sort_key r_Offset (rows_of ns s))"
    by (simp add: sq_log_def row_message_def)
  moreover have "mset (map r_Offset (sort_key r_Offset (rows_of ns s))) = mset (map r_Offset (rows_of ns s))"
    by simp
  ultimately show ?thesis by (metis fold_max_mset max_offset_def)
qed

text \<open>C38: An append to the SQLite log either fails and leaves every table as it was, or
  stores all the messages behind the old ones of the namespace, in order, with the offsets that
  follow the largest one still stored; other namespaces are untouched.\<close>

theorem sqlite_append:
  assumes "sq_ok s" and "sq_Append e ns msgs s = (r, s')"
  shows "(r \<noteq> None \<longrightarrow> s' = s) \<and>
    (r = None \<longrightarrow> sq_ok s' \<and>
      (\<exists>new. sq_log s' ns = sq_log s ns @ new \<and> list_all2 (stamped ns) msgs new \<and>
        map m_Offset new =
          [max_offset (sq_log s ns) + 1..max_offset (sq_log s ns) + int (length msgs)]) \<and>
      (\<forall>ns'. ns' \<noteq> ns \<longrightarrow> sq_log s' ns' = sq_log s ns'))"
proof (cases r)
  case None
  with assms(2) have app: "sq_Append e ns msgs s = (None, s')" by simp
  let ?new = "map row_message (new_rows e ns 0 (next_number (map r_Offset (rows_of ns s)))
        (next_number (List.map_filter r_Seq (rows_of ns s))) msgs)"
  have "map m_Offset ?new =
      map r_Offset (new_rows e ns 0 (next_number (map r_Offset (rows_of ns s)))
        (next_number (List.map_filter r_Seq (rows_of ns s))) msgs)"
    by (rule map_offset_rows)
  also have "\<dots> = [max_offset (sq_log s ns) + 1..max_offset (sq_log s ns) + int (length msgs)]"
    by (simp add: next_offset_eq [OF assms(1)])
  finally have "map m_Offset ?new = \<dots>" .
  with None sq_Append_ok [OF assms(1) app] sq_Append_log [OF assms(1) app] stamped_new_rows
  show ?thesis by (metis option.simps(3))
next
  case (Some err)
  with assms(2) sq_Append_error show ?thesis by blast
qed

lemma sq_ok_New: "sq_ok sq_New"
  by (simp add: sq_ok_def sq_New_def)

definition one_claim_db :: sqlite where
  "one_claim_db = snd (sq_Append (calm sample_time) ''n'' [claim_msg 0 0 (sample_claim ''c'' 60)] sq_New)"

lemma one_claim_db_eq:
  "one_claim_db = sq_New\<lparr>sq_messages := [\<lparr>r_Namespace = ''n'', r_Offset = 1, r_Type = MsgClaim,
     r_AgentID = ''alice'', r_Payload = Some (claim_json (sample_claim ''c'' 60)),
     r_Timestamp = sample_time, r_Seq = Some 1\<rparr>]\<rparr>"
  by (simp add: one_claim_db_def sq_Append_def sq_New_def rows_of_def next_number_def
      List.map_filter_simps insert_row_def new_row_def committed_def claim_msg_def)

lemma one_claim_db_ok: "sq_ok one_claim_db"
  by (simp add: one_claim_db_eq sq_ok_def)

theorem sqlite_append_witness:
  "\<exists>new. sq_log (snd (sq_Append (calm 1) ''n'' [ref_msg 0 0 MsgRelease ''c''] one_claim_db)) ''n'' =
     sq_log one_claim_db ''n'' @ new \<and> map m_Offset new = [2]"
proof -
  have "sq_Append (calm 1) ''n'' [ref_msg 0 0 MsgRelease ''c''] one_claim_db =
     (None, snd (sq_Append (calm 1) ''n'' [ref_msg 0 0 MsgRelease ''c''] one_claim_db))"
    by (simp add: sq_Append_def one_claim_db_eq rows_of_def next_number_def sq_New_def
        List.map_filter_simps insert_row_def new_row_def committed_def message_key_def)
  from sqlite_append [OF one_claim_db_ok this]
  show ?thesis by (auto simp: max_offset_def sq_log_def one_claim_db_eq rows_of_def row_message_def)
qed

section \<open>Deleting a namespace\<close>

text \<open>Deleting a namespace is atomic. If it fails nothing has changed; if
  it succeeds every table has lost exactly the rows of the namespace, the histories and artifacts
  of its tasks included, and kept all others.\<close>

theorem sqlite_delete_namespace:
  assumes "sq_DeleteNamespace e ns s = (r, s')"
  shows "(r \<noteq> None \<longrightarrow> s' = s) \<and>
    (r = None \<longrightarrow>
      sq_messages s' = filter (\<lambda>x. r_Namespace x \<noteq> ns) (sq_messages s) \<and>
      sq_mailbox s' = filter (\<lambda>b. b_Namespace b \<noteq> ns) (sq_mailbox s) \<and>
      sq_tasks s' = filter (\<lambda>t. t_Namespace t \<noteq> ns) (sq_tasks s) \<and>
      sq_history s' = filter (\<lambda>y. y_TaskID y \<notin> task_ids ns s) (sq_history s) \<and>
      sq_artifacts s' = filter (\<lambda>x. x_TaskID x \<notin> task_ids ns s) (sq_artifacts s) \<and>
      sq_audit s' = filter (\<lambda>a. ae_Namespace a \<noteq> ns) (sq_audit s) \<and>
      sq_namespaces s' = filter (\<lambda>n. ns_ID n \<noteq> ns) (sq_namespaces s))"
  using assms by (cases r) (auto simp: sq_DeleteNamespace_def task_ids_def)

theorem sqlite_delete_namespace_witness:
  "sq_messages (snd (sq_DeleteNamespace (calm 1) ''n'' one_claim_db)) = []"
  using sqlite_delete_namespace [OF surjective_pairing, of "calm 1" "''n''" one_claim_db]
  by (simp add: sq_DeleteNamespace_def committed_def one_claim_db_eq)

section \<open>Heartbeats\<close>

lemma sq_ActiveClaims_eq:
  assumes "sq_ok s"
  shows "sq_ActiveClaims e ns pat s = exec (Fault e 0) (exec (Fault e 1)
    (Inr (matching_claims pat (FilterActiveClaims (Now e 0) (filter sq_seen (sq_log s ns))))))"
proof (cases "Fault e 0 = None \<and> Fault e 1 = None")
  case True
  then obtain msgs where q: "sq_Query e ns (no_opts\<lparr>q_Types := [MsgClaim, MsgRelease, MsgTransfer]\<rparr>) s = Inr msgs"
    by (simp add: sq_Query_def Let_def)
  from sq_Query_eq [OF q] query_seen [OF assms] have "msgs = filter sq_seen (sq_log s ns)" by simp
  with q True show ?thesis by (simp add: sq_ActiveClaims_def)
next
  case False
  then show ?thesis
    by (auto simp: sq_ActiveClaims_def sq_Query_def exec_def bindE_def Let_def split: option.splits)
qed

text \<open>On the SQLite back end a heartbeat never keeps a claim active:
  \<open>ActiveClaims\<close> reads claim, release and transfer messages only, so an appended heartbeat has no
  influence on the claims it reports, at any time and for any pattern.\<close>

theorem sqlite_ignores_heartbeats:
  assumes "sq_ok s" and "m_Type m = MsgHeartbeat" and "sq_Append e ns [m] s = (None, s')"
  shows "sq_ActiveClaims e' ns pat s' = sq_ActiveClaims e' ns pat s"
proof -
  from sq_Append_log [OF assms(1,3), of ns]
  have "filter sq_seen (sq_log s' ns) = filter sq_seen (sq_log s ns)"
    using assms(2) by (simp add: sq_seen_def row_message_def new_row_def)
  then show ?thesis
    by (simp add: sq_ActiveClaims_eq assms(1) sq_Append_ok [OF assms(1,3)])
qed

lemma one_claim_append:
  "sq_Append (calm t) ''n'' [ref_msg 0 0 ty ''c''] one_claim_db =
     (None, one_claim_db\<lparr>sq_messages := sq_messages one_claim_db @
        [\<lparr>r_Namespace = ''n'', r_Offset = 2, r_Type = ty, r_AgentID = [],
          r_Payload = m_Payload (ref_msg 0 0 ty ''c''), r_Timestamp = t, r_Seq = Some 2\<rparr>]\<rparr>)"
  by (simp add: sq_Append_def one_claim_db_eq rows_of_def next_number_def sq_New_def
      List.map_filter_simps insert_row_def new_row_def committed_def message_key_def ref_msg_def)

theorem sqlite_ignores_heartbeats_witness:
  "sq_ActiveClaims (calm (sample_time + 61000000000)) ''n'' ''*''
     (snd (sq_Append (calm (sample_time + 50000000000)) ''n'' [ref_msg 0 0 MsgHeartbeat ''c''] one_claim_db)) =
   Inr []"
proof -
  have "sq_ActiveClaims (calm (sample_time + 61000000000)) ''n'' ''*''
     (snd (sq_Append (calm (sample_time + 50000000000)) ''n'' [ref_msg 0 0 MsgHeartbeat ''c''] one_claim_db)) =
    sq_ActiveClaims (calm (sample_time + 61000000000)) ''n'' ''*'' one_claim_db"
    using sqlite_ignores_heartbeats [OF one_claim_db_ok, of "ref_msg 0 0 MsgHeartbeat ''c''"
        "calm (sample_time + 50000000000)" "''n''"]
    by (simp add: one_claim_append)
  also have "\<dots> = Inr []"
    unfolding sq_ActiveClaims_eq [OF one_claim_db_ok]
    by (simp add: sq_log_def one_claim_db_eq rows_of_def row_message_def
        sq_seen_def FilterActiveClaims_eq live_def deadline_def released_in_def seconds_exact
        nanos_per_second_def matching_claims_def is_release_def)
  finally show ?thesis .
qed

section \<open>The sweeper's deletions\<close>

definition expired_row :: "time \<Rightarrow> string \<Rightarrow> message_row \<Rightarrow> bool" where
  "expired_row before ns r \<longleftrightarrow> r_Namespace r = ns \<and> r_Type r = MsgClaim \<and>
     (case decode_claim (r_Payload r) of None \<Rightarrow> False
      | Some c \<Rightarrow> c_CreatedAt c + seconds (c_TTLSeconds c) < before)"

lemma expired_offsets_calm:
  "(\<And>i. Fault e i = None) \<Longrightarrow> expired_offsets e before k rows =
     map r_Offset (filter (\<lambda>r. case decode_claim (r_Payload r) of None \<Rightarrow> False
       | Some c \<Rightarrow> c_CreatedAt c + seconds (c_TTLSeconds c) < before) rows)"
  by (induction rows arbitrary: k) (auto split: option.split)

lemma delete_loop_calm:
  "(\<And>i. Fault e i = None) \<Longrightarrow> delete_loop e ns k offs s =
     (None, s\<lparr>sq_messages := filter (\<lambda>r. \<not> (r_Namespace r = ns \<and> r_Offset r \<in> set offs)) (sq_messages s)\<rparr>)"
  by (induction offs arbitrary: k s) (auto intro!: arg_cong [of _ _ "\<lambda>x. s\<lparr>sq_messages := x\<rparr>" for s] filter_cong)

lemma sq_ReleaseExpired_calm:
  assumes "sq_ok s" "\<And>i. Fault e i = None"
  shows "sq_ReleaseExpired e ns before s =
    (None, s\<lparr>sq_messages := filter (\<lambda>r. \<not> expired_row before ns r) (sq_messages s)\<rparr>)"
proof -
  let ?rows = "filter (\<lambda>r. r_Type r = MsgClaim) (rows_of ns s)"
  let ?offs = "expired_offsets e before 1 ?rows"
  have inj: "r = r'" if "r \<in> set (sq_messages s)" "r' \<in> set (sq_messages s)"
    "r_Namespace r = r_Namespace r'" "r_Offset r = r_Offset r'" for r r'
    using assms(1) that unfolding sq_ok_def message_key_def distinct_map inj_on_def by blast
  have "r_Namespace r = ns \<and> r_Offset r \<in> set ?offs \<longleftrightarrow> expired_row before ns r"
    if r: "r \<in> set (sq_messages s)" for r
  proof
    assume h: "r_Namespace r = ns \<and> r_Offset r \<in> set ?offs"
    then obtain r' where r': "r' \<in> set (sq_messages s)" "r_Namespace r' = ns" "r_Type r' = MsgClaim"
      "r_Offset r = r_Offset r'" "case decode_claim (r_Payload r') of None \<Rightarrow> False
         | Some c \<Rightarrow> c_CreatedAt c + seconds (c_TTLSeconds c) < before"
      by (auto simp: expired_offsets_calm assms(2))
    with inj [OF r r'(1)] h show "expired_row before ns r" by (simp add: expired_row_def)
  qed (auto simp: expired_row_def expired_offsets_calm assms(2) r)
  then have "filter (\<lambda>r. \<not> (r_Namespace r = ns \<and> r_Offset r \<in> set ?offs)) (sq_messages s) =
      filter (\<lambda>r. \<not> expired_row before ns r) (sq_messages s)"
    by (intro filter_cong) auto
  then show ?thesis
    unfolding sq_ReleaseExpired_def assms(2) exec_None sum.case delete_loop_calm [OF assms(2)] by simp
qed

text \<open>The sweep of the SQLite back end deletes exactly the claim messages of
  the namespace whose creation plus TTL is past; heartbeats do not protect a claim, and the
  heartbeats and releases that belong to a deleted claim stay.\<close>

theorem sqlite_release_expired:
  assumes "sq_ok s" and "\<And>i. Fault e i = None"
  shows "sq_ReleaseExpired e ns before s =
    (None, s\<lparr>sq_messages := filter (\<lambda>r. \<not> (r_Namespace r = ns \<and> r_Type r = MsgClaim \<and>
      (case decode_claim (r_Payload r) of None \<Rightarrow> False
       | Some c \<Rightarrow> c_CreatedAt c + seconds (c_TTLSeconds c) < before))) (sq_messages s)\<rparr>)"
  using sq_ReleaseExpired_calm [OF assms] by (simp only: expired_row_def)

theorem sqlite_release_expired_witness:
  "sq_ReleaseExpired (calm 1) ''n'' (sample_time + 61000000000) one_claim_db = (None, sq_New)"
  by (subst sqlite_release_expired [OF one_claim_db_ok])
    (simp_all add: one_claim_db_eq sq_New_def seconds_exact nanos_per_second_def)

lemma sq_ok_filter: "sq_ok s \<Longrightarrow> sq_ok (s\<lparr>sq_messages := filter P (sq_messages s)\<rparr>)"
  by (auto simp: sq_ok_def distinct_map_filter)

text \<open>Once the newest messages of a namespace have been deleted, the next append
  gives their offsets out again: a reader that had already seen the deleted message asks for what
  lies behind it and does not get the new one.\<close>

theorem sqlite_offset_reuse:
  assumes "sq_ok s" and "sq_log s ns = kept @ [last_msg]" and "sq_ok s'" and "sq_log s' ns = kept"
    and "sq_Append e ns [m] s' = (None, s'')"
  shows "sq_Query e' ns (no_opts\<lparr>q_Since := m_Offset last_msg\<rparr>) s'' \<in> {Inr []} \<union> range Inl"
proof -
  obtain m' where log: "sq_log s'' ns = kept @ [m']" and off: "m_Offset m' = max_offset kept + 1"
    using sq_Append_log [OF assms(3,5), of ns] next_offset_eq [OF assms(3), of ns] assms(4)
    by (auto simp: row_message_def new_row_def)
  have inc: "increasing (kept @ [last_msg])" using sq_log_increasing [OF assms(1), of ns] assms(2) by simp
  then have below: "\<forall>x \<in> set kept. m_Offset x < m_Offset last_msg" by (simp add: increasing_append)
  moreover have "0 < m_Offset last_msg" using sq_log_positive [OF assms(1)] assms(2) by (metis in_set_conv_decomp)
  ultimately have "max_offset kept < m_Offset last_msg"
    by (auto simp: max_offset_def not_le [symmetric] fold_max_ge_iff)
  then have "\<forall>x \<in> set (sq_log s'' ns). m_Offset x \<le> m_Offset last_msg" using below off log by fastforce
  then have "query_result (no_opts\<lparr>q_Since := m_Offset last_msg\<rparr>) (sq_log s'' ns) = []"
    by (auto simp: query_result_def limited_def no_opts_def query_matches_def filter_empty_conv)
  then show ?thesis
    using sq_Query_eq [of e' ns "no_opts\<lparr>q_Since := m_Offset last_msg\<rparr>" s'']
    by (cases "sq_Query e' ns (no_opts\<lparr>q_Since := m_Offset last_msg\<rparr>) s''") auto
qed

theorem sqlite_offset_reuse_witness:
  "sq_Query (calm 0) ''n'' (no_opts\<lparr>q_Since := 1\<rparr>)
     (snd (sq_Append (calm 9) ''n'' [ref_msg 0 0 MsgRelease ''x'']
       (snd (sq_ReleaseExpired (calm 1) ''n'' (sample_time + 61000000000) one_claim_db)))) \<in> {Inr []} \<union> range Inl"
proof -
  have swept: "snd (sq_ReleaseExpired (calm 1) ''n'' (sample_time + 61000000000) one_claim_db) = sq_New"
    by (subst sq_ReleaseExpired_calm [OF one_claim_db_ok])
      (simp_all add: one_claim_db_eq sq_New_def expired_row_def seconds_exact nanos_per_second_def)
  have log: "sq_log one_claim_db ''n'' = [] @ [row_message (hd (sq_messages one_claim_db))]"
    by (simp add: sq_log_def one_claim_db_eq rows_of_def)
  have off: "m_Offset (row_message (hd (sq_messages one_claim_db))) = 1"
    by (simp add: one_claim_db_eq row_message_def)
  have empty: "sq_log sq_New ''n'' = []" by (simp add: sq_log_def sq_New_def rows_of_def)
  have "fst (sq_Append (calm 9) ''n'' [ref_msg 0 0 MsgRelease ''x''] sq_New) = None"
    by (simp add: sq_Append_def sq_New_def rows_of_def insert_row_def committed_def)
  then have "sq_Append (calm 9) ''n'' [ref_msg 0 0 MsgRelease ''x''] sq_New =
      (None, snd (sq_Append (calm 9) ''n'' [ref_msg 0 0 MsgRelease ''x''] sq_New))"
    by (metis prod.collapse)
  from sqlite_offset_reuse [OF one_claim_db_ok log sq_ok_New empty this, of "calm 0"]
  show ?thesis unfolding swept off .
qed

section \<open>The contract of tasks\<close>

lemma committed_field:
  assumes "\<And>s'. r = Inr s' \<Longrightarrow> f s' = f s"
  shows "f (snd (committed s r)) = f s"
  using assms by (cases r) (simp_all add: committed_def)

interpretation sq_task: task_store sqlite_provider "\<lambda>s. set (sq_tasks s)" sq_log
proof (unfold_locales, goal_cases)
  case (1 e ns t s r s' t')
  then show ?case
    by (cases r) (auto simp: sq_CreateTask_def insert_row_def split: if_splits)
next
  case (2 e ns t s r s' t')
  then show ?case
    by (cases r) (auto simp: sq_UpdateTask_def split: if_splits)
next
  case (3 e ns i s t)
  then obtain ts where "filter (\<lambda>t. t_Namespace t = ns \<and> t_ID t = i) (sq_tasks s) = t # ts"
    by (auto simp: sq_GetTask_def split: list.splits)
  then have "t \<in> set (filter (\<lambda>t. t_Namespace t = ns \<and> t_ID t = i) (sq_tasks s))" by simp
  then show ?case by simp
next
  case (8 e ns t s)
  have "sq_messages (snd (sq_UpdateTask e ns t s)) = sq_messages s"
    unfolding sq_UpdateTask_def by (rule committed_field) auto
  then show ?case by (simp add: sq_log_def rows_of_def fun_eq_iff)
qed (auto simp: sq_Append_def sq_SendMessage_def sq_AppendTaskHistory_def sq_CreateArtifact_def
    intro!: committed_field [where f = "\<lambda>s. set (sq_tasks s)"])

end
