(* ===== verification/ClientFacts.thy ===== *)
theory ClientFacts
  imports Client MemoryFacts SqliteFacts
begin

text \<open>
  What a client of \<open>pkg/hearsay/client.go\<close> gets on the two local back ends: the general facts of
  theory \<open>Client\<close> through the interpretations \<open>mem\<close> and \<open>sq\<close> of the contract.
\<close>

lemma mem_active_at: "mem.active_at now ns s = FilterActiveClaims now (mem_log s ns)"
  by (simp add: mem.active_at_def)

lemma mem_ActiveClaims_eq:
  "mem_ok s \<Longrightarrow> mem_ActiveClaims e ns pat s =
     Inr (matching_claims pat (FilterActiveClaims (Now e 0) (mem_log s ns)))"
  by (simp add: mem_ActiveClaims_def mem_Query_all)

lemma mem_Append_None: "mem_Append e ns msgs s = (None, snd (mem_Append e ns msgs s))"
  by (simp add: mem_Append_def)

lemma client_Claim_memory:
  assumes "mem_ok s"
  shows "client_Claim memory_provider ns es req s =
    (let c = request_claim (default_ttl req) (Now (es 1) 0) (Now (es 1) 1);
         active = FilterActiveClaims (Now (es 0) 0) (mem_log s ns); report = CheckConflict c active
     in if \<exists>a \<in> set active. blocks a c
        then ((Some \<lparr>rs_ClaimID = c_ClaimID c, rs_Conflict = Some report\<rparr>, Some (ConflictError report)), s)
        else ((Some \<lparr>rs_ClaimID = c_ClaimID c, rs_Conflict = None\<rparr>, None),
              snd (mem_Append (es 2) ns [new_message MsgClaim (rq_AgentID req) (claim_json c)] s)))"
proof -
  let ?c = "request_claim (default_ttl req) (Now (es 1) 0) (Now (es 1) 1)"
  let ?A = "FilterActiveClaims (Now (es 0) 0) (mem_log s ns)"
  let ?m = "[new_message MsgClaim (rq_AgentID req) (claim_json ?c)]"
  have pre: "CheckConflict ?c (matching_claims (rq_ResourceURI req) ?A) = CheckConflict ?c ?A"
    using CheckConflict_prefilter [of ?c ?A] by (simp del: One_nat_def)
  have act: "p_ActiveClaims memory_provider (es 0) ns (rq_ResourceURI req) s =
      Inr (matching_claims (rq_ResourceURI req) ?A)"
    by (simp add: mem_ActiveClaims_eq assms)
  have app: "p_Append memory_provider (es 2) ns ?m s = (None, snd (mem_Append (es 2) ns ?m s))"
    by (simp add: mem_Append_def)
  show ?thesis
    unfolding client_Claim_def Let_def act sum.case pre default_ttl_simps app prod.case option.case
    by (simp only: HasConflict_iff)
qed

text \<open>C5: On the in-memory back end a claim request is decided completely: if an active
  claim of another agent conflicts with it, the answer is a conflict error whose report names every
  such claim, and nothing is stored; otherwise the request succeeds with a fresh id, and exactly
  one claim message is appended, with the default TTL of 300 seconds if the request has none.\<close>

theorem memory_claim:
  assumes "mem_ok s"
  shows "client_Claim memory_provider ns es req s =
    (let c = (request_claim req (Now (es 1) 0) (Now (es 1) 1))
            \<lparr>c_TTLSeconds := if rq_TTLSeconds req = 0 then 300 else rq_TTLSeconds req\<rparr>;
         active = FilterActiveClaims (Now (es 0) 0) (mem_log s ns);
         report = \<lparr>HasConflict = True, Conflicts = map conflict_of (filter (\<lambda>a. blocks a c) active)\<rparr>
     in if \<exists>a \<in> set active. c_AgentID a \<noteq> c_AgentID c \<and> isConflicting (c_ResourceURI c) (c_Operation c) a
        then ((Some \<lparr>rs_ClaimID = c_ClaimID c, rs_Conflict = Some report\<rparr>, Some (ConflictError report)), s)
        else ((Some \<lparr>rs_ClaimID = c_ClaimID c, rs_Conflict = None\<rparr>, None),
              snd (mem_Append (es 2) ns [new_message MsgClaim (rq_AgentID req) (claim_json c)] s)))"
proof -
  have c: "request_claim (default_ttl req) (Now (es 1) 0) (Now (es 1) 1) =
      (request_claim req (Now (es 1) 0) (Now (es 1) 1))
        \<lparr>c_TTLSeconds := if rq_TTLSeconds req = 0 then 300 else rq_TTLSeconds req\<rparr>"
    by (simp add: request_claim_def default_ttl_def)
  show ?thesis
    unfolding client_Claim_memory [OF assms] c by (simp add: Let_def CheckConflict_eq blocks_def)
qed

definition sample_request :: "string \<Rightarrow> claim_request" where
  "sample_request agent = \<lparr>rq_ResourceURI = ''file://a.go'', rq_AgentID = agent, rq_Operation = OpWrite,
     rq_Intent = ''edit'', rq_ProjectedEnd = [], rq_TTLSeconds = 60, rq_ParentClaimID = []\<rparr>"

theorem memory_claim_witness:
  "fst (client_Claim memory_provider ''n'' (\<lambda>_. calm sample_time) (sample_request ''bob'') mem_New) =
     (Some \<lparr>rs_ClaimID = generateClaimID sample_time, rs_Conflict = None\<rparr>, None)"
  unfolding memory_claim [OF mem_ok_New]
  by (simp add: Let_def FilterActiveClaims_eq)

text \<open>C7: On the SQLite back end, with any failures of the database: a granted claim
  conflicts with none of the claims active when it was checked and is stored as one message; a
  refused or failed one changes nothing, and a conflict error carries the report of all the
  conflicting active claims.\<close>

theorem sqlite_claim:
  assumes "sq_ok s" and "client_Claim sqlite_provider ns es req s = ((resp, err), s')"
  shows "let c = request_claim (default_ttl req) (Now (es 1) 0) (Now (es 1) 1);
      active = FilterActiveClaims (Now (es 0) 0) (filter sq_seen (sq_log s ns))
    in case err of
        None \<Rightarrow> (\<forall>a \<in> set active. \<not> blocks a c) \<and>
          (\<exists>m. sq_log s' ns = sq_log s ns @ [m] \<and> m_Payload m = Some (claim_json c)) \<and> sq_ok s'
      | Some (ConflictError report) \<Rightarrow> s' = s \<and> report = CheckConflict c active \<and> Conflicts report \<noteq> []
      | Some _ \<Rightarrow> s' = s"
proof (cases err)
  case None
  have "resp \<noteq> None"
    using assms(2) None by (auto simp: client_Claim_def Let_def split: sum.splits if_splits prod.splits option.splits)
  then obtain r where "client_Claim sqlite_provider ns es req s = ((Some r, None), s')"
    using assms(2) None by auto
  from sq.claim_granted [OF assms(1) this] None show ?thesis
    by (auto simp: Let_def sq.active_at_def)
next
  case (Some e)
  with assms(2) have "client_Claim sqlite_provider ns es req s = ((resp, Some e), s')" by simp
  from sq.claim_refused [OF assms(1) this] Some show ?thesis
    by (auto simp: Let_def sq.active_at_def split: error.split)
qed

theorem sqlite_claim_witness:
  "snd (client_Claim sqlite_provider ''n'' (\<lambda>_. calm sample_time) (sample_request ''bob'') one_claim_db) =
     one_claim_db"
proof -
  let ?r = "client_Claim sqlite_provider ''n'' (\<lambda>_. calm sample_time) (sample_request ''bob'') one_claim_db"
  let ?c = "request_claim (default_ttl (sample_request ''bob'')) sample_time sample_time"
  have active: "FilterActiveClaims sample_time (filter sq_seen (sq_log one_claim_db ''n'')) = [sample_claim ''c'' 60]"
    by (simp add: sq_log_def one_claim_db_eq rows_of_def row_message_def sq_seen_def FilterActiveClaims_eq
        live_def deadline_def released_in_def is_release_def seconds_exact nanos_per_second_def)
  have blocked: "blocks (sample_claim ''c'' 60) ?c"
    by (simp add: blocks_def isConflicting_def sample_request_def)
  obtain resp err s' where r: "?r = ((resp, err), s')" by (metis prod.collapse)
  from sqlite_claim [OF one_claim_db_ok this] active blocked show ?thesis
    by (auto simp: r Let_def split: option.splits error.splits)
qed

text \<open>A claim granted by the in-memory back end is reported as active, under
  the request's own resource, from then on until its TTL ends.\<close>

theorem claim_becomes_active:
  assumes "mem_ok s" and "client_Claim memory_provider ns es req s = ((Some resp, None), s')"
    and "claim_ok (request_claim (default_ttl req) (Now (es 1) 0) (Now (es 1) 1))"
    and "release_offsets (mem_log s ns) (rs_ClaimID resp) = []"
    and "Now e 0 \<le> Now (es 1) 1 + seconds (rq_TTLSeconds (default_ttl req))"
  shows "\<exists>cs. mem_ActiveClaims e ns (rq_ResourceURI req) s' = Inr cs \<and>
    request_claim (default_ttl req) (Now (es 1) 0) (Now (es 1) 1) \<in> set cs"
proof -
  have "mem_ok s'" using mem.claim_granted [OF assms(1,2)] by (simp add: Let_def)
  moreover have "ResourceMatchesPattern (rq_ResourceURI req) (rq_ResourceURI req)"
    by (simp add: ResourceMatchesPattern_def)
  ultimately show ?thesis
    using mem.granted_active [OF assms(1-4), of "Now e 0"] assms(5)
    by (simp add: mem_ActiveClaims_eq mem_active_at matching_claims_def)
qed

theorem claim_becomes_active_witness:
  "\<exists>cs. mem_ActiveClaims (calm sample_time) ''n'' ''file://a.go''
     (snd (client_Claim memory_provider ''n'' (\<lambda>_. calm sample_time) (sample_request ''bob'') mem_New)) = Inr cs \<and>
   request_claim (default_ttl (sample_request ''bob'')) sample_time sample_time \<in> set cs"
proof -
  let ?r = "client_Claim memory_provider ''n'' (\<lambda>_. calm sample_time) (sample_request ''bob'') mem_New"
  have "fst ?r = (Some \<lparr>rs_ClaimID = generateClaimID sample_time, rs_Conflict = None\<rparr>, None)"
    unfolding client_Claim_memory [OF mem_ok_New] by (simp add: Let_def FilterActiveClaims_eq)
  then have r: "?r = ((Some \<lparr>rs_ClaimID = generateClaimID sample_time, rs_Conflict = None\<rparr>, None), snd ?r)"
    by (metis prod.collapse)
  show ?thesis
    using claim_becomes_active [OF mem_ok_New r, of "calm sample_time"]
    by (simp add: claim_ok_def sample_request_def seconds_exact nanos_per_second_def)
qed

text \<open>A transfer ends the claim for its holder and gives the other agent
  nothing: the active claims afterwards are the active claims before without those of that id,
  exactly as after a release.\<close>

theorem transfer_only_ends:
  assumes "mem_ok s" and "client_Transfer memory_provider ns es cid toAgent s = (None, s')"
    and "cid \<noteq> []" and "no_early_release (mem_log s ns) cid"
  shows "FilterActiveClaims now (mem_log s' ns) =
    filter (\<lambda>c. c_ClaimID c \<noteq> cid) (FilterActiveClaims now (mem_log s ns))"
  using mem.client_transfer_effect [OF assms(1,2,3), of now] assms(4) by (simp add: mem_active_at)

definition one_claim_mem :: memory where
  "one_claim_mem = snd (mem_Append (calm sample_time) ''n'' [claim_msg 0 0 (sample_claim ''c'' 60)] mem_New)"

lemma one_claim_mem_ok: "mem_ok one_claim_mem"
  unfolding one_claim_mem_def by (rule mem_ok_Append [OF mem_ok_New])

lemma one_claim_mem_log:
  "mem_log one_claim_mem ''n'' = [(claim_msg 1 sample_time (sample_claim ''c'' 60))\<lparr>m_Namespace := ''n''\<rparr>]"
  by (simp add: one_claim_mem_def mem_Append_log claim_msg_def)

theorem transfer_only_ends_witness:
  "FilterActiveClaims sample_time (mem_log (snd (client_Transfer memory_provider ''n''
     (\<lambda>_. calm sample_time) ''c'' ''bob'' one_claim_mem)) ''n'') = []"
proof -
  have "client_Transfer memory_provider ''n'' (\<lambda>_. calm sample_time) ''c'' ''bob'' one_claim_mem =
    (None, snd (client_Transfer memory_provider ''n'' (\<lambda>_. calm sample_time) ''c'' ''bob'' one_claim_mem))"
    by (simp add: client_Transfer_def mem_Append_def)
  from transfer_only_ends [OF one_claim_mem_ok this, of sample_time] show ?thesis
    by (simp add: no_early_release_def one_claim_mem_log FilterActiveClaims_eq is_release_def filter_empty_conv)
qed

section \<open>Nothing is held for ever\<close>

lemma sq_Append_one:
  assumes "\<forall>i. Fault e i = None"
  shows "fst (sq_Append e ns [m] d) = None"
proof -
  let ?off = "next_number (map r_Offset (rows_of ns d))"
  have "message_key (new_row e ns 0 ?off q m) \<notin> message_key ` set (sq_messages d)" for q
  proof
    assume "message_key (new_row e ns 0 ?off q m) \<in> message_key ` set (sq_messages d)"
    then obtain r where r: "r \<in> set (rows_of ns d)" and off: "r_Offset r = ?off"
      by (auto simp: message_key_def new_row_def)
    from r have "r_Offset r \<in> set (map r_Offset (rows_of ns d))" unfolding set_map by (rule imageI)
    from next_number_gt [OF this] off show False by simp
  qed
  then show ?thesis
    using assms by (simp add: sq_Append_def insert_row_def committed_def bindE_def)
qed

lemma eventually_none_active: "\<exists>T. \<forall>now > T. FilterActiveClaims now msgs = []"
proof -
  let ?D = "insert 0 ((\<lambda>e. deadline msgs (snd e)) ` set (claim_entries msgs))"
  have "FilterActiveClaims now msgs = []" if "now > Max ?D" for now
  proof -
    have "\<not> now \<le> deadline msgs (snd e)" if "e \<in> set (claim_entries msgs)" for e
    proof -
      have "deadline msgs (snd e) \<le> Max ?D" using that by (intro Max_ge) auto
      with \<open>now > Max ?D\<close> show ?thesis by linarith
    qed
    then show ?thesis by (auto simp: FilterActiveClaims_eq live_def filter_empty_conv)
  qed
  then show ?thesis by blast
qed

text \<open>C37: Whatever the log holds, nothing is held for ever: there is an instant after which,
  as long as nobody writes to the namespace, every request for a claim is granted, on the in-memory
  back end always and on SQLite whenever its statements succeed.\<close>

theorem eventually_granted:
  assumes "mem_ok s" and "sq_ok d"
  shows "\<exists>T. \<forall>es req. Now (es 0) 0 > T \<longrightarrow>
    snd (fst (client_Claim memory_provider ns es req s)) = None \<and>
    ((\<forall>k i. Fault (es k) i = None) \<longrightarrow> snd (fst (client_Claim sqlite_provider ns es req d)) = None)"
proof -
  obtain T1 where T1: "\<And>now. now > T1 \<Longrightarrow> FilterActiveClaims now (mem_log s ns) = []"
    using eventually_none_active by blast
  obtain T2 where T2: "\<And>now. now > T2 \<Longrightarrow> FilterActiveClaims now (filter sq_seen (sq_log d ns)) = []"
    using eventually_none_active by blast
  have "snd (fst (client_Claim memory_provider ns es req s)) = None" if "Now (es 0) 0 > max T1 T2" for es req
    using T1 [of "Now (es 0) 0"] that by (simp add: client_Claim_memory [OF assms(1)] Let_def)
  moreover have "snd (fst (client_Claim sqlite_provider ns es req d)) = None"
    if "Now (es 0) 0 > max T1 T2" "\<forall>k i. Fault (es k) i = None" for es req
  proof -
    let ?m = "new_message MsgClaim (rq_AgentID (default_ttl req)) (claim_json (request_claim (default_ttl req) (Now (es 1) 0) (Now (es 1) 1)))"
    have "fst (sq_Append (es 2) ns [?m] d) = None" using that(2) by (intro sq_Append_one) simp
    then obtain d' where "sq_Append (es 2) ns [?m] d = (None, d')" by (metis prod.collapse)
    then show ?thesis
      using T2 [of "Now (es 0) 0"] that
      by (simp add: client_Claim_def Let_def sq_ActiveClaims_eq assms(2) matching_claims_def CheckConflict_eq
          split: prod.split option.split)
  qed
  ultimately show ?thesis by blast
qed

theorem eventually_granted_witness:
  "\<exists>T. snd (fst (client_Claim sqlite_provider ''n'' (\<lambda>_. calm (T + 1)) (sample_request ''bob'') one_claim_db)) = None"
proof -
  obtain T where T: "\<forall>es req. Now (es 0) 0 > T \<longrightarrow>
    snd (fst (client_Claim memory_provider ''n'' es req mem_New)) = None \<and>
    ((\<forall>k i. Fault (es k) i = None) \<longrightarrow> snd (fst (client_Claim sqlite_provider ''n'' es req one_claim_db)) = None)"
    using eventually_granted [OF mem_ok_New one_claim_db_ok] by blast
  from T [rule_format, of "\<lambda>_. calm (T + 1)" "sample_request ''bob''"] show ?thesis by auto
qed

end
