(* ===== verification/Lifetimes.thy ===== *)
theory Lifetimes
  imports ActiveClaims
begin

text \<open>
  How long a claim of the log stays active: the effect of its TTL with Go's 64-bit durations, of
  heartbeats, and of a release that stands before the claim. These are consequences of
  \<open>FilterActiveClaims_eq\<close> of theory \<open>ActiveClaims\<close>; the code is \<open>pkg/hearsay/activeclaims.go\<close>.
\<close>

section \<open>The TTL\<close>

lemma live_no_refs:
  assumes "release_offsets msgs (c_ClaimID c) = []" "heartbeat_times msgs (c_ClaimID c) = []"
  shows "live now msgs (off, c) \<longleftrightarrow> now \<le> c_CreatedAt c + seconds (c_TTLSeconds c)"
  using assms by (simp add: live_def released_in_def deadline_def)

lemma entry_active_iff:
  assumes "(off, c) \<in> set (claim_entries msgs)"
    and "\<And>o'. (o', c) \<in> set (claim_entries msgs) \<Longrightarrow> live now msgs (o', c) \<longleftrightarrow> P"
  shows "c \<in> set (FilterActiveClaims now msgs) \<longleftrightarrow> P"
  using assms unfolding FilterActiveClaims_iff by blast

text \<open>A claim that nothing in the log refers to is active exactly up to its creation
  plus its TTL, for every TTL whose nanoseconds fit a 64-bit duration.\<close>

theorem ttl_exact:
  assumes "(off, c) \<in> set (claim_entries msgs)"
    and "release_offsets msgs (c_ClaimID c) = []" and "heartbeat_times msgs (c_ClaimID c) = []"
    and "\<bar>c_TTLSeconds c\<bar> \<le> 9223372036"
  shows "c \<in> set (FilterActiveClaims now msgs) \<longleftrightarrow>
    now \<le> c_CreatedAt c + c_TTLSeconds c * 1000000000"
  using assms(2-4)
  by (intro entry_active_iff [OF assms(1)])
    (simp add: live_no_refs seconds_exact nanos_per_second_def)

theorem ttl_exact_witness:
  "sample_claim ''c'' 300 \<in> set (FilterActiveClaims (sample_time + 300000000000)
     [claim_msg 1 sample_time (sample_claim ''c'' 300)]) \<and>
   sample_claim ''c'' 300 \<notin> set (FilterActiveClaims (sample_time + 300000000001)
     [claim_msg 1 sample_time (sample_claim ''c'' 300)])"
  using ttl_exact [of 1 "sample_claim ''c'' 300" "[claim_msg 1 sample_time (sample_claim ''c'' 300)]"]
  by simp



section \<open>Heartbeats\<close>

lemma heartbeat_not_release: "m_Type m = MsgHeartbeat \<Longrightarrow> \<not> is_release m"
  by (simp add: is_release_def)

lemma released_in_heartbeat:
  "m_Type m = MsgHeartbeat \<Longrightarrow> released_in (msgs @ [m]) off c = released_in msgs off c"
  by (simp add: released_in_def heartbeat_not_release)

text \<open>A heartbeat at time \<open>t\<close> gives a claim that is not released a fresh
  TTL: after it the claim is active up to \<open>t\<close> plus its TTL or its old deadline, whichever is
  later.\<close>

theorem heartbeat_restarts_ttl:
  assumes "(off, c) \<in> set (claim_entries msgs)"
    and "\<forall>o'. (o', c) \<in> set (claim_entries msgs) \<longrightarrow> \<not> released_in msgs o' c"
    and "m_Type m = MsgHeartbeat" and "decode_ref (m_Payload m) = Some (c_ClaimID c)"
    and "c_ClaimID c \<noteq> []" and "0 < m_Timestamp m"
  shows "c \<in> set (FilterActiveClaims now (msgs @ [m])) \<longleftrightarrow>
    now \<le> max (m_Timestamp m + seconds (c_TTLSeconds c)) (deadline msgs c)"
proof (rule entry_active_iff)
  show "(off, c) \<in> set (claim_entries (msgs @ [m]))" using assms(1,3) by simp
  show "live now (msgs @ [m]) (o', c) \<longleftrightarrow>
      now \<le> max (m_Timestamp m + seconds (c_TTLSeconds c)) (deadline msgs c)"
    if "(o', c) \<in> set (claim_entries (msgs @ [m]))" for o'
    using that assms by (simp add: live_def released_in_heartbeat deadline_append)
qed

theorem heartbeat_restarts_ttl_witness:
  "sample_claim ''c'' 60 \<in> set (FilterActiveClaims (sample_time + 90000000000)
     ([claim_msg 1 sample_time (sample_claim ''c'' 60)] @
      [ref_msg 2 (sample_time + 30000000000) MsgHeartbeat ''c'']))"
  using heartbeat_restarts_ttl [of 1 "sample_claim ''c'' 60"
      "[claim_msg 1 sample_time (sample_claim ''c'' 60)]"
      "ref_msg 2 (sample_time + 30000000000) MsgHeartbeat ''c''" "sample_time + 90000000000"]
  by (simp add: released_in_def seconds_exact nanos_per_second_def sample_time_def)

lemma expired_revives:
  assumes "(off, c) \<in> set (claim_entries msgs)" "\<not> released_in msgs off c"
    and "m_Type m = MsgHeartbeat" "decode_ref (m_Payload m) = Some (c_ClaimID c)"
    and "c_ClaimID c \<noteq> []" "0 < m_Timestamp m" "now \<le> m_Timestamp m + seconds (c_TTLSeconds c)"
  shows "c \<in> set (FilterActiveClaims now (msgs @ [m]))"
proof -
  have "(off, c) \<in> set (claim_entries (msgs @ [m]))" using assms(1,3) by simp
  moreover have "live now (msgs @ [m]) (off, c)"
    using assms by (simp add: live_def released_in_heartbeat deadline_append)
  ultimately show ?thesis unfolding FilterActiveClaims_iff by blast
qed

text \<open>A heartbeat that comes after the deadline is not ignored: it makes
  the expired claim active again, although in between another agent may have taken the
  resource.\<close>

theorem late_heartbeat_revives:
  assumes "(off, c) \<in> set (claim_entries msgs)" and "\<not> released_in msgs off c"
    and "c \<notin> set (FilterActiveClaims now msgs)"
    and "c_ClaimID c \<noteq> []" and "0 < now" and "0 \<le> c_TTLSeconds c" and "c_TTLSeconds c \<le> 9223372036"
  shows "c \<in> set (FilterActiveClaims now (msgs @ [ref_msg o' now MsgHeartbeat (c_ClaimID c)]))"
  using assms by (intro expired_revives [of off]) (simp_all add: seconds_exact nanos_per_second_def)

theorem late_heartbeat_revives_witness:
  "sample_claim ''c'' 60 \<in> set (FilterActiveClaims (sample_time + 900000000000)
     ([claim_msg 1 sample_time (sample_claim ''c'' 60)] @
      [ref_msg 2 (sample_time + 900000000000) MsgHeartbeat (c_ClaimID (sample_claim ''c'' 60))]))"
proof (rule late_heartbeat_revives [of 1])
  show "sample_claim ''c'' 60 \<notin> set (FilterActiveClaims (sample_time + 900000000000)
      [claim_msg 1 sample_time (sample_claim ''c'' 60)])"
    by (simp add: FilterActiveClaims_eq live_no_refs seconds_exact nanos_per_second_def)
qed (simp_all add: released_in_def sample_time_def)

section \<open>A release before the claim\<close>

lemma release_offsets_sub: "set (release_offsets msgs cid) \<subseteq> set (release_offsets (msgs @ ext) cid)"
  by simp

text \<open>Only the smallest release offset of an id is kept. A release (or
  transfer) of an id that stands before a claim of that id therefore hides every later one: the
  claim stays active until its deadline, whatever is appended.\<close>

theorem early_release_shadows:
  assumes "(off, c) \<in> set (claim_entries (msgs @ ext))"
    and "r \<in> set (release_offsets msgs (c_ClaimID c))" and "r \<le> off"
    and "now \<le> deadline (msgs @ ext) c"
  shows "c \<in> set (FilterActiveClaims now (msgs @ ext))"
proof -
  have "r \<in> set (release_offsets (msgs @ ext) (c_ClaimID c))"
    using assms(2) release_offsets_sub by blast
  then have "\<not> released_in (msgs @ ext) off c" using assms(3) by (auto simp: released_in_def not_less)
  then have "live now (msgs @ ext) (off, c)" using assms(4) by (simp add: live_def)
  with assms(1) show ?thesis unfolding FilterActiveClaims_iff by blast
qed

theorem early_release_shadows_witness:
  "sample_claim ''c'' 60 \<in> set (FilterActiveClaims sample_time
     ([ref_msg 1 sample_time MsgRelease ''c''] @
      [claim_msg 2 sample_time (sample_claim ''c'' 60), ref_msg 3 sample_time MsgRelease ''c'']))"
  by (rule early_release_shadows [of 2 _ _ _ 1])
    (simp_all add: deadline_def seconds_exact nanos_per_second_def)

end
