(* ===== verification/Exclusion.thy ===== *)
theory Exclusion
  imports ClientFacts Lifetimes
begin

text \<open>
  Many clients on one in-memory back end (\<open>pkg/hearsay/client.go\<close> over
  \<open>internal/memory/memory.go\<close>) as a state machine: a state is the store and the present time, a
  step one whole client operation or the passing of time. While operations do not overlap, the
  active claims exclude each other; the last section shows what happens when two of them do.
\<close>

section \<open>The steps\<close>

text \<open>The clock readings of a claim, and of an operation with one message, lie between the times
  before and after the step, in the order in which they are taken.\<close>

definition claim_times :: "time \<Rightarrow> envs \<Rightarrow> time \<Rightarrow> bool" where
  "claim_times t es t' \<longleftrightarrow> t < Now (es 0) 0 \<and> Now (es 0) 0 \<le> Now (es 1) 0 \<and> Now (es 1) 0 \<le> Now (es 1) 1
     \<and> Now (es 1) 1 \<le> Now (es 2) 0 \<and> Now (es 2) 0 \<le> t' \<and> nano_range (Now (es 1) 0)"

definition call_times :: "time \<Rightarrow> envs \<Rightarrow> time \<Rightarrow> bool" where
  "call_times t es t' \<longleftrightarrow> t < Now (es 0) 0 \<and> Now (es 0) 0 \<le> Now (es 1) 0 \<and> Now (es 1) 0 \<le> t'"

text \<open>Heartbeats are sent for claims that are still active; \<open>late_heartbeat_revives\<close> in theory
  \<open>Lifetimes\<close> says why this cannot be dropped.\<close>

inductive step :: "string \<Rightarrow> memory \<times> time \<Rightarrow> memory \<times> time \<Rightarrow> bool" for ns where
  claim: "client_Claim memory_provider ns es req s = (r, s') \<Longrightarrow> claim_times t es t' \<Longrightarrow>
    claim_ok (request_claim (default_ttl req) (Now (es 1) 0) (Now (es 1) 1)) \<Longrightarrow> step ns (s, t) (s', t')"
| release: "client_Release memory_provider ns es cid outcome s = (r, s') \<Longrightarrow> call_times t es t' \<Longrightarrow>
    step ns (s, t) (s', t')"
| transfer: "client_Transfer memory_provider ns es cid to s = (r, s') \<Longrightarrow> call_times t es t' \<Longrightarrow>
    step ns (s, t) (s', t')"
| intent: "client_UpdateIntent memory_provider ns es cid intent s = (r, s') \<Longrightarrow> call_times t es t' \<Longrightarrow>
    step ns (s, t) (s', t')"
| heartbeat: "client_Heartbeat memory_provider ns es cid s = (r, s') \<Longrightarrow> call_times t es t' \<Longrightarrow>
    cid \<in> c_ClaimID ` set (FilterActiveClaims (Now (es 1) 0) (mem_log s ns)) \<Longrightarrow>
    step ns (s, t) (s', t')"
| sweep: "mem_ReleaseExpired e ns before s = (r, s') \<Longrightarrow> step ns (s, t) (s', t)"
| wait: "t \<le> t' \<Longrightarrow> step ns (s, t) (s, t')"

inductive reachable :: "string \<Rightarrow> memory \<times> time \<Rightarrow> bool" for ns where
  start: "reachable ns (mem_New, t)"
| step: "reachable ns st \<Longrightarrow> step ns st st' \<Longrightarrow> reachable ns st'"

inductive_cases stepE: "step ns (s, t) st'"
inductive_simps reachable_simps: "reachable ns st"

section \<open>The invariant\<close>

definition entries :: "string \<Rightarrow> memory \<Rightarrow> (int \<times> claim) list" where
  "entries ns s = claim_entries (mem_log s ns)"

definition ids_fresh :: "string \<Rightarrow> memory \<Rightarrow> time \<Rightarrow> bool" where
  "ids_fresh ns s t \<longleftrightarrow> distinct (map (\<lambda>e. c_ClaimID (snd e)) (entries ns s)) \<and>
     (\<forall>e \<in> set (entries ns s). \<exists>u \<le> t. nano_range u \<and> c_ClaimID (snd e) = generateClaimID u)"

text \<open>In log order, no active claim is blocked by an older active one.\<close>

definition exclusive :: "string \<Rightarrow> memory \<Rightarrow> time \<Rightarrow> bool" where
  "exclusive ns s t \<longleftrightarrow> sorted_wrt (\<lambda>a b. \<not> blocks a b) (FilterActiveClaims t (mem_log s ns))"

definition inv :: "string \<Rightarrow> memory \<times> time \<Rightarrow> bool" where
  "inv ns st \<longleftrightarrow> mem_ok (fst st) \<and> ids_fresh ns (fst st) (snd st) \<and> exclusive ns (fst st) (snd st)"

lemma sorted_wrt_map_filter:
  assumes "\<And>x. x \<in> set xs \<Longrightarrow> Q x \<Longrightarrow> P x" "sorted_wrt R (map f (filter P xs))"
  shows "sorted_wrt R (map f (filter Q xs))"
proof -
  have "filter Q xs = filter Q (filter P xs)" using assms(1) by (induction xs) auto
  then show ?thesis using assms(2) by (metis sorted_wrt_filter sorted_wrt_map)
qed

lemma exclusive_mono:
  assumes "exclusive ns s t" "entries ns s' = entries ns s"
    and "\<And>e. e \<in> set (entries ns s) \<Longrightarrow> live t' (mem_log s' ns) e \<Longrightarrow> live t (mem_log s ns) e"
  shows "exclusive ns s' t'"
  using assms(1) sorted_wrt_map_filter [of "entries ns s" "live t' (mem_log s' ns)" "live t (mem_log s ns)"]
    assms(3) unfolding exclusive_def FilterActiveClaims_eq assms(2) [unfolded entries_def] entries_def
  by blast

lemma ids_fresh_mono: "ids_fresh ns s t \<Longrightarrow> entries ns s' = entries ns s \<Longrightarrow> t \<le> t' \<Longrightarrow> ids_fresh ns s' t'"
  unfolding ids_fresh_def by (metis order_trans)

text \<open>A message that is neither a claim nor a heartbeat can only end claims.\<close>

lemma live_append_other:
  assumes "live now (msgs @ [m]) (off, c)" "m_Type m \<noteq> MsgHeartbeat" "off < m_Offset m"
  shows "live now msgs (off, c)"
proof -
  have "deadline (msgs @ [m]) c = deadline msgs c" using assms(2) by (simp add: deadline_append)
  with assms(1,3) show ?thesis by (auto simp: live_def released_in_append)
qed

lemma live_append_heartbeat:
  assumes "live now (msgs @ [m]) (off, c)" "m_Type m = MsgHeartbeat"
    and "decode_ref (m_Payload m) = Some (c_ClaimID c) \<Longrightarrow> live t msgs (off, c)" "t \<le> now"
  shows "live t msgs (off, c)"
proof (cases "decode_ref (m_Payload m) = Some (c_ClaimID c)")
  case False
  then have "live now msgs (off, c)"
    using assms(1,2) by (simp add: live_def deadline_append released_in_heartbeat)
  from live_time_mono [OF assms(4) this] show ?thesis .
qed (rule assms(3))

text \<open>A single message appended through the provider.\<close>

lemma append_step:
  assumes "mem_ok s" "p_Append memory_provider e ns [m] s = (r, s')"
  obtains m' where "mem_log s' ns = mem_log s ns @ [m']" "m_Type m' = m_Type m"
    "m_Payload m' = m_Payload m" "follows (mem_log s ns) m'" "mem_ok s'"
proof -
  have "p_Append memory_provider e ns [m] s = (None, s')" using assms(2) by (simp add: mem_Append_def)
  from mem.append_one [OF assms(1) this] obtain m' where
    "mem_log s' ns = mem_log s ns @ [m']" "stamped ns m m'" "follows (mem_log s ns) m'" "mem_ok s'" .
  then show thesis by (intro that [of m']) (simp_all add: stamped_def)
qed

lemma inv_other_message:
  assumes "inv ns (s, t)" "p_Append memory_provider e ns [m] s = (r, s')"
    and "m_Type m \<noteq> MsgClaim" "m_Type m \<noteq> MsgHeartbeat" "t \<le> t'"
  shows "inv ns (s', t')"
proof -
  have ok: "mem_ok s" using assms(1) by (simp add: inv_def)
  obtain m' where m': "mem_log s' ns = mem_log s ns @ [m']" "m_Type m' = m_Type m"
    "follows (mem_log s ns) m'" "mem_ok s'"
    using append_step [OF ok assms(2)] by blast
  have same: "entries ns s' = entries ns s" using m' assms(3) by (simp add: entries_def)
  have "exclusive ns s' t'"
  proof (rule exclusive_mono [OF _ same])
    show "exclusive ns s t" using assms(1) by (simp add: inv_def)
    fix e assume e: "e \<in> set (entries ns s)" "live t' (mem_log s' ns) e"
    obtain off c where [simp]: "e = (off, c)" by fastforce
    have "off < m_Offset m'" using follows_entry [OF m'(3)] e(1) by (simp add: entries_def)
    then have "live t' (mem_log s ns) e"
      using e(2) assms(4) m'(1,2) live_append_other [of t' "mem_log s ns" m' off c] by simp
    then show "live t (mem_log s ns) e" using live_time_mono [OF assms(5)] by blast
  qed
  with m'(4) same assms(1,5) ids_fresh_mono show ?thesis by (auto simp: inv_def)
qed

lemma inv_heartbeat:
  assumes "inv ns (s, t)" "p_Append memory_provider e ns [m] s = (r, s')" "m_Type m = MsgHeartbeat"
    and "decode_ref (m_Payload m) = Some cid"
    and "cid \<in> c_ClaimID ` set (FilterActiveClaims u (mem_log s ns))" "t \<le> u" "u \<le> t'"
  shows "inv ns (s', t')"
proof -
  have ok: "mem_ok s" using assms(1) by (simp add: inv_def)
  obtain m' where m': "mem_log s' ns = mem_log s ns @ [m']" "m_Type m' = m_Type m"
    "m_Payload m' = m_Payload m" "mem_ok s'"
    using append_step [OF ok assms(2)] by blast
  obtain e0 where e0: "e0 \<in> set (entries ns s)" "live u (mem_log s ns) e0" "c_ClaimID (snd e0) = cid"
    using assms(5) by (auto simp: FilterActiveClaims_eq entries_def)
  have uniq: "e = e0" if "e \<in> set (entries ns s)" "c_ClaimID (snd e) = cid" for e
    using assms(1) that e0 unfolding inv_def ids_fresh_def distinct_map inj_on_def by auto
  have same: "entries ns s' = entries ns s" using m' assms(3) by (simp add: entries_def)
  have "exclusive ns s' t'"
  proof (rule exclusive_mono [OF _ same])
    show "exclusive ns s t" using assms(1) by (simp add: inv_def)
    fix e assume e: "e \<in> set (entries ns s)" "live t' (mem_log s' ns) e"
    obtain off c where [simp]: "e = (off, c)" by fastforce
    have "live t (mem_log s ns) (off, c)"
    proof (rule live_append_heartbeat [of t' _ m'])
      show "live t' (mem_log s ns @ [m']) (off, c)" "m_Type m' = MsgHeartbeat" "t \<le> t'"
        using e(2) m' assms by simp_all
      assume "decode_ref (m_Payload m') = Some (c_ClaimID c)"
      then have "c_ClaimID (snd e) = cid" using m'(3) assms(4) by simp
      then have "e = e0" using uniq e(1) by blast
      then show "live t (mem_log s ns) (off, c)" using e0(2) live_time_mono [OF assms(6)] by auto
    qed
    then show "live t (mem_log s ns) e" by simp
  qed
  moreover have "t \<le> t'" using assms(6,7) by simp
  ultimately show ?thesis using m'(4) same assms(1) ids_fresh_mono by (auto simp: inv_def)
qed

text \<open>A granted claim: its id is new, and nothing that is still active later stands in its way.\<close>

lemma ids_fresh_claim:
  assumes "ids_fresh ns s t" "entries ns s' = entries ns s @ [(off, c)]" "c_ClaimID c = generateClaimID u"
    and "nano_range u" "t < u" "u \<le> t'"
  shows "ids_fresh ns s' t'"
proof -
  have "c_ClaimID (snd e) \<noteq> c_ClaimID c" if e: "e \<in> set (entries ns s)" for e
  proof -
    obtain v where "v \<le> t" "nano_range v" "c_ClaimID (snd e) = generateClaimID v"
      using assms(1) e unfolding ids_fresh_def by blast
    then show ?thesis using generateClaimID_inj [of v u] assms(3,4,5) by (metis not_less)
  qed
  then have "distinct (map (\<lambda>e. c_ClaimID (snd e)) (entries ns s'))"
    using assms(1) unfolding assms(2) ids_fresh_def by auto
  moreover have "\<exists>v \<le> t'. nano_range v \<and> c_ClaimID (snd e) = generateClaimID v" if "e \<in> set (entries ns s')" for e
  proof (cases "e = (off, c)")
    case False
    with that have "e \<in> set (entries ns s)" by (simp add: assms(2))
    moreover have "t \<le> t'" using assms(5,6) by simp
    ultimately show ?thesis using assms(1) unfolding ids_fresh_def by (meson order_trans)
  qed (use assms(3,4,6) in auto)
  ultimately show ?thesis by (simp add: ids_fresh_def)
qed

lemma exclusive_claim:
  assumes "exclusive ns s t" "entries ns s' = entries ns s @ [(off, c)]"
    and "\<And>e. e \<in> set (entries ns s) \<Longrightarrow> live t' (mem_log s' ns) e \<Longrightarrow> live t (mem_log s ns) e \<and> \<not> blocks (snd e) c"
  shows "exclusive ns s' t'"
proof -
  have "sorted_wrt (\<lambda>a b. \<not> blocks a b) (map snd (filter (live t' (mem_log s' ns)) (entries ns s)))"
    by (rule sorted_wrt_map_filter [OF _ assms(1) [unfolded exclusive_def FilterActiveClaims_eq, folded entries_def]])
      (use assms(3) in blast)
  then show ?thesis
    unfolding exclusive_def FilterActiveClaims_eq entries_def [symmetric] assms(2) filter_append map_append
      sorted_wrt_append using assms(3) by (simp only: filter.simps list.map set_map set_filter) auto
qed

lemma inv_claim:
  assumes "inv ns (s, t)" "client_Claim memory_provider ns es req s = (r, s')" "claim_times t es t'"
    and cok: "claim_ok (request_claim (default_ttl req) (Now (es 1) 0) (Now (es 1) 1))"
  shows "inv ns (s', t')"
proof -
  let ?c = "request_claim (default_ttl req) (Now (es 1) 0) (Now (es 1) 1)"
  have ok: "mem_ok s" and ids: "ids_fresh ns s t" and ex: "exclusive ns s t"
    using assms(1) by (simp_all add: inv_def)
  have tt: "t \<le> t'" "t \<le> Now (es 0) 0" "Now (es 0) 0 \<le> t'"
      "nano_range (Now (es 1) 0)" "t < Now (es 1) 0" "Now (es 1) 0 \<le> t'"
    using assms(3) by (auto simp: claim_times_def)
  show ?thesis
  proof (cases "\<exists>err. snd r = Some err")
    case True
    then obtain x err where "r = (x, Some err)" by (metis prod.collapse)
    with assms(2) mem.claim_refused [OF ok] have "s' = s" by blast
    moreover have "exclusive ns s t'"
      by (rule exclusive_mono [OF ex refl]) (rule live_time_mono [OF tt(1)])
    ultimately show ?thesis using ok ids_fresh_mono [OF ids refl tt(1)] by (simp add: inv_def)
  next
    case False
    then have "snd r = None" by (cases "snd r") auto
    moreover have "fst r \<noteq> None"
      using assms(2) by (auto simp: client_Claim_memory [OF ok] Let_def split: if_splits)
    ultimately obtain resp where "r = (Some resp, None)" by (metis option.exhaust prod.collapse)
    with assms(2) have "client_Claim memory_provider ns es req s = ((Some resp, None), s')" by simp
    from mem.claim_granted [OF ok this] obtain m where
      free: "\<forall>a \<in> set (mem.active_at (Now (es 0) 0) ns s). \<not> blocks a ?c" and ok': "mem_ok s'" and
      m: "mem_log s' ns = mem_log s ns @ [m]" "m_Type m = MsgClaim" "m_Payload m = Some (claim_json ?c)"
        "follows (mem_log s ns) m"
      by (auto simp: Let_def)
    have ent: "entries ns s' = entries ns s @ [(m_Offset m, ?c)]"
      using m decode_claim_json [OF cok] by (simp add: entries_def)
    have "live t (mem_log s ns) e \<and> \<not> blocks (snd e) ?c"
      if e: "e \<in> set (entries ns s)" "live t' (mem_log s' ns) e" for e
    proof -
      obtain off c where off: "e = (off, c)" by fastforce
      have "off < m_Offset m" using follows_entry [OF m(4)] e(1) by (simp add: off entries_def)
      with e(2) m(1,2) have old: "live t' (mem_log s ns) e"
        using live_append_other [of t' "mem_log s ns" m off c] by (simp add: off)
      with e(1) have "snd e \<in> set (mem.active_at (Now (es 0) 0) ns s)"
        using live_time_mono [OF tt(3)] by (auto simp: mem_active_at FilterActiveClaims_eq entries_def)
      with free old live_time_mono [OF tt(1)] show ?thesis by blast
    qed
    then have "exclusive ns s' t'" by (rule exclusive_claim [OF ex ent])
    moreover have "c_ClaimID ?c = generateClaimID (Now (es 1) 0)" by simp
    from ids_fresh_claim [OF ids ent this tt(4-6)] have "ids_fresh ns s' t'" .
    ultimately show ?thesis using ok' by (simp add: inv_def)
  qed
qed

lemma inv_step: "step ns st st' \<Longrightarrow> inv ns st \<Longrightarrow> inv ns st'"
proof (induction rule: step.induct)
  case (claim es req s r s' t t')
  show ?case by (rule inv_claim [OF claim(4,1-3)])
next
  case (release es cid outcome s r s' t t')
  then show ?case
    by (intro inv_other_message [of ns s t _ _ r s' t']) (auto simp: client_Release_def call_times_def)
next
  case (transfer es cid to s r s' t t')
  then show ?case
    by (intro inv_other_message [of ns s t _ _ r s' t']) (auto simp: client_Transfer_def call_times_def)
next
  case (intent es cid intent s r s' t t')
  then show ?case
    by (intro inv_other_message [of ns s t _ _ r s' t']) (auto simp: client_UpdateIntent_def call_times_def)
next
  case (heartbeat es cid s r s' t t')
  then show ?case
    by (intro inv_heartbeat [of ns s t _ _ r s' cid "Now (es 1) 0" t'])
      (auto simp: client_Heartbeat_def call_times_def client_payload_ref)
next
  case (sweep e before s r s' t)
  then show ?case by (simp add: mem_ReleaseExpired_def)
next
  case (wait t t' s)
  then have h: "mem_ok s" "ids_fresh ns s t" "exclusive ns s t" by (simp_all add: inv_def)
  have "exclusive ns s t'"
    by (rule exclusive_mono [OF h(3) refl]) (rule live_time_mono [OF wait(1)])
  with h(1) ids_fresh_mono [OF h(2) refl wait(1)] show ?case by (simp add: inv_def)
qed

lemma inv_reachable: "reachable ns st \<Longrightarrow> inv ns st"
proof (induction rule: reachable.induct)
  case (start t)
  show ?case
    by (simp add: inv_def mem_ok_New ids_fresh_def entries_def exclusive_def FilterActiveClaims_eq)
next
  case (step st st')
  then show ?case by (blast intro: inv_step)
qed

section \<open>Mutual exclusion\<close>

lemma sorted_wrt_pair:
  "sorted_wrt R xs \<Longrightarrow> a \<in> set xs \<Longrightarrow> b \<in> set xs \<Longrightarrow> a \<noteq> b \<Longrightarrow> R a b \<or> R b a"
  by (induction xs) auto


definition bob_claims :: "memory" where
  "bob_claims = snd (client_Claim memory_provider ''n'' (\<lambda>_. calm sample_time) (sample_request ''bob'') mem_New)"

lemma request_claim_sample:
  "claim_ok (request_claim (default_ttl (sample_request a)) sample_time sample_time)"
  by (simp add: claim_ok_def sample_request_def)

lemma bob_claims_eq:
  "bob_claims = snd (mem_Append (calm sample_time) ''n'' [new_message MsgClaim ''bob''
     (claim_json (request_claim (default_ttl (sample_request ''bob'')) sample_time sample_time))] mem_New)"
  unfolding bob_claims_def client_Claim_memory [OF mem_ok_New]
  by (simp add: Let_def FilterActiveClaims_eq sample_request_def)

lemma bob_claims_reachable: "reachable ''n'' (bob_claims, sample_time)"
proof -
  let ?r = "client_Claim memory_provider ''n'' (\<lambda>_. calm sample_time) (sample_request ''bob'') mem_New"
  have "step ''n'' (mem_New, sample_time - 1) (bob_claims, sample_time)"
  proof (rule step.claim)
    show "?r = (fst ?r, bob_claims)" by (simp add: bob_claims_def)
    show "claim_times (sample_time - 1) (\<lambda>_. calm sample_time) sample_time"
      by (simp add: claim_times_def nano_range_def unix_epoch_def sample_time_def)
    show "claim_ok (request_claim (default_ttl (sample_request ''bob''))
        (Now (calm sample_time) 0) (Now (calm sample_time) 1))"
      using request_claim_sample by simp
  qed
  with reachable.start show ?thesis by (rule reachable.step)
qed

lemma bob_claims_active:
  "FilterActiveClaims sample_time (mem_log bob_claims ''n'') =
     [request_claim (default_ttl (sample_request ''bob'')) sample_time sample_time]"
proof -
  have "seconds (rq_TTLSeconds (default_ttl (sample_request ''bob''))) = 60000000000"
    by (simp add: sample_request_def seconds_exact nanos_per_second_def)
  then show ?thesis
    using decode_claim_json [OF request_claim_sample [of "''bob''"]]
    by (simp add: bob_claims_eq mem_Append_log FilterActiveClaims_eq live_def released_in_def
        deadline_def is_release_def)
qed

definition alice_request :: claim_request where
  "alice_request = (sample_request ''alice'')\<lparr>rq_ResourceURI := ''file://b.go''\<rparr>"

definition both_claims :: "memory" where
  "both_claims = snd (client_Claim memory_provider ''n'' (\<lambda>_. calm (sample_time + 9)) alice_request bob_claims)"

lemma alice_request_ok:
  "claim_ok (request_claim (default_ttl alice_request) (sample_time + 9) (sample_time + 9))"
  by (simp add: claim_ok_def alice_request_def sample_request_def time_ok_def sample_time_def
      nanos_per_day_def nanos_per_second_def)

lemma both_claims_reachable: "reachable ''n'' (both_claims, sample_time + 9)"
proof (rule reachable.step [OF bob_claims_reachable step.claim])
  let ?r = "client_Claim memory_provider ''n'' (\<lambda>_. calm (sample_time + 9)) alice_request bob_claims"
  show "?r = (fst ?r, both_claims)" by (simp add: both_claims_def)
  show "claim_times sample_time (\<lambda>_. calm (sample_time + 9)) (sample_time + 9)"
    by (simp add: claim_times_def nano_range_def unix_epoch_def sample_time_def)
  show "claim_ok (request_claim (default_ttl alice_request)
      (Now (calm (sample_time + 9)) 0) (Now (calm (sample_time + 9)) 1))"
    using alice_request_ok by simp
qed

lemma bob_claims_ok: "mem_ok bob_claims"
  using inv_reachable [OF bob_claims_reachable] by (simp add: inv_def)

lemma bob_later_active:
  "FilterActiveClaims (sample_time + 9) (mem_log bob_claims ''n'') =
     [request_claim (default_ttl (sample_request ''bob'')) sample_time sample_time]"
  using decode_claim_json [OF request_claim_sample [of "''bob''"]]
  by (simp add: bob_claims_eq mem_Append_log FilterActiveClaims_eq live_def released_in_def
      deadline_def is_release_def sample_request_def seconds_exact nanos_per_second_def)

lemma both_claims_active:
  "FilterActiveClaims (sample_time + 9) (mem_log both_claims ''n'') =
     [request_claim (default_ttl (sample_request ''bob'')) sample_time sample_time,
      request_claim (default_ttl alice_request) (sample_time + 9) (sample_time + 9)]"
proof -
  let ?c = "request_claim (default_ttl alice_request) (sample_time + 9) (sample_time + 9)"
  have free: "\<not> blocks (request_claim (default_ttl (sample_request ''bob'')) sample_time sample_time) ?c"
    by (simp add: blocks_def isConflicting_def alice_request_def sample_request_def resourceMatches_def
        HasSuffix_def HasPrefix_def)
  have both: "both_claims = snd (mem_Append (calm (sample_time + 9)) ''n''
      [new_message MsgClaim ''alice'' (claim_json ?c)] bob_claims)"
    unfolding both_claims_def client_Claim_memory [OF bob_claims_ok]
    using free by (simp add: Let_def bob_later_active alice_request_def sample_request_def)
  show ?thesis
    using decode_claim_json [OF request_claim_sample [of "''bob''"]] decode_claim_json [OF alice_request_ok]
    by (simp add: both bob_claims_eq mem_Append_log FilterActiveClaims_eq live_def released_in_def
        deadline_def is_release_def sample_request_def alice_request_def seconds_exact nanos_per_second_def)
qed


section \<open>Overlapping claims\<close>

text \<open>The two calls of \<open>client_Claim\<close> taken apart.\<close>

definition claim_check ::
  "'s provider \<Rightarrow> env \<Rightarrow> string \<Rightarrow> claim_request \<Rightarrow> time \<Rightarrow> time \<Rightarrow> 's \<Rightarrow>
     (claim_response option \<times> error option) + claim" where
  "claim_check P e ns req t_id t_created s =
     (case p_ActiveClaims P e ns (rq_ResourceURI req) s of
        Inl err \<Rightarrow> Inl (None, Some (ProviderError err))
      | Inr active \<Rightarrow>
          let c = request_claim (default_ttl req) t_id t_created; report = CheckConflict c active
          in if HasConflict report
             then Inl (Some \<lparr>rs_ClaimID = c_ClaimID c, rs_Conflict = Some report\<rparr>, Some (ConflictError report))
             else Inr c)"

definition claim_commit ::
  "'s provider \<Rightarrow> env \<Rightarrow> string \<Rightarrow> claim \<Rightarrow> 's \<Rightarrow> (claim_response option \<times> error option) \<times> 's" where
  "claim_commit P e ns c s =
     (case p_Append P e ns [new_message MsgClaim (c_AgentID c) (claim_json c)] s of
        (Some err, s') \<Rightarrow> ((None, Some (ProviderError err)), s')
      | (None, s') \<Rightarrow> ((Some \<lparr>rs_ClaimID = c_ClaimID c, rs_Conflict = None\<rparr>, None), s'))"

lemma client_Claim_split:
  "client_Claim P ns es req s =
     (case claim_check P (es 0) ns req (Now (es 1) 0) (Now (es 1) 1) s of
        Inl r \<Rightarrow> (r, s)
      | Inr c \<Rightarrow> claim_commit P (es 2) ns c s)"
  by (simp add: client_Claim_def claim_check_def claim_commit_def Let_def split: sum.split)

lemma memory_commit:
  "claim_commit memory_provider e ns c s =
     ((Some \<lparr>rs_ClaimID = c_ClaimID c, rs_Conflict = None\<rparr>, None),
      snd (mem_Append e ns [new_message MsgClaim (c_AgentID c) (claim_json c)] s))"
  by (simp add: claim_commit_def mem_Append_def)



end
