(* ===== verification/Http.thy ===== *)
theory Http
  imports Types
begin

text \<open>
  What the handlers of \<open>internal/server\<close> use of \<open>net/http\<close>, \<open>encoding/json\<close> and \<open>strconv\<close>: a
  request is its method, path, headers, query parameters and the first JSON value of its body
  (\<open>None\<close> if there is none), a response its status, the headers set and the body written.
\<close>

section \<open>Requests and responses\<close>

record request =
  hr_Method :: string
  hr_Path :: string
  hr_Header :: "string \<Rightarrow> string"
  hr_Param :: "string \<Rightarrow> string"
  hr_Body :: raw

text \<open>\<open>DecodeError\<close> stands for the text of an error of the JSON decoder; a stream is a list of
  server-sent events, each with its name and data.\<close>

datatype body =
    NoBody
  | Text string
  | DecodeError
  | Json json
  | Stream "(string \<times> raw) list"

record response =
  w_Status :: int
  w_Headers :: "(string \<times> string) list"
  w_Body :: body

definition reply :: "int \<Rightarrow> body \<Rightarrow> response" where
  "reply code b = \<lparr>w_Status = code, w_Headers = [], w_Body = b\<rparr>"

definition reply_json :: "int \<Rightarrow> json \<Rightarrow> response" where
  "reply_json code j = \<lparr>w_Status = code, w_Headers = [(''Content-Type'', ''application/json'')], w_Body = Json j\<rparr>"

text \<open>\<open>http.Error\<close>.\<close>

definition http_Error :: "body \<Rightarrow> int \<Rightarrow> response" where
  "http_Error b code =
     \<lparr>w_Status = code, w_Headers = [(''Content-Type'', ''text/plain; charset=utf-8'')], w_Body = b\<rparr>"

definition error_reply :: "error \<Rightarrow> int \<Rightarrow> response" where
  "error_reply err code = http_Error (Text (error_text err)) code"

lemma reply_status [simp]:
  "w_Status (reply code b) = code" "w_Status (reply_json code j) = code"
  "w_Status (http_Error b code) = code" "w_Status (error_reply err code) = code"
  by (simp_all add: reply_def reply_json_def http_Error_def error_reply_def)

section \<open>strconv.ParseInt with base 10 and 64 bits\<close>

fun parse_nat :: "nat \<Rightarrow> string \<Rightarrow> nat option" where
  "parse_nat n [] = Some n"
| "parse_nat n (c # s) = (case digit_val c of None \<Rightarrow> None | Some d \<Rightarrow> parse_nat (10 * n + d) s)"

definition parse_digits10 :: "string \<Rightarrow> int option" where
  "parse_digits10 s = (if s = [] then None else map_option int (parse_nat 0 s))"

definition ParseInt :: "string \<Rightarrow> int option" where
  "ParseInt s =
     (let v = (case s of
          [] \<Rightarrow> None
        | c # s' \<Rightarrow>
            if c = CHR ''-'' then map_option uminus (parse_digits10 s')
            else if c = CHR ''+'' then parse_digits10 s'
            else parse_digits10 s)
      in case v of
           None \<Rightarrow> None
         | Some n \<Rightarrow> if - (2 ^ 63) \<le> n \<and> n < 2 ^ 63 then Some n else None)"

lemma parse_nat_append:
  "parse_nat n (s @ t) = (case parse_nat n s of None \<Rightarrow> None | Some m \<Rightarrow> parse_nat m t)"
  by (induction s arbitrary: n) (auto split: option.split)

lemma parse_nat_utoa: "parse_nat 0 (utoa n) = Some n"
proof (induction n rule: utoa.induct)
  case (1 n)
  show ?case
  proof (cases "n < 10")
    case True
    then show ?thesis by (simp add: utoa.simps [of n])
  next
    case False
    then have "parse_nat 0 (utoa n) = Some (10 * (n div 10) + n mod 10)"
      using 1 by (subst utoa.simps) (simp add: parse_nat_append)
    then show ?thesis by simp
  qed
qed

lemma parse_digits10_utoa: "parse_digits10 (utoa n) = Some (int n)"
  by (simp add: parse_digits10_def parse_nat_utoa)

lemma utoa_plus: "utoa n \<noteq> CHR ''+'' # w"
proof
  assume "utoa n = CHR ''+'' # w"
  then have "parse_nat 0 (CHR ''+'' # w) = Some n" using parse_nat_utoa by metis
  moreover have "digit_val (CHR ''+'') = None" by (simp add: digit_val_def upt_rec)
  ultimately show False by simp
qed

lemma ParseInt_itoa: "- (2 ^ 63) \<le> i \<Longrightarrow> i < 2 ^ 63 \<Longrightarrow> ParseInt (itoa i) = Some i"
proof -
  assume i: "- (2 ^ 63) \<le> i" "i < 2 ^ 63"
  show ?thesis
  proof (cases "i < 0")
    case True
    with i show ?thesis by (simp add: ParseInt_def itoa_def parse_digits10_utoa)
  next
    case False
    obtain c w where cw: "utoa (nat i) = c # w" by (cases "utoa (nat i)") auto
    then have "c \<noteq> CHR ''-''" "c \<noteq> CHR ''+''" using utoa_plus utoa_not_minus by metis+
    with False i cw parse_digits10_utoa [of "nat i"] show ?thesis
      by (simp add: ParseInt_def itoa_def)
  qed
qed

section \<open>Decoding arrays\<close>

definition array_field :: "(string \<times> 'r field) list \<Rightarrow> 'r \<Rightarrow> (('r list \<Rightarrow> 'r list) \<Rightarrow> 'x \<Rightarrow> 'x) \<Rightarrow> 'x field" where
  "array_field fs zero upd v r =
     (case v of
        JArr vs \<Rightarrow>
          (let rs = map (\<lambda>v. Unmarshal fs zero (Some v)) vs
           in (upd (\<lambda>_. map fst rs) r, list_all snd rs))
      | JNull \<Rightarrow> (upd (\<lambda>_. []) r, True)
      | _ \<Rightarrow> (r, False))"

text \<open>A slice is \<open>None\<close> when it is nil; a pointer to a struct likewise.\<close>

definition Unmarshal_slice :: "(string \<times> 'r field) list \<Rightarrow> 'r \<Rightarrow> raw \<Rightarrow> 'r list option \<times> bool" where
  "Unmarshal_slice fs zero v =
     (case v of
        Some (JArr vs) \<Rightarrow>
          (let rs = map (\<lambda>v. Unmarshal fs zero (Some v)) vs in (Some (map fst rs), list_all snd rs))
      | Some JNull \<Rightarrow> (None, True)
      | _ \<Rightarrow> (None, False))"

definition Unmarshal_pointer :: "(string \<times> 'r field) list \<Rightarrow> 'r \<Rightarrow> raw \<Rightarrow> 'r option \<times> bool" where
  "Unmarshal_pointer fs zero v =
     (case v of
        None \<Rightarrow> (None, False)
      | Some JNull \<Rightarrow> (None, True)
      | Some _ \<Rightarrow> (case Unmarshal fs zero v of (r, ok) \<Rightarrow> (Some r, ok)))"

definition slice_field ::
  "(string \<times> 'r field) list \<Rightarrow> 'r \<Rightarrow> (('r list option \<Rightarrow> 'r list option) \<Rightarrow> 'x \<Rightarrow> 'x) \<Rightarrow> 'x field" where
  "slice_field fs zero upd v x =
     (case Unmarshal_slice fs zero (Some v) of (rs, ok) \<Rightarrow>
        (if rs = None \<and> \<not> ok then (x, False) else (upd (\<lambda>_. rs) x, ok)))"

definition pointer_field ::
  "(string \<times> 'r field) list \<Rightarrow> 'r \<Rightarrow> (('r option \<Rightarrow> 'r option) \<Rightarrow> 'x \<Rightarrow> 'x) \<Rightarrow> 'x field" where
  "pointer_field fs zero upd v x =
     (case Unmarshal_pointer fs zero (Some v) of (r, ok) \<Rightarrow> (upd (\<lambda>_. r) x, ok))"

definition struct_field :: "(string \<times> 'r field) list \<Rightarrow> 'r \<Rightarrow> (('r \<Rightarrow> 'r) \<Rightarrow> 'x \<Rightarrow> 'x) \<Rightarrow> 'x field" where
  "struct_field fs zero upd v x =
     (case Unmarshal fs zero (Some v) of (r, ok) \<Rightarrow> (upd (\<lambda>_. r) x, ok))"

section \<open>JSON of the data the handlers return\<close>

text \<open>A nil slice is written as null, and the operations return nil for nothing found.\<close>

definition slice_json :: "('a \<Rightarrow> json) \<Rightarrow> 'a list \<Rightarrow> json" where
  "slice_json f xs = (if xs = [] then JNull else JArr (map f xs))"

definition conflict_json :: "conflict \<Rightarrow> json" where
  "conflict_json c = JObj [(''claim_id'', JStr (cf_ClaimID c)), (''agent_id'', JStr (cf_AgentID c)),
     (''resource'', JStr (cf_Resource c)), (''operation'', JStr (cf_Operation c)),
     (''intent'', JStr (cf_Intent c)), (''since'', time_json (cf_Since c))]"

definition report_json :: "conflict_report \<Rightarrow> json" where
  "report_json rep = JObj ([(''has_conflict'', JBool (HasConflict rep))]
     @ (if Conflicts rep = [] then [] else [(''conflicts'', JArr (map conflict_json (Conflicts rep)))]))"

definition message_json :: "message \<Rightarrow> json" where
  "message_json m = JObj [(''offset'', JNum (m_Offset m)), (''type'', JStr (m_Type m)),
     (''namespace'', JStr (m_Namespace m)), (''agent_id'', JStr (m_AgentID m)),
     (''payload'', raw_json (m_Payload m)), (''timestamp'', time_json (m_Timestamp m))]"

definition mailbox_json :: "mailbox_message \<Rightarrow> json" where
  "mailbox_json m = JObj ([(''message_id'', JStr (mb_MessageID m)), (''from'', JStr (mb_From m)),
     (''to'', JStr (mb_To m)), (''type'', JStr (mb_Type m)), (''content'', JStr (mb_Content m))]
     @ omit_empty ''related_claim_id'' (mb_RelatedClaimID m)
     @ [(''read'', JBool (mb_Read m)), (''archived'', JBool (mb_Archived m)),
        (''created_at'', time_json (mb_CreatedAt m)), (''expires_at'', time_json (mb_ExpiresAt m))])"

definition agent_state_json :: "agent_state \<Rightarrow> json" where
  "agent_state_json a = JObj [(''AgentID'', JStr (as_AgentID a)),
     (''ActiveClaims'', slice_json JStr (as_ActiveClaims a)), (''LastSeen'', time_json (as_LastSeen a))]"

definition message_fields :: "(string \<times> message field) list" where
  "message_fields =
     [(''offset'', int_field m_Offset_update), (''type'', string_field m_Type_update),
      (''namespace'', string_field m_Namespace_update), (''agent_id'', string_field m_AgentID_update),
      (''payload'', raw_field m_Payload_update), (''timestamp'', time_field m_Timestamp_update)]"

definition zero_message :: message where
  "zero_message = \<lparr>m_Offset = 0, m_Type = [], m_Namespace = [], m_AgentID = [], m_Payload = None,
     m_Timestamp = 0\<rparr>"

definition namespace_fields :: "(string \<times> namespace field) list" where
  "namespace_fields = [(''ID'', string_field ns_ID_update), (''CreatedAt'', time_field ns_CreatedAt_update)]"

definition zero_namespace :: namespace where
  "zero_namespace = \<lparr>ns_ID = [], ns_CreatedAt = 0\<rparr>"

end
