(* ===== verification/A2ATask.thy ===== *)
theory A2ATask
  imports Http Client "HOL-Library.List_Lexorder" "HOL-Library.Char_ord"
begin

text \<open>
  Tasks of the A2A server, \<open>internal/a2a/task.go\<close>, \<open>rpc.go\<close> and \<open>mapper.go\<close>: their data and JSON
  forms, the state machine \<open>Transition\<close>, the conversions from and to the stored form, the
  JSON-RPC envelopes and the parameters of a skill. The request of a body names every member once,
  and its numbers are exact in 64-bit floating point, which is what \<open>any\<close> holds.
\<close>

section \<open>Values of type any\<close>

text \<open>Decoding into \<open>map[string]any\<close> keeps the last member of a name; encoding a map sorts the names.\<close>

fun canon :: "json \<Rightarrow> json" where
  "canon (JArr vs) = JArr (map canon vs)"
| "canon (JObj kvs) = JObj (sort_key fst (keep_last (map (\<lambda>(k, v). (k, canon v)) kvs)))"
| "canon v = v"

definition any_field :: "((raw \<Rightarrow> raw) \<Rightarrow> 'r \<Rightarrow> 'r) \<Rightarrow> 'r field" where
  "any_field upd v r = (upd (\<lambda>_. if v = JNull then None else Some (canon v)) r, True)"

definition map_field :: "((raw \<Rightarrow> raw) \<Rightarrow> 'r \<Rightarrow> 'r) \<Rightarrow> 'r field" where
  "map_field upd v r =
     (case v of
        JObj kvs \<Rightarrow> (upd (\<lambda>_. Some (canon v)) r, True)
      | JNull \<Rightarrow> (upd (\<lambda>_. None) r, True)
      | _ \<Rightarrow> (r, False))"

section \<open>Messages, parts and artifacts\<close>

record file_data =
  fd_Name :: string
  fd_MimeType :: string
  fd_Bytes :: string
  fd_URI :: string

record part =
  pt_Type :: string
  pt_Text :: string
  pt_File :: "file_data option"
  pt_Data :: raw

text \<open>\<open>Message\<close> and \<open>Artifact\<close> of package \<open>a2a\<close>.\<close>

record rpc_message =
  am_Role :: string
  am_Parts :: "part list option"
  am_Metadata :: raw

record task_artifact =
  ta_Name :: string
  ta_Description :: string
  ta_Parts :: "part list option"
  ta_Index :: int
  ta_Append :: bool
  ta_LastChunk :: bool
  ta_Metadata :: raw

definition omit_raw :: "string \<Rightarrow> raw \<Rightarrow> (string \<times> json) list" where
  "omit_raw k r = (case r of None \<Rightarrow> [] | Some v \<Rightarrow> [(k, v)])"

definition omit_map :: "string \<Rightarrow> raw \<Rightarrow> (string \<times> json) list" where
  "omit_map k r = (if r = Some (JObj []) then [] else omit_raw k r)"

definition file_json :: "file_data \<Rightarrow> json" where
  "file_json f = JObj (omit_empty ''name'' (fd_Name f) @ omit_empty ''mimeType'' (fd_MimeType f)
     @ omit_empty ''bytes'' (fd_Bytes f) @ omit_empty ''uri'' (fd_URI f))"

definition part_json :: "part \<Rightarrow> json" where
  "part_json p = JObj ([(''type'', JStr (pt_Type p))] @ omit_empty ''text'' (pt_Text p)
     @ omit_raw ''file'' (map_option file_json (pt_File p)) @ omit_raw ''data'' (pt_Data p))"

definition nil_json :: "('a \<Rightarrow> json) \<Rightarrow> 'a list option \<Rightarrow> json" where
  "nil_json f xs = (case xs of None \<Rightarrow> JNull | Some ys \<Rightarrow> JArr (map f ys))"

definition rpc_message_json :: "rpc_message \<Rightarrow> json" where
  "rpc_message_json m = JObj ([(''role'', JStr (am_Role m)), (''parts'', nil_json part_json (am_Parts m))]
     @ omit_map ''metadata'' (am_Metadata m))"

definition artifact_json :: "task_artifact \<Rightarrow> json" where
  "artifact_json a = JObj ([(''name'', JStr (ta_Name a))] @ omit_empty ''description'' (ta_Description a)
     @ [(''parts'', nil_json part_json (ta_Parts a))]
     @ (if ta_Index a = 0 then [] else [(''index'', JNum (ta_Index a))])
     @ (if ta_Append a then [(''append'', JBool True)] else [])
     @ (if ta_LastChunk a then [(''lastChunk'', JBool True)] else [])
     @ omit_map ''metadata'' (ta_Metadata a))"

definition zero_file :: file_data where
  "zero_file = \<lparr>fd_Name = [], fd_MimeType = [], fd_Bytes = [], fd_URI = []\<rparr>"

definition file_fields :: "(string \<times> file_data field) list" where
  "file_fields = [(''name'', string_field fd_Name_update), (''mimeType'', string_field fd_MimeType_update),
     (''bytes'', string_field fd_Bytes_update), (''uri'', string_field fd_URI_update)]"

definition zero_part :: part where
  "zero_part = \<lparr>pt_Type = [], pt_Text = [], pt_File = None, pt_Data = None\<rparr>"

definition part_fields :: "(string \<times> part field) list" where
  "part_fields = [(''type'', string_field pt_Type_update), (''text'', string_field pt_Text_update),
     (''file'', pointer_field file_fields zero_file pt_File_update), (''data'', raw_field pt_Data_update)]"

definition zero_rpc_message :: rpc_message where
  "zero_rpc_message = \<lparr>am_Role = [], am_Parts = None, am_Metadata = None\<rparr>"

definition rpc_message_fields :: "(string \<times> rpc_message field) list" where
  "rpc_message_fields = [(''role'', string_field am_Role_update),
     (''parts'', slice_field part_fields zero_part am_Parts_update),
     (''metadata'', map_field am_Metadata_update)]"

section \<open>Tasks\<close>

text \<open>\<open>TaskState\<close> is a string type.\<close>

abbreviation TaskSubmitted :: string where "TaskSubmitted \<equiv> ''submitted''"
abbreviation TaskWorking :: string where "TaskWorking \<equiv> ''working''"
abbreviation TaskInputRequired :: string where "TaskInputRequired \<equiv> ''input-required''"
abbreviation TaskCompleted :: string where "TaskCompleted \<equiv> ''completed''"
abbreviation TaskFailed :: string where "TaskFailed \<equiv> ''failed''"
abbreviation TaskCanceled :: string where "TaskCanceled \<equiv> ''canceled''"
abbreviation TaskUnknown :: string where "TaskUnknown \<equiv> ''unknown''"

record task_status =
  st_State :: string
  st_Message :: "rpc_message option"
  st_Timestamp :: time

record task =
  tk_ID :: string
  tk_SessionID :: string
  tk_Status :: task_status
  tk_History :: "rpc_message list"
  tk_Artifacts :: "task_artifact list"
  tk_Metadata :: raw
  tk_ClaimID :: string
  tk_Namespace :: string

definition valid_transitions :: "(string \<times> string list) list" where
  "valid_transitions =
     [(TaskSubmitted, [TaskWorking, TaskInputRequired, TaskFailed, TaskCanceled]),
      (TaskWorking, [TaskInputRequired, TaskCompleted, TaskFailed, TaskCanceled]),
      (TaskInputRequired, [TaskWorking, TaskCanceled])]"

definition Transition :: "time \<Rightarrow> string \<Rightarrow> task \<Rightarrow> error option \<times> task" where
  "Transition now to t =
     (case map_of valid_transitions (st_State (tk_Status t)) of
        None \<Rightarrow> (Some (Errorf (''invalid current state: '' @ st_State (tk_Status t))), t)
      | Some allowed \<Rightarrow>
          if to \<in> set allowed then
            (None, t\<lparr>tk_Status := (tk_Status t)\<lparr>st_State := to, st_Timestamp := now\<rparr>\<rparr>)
          else (Some (Errorf (''invalid transition: '' @ st_State (tk_Status t) @ '' -> '' @ to)), t))"

definition NewTask :: "time \<Rightarrow> string \<Rightarrow> string \<Rightarrow> string \<Rightarrow> task" where
  "NewTask now i sessionID ns =
     \<lparr>tk_ID = i, tk_SessionID = sessionID,
      tk_Status = \<lparr>st_State = TaskSubmitted, st_Message = None, st_Timestamp = now\<rparr>,
      tk_History = [], tk_Artifacts = [], tk_Metadata = Some (JObj []), tk_ClaimID = [], tk_Namespace = ns\<rparr>"

text \<open>\<open>now\<close> is the reading for \<open>CreatedAt\<close>.\<close>

definition taskToStorage :: "time \<Rightarrow> task \<Rightarrow> a2a_task" where
  "taskToStorage now t =
     \<lparr>t_ID = tk_ID t, t_SessionID = tk_SessionID t, t_State = st_State (tk_Status t),
      t_StatusMsg = Some (case st_Message (tk_Status t) of None \<Rightarrow> JNull | Some m \<Rightarrow> rpc_message_json m),
      t_StatusTime = st_Timestamp (tk_Status t), t_ClaimID = tk_ClaimID t, t_Namespace = tk_Namespace t,
      t_Metadata = Some (raw_json (tk_Metadata t)), t_CreatedAt = now\<rparr>"

definition storageToTask :: "a2a_task \<Rightarrow> task" where
  "storageToTask st =
     \<lparr>tk_ID = t_ID st, tk_SessionID = t_SessionID st,
      tk_Status = \<lparr>st_State = t_State st,
        st_Message = fst (Unmarshal_pointer rpc_message_fields zero_rpc_message (t_StatusMsg st)),
        st_Timestamp = t_StatusTime st\<rparr>,
      tk_History = [], tk_Artifacts = [],
      tk_Metadata = (case t_Metadata st of Some (JObj kvs) \<Rightarrow> Some (canon (JObj kvs)) | _ \<Rightarrow> None),
      tk_ClaimID = t_ClaimID st, tk_Namespace = t_Namespace st\<rparr>"

definition status_json :: "task_status \<Rightarrow> json" where
  "status_json s = JObj ([(''state'', JStr (st_State s))]
     @ omit_raw ''message'' (map_option rpc_message_json (st_Message s))
     @ [(''timestamp'', time_json (st_Timestamp s))])"

definition task_json :: "task \<Rightarrow> json" where
  "task_json t = JObj ([(''id'', JStr (tk_ID t))] @ omit_empty ''sessionId'' (tk_SessionID t)
     @ [(''status'', status_json (tk_Status t))]
     @ (if tk_History t = [] then [] else [(''history'', JArr (map rpc_message_json (tk_History t)))])
     @ (if tk_Artifacts t = [] then [] else [(''artifacts'', JArr (map artifact_json (tk_Artifacts t)))])
     @ omit_map ''metadata'' (tk_Metadata t))"

definition taskToJSON :: "task \<Rightarrow> json" where
  "taskToJSON t = canon (task_json t)"

section \<open>JSON-RPC\<close>

record rpc_request =
  jr_JSONRPC :: string
  jr_ID :: raw
  jr_Method :: string
  jr_Params :: raw

definition rpc_request_fields :: "(string \<times> rpc_request field) list" where
  "rpc_request_fields = [(''jsonrpc'', string_field jr_JSONRPC_update), (''id'', any_field jr_ID_update),
     (''method'', string_field jr_Method_update), (''params'', raw_field jr_Params_update)]"

definition zero_rpc_request :: rpc_request where
  "zero_rpc_request = \<lparr>jr_JSONRPC = [], jr_ID = None, jr_Method = [], jr_Params = None\<rparr>"

text \<open>\<open>JSONRPCResponse\<close> with a result, and with an error.\<close>

definition rpc_response :: "raw \<Rightarrow> json \<Rightarrow> json" where
  "rpc_response i res = JObj [(''jsonrpc'', JStr ''2.0''), (''id'', raw_json i), (''result'', res)]"

definition rpc_error_json :: "raw \<Rightarrow> int \<Rightarrow> string \<Rightarrow> raw \<Rightarrow> json" where
  "rpc_error_json i code msg d = JObj [(''jsonrpc'', JStr ''2.0''), (''id'', raw_json i),
     (''error'', JObj ([(''code'', JNum code), (''message'', JStr msg)] @ omit_raw ''data'' d))]"

section \<open>The parameters of a skill\<close>

record skill_params =
  sk_SkillID :: string
  sk_ResourceURI :: string
  sk_Operation :: string
  sk_Intent :: string
  sk_AgentID :: string
  sk_TTLSeconds :: int
  sk_ClaimID :: string
  sk_Outcome :: string
  sk_To :: string
  sk_MsgType :: string
  sk_Content :: string
  sk_RelatedClaimID :: string
  sk_UnreadOnly :: bool

definition skill_fields :: "(string \<times> skill_params field) list" where
  "skill_fields =
     [(''skill_id'', string_field sk_SkillID_update), (''resource_uri'', string_field sk_ResourceURI_update),
      (''operation'', string_field sk_Operation_update), (''intent'', string_field sk_Intent_update),
      (''agent_id'', string_field sk_AgentID_update), (''ttl_seconds'', int_field sk_TTLSeconds_update),
      (''claim_id'', string_field sk_ClaimID_update), (''outcome'', string_field sk_Outcome_update),
      (''to'', string_field sk_To_update), (''type'', string_field sk_MsgType_update),
      (''content'', string_field sk_Content_update),
      (''related_claim_id'', string_field sk_RelatedClaimID_update),
      (''unread_only'', bool_field sk_UnreadOnly_update)]"

definition zero_skill :: skill_params where
  "zero_skill = \<lparr>sk_SkillID = [], sk_ResourceURI = [], sk_Operation = [], sk_Intent = [], sk_AgentID = [],
     sk_TTLSeconds = 0, sk_ClaimID = [], sk_Outcome = [], sk_To = [], sk_MsgType = [], sk_Content = [],
     sk_RelatedClaimID = [], sk_UnreadOnly = False\<rparr>"

text \<open>The text of a decoding error stands for that of \<open>encoding/json\<close>.\<close>

fun extractParams :: "part list \<Rightarrow> error + skill_params" where
  "extractParams [] = Inl (Errorf ''no data part found in message'')"
| "extractParams (p # ps) =
     (if pt_Type p = ''data'' \<and> pt_Data p \<noteq> None then
        (case decode skill_fields zero_skill (pt_Data p) of
           None \<Rightarrow> Inl (Errorf ''invalid data part'')
         | Some params \<Rightarrow> Inr params)
      else extractParams ps)"

definition mapToClaimRequest :: "skill_params \<Rightarrow> claim_request" where
  "mapToClaimRequest p = \<lparr>rq_ResourceURI = sk_ResourceURI p, rq_AgentID = sk_AgentID p,
     rq_Operation = sk_Operation p, rq_Intent = sk_Intent p, rq_ProjectedEnd = [],
     rq_TTLSeconds = sk_TTLSeconds p, rq_ParentClaimID = []\<rparr>"

definition mapToMailboxMessage :: "skill_params \<Rightarrow> mailbox_message" where
  "mapToMailboxMessage p = \<lparr>mb_MessageID = [], mb_From = [], mb_To = sk_To p, mb_Type = sk_MsgType p,
     mb_Content = sk_Content p, mb_RelatedClaimID = sk_RelatedClaimID p, mb_Read = False,
     mb_Archived = False, mb_CreatedAt = 0, mb_ExpiresAt = 0\<rparr>"

section \<open>The state machine\<close>

definition terminal :: "string \<Rightarrow> bool" where
  "terminal st \<longleftrightarrow> st = TaskCompleted \<or> st = TaskFailed \<or> st = TaskCanceled"

lemma no_transitions: "terminal st \<Longrightarrow> map_of valid_transitions st = None"
  by (auto simp: valid_transitions_def terminal_def)

lemma transitions_into:
  assumes "map_of valid_transitions st = Some allowed" "to \<in> set allowed"
  shows "\<not> terminal st" "to \<in> {TaskWorking, TaskInputRequired, TaskCompleted, TaskFailed, TaskCanceled}"
    "to = TaskCompleted \<Longrightarrow> st = TaskWorking"
proof -
  show "\<not> terminal st" using assms(1) no_transitions by force
  from map_of_SomeD [OF assms(1)]
  have cases: "st = TaskSubmitted \<and> allowed = [TaskWorking, TaskInputRequired, TaskFailed, TaskCanceled]
      \<or> st = TaskWorking \<and> allowed = [TaskInputRequired, TaskCompleted, TaskFailed, TaskCanceled]
      \<or> st = TaskInputRequired \<and> allowed = [TaskWorking, TaskCanceled]"
    unfolding valid_transitions_def by simp
  then show "to \<in> {TaskWorking, TaskInputRequired, TaskCompleted, TaskFailed, TaskCanceled}"
    using assms(2) by (elim disjE conjE; hypsubst; simp only: list.set insert_iff empty_iff; elim disjE FalseE; simp)
  show "st = TaskWorking" if "to = TaskCompleted"
    using cases assms(2) unfolding that by (elim disjE conjE) simp_all
qed

lemma Transition_terminal: "terminal (st_State (tk_Status t)) \<Longrightarrow> snd (Transition now to t) = t \<and> fst (Transition now to t) \<noteq> None"
  using no_transitions by (simp add: Transition_def)

lemma Transition_cases:
  obtains (refused) err where "Transition now to t = (Some err, t)"
  | (moved) "Transition now to t = (None, t\<lparr>tk_Status := (tk_Status t)\<lparr>st_State := to, st_Timestamp := now\<rparr>\<rparr>)"
      "\<not> terminal (st_State (tk_Status t))"
      "to \<in> {TaskWorking, TaskInputRequired, TaskCompleted, TaskFailed, TaskCanceled}"
      "to = TaskCompleted \<Longrightarrow> st_State (tk_Status t) = TaskWorking"
proof (cases "map_of valid_transitions (st_State (tk_Status t))")
  case None
  then show thesis by (intro refused) (simp add: Transition_def)
next
  case (Some allowed)
  show thesis
  proof (cases "to \<in> set allowed")
    case False
    with Some show thesis by (intro refused) (simp add: Transition_def)
  next
    case True
    from Some True transitions_into [OF Some True] show thesis by (intro moved) (simp_all add: Transition_def)
  qed
qed

text \<open>Any attempts in a row, with the states that the task goes through.\<close>

fun attempts :: "(time \<times> string) list \<Rightarrow> task \<Rightarrow> task list" where
  "attempts [] t = [t]"
| "attempts ((now, to) # as) t = t # attempts as (snd (Transition now to t))"

lemma attempts_Nil [simp]: "attempts as t \<noteq> []"
  by (induction as t rule: attempts.induct) simp_all

lemma attempts_terminal: "terminal (st_State (tk_Status t)) \<Longrightarrow> set (attempts as t) = {t}"
proof (induction as)
  case (Cons a as)
  then show ?case by (cases a) (simp add: Transition_terminal)
qed simp

lemma attempts_states:
  "st_State (tk_Status t) \<in> {TaskSubmitted, TaskWorking, TaskInputRequired, TaskCompleted, TaskFailed, TaskCanceled} \<Longrightarrow>
   u \<in> set (attempts as t) \<Longrightarrow>
   st_State (tk_Status u) \<in> {TaskSubmitted, TaskWorking, TaskInputRequired, TaskCompleted, TaskFailed, TaskCanceled}"
proof (induction as arbitrary: t)
  case (Cons a as)
  obtain now to where a: "a = (now, to)" by fastforce
  have "st_State (tk_Status (snd (Transition now to t)))
      \<in> {TaskSubmitted, TaskWorking, TaskInputRequired, TaskCompleted, TaskFailed, TaskCanceled}"
    by (cases rule: Transition_cases [of now to t]) (use Cons.prems(1) in auto)
  from Cons.IH [OF this] Cons.prems show ?case by (auto simp: a)
qed simp

lemma attempts_completed:
  "u \<in> set (attempts as t) \<Longrightarrow> st_State (tk_Status u) = TaskCompleted \<Longrightarrow>
   st_State (tk_Status t) \<noteq> TaskCompleted \<Longrightarrow> \<exists>v \<in> set (attempts as t). st_State (tk_Status v) = TaskWorking"
proof (induction as arbitrary: t)
  case (Cons a as)
  obtain now to where a: "a = (now, to)" by fastforce
  let ?t = "snd (Transition now to t)"
  have u: "u \<in> set (attempts as ?t)" using Cons.prems by (auto simp: a)
  show ?case
  proof (cases "st_State (tk_Status ?t) = TaskCompleted")
    case True
    then have "st_State (tk_Status t) = TaskWorking"
      by (cases rule: Transition_cases [of now to t]) (use Cons.prems(3) in auto)
    then show ?thesis by (simp add: a)
  next
    case False
    from Cons.IH [OF u Cons.prems(2) False] show ?thesis by (auto simp: a)
  qed
qed simp

text \<open>Whatever transitions are tried, and in whatever order, a new task is always in one of
  the six states; once it is completed, failed or canceled it never changes again; and it completes
  only after it has worked.\<close>

theorem task_states:
  assumes "u \<in> set (attempts as (NewTask t0 i session ns))"
  shows "st_State (tk_Status u) \<in> {TaskSubmitted, TaskWorking, TaskInputRequired, TaskCompleted, TaskFailed, TaskCanceled}
    \<and> (terminal (st_State (tk_Status u)) \<longrightarrow> set (attempts bs u) = {u} \<and> fst (Transition now to u) \<noteq> None)
    \<and> (st_State (tk_Status u) = TaskCompleted \<longrightarrow>
      (\<exists>v \<in> set (attempts as (NewTask t0 i session ns)). st_State (tk_Status v) = TaskWorking))"
proof (intro conjI impI)
  show "st_State (tk_Status u) \<in> {TaskSubmitted, TaskWorking, TaskInputRequired, TaskCompleted, TaskFailed, TaskCanceled}"
    by (rule attempts_states [OF _ assms]) (simp add: NewTask_def)
  show "set (attempts bs u) = {u}" "fst (Transition now to u) \<noteq> None" if "terminal (st_State (tk_Status u))"
    using that attempts_terminal Transition_terminal by blast+
  show "\<exists>v \<in> set (attempts as (NewTask t0 i session ns)). st_State (tk_Status v) = TaskWorking"
    if "st_State (tk_Status u) = TaskCompleted"
    by (rule attempts_completed [OF assms that]) (simp add: NewTask_def)
qed

theorem task_states_witness:
  "let u = last (attempts [(1, TaskWorking), (2, TaskCompleted)] (NewTask 0 ''t1'' [] ''n''))
   in st_State (tk_Status u) = TaskCompleted \<and> fst (Transition 3 TaskWorking u) \<noteq> None"
proof -
  let ?as = "[(1, TaskWorking), (2, TaskCompleted)]"
  let ?u = "last (attempts ?as (NewTask 0 ''t1'' [] ''n''))"
  have "?u \<in> set (attempts ?as (NewTask 0 ''t1'' [] ''n''))" by (intro last_in_set attempts_Nil)
  note sts = task_states [OF this, of "[]" 3 TaskWorking]
  have "st_State (tk_Status ?u) = TaskCompleted"
    by (simp add: NewTask_def Transition_def valid_transitions_def)
  with sts show ?thesis by (simp add: Let_def terminal_def)
qed

end
