(* ===== verification/A2AServer.thy ===== *)
theory A2AServer
  imports A2ATask
begin

text \<open>
  The A2A server, \<open>internal/a2a\<close>: the skills (\<open>handler_skills.go\<close>), the task executor
  (\<open>task_executor.go\<close>), the event frames (\<open>sse.go\<close>), the task handlers (\<open>handler_tasks.go\<close>), the
  agent card (\<open>agentcard.go\<close>) and the dispatcher (\<open>server.go\<close>). A handler gets one environment per
  call it makes; the comment of each says which is which.
\<close>

section \<open>Skills\<close>

text \<open>\<open>x_client\<close> is the namespace of the server's client, \<open>x_flusher\<close> says whether the response
  writer can flush.\<close>

record a2a_server =
  x_cfg :: "a2a_config option"
  x_client :: string
  x_namespace :: string
  x_flusher :: bool

text \<open>A skill changes the task it is given, also when it returns an error: the caller holds a pointer
  to it.\<close>

type_synonym 's skill = "'s provider \<Rightarrow> a2a_server \<Rightarrow> envs \<Rightarrow> skill_params \<Rightarrow> task \<Rightarrow> 's \<Rightarrow> (error option \<times> task) \<times> 's"

definition data_artifact :: "string \<Rightarrow> json \<Rightarrow> task_artifact" where
  "data_artifact name d = \<lparr>ta_Name = name, ta_Description = [],
     ta_Parts = Some [zero_part\<lparr>pt_Type := ''data'', pt_Data := Some d\<rparr>],
     ta_Index = 0, ta_Append = False, ta_LastChunk = False, ta_Metadata = None\<rparr>"

definition skillClaimResource :: "'s skill" where
  "skillClaimResource P x es params t s =
     (case client_Claim P (x_client x) es (mapToClaimRequest params) s of
        ((resp, Some err), s') \<Rightarrow>
          (case err of
             ConflictError rep \<Rightarrow>
               (let report = (case resp of None \<Rightarrow> JNull | Some r \<Rightarrow> raw_json (map_option report_json (rs_Conflict r)))
                in ((Some (RPCError (-32002) ''Conflict detected'' (Some report)),
                     t\<lparr>tk_Artifacts := [data_artifact ''conflict-report'' report]\<rparr>), s'))
           | _ \<Rightarrow> ((Some err, t), s'))
      | ((resp, None), s') \<Rightarrow>
          (let cid = (case resp of None \<Rightarrow> [] | Some r \<Rightarrow> rs_ClaimID r)
           in ((None, t\<lparr>tk_ClaimID := cid, tk_Artifacts := [data_artifact ''claim-result''
                 (JObj [(''claim_id'', JStr cid), (''status'', JStr ''granted'')])]\<rparr>), s')))"

definition skillReleaseResource :: "'s skill" where
  "skillReleaseResource P x es params t s =
     (let outcome = (if sk_Outcome params = [] then OutcomeSucceeded else sk_Outcome params)
      in case client_Release P (x_client x) es (sk_ClaimID params) outcome s of
           (Some err, s') \<Rightarrow> ((Some err, t), s')
         | (None, s') \<Rightarrow> ((None, t), s'))"

definition skillCheckConflict :: "'s skill" where
  "skillCheckConflict P x es params t s =
     (case client_CheckConflict P (x_client x) (es 0) (sk_ResourceURI params) (sk_Operation params) s of
        Inl err \<Rightarrow> ((Some err, t), s)
      | Inr report \<Rightarrow>
          ((None, t\<lparr>tk_Artifacts := [data_artifact ''conflict-report'' (report_json report)]\<rparr>), s))"

definition skillQueryMailbox :: "'s skill" where
  "skillQueryMailbox P x es params t s =
     (case p_GetMailbox P (es 0) (x_namespace x) (sk_AgentID params)
         \<lparr>mq_Unread = sk_UnreadOnly params, mq_IncludeClaims = False, mq_Limit = 0\<rparr> s of
        Inl err \<Rightarrow> ((Some err, t), s)
      | Inr msgs \<Rightarrow>
          ((None, t\<lparr>tk_Artifacts := [data_artifact ''mailbox'' (slice_json mailbox_json msgs)]\<rparr>), s))"

text \<open>The message has no id: \<open>mapToMailboxMessage\<close> sets none, and neither does the provider.\<close>

definition skillSendMailbox :: "'s skill" where
  "skillSendMailbox P x es params t s =
     (let msg = (mapToMailboxMessage params)\<lparr>mb_From := sk_AgentID params\<rparr>
      in case p_SendMessage P (es 0) (x_namespace x) msg s of
           (Some err, s') \<Rightarrow> ((Some err, t), s')
         | (None, s') \<Rightarrow> ((None, t\<lparr>tk_Artifacts := [data_artifact ''send-result''
              (JObj [(''message_id'', JStr (mb_MessageID msg))])]\<rparr>), s'))"

text \<open>\<open>agent\<close> is the agent id that authentication put into the context. The result of a skill that
  succeeds is the task with its artifacts, as \<open>wrapSkillResult\<close> pairs them.\<close>

definition executeSkill ::
  "'s provider \<Rightarrow> a2a_server \<Rightarrow> envs \<Rightarrow> string \<Rightarrow> rpc_message \<Rightarrow> task \<Rightarrow> 's \<Rightarrow> (error option \<times> task) \<times> 's" where
  "executeSkill P x es agent msg t s =
     (case extractParams (case am_Parts msg of None \<Rightarrow> [] | Some ps \<Rightarrow> ps) of
        Inl err \<Rightarrow> ((Some err, t), s)
      | Inr params0 \<Rightarrow>
          (let params = (if sk_AgentID params0 = [] then params0\<lparr>sk_AgentID := agent\<rparr> else params0);
               skill = sk_SkillID params
           in if skill = ''claim_resource'' then skillClaimResource P x es params t s
              else if skill = ''release_resource'' then skillReleaseResource P x es params t s
              else if skill = ''check_conflict'' then skillCheckConflict P x es params t s
              else if skill = ''query_mailbox'' then skillQueryMailbox P x es params t s
              else if skill = ''send_mailbox'' then skillSendMailbox P x es params t s
              else ((Some (Errorf (''unknown skill: '' @ skill)), t), s)))"

section \<open>tasks/send\<close>

record task_params =
  tp_ID :: string
  tp_SessionID :: string
  tp_Message :: rpc_message
  tp_Metadata :: raw

definition task_params_fields :: "(string \<times> task_params field) list" where
  "task_params_fields = [(''id'', string_field tp_ID_update), (''sessionId'', string_field tp_SessionID_update),
     (''message'', struct_field rpc_message_fields zero_rpc_message tp_Message_update),
     (''metadata'', map_field tp_Metadata_update)]"

definition zero_task_params :: task_params where
  "zero_task_params = \<lparr>tp_ID = [], tp_SessionID = [], tp_Message = zero_rpc_message, tp_Metadata = None\<rparr>"

definition stored_artifact :: "task_artifact \<Rightarrow> a2a_artifact" where
  "stored_artifact a = \<lparr>art_Name = ta_Name a, art_Description = ta_Description a,
     art_Parts = Some (nil_json part_json (ta_Parts a)), art_Index = ta_Index a, art_Append = ta_Append a,
     art_LastChunk = ta_LastChunk a, art_Metadata = None\<rparr>"

definition user_message :: "rpc_message \<Rightarrow> a2a_message" where
  "user_message m = \<lparr>h_Role = ''user'', h_Parts = Some (rpc_message_json m), h_Metadata = None\<rparr>"

fun store_artifacts ::
  "'s provider \<Rightarrow> string \<Rightarrow> envs \<Rightarrow> string \<Rightarrow> task_artifact list \<Rightarrow> 's \<Rightarrow> error option \<times> 's" where
  "store_artifacts P ns es taskID [] s = (None, s)"
| "store_artifacts P ns es taskID (a # as) s =
     (case p_CreateArtifact P (es 0) ns taskID (stored_artifact a) s of
        (Some err, s') \<Rightarrow> (Some (RPCError (-32003) (''Failed to store artifact: '' @ error_text err) None), s')
      | (None, s') \<Rightarrow> store_artifacts P ns (after 1 es) taskID as s')"

text \<open>The texts of decoding errors are left out. \<open>es 0\<close> is the handler itself (the readings of its clock in order), \<open>es 1\<close> \<open>CreateTask\<close>, \<open>es 2\<close>
  \<open>AppendTaskHistory\<close>, \<open>es 3\<close> \<open>UpdateTask\<close>, \<open>es 4\<close> to \<open>es 6\<close> the skill, the rest the artifacts. The
  result is that of the response; its id is set by the dispatcher.\<close>

definition handleTasksSend ::
  "'s provider \<Rightarrow> a2a_server \<Rightarrow> envs \<Rightarrow> string \<Rightarrow> raw \<Rightarrow> 's \<Rightarrow> (error + json) \<times> 's" where
  "handleTasksSend P x es agent params s =
     (case decode task_params_fields zero_task_params params of
        None \<Rightarrow> (Inl (RPCError (-32602) ''Invalid params'' None), s)
      | Some req \<Rightarrow>
          if tp_ID req = [] then (Inl (RPCError (-32602) ''Missing required param: id'' None), s)
          else
            let now = Now (es 0); t0 = NewTask (now 0) (tp_ID req) (tp_SessionID req) (x_namespace x)
            in case p_CreateTask P (es 1) (x_namespace x) (taskToStorage (now 1) t0) s of
                 (Some err, s1) \<Rightarrow> (Inl (RPCError (-32003) (''Failed to create task: '' @ error_text err) None), s1)
               | (None, s1) \<Rightarrow>
            (case p_AppendTaskHistory P (es 2) (x_namespace x) (tk_ID t0) 0 (user_message (tp_Message req)) s1 of
                 (Some err, s2) \<Rightarrow> (Inl (RPCError (-32003) (''Failed to store history: '' @ error_text err) None), s2)
               | (None, s2) \<Rightarrow>
            (case Transition (now 2) TaskWorking t0 of
                 (Some err, t1) \<Rightarrow> (Inl (RPCError (-32003) (''State transition failed: '' @ error_text err) None), s2)
               | (None, t1) \<Rightarrow>
            (case executeSkill P x (after 4 es) agent (tp_Message req) t1 s2 of
                 ((Some err, t2), s3) \<Rightarrow>
                   (let t3 = snd (Transition (now 3) TaskFailed t2);
                        s4 = snd (p_UpdateTask P (es 3) (x_namespace x) (taskToStorage (now 4) t3) s3)
                    in (Inr (taskToJSON t3), s4))
               | ((None, t2), s3) \<Rightarrow>
            (case Transition (now 3) TaskCompleted t2 of
                 (Some err, t3) \<Rightarrow> (Inl (RPCError (-32003) (''State transition failed: '' @ error_text err) None), s3)
               | (None, t3) \<Rightarrow>
            (case store_artifacts P (x_namespace x) (after 7 es) (tk_ID t3) (tk_Artifacts t2) s3 of
                 (Some err, s4) \<Rightarrow> (Inl err, s4)
               | (None, s4) \<Rightarrow>
            (case p_UpdateTask P (es 3) (x_namespace x) (taskToStorage (now 4) t3) s4 of
                 (Some err, s5) \<Rightarrow> (Inl (RPCError (-32003) (''Failed to update task: '' @ error_text err) None), s5)
               | (None, s5) \<Rightarrow> (Inr (taskToJSON (t3\<lparr>tk_Artifacts := tk_Artifacts t2\<rparr>)), s5))))))))"

section \<open>tasks/get and tasks/cancel\<close>

definition decode_id :: "raw \<Rightarrow> string option" where
  "decode_id p = decode [(''id'', string_field (\<lambda>f. f))] [] p"

definition loaded_artifact :: "a2a_artifact \<Rightarrow> task_artifact" where
  "loaded_artifact a = \<lparr>ta_Name = art_Name a, ta_Description = art_Description a,
     ta_Parts = fst (Unmarshal_slice part_fields zero_part (art_Parts a)),
     ta_Index = 0, ta_Append = False, ta_LastChunk = False, ta_Metadata = None\<rparr>"

definition handleTasksGet :: "'s provider \<Rightarrow> a2a_server \<Rightarrow> envs \<Rightarrow> raw \<Rightarrow> 's \<Rightarrow> error + json" where
  "handleTasksGet P x es params s =
     (case decode_id params of
        None \<Rightarrow> Inl (RPCError (-32602) ''Invalid params'' None)
      | Some i \<Rightarrow>
          if i = [] then Inl (RPCError (-32602) ''Missing required param: id'' None)
          else case p_GetTask P (es 0) (x_namespace x) i s of
            Inl err \<Rightarrow> Inl (RPCError (-32000) ''Task not found'' None)
          | Inr st \<Rightarrow>
              (case p_GetArtifacts P (es 1) (x_namespace x) i s of
                 Inl err \<Rightarrow> Inl (RPCError (-32003) (''Failed to load artifacts: '' @ error_text err) None)
               | Inr arts \<Rightarrow>
                   Inr (taskToJSON ((storageToTask st)\<lparr>tk_Artifacts := map loaded_artifact arts\<rparr>))))"

text \<open>\<open>es 0\<close> is \<open>GetTask\<close>, \<open>es 1\<close> the handler, \<open>es 2\<close> and \<open>es 3\<close> the release, \<open>es 4\<close> \<open>UpdateTask\<close>.\<close>

definition handleTasksCancel ::
  "'s provider \<Rightarrow> a2a_server \<Rightarrow> envs \<Rightarrow> raw \<Rightarrow> 's \<Rightarrow> (error + json) \<times> 's" where
  "handleTasksCancel P x es params s =
     (case decode_id params of
        None \<Rightarrow> (Inl (RPCError (-32602) ''Invalid params'' None), s)
      | Some i \<Rightarrow>
          if i = [] then (Inl (RPCError (-32602) ''Missing required param: id'' None), s)
          else case p_GetTask P (es 0) (x_namespace x) i s of
            Inl err \<Rightarrow> (Inl (RPCError (-32000) ''Task not found'' None), s)
          | Inr st \<Rightarrow>
              let final = RPCError (-32001) ''Task already in terminal state''
                    (Some (JObj [(''currentState'', JStr (t_State st))]))
              in if t_State st = TaskCompleted \<or> t_State st = TaskFailed \<or> t_State st = TaskCanceled
                 then (Inl final, s)
                 else
                   let t = storageToTask st;
                       s1 = (if tk_ClaimID t \<noteq> [] then
                               snd (client_Release P (x_client x) (after 2 es) (tk_ClaimID t) OutcomeAbandoned s)
                             else s)
                   in case Transition (Now (es 1) 0) TaskCanceled t of
                        (Some err, t1) \<Rightarrow> (Inl final, s1)
                      | (None, t1) \<Rightarrow>
                          (case p_UpdateTask P (es 4) (x_namespace x) (taskToStorage (Now (es 1) 1) t1) s1 of
                             (Some err, s2) \<Rightarrow>
                               (Inl (RPCError (-32003) (''Failed to update task: '' @ error_text err) None), s2)
                           | (None, s2) \<Rightarrow> (Inr (taskToJSON t1), s2)))"

end
