(* ===== verification/A2AStream.thy ===== *)
theory A2AStream
  imports A2AServer
begin

text \<open>
  Streaming tasks and the dispatcher of the A2A server: the executor of \<open>task_executor.go\<close>, the
  frames of \<open>sse.go\<close>, \<open>tasks/sendSubscribe\<close>, the agent card of \<open>agentcard.go\<close> and \<open>ServeHTTP\<close> of
  \<open>server.go\<close>. The executor's goroutine and the handler that reads its events touch the store one
  after the other: the skill runs before its artifacts are sent, and after that only the handler
  writes. The channel has 8 places and at most 5 events are sent, so a send blocks on nothing.
\<close>

section \<open>The executor\<close>

record task_event =
  te_Type :: string
  te_Task :: "task option"
  te_Artifacts :: "task_artifact list"
  te_Error :: "error option"

definition status_event :: "string \<Rightarrow> task \<Rightarrow> task_event" where
  "status_event ty t = \<lparr>te_Type = ty, te_Task = Some t, te_Artifacts = [], te_Error = None\<rparr>"

definition error_event :: "task \<Rightarrow> error \<Rightarrow> task_event" where
  "error_event t err = \<lparr>te_Type = ''error'', te_Task = Some t, te_Artifacts = [], te_Error = Some err\<rparr>"

definition as_rpc :: "error \<Rightarrow> error" where
  "as_rpc err = (case err of RPCError c m d \<Rightarrow> err | _ \<Rightarrow> RPCError (-32003) (error_text err) None)"

definition cancelled_error :: error where
  "cancelled_error = RPCError (-32003) ''Task cancelled: context canceled'' None"

text \<open>\<open>send\<close> with its \<open>select\<close>: when the context is cancelled the event may be dropped, which \<open>gone i\<close>
  says of the i-th such point of the run (\<open>gone 2\<close> is the test of \<open>ctx.Err()\<close>).\<close>

definition send :: "bool \<Rightarrow> task_event \<Rightarrow> task_event list" where
  "send dropped ev = (if dropped then [] else [ev])"

text \<open>\<open>es 0\<close> is the goroutine, \<open>es 1\<close> to \<open>es 3\<close> the skill.\<close>

definition StartTaskExecution ::
  "'s provider \<Rightarrow> a2a_server \<Rightarrow> envs \<Rightarrow> string \<Rightarrow> (nat \<Rightarrow> bool) \<Rightarrow> task \<Rightarrow> rpc_message \<Rightarrow> 's \<Rightarrow>
     task_event list \<times> 's" where
  "StartTaskExecution P x es agent gone t msg s =
     (if gone 0 then ([error_event t cancelled_error], s)
      else
        (case Transition (Now (es 0) 0) TaskWorking t of
           (Some err, t1) \<Rightarrow>
             (status_event ''status'' t #
                send (gone 1) (error_event t1 (RPCError (-32003) (''State transition failed: '' @ error_text err) None)), s)
         | (None, t1) \<Rightarrow>
             if gone 1 then ([status_event ''status'' t], s)
             else
               let sent = [status_event ''status'' t, status_event ''status'' t1]
               in if gone 2 then
                    (sent @ send (gone 3)
                       (error_event (snd (Transition (Now (es 0) 1) TaskFailed t1)) cancelled_error), s)
                  else
                    (case executeSkill P x (after 1 es) agent msg t1 s of
                       ((Some err, t2), s') \<Rightarrow>
                         (sent @ send (gone 3)
                            (error_event (snd (Transition (Now (es 0) 1) TaskFailed t2)) (as_rpc err)), s')
                     | ((None, t2), s') \<Rightarrow>
                         if tk_Artifacts t2 \<noteq> [] \<and> gone 3 then (sent, s')
                         else
                           let sent2 = sent @ (if tk_Artifacts t2 \<noteq> [] then
                                 [\<lparr>te_Type = ''artifact'', te_Task = Some t2, te_Artifacts = tk_Artifacts t2,
                                   te_Error = None\<rparr>] else [])
                           in (case Transition (Now (es 0) 1) TaskCompleted t2 of
                                 (Some err, t3) \<Rightarrow>
                                   (sent2 @ send (gone 4) (error_event t3
                                      (RPCError (-32003) (''State transition failed: '' @ error_text err) None)), s')
                               | (None, t3) \<Rightarrow>
                                   if gone 4 then (sent2, s')
                                   else (sent2 @ status_event ''status'' t3 # send (gone 5) (status_event ''done'' t3), s')))))"

section \<open>Frames\<close>

text \<open>An event frame has a name; an error frame has none, written as the empty name here.\<close>

definition write_event :: "raw \<Rightarrow> string \<Rightarrow> json \<Rightarrow> string \<times> raw" where
  "write_event i eventType res = (eventType, Some (rpc_response i res))"

definition write_error :: "raw \<Rightarrow> error \<Rightarrow> string \<times> raw" where
  "write_error i err =
     ([], Some (case err of
        RPCError code msg d \<Rightarrow> rpc_error_json i code msg d
      | _ \<Rightarrow> rpc_response i JNull))"

definition task_frame :: "raw \<Rightarrow> string \<Rightarrow> task_event \<Rightarrow> string \<times> raw" where
  "task_frame i eventType ev =
     write_event i eventType (case te_Task ev of None \<Rightarrow> JNull | Some t \<Rightarrow> taskToJSON t)"

section \<open>tasks/sendSubscribe\<close>

text \<open>The loop over the events. Each event has one environment for its clock and then those of the
  calls it makes; errors of storing are ignored.\<close>

definition store_task :: "'s provider \<Rightarrow> string \<Rightarrow> envs \<Rightarrow> task_event \<Rightarrow> 's \<Rightarrow> 's" where
  "store_task P ns es ev s =
     (case te_Task ev of
        None \<Rightarrow> s
      | Some t \<Rightarrow> snd (p_UpdateTask P (es 1) ns (taskToStorage (Now (es 0) 0) t) s))"

fun create_all :: "'s provider \<Rightarrow> string \<Rightarrow> envs \<Rightarrow> string \<Rightarrow> task_artifact list \<Rightarrow> 's \<Rightarrow> 's" where
  "create_all P ns es taskID [] s = s"
| "create_all P ns es taskID (a # as) s =
     create_all P ns (after 1 es) taskID as (snd (p_CreateArtifact P (es 0) ns taskID (stored_artifact a) s))"

fun event_loop ::
  "'s provider \<Rightarrow> string \<Rightarrow> envs \<Rightarrow> raw \<Rightarrow> string \<Rightarrow> task_event list \<Rightarrow> 's \<Rightarrow> (string \<times> raw) list \<times> 's" where
  "event_loop P ns es i taskID [] s = ([], s)"
| "event_loop P ns es i taskID (ev # evs) s =
     (if te_Type ev = ''status'' then
        (case event_loop P ns es i taskID evs s of
           (frames, s') \<Rightarrow> (task_frame i ''task-status-update'' ev # frames, s'))
      else if te_Type ev = ''artifact'' then
        (case event_loop P ns (after (length (te_Artifacts ev)) es) i taskID evs
            (create_all P ns es taskID (te_Artifacts ev) s) of
           (frames, s') \<Rightarrow> (task_frame i ''task-artifact-update'' ev # frames, s'))
      else if te_Type ev = ''error'' then
        ([write_error i (case te_Error ev of None \<Rightarrow> Errorf [] | Some err \<Rightarrow> err)], store_task P ns es ev s)
      else if te_Type ev = ''done'' then
        ([task_frame i ''close'' ev], store_task P ns es ev s)
      else event_loop P ns es i taskID evs s)"

text \<open>\<open>es 0\<close> is the handler, \<open>es 1\<close> \<open>CreateTask\<close>, \<open>es 2\<close> \<open>AppendTaskHistory\<close>, \<open>es 3\<close> to \<open>es 6\<close> the
  executor, the rest the loop over its events.\<close>

definition handleTasksSendSubscribe ::
  "'s provider \<Rightarrow> a2a_server \<Rightarrow> envs \<Rightarrow> string \<Rightarrow> (nat \<Rightarrow> bool) \<Rightarrow> rpc_request \<Rightarrow> 's \<Rightarrow> response \<times> 's" where
  "handleTasksSendSubscribe P x es agent gone req s =
     (let fail = (\<lambda>status code msg. reply_json status (rpc_error_json (jr_ID req) code msg None))
      in case decode task_params_fields zero_task_params (jr_Params req) of
           None \<Rightarrow> (fail 400 (-32602) ''Invalid params'', s)
         | Some params \<Rightarrow>
             if tp_ID params = [] then (fail 400 (-32602) ''Missing required param: id'', s)
             else
               let t = NewTask (Now (es 0) 0) (tp_ID params) (tp_SessionID params) (x_namespace x)
               in case p_CreateTask P (es 1) (x_namespace x) (taskToStorage (Now (es 0) 1) t) s of
                    (Some err, s1) \<Rightarrow> (fail 500 (-32003) (''Failed to create task: '' @ error_text err), s1)
                  | (None, s1) \<Rightarrow>
                      let s2 = snd (p_AppendTaskHistory P (es 2) (x_namespace x) (tk_ID t) 0
                            (user_message (tp_Message params)) s1)
                      in if \<not> x_flusher x then (fail 500 (-32003) ''Streaming not supported'', s2)
                         else
                           (case StartTaskExecution P x (after 3 es) agent gone t (tp_Message params) s2 of
                              (evs, s3) \<Rightarrow>
                                (case event_loop P (x_namespace x) (after 7 es) (jr_ID req) (tk_ID t) evs s3 of
                                   (frames, s4) \<Rightarrow>
                                     (\<lparr>w_Status = 200, w_Headers = [(''Content-Type'', ''text/event-stream''),
                                        (''Cache-Control'', ''no-cache'')], w_Body = Stream frames\<rparr>, s4))))"

section \<open>The agent card\<close>

record skill_card =
  sc_ID :: string
  sc_Name :: string
  sc_Description :: string
  sc_Tags :: "string list"
  sc_Examples :: "string list"
  sc_InputModes :: "string list"
  sc_OutputModes :: "string list"
  sc_Parameters :: raw

text \<open>A member of a JSON schema: its type and more.\<close>

definition schema :: "(string \<times> json) list \<Rightarrow> string list \<Rightarrow> raw" where
  "schema props required = Some (JObj [(''type'', JStr ''object''), (''properties'', JObj props),
     (''required'', JArr (map JStr required))])"

definition schema_member :: "string \<Rightarrow> string \<Rightarrow> (string \<times> json) list \<Rightarrow> string \<times> json" where
  "schema_member name ty extra = (name, JObj ((''type'', JStr ty) # extra))"

definition enum_of :: "string list \<Rightarrow> (string \<times> json) list" where
  "enum_of vs = [(''enum'', JArr (map JStr vs))]"

definition claimResourceSkill :: skill_card where
  "claimResourceSkill = \<lparr>sc_ID = ''claim_resource'', sc_Name = ''Claim Resource'',
     sc_Description = ''Lock a resource for an operation. Returns claim ID or conflict report.'',
     sc_Tags = [''coordination'', ''locking''], sc_Examples = [''Claim file://src/api.go for write''],
     sc_InputModes = [''text'', ''data''], sc_OutputModes = [''text'', ''data''],
     sc_Parameters = schema [schema_member ''resource_uri'' ''string'' [],
       schema_member ''operation'' ''string'' (enum_of [OpRead, OpWrite, OpDelete, OpRename, OpRefactor]),
       schema_member ''intent'' ''string'' [], schema_member ''agent_id'' ''string'' [],
       schema_member ''ttl_seconds'' ''integer'' [(''default'', JNum 300)]] [''resource_uri'', ''operation'', ''agent_id'']\<rparr>"

definition releaseResourceSkill :: skill_card where
  "releaseResourceSkill = \<lparr>sc_ID = ''release_resource'', sc_Name = ''Release Resource'',
     sc_Description = ''Release a previously granted claim.'',
     sc_Tags = [''coordination'', ''locking''], sc_Examples = [], sc_InputModes = [], sc_OutputModes = [],
     sc_Parameters = schema [schema_member ''claim_id'' ''string'' [],
       schema_member ''outcome'' ''string'' (enum_of [OutcomeSucceeded, OutcomeAbandoned, OutcomeConflicted])] [''claim_id'']\<rparr>"

definition checkConflictSkill :: skill_card where
  "checkConflictSkill = \<lparr>sc_ID = ''check_conflict'', sc_Name = ''Check Conflict'',
     sc_Description = ''Check if an operation would conflict with active claims, without actually claiming.'',
     sc_Tags = [''coordination'', ''query''], sc_Examples = [], sc_InputModes = [], sc_OutputModes = [],
     sc_Parameters = schema [schema_member ''resource_uri'' ''string'' [],
       schema_member ''operation'' ''string'' (enum_of [OpRead, OpWrite, OpDelete, OpRename, OpRefactor])]
       [''resource_uri'', ''operation'']\<rparr>"

definition queryMailboxSkill :: skill_card where
  "queryMailboxSkill = \<lparr>sc_ID = ''query_mailbox'', sc_Name = ''Query Mailbox'',
     sc_Description = ''Read messages from your mailbox.'',
     sc_Tags = [''messaging'', ''query''], sc_Examples = [], sc_InputModes = [], sc_OutputModes = [],
     sc_Parameters = schema [schema_member ''agent_id'' ''string'' [],
       schema_member ''unread_only'' ''boolean'' [(''default'', JBool False)]] [''agent_id'']\<rparr>"

definition sendMailboxSkill :: skill_card where
  "sendMailboxSkill = \<lparr>sc_ID = ''send_mailbox'', sc_Name = ''Send Mailbox Message'',
     sc_Description = ''Send a message to another agent'' @ [CHR 0x27] @ ''s mailbox.'',
     sc_Tags = [''messaging''], sc_Examples = [], sc_InputModes = [], sc_OutputModes = [],
     sc_Parameters = schema [schema_member ''to'' ''string'' [],
       schema_member ''type'' ''string'' (enum_of [''yield_request'', ''yield_ack'', ''escalation'', ''all_clear'', ''note'', ''ping'']),
       schema_member ''content'' ''string'' [], schema_member ''related_claim_id'' ''string'' []] [''to'', ''type'', ''content'']\<rparr>"

record agent_card =
  ac_Name :: string
  ac_Description :: string
  ac_URL :: string
  ac_Version :: string
  ac_Streaming :: bool
  ac_PushNotifications :: bool
  ac_StateTransitionHistory :: bool
  ac_Schemes :: "string list"
  ac_DefaultInputModes :: "string list"
  ac_DefaultOutputModes :: "string list"
  ac_Skills :: "skill_card list"

definition GenerateAgentCard :: "a2a_config option \<Rightarrow> string \<Rightarrow> agent_card" where
  "GenerateAgentCard cfg version =
     \<lparr>ac_Name = ''hearsay-coordinator'',
      ac_Description = ''Resource locking, conflict detection, and mailbox for agent teams'',
      ac_URL = (case cfg of None \<Rightarrow> [] | Some c \<Rightarrow> ''http://'' @ a2c_Addr c @ ''/a2a''),
      ac_Version = version, ac_Streaming = (cfg \<noteq> None), ac_PushNotifications = False,
      ac_StateTransitionHistory = False,
      ac_Schemes = (case cfg of
          None \<Rightarrow> []
        | Some c \<Rightarrow> (if a2c_APIKey c \<noteq> [] then [''api-key''] else [])
            @ (if a2c_BearerValidatorURL c \<noteq> [] \<or> a2c_BearerJWKSURL c \<noteq> [] then [''Bearer''] else [])),
      ac_DefaultInputModes = [''text''], ac_DefaultOutputModes = [''text'', ''data''],
      ac_Skills = [claimResourceSkill, releaseResourceSkill, checkConflictSkill, queryMailboxSkill,
        sendMailboxSkill]\<rparr>"

definition omit_list :: "string \<Rightarrow> string list \<Rightarrow> (string \<times> json) list" where
  "omit_list k xs = (if xs = [] then [] else [(k, JArr (map JStr xs))])"

definition skill_json :: "skill_card \<Rightarrow> json" where
  "skill_json k = JObj ([(''id'', JStr (sc_ID k)), (''name'', JStr (sc_Name k)),
     (''description'', JStr (sc_Description k))] @ omit_list ''tags'' (sc_Tags k)
     @ omit_list ''examples'' (sc_Examples k) @ omit_list ''inputModes'' (sc_InputModes k)
     @ omit_list ''outputModes'' (sc_OutputModes k) @ omit_raw ''parameters'' (sc_Parameters k))"

text \<open>The optional members that are never set (provider, documentation) are left out.\<close>

definition card_json :: "agent_card \<Rightarrow> json" where
  "card_json c = JObj ([(''name'', JStr (ac_Name c)), (''description'', JStr (ac_Description c)),
     (''url'', JStr (ac_URL c)), (''version'', JStr (ac_Version c)),
     (''capabilities'', JObj [(''streaming'', JBool (ac_Streaming c)),
        (''pushNotifications'', JBool (ac_PushNotifications c)),
        (''stateTransitionHistory'', JBool (ac_StateTransitionHistory c))])]
     @ (if ac_Schemes c = [] then [] else
          [(''authentication'', JObj [(''schemes'', JArr (map JStr (ac_Schemes c)))])])
     @ omit_list ''defaultInputModes'' (ac_DefaultInputModes c)
     @ omit_list ''defaultOutputModes'' (ac_DefaultOutputModes c)
     @ [(''skills'', JArr (map skill_json (ac_Skills c)))])"

section \<open>The dispatcher\<close>

definition writeError :: "raw \<Rightarrow> int \<Rightarrow> string \<Rightarrow> raw \<Rightarrow> response" where
  "writeError i code msg d = reply_json 200 (rpc_error_json i code msg d)"

definition write_result :: "raw \<Rightarrow> error + json \<Rightarrow> response" where
  "write_result i r =
     (case r of
        Inl (RPCError code msg d) \<Rightarrow> writeError i code msg d
      | Inl err \<Rightarrow> writeError i (-32003) (error_text err) None
      | Inr res \<Rightarrow> reply_json 200 (rpc_response i res))"

definition handleJSONRPC ::
  "'s provider \<Rightarrow> a2a_server \<Rightarrow> envs \<Rightarrow> string \<Rightarrow> (nat \<Rightarrow> bool) \<Rightarrow> raw \<Rightarrow> 's \<Rightarrow> response \<times> 's" where
  "handleJSONRPC P x es agent gone b s =
     (case decode rpc_request_fields zero_rpc_request b of
        None \<Rightarrow> (writeError None (-32600) ''Invalid Request'' None, s)
      | Some req \<Rightarrow>
          if jr_Method req = ''tasks/sendSubscribe'' then
            (if x_cfg x = None then
               (writeError (jr_ID req) (-32004) ''Streaming not supported in this runtime; use tasks/send'' None, s)
             else handleTasksSendSubscribe P x es agent gone req s)
          else if jr_Method req = ''tasks/send'' then
            (case handleTasksSend P x es agent (jr_Params req) s of (r, s') \<Rightarrow> (write_result (jr_ID req) r, s'))
          else if jr_Method req = ''tasks/get'' then
            (write_result (jr_ID req) (handleTasksGet P x es (jr_Params req) s), s)
          else if jr_Method req = ''tasks/cancel'' then
            (case handleTasksCancel P x es (jr_Params req) s of (r, s') \<Rightarrow> (write_result (jr_ID req) r, s'))
          else (writeError (jr_ID req) (-32601) ''Method not found'' None, s))"

definition a2a_ServeHTTP ::
  "'s provider \<Rightarrow> a2a_server \<Rightarrow> envs \<Rightarrow> string \<Rightarrow> (nat \<Rightarrow> bool) \<Rightarrow> request \<Rightarrow> 's \<Rightarrow> response \<times> 's" where
  "a2a_ServeHTTP P x es agent gone r s =
     (if hr_Method r = ''GET'' \<and> hr_Path r = ''/.well-known/agent.json'' then
        (reply_json 200 (card_json (GenerateAgentCard (x_cfg x) ''1.0.0'')), s)
      else if hr_Method r = ''POST'' \<and> hr_Path r = ''/'' then handleJSONRPC P x es agent gone (hr_Body r) s
      else (reply 404 NoBody, s))"

end
