(* ===== verification/A2AAuth.thy ===== *)
theory A2AAuth
  imports A2AStream
begin

text \<open>
  Authentication of the A2A server, \<open>internal/a2a/auth.go\<close>: the API key, the external validator and
  JSON Web Tokens checked against a key set that is fetched and kept for five minutes. The HTTP
  transport and the library that parses and verifies tokens are outside the repository: they are
  the parameters \<open>validator\<close>, \<open>fetched\<close> and \<open>jwt\<close>.
\<close>

section \<open>Base64\<close>

definition base64url_alphabet :: string where
  "base64url_alphabet = ''ABCDEFGHIJKLMNOPQRSTUVWXYZabcdefghijklmnopqrstuvwxyz0123456789-_''"

fun index_of :: "char \<Rightarrow> string \<Rightarrow> nat \<Rightarrow> nat option" where
  "index_of c [] i = None"
| "index_of c (d # ds) i = (if c = d then Some i else index_of c ds (Suc i))"

text \<open>\<open>RawURLEncoding.DecodeString\<close>: line breaks are skipped, a last group of two or three digits
  gives one or two bytes, a group of one digit is an error; the unused low bits are dropped.\<close>

fun decode_sextets :: "nat list \<Rightarrow> nat list option" where
  "decode_sextets [] = Some []"
| "decode_sextets [a] = None"
| "decode_sextets [a, b] = Some [4 * a + b div 16]"
| "decode_sextets [a, b, c] = Some [4 * a + b div 16, 16 * (b mod 16) + c div 4]"
| "decode_sextets (a # b # c # d # rest) =
     map_option (\<lambda>bs. (4 * a + b div 16) # (16 * (b mod 16) + c div 4) # (64 * (c mod 4) + d) # bs)
       (decode_sextets rest)"

definition base64urlDecode :: "string \<Rightarrow> nat list option" where
  "base64urlDecode s =
     (let digits = map (\<lambda>c. index_of c base64url_alphabet 0)
            (filter (\<lambda>c. c \<noteq> CHR 0x0A \<and> c \<noteq> CHR 0x0D) s)
      in if None \<in> set digits then None else decode_sextets (map the digits))"

text \<open>\<open>big.Int.SetBytes\<close>, and the low 64 bits of \<open>Int64\<close>.\<close>

definition big_endian :: "nat list \<Rightarrow> nat" where
  "big_endian bs = fold (\<lambda>b n. 256 * n + b) bs 0"

definition low_int64 :: "nat \<Rightarrow> int" where
  "low_int64 n = (let m = int (n mod 2 ^ 64) in if m \<ge> 2 ^ 63 then m - 2 ^ 64 else m)"

section \<open>Keys\<close>

record jwk =
  jwk_Kty :: string
  jwk_Kid :: string
  jwk_Alg :: string
  jwk_N :: string
  jwk_E :: string
  jwk_X :: string
  jwk_Y :: string
  jwk_Crv :: string

datatype curve = P256 | P384 | P521

datatype public_key = RSAKey nat int | ECKey curve nat nat

definition parseJWK :: "jwk \<Rightarrow> public_key option" where
  "parseJWK k =
     (if jwk_Kty k = ''RSA'' then
        (case base64urlDecode (jwk_N k) of None \<Rightarrow> None | Some n \<Rightarrow>
         (case base64urlDecode (jwk_E k) of None \<Rightarrow> None | Some ex \<Rightarrow>
            Some (RSAKey (big_endian n) (low_int64 (big_endian ex)))))
      else if jwk_Kty k = ''EC'' then
        (case base64urlDecode (jwk_X k) of None \<Rightarrow> None | Some x \<Rightarrow>
         (case base64urlDecode (jwk_Y k) of None \<Rightarrow> None | Some y \<Rightarrow>
            if jwk_Crv k = ''P-256'' then Some (ECKey P256 (big_endian x) (big_endian y))
            else if jwk_Crv k = ''P-384'' then Some (ECKey P384 (big_endian x) (big_endian y))
            else if jwk_Crv k = ''P-521'' then Some (ECKey P521 (big_endian x) (big_endian y))
            else None))
      else None)"

definition zero_jwk :: jwk where
  "zero_jwk = \<lparr>jwk_Kty = [], jwk_Kid = [], jwk_Alg = [], jwk_N = [], jwk_E = [], jwk_X = [], jwk_Y = [],
     jwk_Crv = []\<rparr>"

definition jwk_fields :: "(string \<times> jwk field) list" where
  "jwk_fields = [(''kty'', string_field jwk_Kty_update), (''kid'', string_field jwk_Kid_update),
     (''alg'', string_field jwk_Alg_update), (''n'', string_field jwk_N_update),
     (''e'', string_field jwk_E_update), (''x'', string_field jwk_X_update),
     (''y'', string_field jwk_Y_update), (''crv'', string_field jwk_Crv_update)]"

definition decode_jwks :: "raw \<Rightarrow> jwk list option" where
  "decode_jwks b =
     map_option (\<lambda>ks. case ks of None \<Rightarrow> [] | Some xs \<Rightarrow> xs)
       (decode [(''keys'', slice_field jwk_fields zero_jwk (\<lambda>f. f))] None b)"

section \<open>The key set\<close>

record jwks_cache =
  kc_keys :: "string \<rightharpoonup> public_key"
  kc_expiresAt :: time

definition newJWKSCache :: jwks_cache where
  "newJWKSCache = \<lparr>kc_keys = Map.empty, kc_expiresAt = 0\<rparr>"

text \<open>An HTTP exchange: an error of the transport, or a status and a body.\<close>

type_synonym exchange = "(int \<times> raw) option"

fun key_loop :: "jwk list \<Rightarrow> (string \<rightharpoonup> public_key) \<Rightarrow> (string \<rightharpoonup> public_key)" where
  "key_loop [] newKeys = newKeys"
| "key_loop (k # ks) newKeys =
     key_loop ks (case parseJWK k of None \<Rightarrow> newKeys | Some key \<Rightarrow> newKeys(jwk_Kid k \<mapsto> key))"

definition fetch :: "exchange \<Rightarrow> time \<Rightarrow> jwks_cache \<Rightarrow> bool \<times> jwks_cache" where
  "fetch fetched now c =
     (case fetched of
        None \<Rightarrow> (False, c)
      | Some (status, b) \<Rightarrow>
          if status \<noteq> 200 then (False, c)
          else case decode_jwks b of
            None \<Rightarrow> (False, c)
          | Some ks \<Rightarrow> (True, \<lparr>kc_keys = key_loop ks Map.empty, kc_expiresAt = now + seconds 300\<rparr>))"

text \<open>The readings of the clock: for the look under the read lock, for the one under the write lock,
  and at the end of the fetch.\<close>

definition getKey :: "exchange \<Rightarrow> clock \<Rightarrow> string \<Rightarrow> jwks_cache \<Rightarrow> public_key option \<times> jwks_cache" where
  "getKey fetched now kid c =
     (let fresh = (\<lambda>t. if t < kc_expiresAt c then kc_keys c kid else None)
      in case fresh (now 0) of
           Some key \<Rightarrow> (Some key, c)
         | None \<Rightarrow>
             (case fresh (now 1) of
                Some key \<Rightarrow> (Some key, c)
              | None \<Rightarrow>
                  (case fetch fetched (now 2) c of
                     (False, c') \<Rightarrow> (None, c')
                   | (True, c') \<Rightarrow> (kc_keys c' kid, c'))))"

section \<open>Tokens\<close>

text \<open>What the token library does: the algorithm and the \<open>kid\<close> of the header of a token that has the
  form of one (\<open>None\<close> for a \<open>kid\<close> that is no string), and the subject of a token whose signature and
  times are valid under a key.\<close>

record jwt =
  jwt_header :: "string \<Rightarrow> (string \<times> string option) option"
  jwt_verify :: "public_key \<Rightarrow> string \<Rightarrow> string option"

definition valid_methods :: "string list" where
  "valid_methods = [''RS256'', ''RS384'', ''RS512'', ''ES256'', ''ES384'', ''ES512'']"

definition validateJWTBearer ::
  "jwt \<Rightarrow> exchange \<Rightarrow> clock \<Rightarrow> string \<Rightarrow> jwks_cache \<Rightarrow> string option \<times> jwks_cache" where
  "validateJWTBearer J fetched now token c =
     (case jwt_header J token of
        None \<Rightarrow> (None, c)
      | Some (alg, kid) \<Rightarrow>
          if alg \<notin> set valid_methods then (None, c)
          else case kid of
            None \<Rightarrow> (None, c)
          | Some k \<Rightarrow>
              (case getKey fetched now k c of
                 (None, c') \<Rightarrow> (None, c')
               | (Some key, c') \<Rightarrow> (jwt_verify J key token, c')))"

definition zero_verdict :: "bool \<times> string" where "zero_verdict = (False, [])"

definition validateExternalBearer :: "(string \<Rightarrow> exchange) \<Rightarrow> string \<Rightarrow> string option" where
  "validateExternalBearer validator token =
     (case validator token of
        None \<Rightarrow> None
      | Some (status, b) \<Rightarrow>
          if status \<noteq> 200 then None
          else case decode [(''valid'', bool_field (\<lambda>f (v, a). (f v, a))),
              (''agent_id'', string_field (\<lambda>f (v, a). (v, f a)))] zero_verdict b of
            None \<Rightarrow> None
          | Some (valid, agent) \<Rightarrow> (if valid then Some agent else None))"

section \<open>Requests\<close>

record a2a_auth =
  xa_APIKey :: string
  xa_BearerValidatorURL :: string
  xa_BearerJWKSURL :: string
  xa_jwks :: "jwks_cache option"

text \<open>The outside of one request: the answer of the validator, the fetched key set, the clock.\<close>

record auth_env =
  ox_validator :: "string \<Rightarrow> exchange"
  ox_fetched :: exchange
  ox_now :: clock
  ox_jwt :: jwt

text \<open>The agent id of an admitted request; the texts of the refusals are never used.\<close>

definition CheckAuth :: "auth_env \<Rightarrow> request \<Rightarrow> a2a_auth \<Rightarrow> string option \<times> a2a_auth" where
  "CheckAuth o' r a =
     (if xa_APIKey a \<noteq> [] \<and> hr_Header r ''X-Api-Key'' = xa_APIKey a then (Some [], a)
      else
        let auth = hr_Header r ''Authorization''
        in if HasPrefix auth ''Bearer '' then
             let token = TrimPrefix auth ''Bearer ''
             in if xa_BearerValidatorURL a \<noteq> [] then (validateExternalBearer (ox_validator o') token, a)
                else if xa_BearerJWKSURL a \<noteq> [] then
                  (let c = (case xa_jwks a of None \<Rightarrow> newJWKSCache | Some c \<Rightarrow> c)
                   in case validateJWTBearer (ox_jwt o') (ox_fetched o') (ox_now o') token c of
                        (res, c') \<Rightarrow> (res, a\<lparr>xa_jwks := Some c'\<rparr>))
                else (None, a)
           else (None, a))"

definition unauthorized :: response where
  "unauthorized = reply_json 401 (rpc_error_json None (-32600) ''Unauthorized'' None)"

definition Middleware ::
  "(string \<Rightarrow> request \<Rightarrow> 's \<Rightarrow> response \<times> 's) \<Rightarrow> auth_env \<Rightarrow> request \<Rightarrow> a2a_auth \<Rightarrow> 's \<Rightarrow> response \<times> a2a_auth \<times> 's" where
  "Middleware next o' r a s =
     (case CheckAuth o' r a of
        (None, a') \<Rightarrow> (unauthorized, a', s)
      | (Some agent, a') \<Rightarrow> (case next agent r s of (w, s') \<Rightarrow> (w, a', s')))"

text \<open>The A2A server as \<open>hearsay serve\<close> starts it.\<close>

definition a2a_serve ::
  "'s provider \<Rightarrow> a2a_server \<Rightarrow> envs \<Rightarrow> (nat \<Rightarrow> bool) \<Rightarrow> auth_env \<Rightarrow> request \<Rightarrow> a2a_auth \<Rightarrow> 's \<Rightarrow>
     response \<times> a2a_auth \<times> 's" where
  "a2a_serve P x es gone o' r a s =
     Middleware (\<lambda>agent r s. a2a_ServeHTTP P x es agent gone r s) o' r a s"

end
