(* ===== verification/A2AFacts.thy ===== *)
theory A2AFacts
  imports A2AAuth MemoryFacts SqliteFacts ClientFacts
begin

text \<open>
  What the A2A server of \<open>internal/a2a\<close> guarantees, over any back end that keeps the contract
  \<open>task_store\<close>: which tasks can ever be stored, and what a cancellation can do.
\<close>

section \<open>Skills leave the stored tasks alone\<close>

text \<open>A task that may be stored: working is never stored, and only a completed task has a claim.\<close>

definition settled :: "string \<Rightarrow> string \<Rightarrow> bool" where
  "settled state claim \<longleftrightarrow> state \<in> {TaskSubmitted, TaskCompleted, TaskFailed, TaskCanceled}
     \<and> (claim \<noteq> [] \<longrightarrow> state = TaskCompleted)"

definition settled_task :: "task \<Rightarrow> bool" where
  "settled_task t \<longleftrightarrow> settled (st_State (tk_Status t)) (tk_ClaimID t)"

lemma taskToStorage_simps [simp]:
  "t_State (taskToStorage now t) = st_State (tk_Status t)" "t_ClaimID (taskToStorage now t) = tk_ClaimID t"
  "t_ID (taskToStorage now t) = tk_ID t"
  by (simp_all add: taskToStorage_def)

lemma NewTask_simps [simp]:
  "st_State (tk_Status (NewTask now i se ns)) = TaskSubmitted" "tk_ClaimID (NewTask now i se ns) = []"
  "tk_ID (NewTask now i se ns) = i"
  by (simp_all add: NewTask_def)

lemma storageToTask_simps [simp]:
  "st_State (tk_Status (storageToTask st)) = t_State st" "tk_ClaimID (storageToTask st) = t_ClaimID st"
  by (simp_all add: storageToTask_def)

text \<open>The transitions that the handlers make.\<close>

lemma Transition_start:
  "st_State (tk_Status t) = TaskSubmitted \<Longrightarrow> Transition now TaskWorking t =
     (None, t\<lparr>tk_Status := (tk_Status t)\<lparr>st_State := TaskWorking, st_Timestamp := now\<rparr>\<rparr>)"
  by (simp add: Transition_def valid_transitions_def)

lemma Transition_end:
  "st_State (tk_Status t) = TaskWorking \<Longrightarrow> to \<in> {TaskCompleted, TaskFailed} \<Longrightarrow> Transition now to t =
     (None, t\<lparr>tk_Status := (tk_Status t)\<lparr>st_State := to, st_Timestamp := now\<rparr>\<rparr>)"
  by (auto simp: Transition_def valid_transitions_def)

lemma Transition_cancel:
  "st_State (tk_Status t) = TaskSubmitted \<Longrightarrow> Transition now TaskCanceled t =
     (None, t\<lparr>tk_Status := (tk_Status t)\<lparr>st_State := TaskCanceled, st_Timestamp := now\<rparr>\<rparr>)"
  by (simp add: Transition_def valid_transitions_def)

text \<open>A skill never moves the task, and gives it a claim only when it succeeds.\<close>

definition skill_result :: "task \<Rightarrow> error option \<times> task \<Rightarrow> bool" where
  "skill_result t r \<longleftrightarrow> tk_Status (snd r) = tk_Status t \<and> tk_ID (snd r) = tk_ID t
     \<and> (fst r \<noteq> None \<longrightarrow> tk_ClaimID (snd r) = tk_ClaimID t)"

lemmas skill_defs = skillClaimResource_def skillReleaseResource_def skillCheckConflict_def
  skillQueryMailbox_def skillSendMailbox_def

lemma skill_results:
  "skill_result t (fst (skillClaimResource P x es p t s))"
  "skill_result t (fst (skillReleaseResource P x es p t s))"
  "skill_result t (fst (skillCheckConflict P x es p t s))"
  "skill_result t (fst (skillQueryMailbox P x es p t s))"
  "skill_result t (fst (skillSendMailbox P x es p t s))"
  by (auto simp: skill_defs skill_result_def Let_def split: prod.split option.split error.split sum.split)

lemma executeSkill_result: "skill_result t (fst (executeSkill P x es agent msg t s))"
  unfolding executeSkill_def
  by (auto simp: Let_def skill_results skill_result_def [of t "(Some err, t)" for err] split: sum.split)

lemma client_Release_snd: "\<exists>e m. snd (client_Release P ns es cid out s) = snd (p_Append P e ns [m] s)"
  unfolding client_Release_def by blast

lemma client_Claim_snd:
  "snd (client_Claim P ns es req s) = s \<or> (\<exists>e m. snd (client_Claim P ns es req s) = snd (p_Append P e ns [m] s))"
  unfolding client_Claim_def Let_def by (auto split: sum.split prod.split option.split) (metis snd_conv)+

text \<open>\<open>tasks/send\<close> once the task is stored, with its transitions carried out.\<close>

lemma handleTasksSend_eq:
  assumes "decode task_params_fields zero_task_params params = Some req" "tp_ID req \<noteq> []"
    and "t0 = NewTask (Now (es 0) 0) (tp_ID req) (tp_SessionID req) (x_namespace x)"
    and "t1 = t0\<lparr>tk_Status := (tk_Status t0)\<lparr>st_State := TaskWorking, st_Timestamp := Now (es 0) 2\<rparr>\<rparr>"
    and "p_CreateTask P (es 1) (x_namespace x) (taskToStorage (Now (es 0) 1) t0) s = (None, s1)"
    and "p_AppendTaskHistory P (es 2) (x_namespace x) (tk_ID t0) 0 (user_message (tp_Message req)) s1 = (None, s2)"
    and "executeSkill P x (after 4 es) agent (tp_Message req) t1 s2 = ((r3, t2), s3)"
    and "ended = (\<lambda>st. t2\<lparr>tk_Status := (tk_Status t2)\<lparr>st_State := st, st_Timestamp := Now (es 0) 3\<rparr>\<rparr>)"
    and "store_artifacts P (x_namespace x) (after 7 es) (tk_ID t2) (tk_Artifacts t2) s3 = (r4, s4)"
  shows "handleTasksSend P x es agent params s =
      (case r3 of
         Some err \<Rightarrow> (Inr (taskToJSON (ended TaskFailed)),
           snd (p_UpdateTask P (es 3) (x_namespace x) (taskToStorage (Now (es 0) 4) (ended TaskFailed)) s3))
       | None \<Rightarrow> (case r4 of Some err \<Rightarrow> (Inl err, s4) | None \<Rightarrow>
           (case p_UpdateTask P (es 3) (x_namespace x) (taskToStorage (Now (es 0) 4) (ended TaskCompleted)) s4 of
              (Some err, s5) \<Rightarrow> (Inl (RPCError (-32003) (''Failed to update task: '' @ error_text err) None), s5)
            | (None, s5) \<Rightarrow> (Inr (taskToJSON ((ended TaskCompleted)\<lparr>tk_Artifacts := tk_Artifacts t2\<rparr>)), s5))))"
    and "st_State (tk_Status t2) = TaskWorking" and "tk_ID t2 = tp_ID req"
    and "r3 \<noteq> None \<Longrightarrow> tk_ClaimID t2 = []"
proof -
  have tr1: "Transition (Now (es 0) 2) TaskWorking t0 = (None, t1)"
    unfolding assms(4) by (rule Transition_start) (simp add: assms(3))
  show t2: "st_State (tk_Status t2) = TaskWorking" "tk_ID t2 = tp_ID req" "r3 \<noteq> None \<Longrightarrow> tk_ClaimID t2 = []"
    using executeSkill_result [of t1 P x "after 4 es" agent "tp_Message req" s2]
    unfolding assms(7) skill_result_def by (simp_all add: assms(3,4))
  have en: "Transition (Now (es 0) 3) TaskCompleted t2 = (None, ended TaskCompleted)"
    "Transition (Now (es 0) 3) TaskFailed t2 = (None, ended TaskFailed)"
    unfolding assms(8) by (simp_all add: Transition_end [OF t2(1)])
  have a: "store_artifacts P (x_namespace x) (after 7 es) (tk_ID (ended TaskCompleted)) (tk_Artifacts t2) s3 = (r4, s4)"
    using assms(9) by (simp add: assms(8))
  show "handleTasksSend P x es agent params s =
      (case r3 of
         Some err \<Rightarrow> (Inr (taskToJSON (ended TaskFailed)),
           snd (p_UpdateTask P (es 3) (x_namespace x) (taskToStorage (Now (es 0) 4) (ended TaskFailed)) s3))
       | None \<Rightarrow> (case r4 of Some err \<Rightarrow> (Inl err, s4) | None \<Rightarrow>
           (case p_UpdateTask P (es 3) (x_namespace x) (taskToStorage (Now (es 0) 4) (ended TaskCompleted)) s4 of
              (Some err, s5) \<Rightarrow> (Inl (RPCError (-32003) (''Failed to update task: '' @ error_text err) None), s5)
            | (None, s5) \<Rightarrow> (Inr (taskToJSON ((ended TaskCompleted)\<lparr>tk_Artifacts := tk_Artifacts t2\<rparr>)), s5))))"
    unfolding handleTasksSend_def Let_def assms(1) option.case if_not_P [OF assms(2)] assms(3) [symmetric] assms(5,6)
      prod.case tr1 assms(7)
    by (cases r3) (simp_all add: en a)
qed

definition tidy :: "('s \<Rightarrow> a2a_task set) \<Rightarrow> 's \<Rightarrow> bool" where
  "tidy stored s \<longleftrightarrow> (\<forall>t \<in> stored s. settled (t_State t) (t_ClaimID t))"

lemma tidy_cong: "stored s' = stored s \<Longrightarrow> tidy stored s \<Longrightarrow> tidy stored s'"
  by (simp add: tidy_def)

context task_store begin

lemma claim_tasks: "stored (snd (client_Claim P ns es req s)) = stored s"
  using client_Claim_snd [of P ns es req s] by (auto simp: append_tasks)

lemma release_tasks: "stored (snd (client_Release P ns es cid out s)) = stored s"
  using client_Release_snd [of P ns es cid out s] by (auto simp: append_tasks)

lemma skill_tasks:
  "stored (snd (skillClaimResource P x es p t s)) = stored s"
  "stored (snd (skillReleaseResource P x es p t s)) = stored s"
  "stored (snd (skillCheckConflict P x es p t s)) = stored s"
  "stored (snd (skillQueryMailbox P x es p t s)) = stored s"
  "stored (snd (skillSendMailbox P x es p t s)) = stored s"
proof -
  show "stored (snd (skillClaimResource P x es p t s)) = stored s"
  proof -
    obtain resp err s' where c: "client_Claim P (x_client x) es (mapToClaimRequest p) s = ((resp, err), s')"
      by (metis prod.collapse)
    then have "stored s' = stored s" using claim_tasks by (metis snd_conv)
    then show ?thesis
      unfolding skillClaimResource_def c Let_def by (cases err) (simp_all split: error.split)
  qed
  show "stored (snd (skillReleaseResource P x es p t s)) = stored s"
    using release_tasks by (auto simp: skillReleaseResource_def Let_def split: prod.split option.split) (metis snd_conv)+
  show "stored (snd (skillSendMailbox P x es p t s)) = stored s"
    using send_tasks by (auto simp: skillSendMailbox_def Let_def split: prod.split option.split) (metis snd_conv)+
qed (auto simp: skill_defs split: sum.split)

lemma executeSkill_tasks: "stored (snd (executeSkill P x es agent msg t s)) = stored s"
  by (auto simp: executeSkill_def Let_def skill_tasks split: sum.split)

lemma store_artifacts_tasks: "stored (snd (store_artifacts P ns es i as s)) = stored s"
proof (induction as arbitrary: es s)
  case (Cons a as)
  obtain r s' where c: "p_CreateArtifact P (es 0) ns i (stored_artifact a) s = (r, s')" by fastforce
  then have "stored s' = stored s" using artifact_tasks by (metis snd_conv)
  with c Cons show ?case by (simp split: option.split)
qed simp

lemma create_all_tasks: "stored (create_all P ns es i as s) = stored s"
  by (induction as arbitrary: es s) (simp_all add: artifact_tasks)

lemma tidy_create:
  assumes "tidy stored s" "settled_task t"
  shows "tidy stored (snd (p_CreateTask P e ns (taskToStorage now t) s))"
  unfolding tidy_def
proof
  fix t' assume "t' \<in> stored (snd (p_CreateTask P e ns (taskToStorage now t) s))"
  from create_stores [OF prod.collapse [symmetric] this] assms
  show "settled (t_State t') (t_ClaimID t')" unfolding tidy_def settled_task_def by auto
qed

lemma tidy_update:
  assumes "tidy stored s" "settled_task t"
  shows "tidy stored (snd (p_UpdateTask P e ns (taskToStorage now t) s))"
  unfolding tidy_def
proof
  fix t' assume "t' \<in> stored (snd (p_UpdateTask P e ns (taskToStorage now t) s))"
  from update_stores [OF prod.collapse [symmetric] this] assms
  show "settled (t_State t') (t_ClaimID t')" unfolding tidy_def settled_task_def by auto
qed


lemma handleTasksSend_tidy:
  assumes "tidy stored s"
  shows "tidy stored (snd (handleTasksSend P x es agent params s))"
proof (cases "decode task_params_fields zero_task_params params")
  case None
  with assms show ?thesis by (simp add: handleTasksSend_def)
next
  case (Some req)
  let ?ns = "x_namespace x"
  let ?t0 = "NewTask (Now (es 0) 0) (tp_ID req) (tp_SessionID req) ?ns"
  let ?t1 = "?t0\<lparr>tk_Status := (tk_Status ?t0)\<lparr>st_State := TaskWorking, st_Timestamp := Now (es 0) 2\<rparr>\<rparr>"
  obtain r1 s1 where c: "p_CreateTask P (es 1) ?ns (taskToStorage (Now (es 0) 1) ?t0) s = (r1, s1)" by fastforce
  obtain r2 s2 where h: "p_AppendTaskHistory P (es 2) ?ns (tk_ID ?t0) 0 (user_message (tp_Message req)) s1 = (r2, s2)"
    by fastforce
  obtain r3 t2 s3 where k: "executeSkill P x (after 4 es) agent (tp_Message req) ?t1 s2 = ((r3, t2), s3)"
    by (metis prod.collapse)
  obtain r4 s4 where a: "store_artifacts P ?ns (after 7 es) (tk_ID t2) (tk_Artifacts t2) s3 = (r4, s4)" by fastforce
  have s1: "tidy stored s1"
    using tidy_create [OF assms, of ?t0 "es 1" ?ns "Now (es 0) 1"] c by (simp add: settled_task_def settled_def)
  have s2: "tidy stored s2" by (rule tidy_cong [OF _ s1]) (use history_tasks h in \<open>metis snd_conv\<close>)
  have s3: "tidy stored s3" by (rule tidy_cong [OF _ s2]) (use executeSkill_tasks k in \<open>metis snd_conv\<close>)
  have s4: "tidy stored s4" by (rule tidy_cong [OF _ s3]) (use store_artifacts_tasks a in \<open>metis snd_conv\<close>)
  let ?fin = "\<lambda>st. t2\<lparr>tk_Status := (tk_Status t2)\<lparr>st_State := st, st_Timestamp := Now (es 0) 3\<rparr>\<rparr>"
  show ?thesis
  proof (cases "tp_ID req = [] \<or> r1 \<noteq> None \<or> r2 \<noteq> None")
    case True
    then show ?thesis
      using assms s1 s2 c h by (auto simp: handleTasksSend_def Let_def Some split: option.split)
  next
    case False
    then have id: "tp_ID req \<noteq> []" by simp
    from False c h have c': "p_CreateTask P (es 1) ?ns (taskToStorage (Now (es 0) 1) ?t0) s = (None, s1)"
      and h': "p_AppendTaskHistory P (es 2) ?ns (tk_ID ?t0) 0 (user_message (tp_Message req)) s1 = (None, s2)" by simp_all
    note run = handleTasksSend_eq [OF Some id refl refl c' h' k refl a]
    have "tidy stored (snd (p_UpdateTask P (es 3) ?ns (taskToStorage (Now (es 0) 4) (?fin TaskCompleted)) s4))"
      by (rule tidy_update [OF s4]) (simp add: settled_task_def settled_def)
    moreover have "tidy stored (snd (p_UpdateTask P (es 3) ?ns (taskToStorage (Now (es 0) 4) (?fin TaskFailed)) s3))"
      if "r3 \<noteq> None"
      by (rule tidy_update [OF s3]) (use run(4) that in \<open>simp add: settled_task_def settled_def\<close>)
    ultimately show ?thesis using False s4 run(1) by (auto split: option.split prod.split)
  qed
qed

lemma handleTasksCancel_cases:
  assumes "tidy stored s"
  obtains (same) "snd (handleTasksCancel P x es params s) = s"
  | (canceled) st where "snd (handleTasksCancel P x es params s) =
      snd (p_UpdateTask P (es 4) (x_namespace x) (taskToStorage (Now (es 1) 1)
        (snd (Transition (Now (es 1) 0) TaskCanceled (storageToTask st)))) s)"
      "t_State st = TaskSubmitted" "t_ClaimID st = []" "st \<in> stored s"
proof (cases "decode_id params")
  case None
  then show thesis by (intro same) (simp add: handleTasksCancel_def)
next
  case (Some i)
  show thesis
  proof (cases "i = [] \<or> (\<exists>err. p_GetTask P (es 0) (x_namespace x) i s = Inl err)")
    case True
    with Some show thesis by (intro same) (auto simp: handleTasksCancel_def)
  next
    case False
    then obtain st where st: "p_GetTask P (es 0) (x_namespace x) i s = Inr st"
      by (cases "p_GetTask P (es 0) (x_namespace x) i s") auto
    then have mem: "st \<in> stored s" by (rule get_stored)
    with assms have sett: "settled (t_State st) (t_ClaimID st)" by (simp add: tidy_def)
    show thesis
    proof (cases "terminal (t_State st)")
      case True
      then show thesis
        by (intro same) (simp add: handleTasksCancel_def Some st terminal_def Let_def)
    next
      case False': False
      with sett have sub: "t_State st = TaskSubmitted" "t_ClaimID st = []"
        by (auto simp: settled_def terminal_def)
      have "snd (handleTasksCancel P x es params s) =
        snd (p_UpdateTask P (es 4) (x_namespace x) (taskToStorage (Now (es 1) 1)
          (snd (Transition (Now (es 1) 0) TaskCanceled (storageToTask st)))) s)"
        using False by (simp add: handleTasksCancel_def Some st Let_def sub Transition_cancel
            split: prod.split option.split)
      with sub mem show thesis by (intro canceled)
    qed
  qed
qed

lemma handleTasksCancel_tidy:
  assumes "tidy stored s"
  shows "tidy stored (snd (handleTasksCancel P x es params s))"
proof (rule handleTasksCancel_cases [OF assms, of x es params])
  fix st
  assume st: "snd (handleTasksCancel P x es params s) = snd (p_UpdateTask P (es 4) (x_namespace x)
      (taskToStorage (Now (es 1) 1) (snd (Transition (Now (es 1) 0) TaskCanceled (storageToTask st)))) s)"
    "t_State st = TaskSubmitted" "t_ClaimID st = []"
  show ?thesis unfolding st(1)
    by (rule tidy_update [OF assms]) (simp add: Transition_cancel st(2,3) settled_task_def settled_def)
qed (simp add: assms)

lemma handleTasksCancel_log:
  assumes "tidy stored s"
  shows "log (snd (handleTasksCancel P x es params s)) = log s"
  by (rule handleTasksCancel_cases [OF assms, of x es params]) (simp_all add: update_log)

end

section \<open>Streams\<close>

text \<open>An event whose task the handler stores carries a task that may be stored.\<close>

definition event_ok :: "task_event \<Rightarrow> bool" where
  "event_ok ev \<longleftrightarrow> (te_Type ev = ''error'' \<or> te_Type ev = ''done'' \<longrightarrow>
     (\<forall>t. te_Task ev = Some t \<longrightarrow> settled_task t))"

lemma event_ok_simps [simp]:
  "event_ok (status_event ''status'' t)" "event_ok (error_event t err) \<longleftrightarrow> settled_task t"
  "event_ok (status_event ''done'' t) \<longleftrightarrow> settled_task t"
  "event_ok \<lparr>te_Type = ''artifact'', te_Task = r, te_Artifacts = as, te_Error = er\<rparr>"
  by (simp_all add: event_ok_def status_event_def error_event_def)

lemma set_send [simp]: "set (send b ev) = (if b then {} else {ev})"
  by (simp add: send_def)

text \<open>The executor on a new task, with its transitions carried out.\<close>

lemma StartTaskExecution_eq:
  assumes "st_State (tk_Status t) = TaskSubmitted"
    and "t1 = t\<lparr>tk_Status := (tk_Status t)\<lparr>st_State := TaskWorking, st_Timestamp := Now (es 0) 0\<rparr>\<rparr>"
    and "executeSkill P x (after 1 es) agent msg t1 s = ((err, t2), s')"
    and "ended = (\<lambda>st u. u\<lparr>tk_Status := (tk_Status u)\<lparr>st_State := st, st_Timestamp := Now (es 0) 1\<rparr>\<rparr>)"
  shows "StartTaskExecution P x es agent gone t msg s =
    (if gone 0 then ([error_event t cancelled_error], s)
     else if gone 1 then ([status_event ''status'' t], s)
     else
       let sent = [status_event ''status'' t, status_event ''status'' t1]
       in if gone 2 then (sent @ send (gone 3) (error_event (ended TaskFailed t1) cancelled_error), s)
          else case err of
            Some er \<Rightarrow> (sent @ send (gone 3) (error_event (ended TaskFailed t2) (as_rpc er)), s')
          | None \<Rightarrow>
              if tk_Artifacts t2 \<noteq> [] \<and> gone 3 then (sent, s')
              else
                let sent2 = sent @ (if tk_Artifacts t2 \<noteq> [] then
                      [\<lparr>te_Type = ''artifact'', te_Task = Some t2, te_Artifacts = tk_Artifacts t2, te_Error = None\<rparr>]
                    else [])
                in if gone 4 then (sent2, s')
                   else (sent2 @ status_event ''status'' (ended TaskCompleted t2) #
                     send (gone 5) (status_event ''done'' (ended TaskCompleted t2)), s'))"
proof -
  have t2: "st_State (tk_Status t2) = TaskWorking"
    using executeSkill_result [of t1 P x "after 1 es" agent msg s] assms(2)
    unfolding assms(3) skill_result_def by simp
  have t1: "st_State (tk_Status t1) = TaskWorking" by (simp add: assms(2))
  have tr: "Transition (Now (es 0) 0) TaskWorking t = (None, t1)"
    unfolding assms(2) by (rule Transition_start [OF assms(1)])
  have en: "Transition (Now (es 0) 1) st u = (None, ended st u)"
    if "st_State (tk_Status u) = TaskWorking" "st \<in> {TaskCompleted, TaskFailed}" for st u
    unfolding assms(4) by (rule Transition_end [OF that])
  have e1: "Transition (Now (es 0) 1) TaskFailed t1 = (None, ended TaskFailed t1)"
    "Transition (Now (es 0) 1) TaskFailed t2 = (None, ended TaskFailed t2)"
    "Transition (Now (es 0) 1) TaskCompleted t2 = (None, ended TaskCompleted t2)"
    using en [OF t1] en [OF t2] by simp_all
  show ?thesis
    unfolding StartTaskExecution_def tr e1 prod.case option.case assms(3) snd_conv Let_def
    by (cases err) simp_all
qed

lemma StartTaskExecution_ok:
  assumes "st_State (tk_Status t) = TaskSubmitted" "tk_ClaimID t = []" "ev \<in> set (fst (StartTaskExecution P x es agent gone t msg s))"
  shows "event_ok ev"
proof -
  let ?t1 = "t\<lparr>tk_Status := (tk_Status t)\<lparr>st_State := TaskWorking, st_Timestamp := Now (es 0) 0\<rparr>\<rparr>"
  obtain err t2 s' where k: "executeSkill P x (after 1 es) agent msg ?t1 s = ((err, t2), s')" by (metis prod.collapse)
  have t2: "err \<noteq> None \<Longrightarrow> tk_ClaimID t2 = []"
    using executeSkill_result [of ?t1 P x "after 1 es" agent msg s] assms(2) unfolding k skill_result_def by simp
  show ?thesis
    using assms(3) t2 unfolding StartTaskExecution_eq [OF assms(1) refl k refl]
    by (auto simp: Let_def settled_task_def settled_def assms(1,2) split: if_splits option.splits)
qed

context task_store begin

lemma StartTaskExecution_tasks: "stored (snd (StartTaskExecution P x es agent gone t msg s)) = stored s"
proof -
  have "snd (StartTaskExecution P x es agent gone t msg s) = s \<or>
      (\<exists>u. snd (StartTaskExecution P x es agent gone t msg s) = snd (executeSkill P x (after 1 es) agent msg u s))"
    unfolding StartTaskExecution_def Let_def
    by (auto split: prod.split option.split) (metis snd_conv)+
  then show ?thesis using executeSkill_tasks by auto
qed

lemma store_task_tidy: "tidy stored s \<Longrightarrow> event_ok ev \<Longrightarrow> te_Type ev = ''error'' \<or> te_Type ev = ''done'' \<Longrightarrow>
   tidy stored (store_task P ns es ev s)"
  by (auto simp: store_task_def event_ok_def tidy_update split: option.split)

lemma event_loop_tidy:
  "tidy stored s \<Longrightarrow> \<forall>ev \<in> set evs. event_ok ev \<Longrightarrow> tidy stored (snd (event_loop P ns es i tid evs s))"
proof (induction evs arbitrary: es s)
  case (Cons ev evs)
  note IH = Cons.IH [of _ "_"] and ok = Cons.prems
  have stored: "tidy stored (create_all P ns es tid as s)" for as
    by (rule tidy_cong [OF create_all_tasks ok(1)])
  consider (st) "te_Type ev = ''status''" | (ar) "te_Type ev = ''artifact''"
    | (fin) "te_Type ev = ''error'' \<or> te_Type ev = ''done''"
    | (other) "te_Type ev \<notin> {''status'', ''artifact'', ''error'', ''done''}" by blast
  then show ?case
  proof cases
    case st
    with Cons.IH [of s es] ok show ?thesis by (simp add: split_beta)
  next
    case ar
    with Cons.IH [OF stored, of "after (length (te_Artifacts ev)) es" "te_Artifacts ev"] ok
    show ?thesis by (simp add: split_beta)
  next
    case fin
    with store_task_tidy [OF ok(1), of ev] ok(2) show ?thesis by auto
  next
    case other
    with Cons.IH [of s es] ok show ?thesis by simp
  qed
qed simp

lemma handleTasksSendSubscribe_tidy:
  assumes "tidy stored s"
  shows "tidy stored (snd (handleTasksSendSubscribe P x es agent gone req s))"
proof (cases "decode task_params_fields zero_task_params (jr_Params req)")
  case None
  with assms show ?thesis by (simp add: handleTasksSendSubscribe_def Let_def)
next
  case (Some q)
  let ?ns = "x_namespace x"
  let ?t = "NewTask (Now (es 0) 0) (tp_ID q) (tp_SessionID q) ?ns"
  obtain r1 s1 where c: "p_CreateTask P (es 1) ?ns (taskToStorage (Now (es 0) 1) ?t) s = (r1, s1)" by fastforce
  have s1: "tidy stored s1"
    using tidy_create [OF assms, of ?t "es 1" ?ns "Now (es 0) 1"] c by (simp add: settled_task_def settled_def)
  let ?s2 = "snd (p_AppendTaskHistory P (es 2) ?ns (tk_ID ?t) 0 (user_message (tp_Message q)) s1)"
  have s2: "tidy stored ?s2" by (rule tidy_cong [OF history_tasks s1])
  obtain evs s3 where k: "StartTaskExecution P x (after 3 es) agent gone ?t (tp_Message q) ?s2 = (evs, s3)" by fastforce
  have s3: "tidy stored s3" by (rule tidy_cong [OF _ s2]) (use StartTaskExecution_tasks k in \<open>metis snd_conv\<close>)
  have "\<forall>ev \<in> set evs. event_ok ev"
    using StartTaskExecution_ok [of ?t _ P x "after 3 es" agent gone "tp_Message q" ?s2] k by simp
  from event_loop_tidy [OF s3 this] s1 s2 assms show ?thesis
    unfolding handleTasksSendSubscribe_def Let_def Some option.case c
    by (auto simp: k [unfolded NewTask_simps] split: option.split prod.split) (metis snd_conv)
qed

lemma handleJSONRPC_tidy: "tidy stored s \<Longrightarrow> tidy stored (snd (handleJSONRPC P x es agent gone b s))"
  unfolding handleJSONRPC_def
  by (auto simp: handleTasksSend_tidy handleTasksCancel_tidy handleTasksSendSubscribe_tidy split_beta split: option.split)

lemma a2a_serve_tidy: "tidy stored s \<Longrightarrow> tidy stored (snd (snd (a2a_serve P x es gone out r a s)))"
  unfolding a2a_serve_def Middleware_def a2a_ServeHTTP_def
  by (auto simp: handleJSONRPC_tidy split_beta split: option.split)

end

section \<open>Any sequence of requests\<close>

fun a2a_run ::
  "'s provider \<Rightarrow> a2a_server \<Rightarrow> (envs \<times> (nat \<Rightarrow> bool) \<times> auth_env \<times> request) list \<Rightarrow> a2a_auth \<times> 's \<Rightarrow> a2a_auth \<times> 's" where
  "a2a_run P x [] st = st"
| "a2a_run P x ((es, gone, out, r) # reqs) st = a2a_run P x reqs (snd (a2a_serve P x es gone out r (fst st) (snd st)))"

context task_store begin

lemma a2a_run_tidy: "tidy stored (snd st) \<Longrightarrow> tidy stored (snd (a2a_run P x reqs st))"
proof (induction reqs arbitrary: st)
  case (Cons q reqs)
  obtain es gone out r where "q = (es, gone, out, r)" by (cases q) auto
  with Cons show ?case by (simp add: a2a_serve_tidy)
qed simp

end

text \<open>C13: However the requests of the A2A server follow each other, with any failures of
  the SQLite database and any interruptions of the streams, no task is ever stored as working, and
  only completed tasks are stored with their claim. So a task that can still be canceled has no
  claim: a cancellation never writes a release to the log.\<close>

theorem cancel_never_releases:
  assumes "a2a_run sqlite_provider x reqs (a, sq_New) = (a', s)"
  shows "(\<forall>t \<in> set (sq_tasks s). settled (t_State t) (t_ClaimID t)) \<and>
    sq_log (snd (handleTasksCancel sqlite_provider x es params s)) = sq_log s"
proof -
  have "tidy (\<lambda>s. set (sq_tasks s)) sq_New" by (simp add: tidy_def sq_New_def)
  then have "tidy (\<lambda>s. set (sq_tasks s)) s"
    using sq_task.a2a_run_tidy [of "(a, sq_New)" x reqs] assms by simp
  from sq_task.handleTasksCancel_log [OF this] this show ?thesis by (auto simp: tidy_def)
qed

definition sample_server :: a2a_server where
  "sample_server = \<lparr>x_cfg = None, x_client = ''n'', x_namespace = ''n'', x_flusher = True\<rparr>"

definition sample_auth :: a2a_auth where
  "sample_auth = \<lparr>xa_APIKey = ''k'', xa_BearerValidatorURL = [], xa_BearerJWKSURL = [], xa_jwks = None\<rparr>"

definition sample_outside :: auth_env where
  "sample_outside = \<lparr>ox_validator = \<lambda>_. None, ox_fetched = None, ox_now = \<lambda>_. 0,
     ox_jwt = \<lparr>jwt_header = \<lambda>_. None, jwt_verify = \<lambda>_ _. None\<rparr>\<rparr>"

text \<open>The body of a request that runs one skill as task \<open>t1\<close>.\<close>

definition send_params :: "(string \<times> json) list \<Rightarrow> json" where
  "send_params d = JObj [(''id'', JStr ''t1''), (''message'', JObj [(''role'', JStr ''user''),
     (''parts'', JArr [JObj [(''type'', JStr ''data''), (''data'', JObj d)]])])]"

definition send_body :: "(string \<times> json) list \<Rightarrow> json" where
  "send_body d = JObj [(''jsonrpc'', JStr ''2.0''), (''id'', JNum 1), (''method'', JStr ''tasks/send''),
     (''params'', send_params d)]"

lemma Unmarshal_obj: "Unmarshal fs r (Some (JObj kvs)) = decode_members fs kvs (r, True)"
  by (simp add: Unmarshal_def)

lemma decode_send_params:
  "decode task_params_fields zero_task_params (Some (send_params d)) =
     Some (zero_task_params\<lparr>tp_ID := ''t1'', tp_Message := \<lparr>am_Role = ''user'',
       am_Parts = Some [zero_part\<lparr>pt_Type := ''data'', pt_Data := Some (JObj d)\<rparr>], am_Metadata = None\<rparr>\<rparr>)"
proof -
  have part: "Unmarshal part_fields zero_part (Some (JObj [(''type'', JStr ''data''), (''data'', JObj d)])) =
      (zero_part\<lparr>pt_Type := ''data'', pt_Data := Some (JObj d)\<rparr>, True)"
    by (simp add: Unmarshal_def part_fields_def decode_members_exact string_field_JStr raw_field_json)
  have msg: "Unmarshal rpc_message_fields zero_rpc_message (Some (JObj [(''role'', JStr ''user''),
      (''parts'', JArr [JObj [(''type'', JStr ''data''), (''data'', JObj d)]])])) =
      (\<lparr>am_Role = ''user'', am_Parts = Some [zero_part\<lparr>pt_Type := ''data'', pt_Data := Some (JObj d)\<rparr>],
        am_Metadata = None\<rparr>, True)"
    by (subst Unmarshal_obj) (simp add: rpc_message_fields_def decode_members_exact string_field_JStr slice_field_def Unmarshal_slice_def Let_def part zero_rpc_message_def)
  show ?thesis
    by (simp add: send_params_def decode_obj task_params_fields_def decode_members_exact string_field_JStr
        struct_field_def msg)
qed

definition a2a_post :: "json \<Rightarrow> request" where
  "a2a_post b = \<lparr>hr_Method = ''POST'', hr_Path = ''/'',
     hr_Header = (\<lambda>h. if h = ''X-Api-Key'' then ''k'' else []), hr_Param = (\<lambda>_. []), hr_Body = Some b\<rparr>"

theorem cancel_never_releases_witness:
  "let s = snd (a2a_run sqlite_provider sample_server
       [(\<lambda>_. calm 5, \<lambda>_. False, sample_outside, a2a_post (send_body [(''skill_id'', JStr ''query_mailbox'')]))]
       (sample_auth, sq_New))
   in sq_log (snd (handleTasksCancel sqlite_provider sample_server (\<lambda>_. calm 6) (Some (JObj [(''id'', JStr ''t1'')])) s)) = sq_log s"
  unfolding Let_def
  by (rule cancel_never_releases [OF prod.collapse [symmetric], THEN conjunct2])

end
