(* ===== verification/A2AClaims.thy ===== *)
theory A2AClaims
  imports A2AFacts
begin

text \<open>
  Skills and the coordination log: what a task that claims a resource does, what is left of it when
  its stream is cut, the mailbox skill on a back end with unique message ids, and who is served.
\<close>

section \<open>Claiming through a task\<close>

definition parts_of :: "rpc_message \<Rightarrow> part list" where
  "parts_of m = (case am_Parts m of None \<Rightarrow> [] | Some ps \<Rightarrow> ps)"

text \<open>The claim request of a skill call, for the agent that authentication found if none is named.\<close>

definition skill_request :: "string \<Rightarrow> skill_params \<Rightarrow> claim_request" where
  "skill_request agent p = mapToClaimRequest (if sk_AgentID p = [] then p\<lparr>sk_AgentID := agent\<rparr> else p)"

text \<open>The claim skill on the in-memory back end.\<close>

lemma claim_skill_memory:
  assumes "extractParams (parts_of m) = Inr p" "sk_SkillID p = ''claim_resource''" "mem_ok s"
    and "c = request_claim (default_ttl (skill_request agent p)) (Now (es 1) 0) (Now (es 1) 1)"
    and "active = FilterActiveClaims (Now (es 0) 0) (mem_log s (x_client x))"
    and "executeSkill memory_provider x es agent m t s = ((err, t'), s')"
  shows "if \<exists>a \<in> set active. blocks a c
    then err \<noteq> None \<and> s' = s \<and> tk_ClaimID t' = tk_ClaimID t
    else err = None \<and> tk_ClaimID t' = c_ClaimID c \<and> tk_Artifacts t' \<noteq> [] \<and> s' = snd (mem_Append (es 2) (x_client x)
      [new_message MsgClaim (rq_AgentID (skill_request agent p)) (claim_json c)] s)"
proof -
  let ?p = "if sk_AgentID p = [] then p\<lparr>sk_AgentID := agent\<rparr> else p"
  have run: "executeSkill memory_provider x es agent m t s = skillClaimResource memory_provider x es ?p t s"
    using assms(1,2) by (simp add: executeSkill_def parts_of_def Let_def)
  note cl = client_Claim_memory [OF assms(3), of "x_client x" es "skill_request agent p", folded assms(4,5), unfolded Let_def]
  show ?thesis
  proof (cases "\<exists>a \<in> set active. blocks a c")
    case True
    with assms(6) show ?thesis
      unfolding run skillClaimResource_def skill_request_def [symmetric] cl if_P [OF True]
      by (auto simp: Let_def)
  next
    case False
    with assms(6) show ?thesis
      unfolding run skillClaimResource_def skill_request_def [symmetric] cl if_not_P [OF False]
      by (auto simp: Let_def)
  qed
qed

lemma mem_ok_cong: "mem_messages s' = mem_messages s \<Longrightarrow> mem_offsets s' = mem_offsets s \<Longrightarrow> mem_ok s' = mem_ok s"
  by (simp add: mem_ok_def mem_log_def)

lemma store_artifacts_memory:
  "\<exists>f. store_artifacts memory_provider ns es i as s = (None, s\<lparr>mem_artifacts := f\<rparr>)"
proof (induction as arbitrary: es s)
  case Nil
  show ?case by (intro exI [of _ "mem_artifacts s"]) simp
next
  case (Cons a as)
  obtain g where g: "mem_CreateArtifact (es 0) ns i (stored_artifact a) s = (None, s\<lparr>mem_artifacts := g\<rparr>)"
    by (auto simp: mem_CreateArtifact_def Let_def)
  obtain f where "store_artifacts memory_provider ns (after 1 es) i as (s\<lparr>mem_artifacts := g\<rparr>)
      = (None, s\<lparr>mem_artifacts := g\<rparr>\<lparr>mem_artifacts := f\<rparr>)"
    using Cons.IH by blast
  with g show ?case by (intro exI [of _ f]) simp
qed

lemma mem_log_artifacts: "mem_log (s\<lparr>mem_artifacts := f\<rparr>) = mem_log s"
  by (simp add: mem_log_def fun_eq_iff)

lemma mem_UpdateTask_stored:
  assumes "t_ID t = i" "mem_tasks s (task_key ns i) \<noteq> None"
  shows "mem_tasks (snd (mem_UpdateTask e ns t s)) (task_key ns i) = Some t"
    and "mem_log (snd (mem_UpdateTask e ns t s)) = mem_log s"
  using assms by (auto simp: mem_UpdateTask_def Let_def mem_log_def fun_eq_iff)

text \<open>The beginning of a task request: the new task is stored, and so is its first message.\<close>

lemma task_submitted:
  assumes "mem_tasks s (task_key ns (t_ID tk)) = None"
  obtains s2 where "mem_CreateTask e ns tk s = (None, s\<lparr>mem_tasks := (mem_tasks s)(task_key ns (t_ID tk) \<mapsto> tk)\<rparr>)"
    "mem_AppendTaskHistory e' ns (t_ID tk) k m (s\<lparr>mem_tasks := (mem_tasks s)(task_key ns (t_ID tk) \<mapsto> tk)\<rparr>) = (None, s2)"
    "mem_log s2 = mem_log s" "mem_ok s2 = mem_ok s" "mem_tasks s2 = (mem_tasks s)(task_key ns (t_ID tk) \<mapsto> tk)"
    "mem_offsets s2 = mem_offsets s"
proof -
  let ?s1 = "s\<lparr>mem_tasks := (mem_tasks s)(task_key ns (t_ID tk) \<mapsto> tk)\<rparr>"
  have created: "mem_CreateTask e ns tk s = (None, ?s1)" using assms by (simp add: mem_CreateTask_def Let_def)
  obtain s2 where h: "mem_AppendTaskHistory e' ns (t_ID tk) k m ?s1 = (None, s2)"
    by (simp add: mem_AppendTaskHistory_def Let_def)
  then have s2: "mem_messages s2 = mem_messages s" "mem_offsets s2 = mem_offsets s"
      "mem_tasks s2 = (mem_tasks s)(task_key ns (t_ID tk) \<mapsto> tk)"
    by (auto simp: mem_AppendTaskHistory_def Let_def)
  then have "mem_log s2 = mem_log s" by (simp add: mem_log_def [abs_def])
  with that [OF created h] mem_ok_cong [OF s2(1,2)] s2(2,3) show thesis by simp
qed


text \<open>The parameters of a claim by carol, on the store where bob holds the resource.\<close>

definition carol_claim :: "(string \<times> json) list" where
  "carol_claim = [(''skill_id'', JStr ''claim_resource''), (''resource_uri'', JStr ''file://a.go''),
     (''operation'', JStr OpWrite), (''agent_id'', JStr ''carol'')]"

lemma extract_carol_claim:
  "extractParams [zero_part\<lparr>pt_Type := ''data'', pt_Data := Some (JObj carol_claim)\<rparr>] =
     Inr (zero_skill\<lparr>sk_SkillID := ''claim_resource'', sk_ResourceURI := ''file://a.go'',
       sk_Operation := OpWrite, sk_AgentID := ''carol''\<rparr>)"
  by (simp add: carol_claim_def decode_obj skill_fields_def decode_members_exact string_field_JStr)


section \<open>Streams that are cut\<close>



section \<open>The mailbox skill on SQLite\<close>

text \<open>The mailbox skill sends its message without an id. On the SQLite back end, where
  the id is the primary key of the table, the skill therefore succeeds once: after that, whoever
  calls it again, to whomever and in whatever namespace, gets an error and nothing is stored.\<close>

theorem second_mail_fails:
  assumes "extractParams (parts_of m) = Inr p" "sk_SkillID p = ''send_mailbox''"
    and "extractParams (parts_of m') = Inr p'" "sk_SkillID p' = ''send_mailbox''"
    and "executeSkill sqlite_provider x es agent m t s = ((None, t1), s1)"
    and "set (sq_mailbox s1) \<subseteq> set (sq_mailbox s2)"
    and "executeSkill sqlite_provider x' es' agent' m' t' s2 = ((err, t2), s3)"
  shows "err \<noteq> None \<and> s3 = s2"
proof -
  have run: "executeSkill sqlite_provider x es agent m t s = skillSendMailbox sqlite_provider x es
      (if sk_AgentID p = [] then p\<lparr>sk_AgentID := agent\<rparr> else p) t s"
    if "extractParams (parts_of m) = Inr p" "sk_SkillID p = ''send_mailbox''" for x es agent m t s p
    using that by (simp add: executeSkill_def parts_of_def Let_def)
  have no_id: "mb_MessageID (fill_times now ((mapToMailboxMessage q)\<lparr>mb_From := a\<rparr>)) = []" for now q a
    by (simp add: fill_times_def mapToMailboxMessage_def Let_def)
  have "[] \<in> (\<lambda>b. mb_MessageID (b_Message b)) ` set (sq_mailbox s1)"
    using assms(5) unfolding run [OF assms(1,2)]
    by (auto simp: skillSendMailbox_def Let_def sq_SendMessage_def insert_row_def no_id split: prod.splits option.splits if_splits)
  with assms(6) have taken: "[] \<in> (\<lambda>b. mb_MessageID (b_Message b)) ` set (sq_mailbox s2)" by blast
  have fails: "sq_SendMessage e ns ((mapToMailboxMessage q)\<lparr>mb_From := a\<rparr>) s2 = (Some er, s2)
      \<or> (\<exists>er. sq_SendMessage e ns ((mapToMailboxMessage q)\<lparr>mb_From := a\<rparr>) s2 = (Some er, s2))" for e ns q a er
    using taken by (cases "Fault e 0") (auto simp: sq_SendMessage_def insert_row_def no_id exec_def)
  obtain er where "sq_SendMessage (es' 0) (x_namespace x')
      ((mapToMailboxMessage (if sk_AgentID p' = [] then p'\<lparr>sk_AgentID := agent'\<rparr> else p'))
        \<lparr>mb_From := sk_AgentID (if sk_AgentID p' = [] then p'\<lparr>sk_AgentID := agent'\<rparr> else p')\<rparr>) s2 = (Some er, s2)"
    using fails by blast
  then show ?thesis
    using assms(7) unfolding run [OF assms(3,4)] by (auto simp: skillSendMailbox_def Let_def)
qed

definition mail_message :: "string \<Rightarrow> rpc_message" where
  "mail_message content = \<lparr>am_Role = ''user'', am_Parts = Some [zero_part\<lparr>pt_Type := ''data'',
     pt_Data := Some (JObj [(''skill_id'', JStr ''send_mailbox''), (''to'', JStr ''bob''),
       (''type'', JStr ''note''), (''content'', JStr content)])\<rparr>], am_Metadata = None\<rparr>"

lemma extract_mail:
  "extractParams (parts_of (mail_message content)) = Inr (zero_skill\<lparr>sk_SkillID := ''send_mailbox'',
     sk_To := ''bob'', sk_MsgType := ''note'', sk_Content := content\<rparr>)"
  by (simp add: mail_message_def parts_of_def decode_obj skill_fields_def decode_members_exact string_field_JStr)

theorem second_mail_fails_witness:
  "let s1 = snd (executeSkill sqlite_provider sample_server (\<lambda>_. calm 5) ''alice'' (mail_message ''hi'') (NewTask 5 ''t1'' [] ''n'') sq_New)
   in fst (fst (executeSkill sqlite_provider sample_server (\<lambda>_. calm 6) ''carol'' (mail_message ''hello'') (NewTask 6 ''t2'' [] ''n'') s1)) \<noteq> None"
proof -
  let ?r = "executeSkill sqlite_provider sample_server (\<lambda>_. calm 5) ''alice'' (mail_message ''hi'') (NewTask 5 ''t1'' [] ''n'') sq_New"
  let ?q = "executeSkill sqlite_provider sample_server (\<lambda>_. calm 6) ''carol'' (mail_message ''hello'') (NewTask 6 ''t2'' [] ''n'') (snd ?r)"
  have "fst (fst ?r) = None"
    using extract_mail by (simp add: executeSkill_def parts_of_def Let_def skillSendMailbox_def sq_SendMessage_def
        insert_row_def sq_New_def committed_def split: option.split)
  then have r: "?r = ((None, snd (fst ?r)), snd ?r)" by (metis prod.collapse)
  have q: "?q = ((fst (fst ?q), snd (fst ?q)), snd ?q)" by simp
  from second_mail_fails [OF extract_mail _ extract_mail _ r subset_refl q] show ?thesis by (simp add: Let_def)
qed

section \<open>Who is served\<close>

text \<open>A key that a request may be checked against: fetched now, or in the key set and not expired.\<close>

definition trusted_key :: "auth_env \<Rightarrow> a2a_auth \<Rightarrow> string \<Rightarrow> public_key \<Rightarrow> bool" where
  "trusted_key out a kid key \<longleftrightarrow>
     (\<exists>c. xa_jwks a = Some c \<and> kc_keys c kid = Some key \<and>
        (ox_now out 0 < kc_expiresAt c \<or> ox_now out 1 < kc_expiresAt c)) \<or>
     (\<exists>b ks k. ox_fetched out = Some (200, b) \<and> decode_jwks b = Some ks \<and> k \<in> set ks \<and>
        jwk_Kid k = kid \<and> parseJWK k = Some key)"

lemma key_loop_Some:
  "key_loop ks m kid = Some key \<Longrightarrow> m kid = Some key \<or> (\<exists>k \<in> set ks. jwk_Kid k = kid \<and> parseJWK k = Some key)"
proof (induction ks arbitrary: m)
  case (Cons k ks)
  from Cons.IH Cons.prems show ?case by (fastforce split: option.splits if_splits)
qed simp

lemma getKey_trusted:
  assumes "getKey (ox_fetched out) (ox_now out) kid (case xa_jwks a of None \<Rightarrow> newJWKSCache | Some c \<Rightarrow> c) = (Some key, c')"
  shows "trusted_key out a kid key"
proof -
  let ?c = "case xa_jwks a of None \<Rightarrow> newJWKSCache | Some c \<Rightarrow> c"
  consider (cached) "kc_keys ?c kid = Some key" "ox_now out 0 < kc_expiresAt ?c \<or> ox_now out 1 < kc_expiresAt ?c"
    | (fetched) c'' where "fetch (ox_fetched out) (ox_now out 2) ?c = (True, c'')" "kc_keys c'' kid = Some key"
    using assms by (auto simp: getKey_def Let_def split: option.splits if_splits prod.splits bool.splits)
  then show ?thesis
  proof cases
    case cached
    then show ?thesis by (cases "xa_jwks a") (auto simp: trusted_key_def newJWKSCache_def)
  next
    case fetched
    then obtain b ks where "ox_fetched out = Some (200, b)" "decode_jwks b = Some ks" "c'' = \<lparr>kc_keys = key_loop ks Map.empty,
        kc_expiresAt = ox_now out 2 + seconds 300\<rparr>"
      by (auto simp: fetch_def split: option.splits prod.splits if_splits)
    with fetched(2) key_loop_Some [of ks Map.empty kid key] show ?thesis by (auto simp: trusted_key_def)
  qed
qed

text \<open>C15: A request that the A2A server does not answer with 401, or that changes the store, either
  carries the configured API key; or a bearer token that the configured validator confirmed; or, if
  no validator is configured, a token with an accepted algorithm that verifies under a key which is
  named in the token and comes from the key set, fetched now or at most until its expiry.\<close>

theorem a2a_auth:
  assumes "a2a_serve P x es gone out r a s = (w, a', s')"
    and "w_Status w \<noteq> 401 \<or> s' \<noteq> s"
  shows "(xa_APIKey a \<noteq> [] \<and> hr_Header r ''X-Api-Key'' = xa_APIKey a) \<or>
    (\<exists>token. hr_Header r ''Authorization'' = ''Bearer '' @ token \<and>
      (if xa_BearerValidatorURL a \<noteq> [] then validateExternalBearer (ox_validator out) token \<noteq> None
       else xa_BearerJWKSURL a \<noteq> [] \<and>
         (\<exists>alg kid key. jwt_header (ox_jwt out) token = Some (alg, Some kid) \<and> alg \<in> set valid_methods \<and>
            trusted_key out a kid key \<and> jwt_verify (ox_jwt out) key token \<noteq> None)))"
proof -
  obtain agent a'' where auth: "CheckAuth out r a = (Some agent, a'')"
  proof -
    obtain v a'' where v: "CheckAuth out r a = (v, a'')" by fastforce
    then show thesis
    proof (cases v)
      case None
      with assms v show thesis by (auto simp: a2a_serve_def Middleware_def unauthorized_def)
    qed (use v that in blast)
  qed
  show ?thesis
  proof (cases "xa_APIKey a \<noteq> [] \<and> hr_Header r ''X-Api-Key'' = xa_APIKey a")
    case False
    let ?h = "hr_Header r ''Authorization''"
    have pre: "HasPrefix ?h ''Bearer ''"
      using auth False unfolding CheckAuth_def Let_def by (auto split: if_splits)
    then obtain token where token: "?h = ''Bearer '' @ token" unfolding HasPrefix_iff by blast
    then have trim: "TrimPrefix ?h ''Bearer '' = token" by (simp only: TrimPrefix_append)
    have "if xa_BearerValidatorURL a \<noteq> [] then validateExternalBearer (ox_validator out) token \<noteq> None
       else xa_BearerJWKSURL a \<noteq> [] \<and>
         (\<exists>alg kid key. jwt_header (ox_jwt out) token = Some (alg, Some kid) \<and> alg \<in> set valid_methods \<and>
            trusted_key out a kid key \<and> jwt_verify (ox_jwt out) key token \<noteq> None)"
    proof (cases "xa_BearerValidatorURL a = []")
      case False
      with auth \<open>\<not> (xa_APIKey a \<noteq> [] \<and> _)\<close> pre show ?thesis
        unfolding CheckAuth_def Let_def trim by simp
    next
      case True
      with auth False pre have url: "xa_BearerJWKSURL a \<noteq> []"
        unfolding CheckAuth_def Let_def trim by (auto split: if_splits)
      let ?c = "case xa_jwks a of None \<Rightarrow> newJWKSCache | Some c \<Rightarrow> c"
      have "fst (validateJWTBearer (ox_jwt out) (ox_fetched out) (ox_now out) token ?c) = Some agent"
        using auth False pre True url unfolding CheckAuth_def Let_def trim by (simp split: prod.splits)
      then obtain alg kid key c' where "jwt_header (ox_jwt out) token = Some (alg, Some kid)" "alg \<in> set valid_methods"
        and key: "getKey (ox_fetched out) (ox_now out) kid ?c = (Some key, c')" "jwt_verify (ox_jwt out) key token = Some agent"
        by (auto simp: validateJWTBearer_def split: option.splits prod.splits if_splits)
      with getKey_trusted [OF key(1)] True url show ?thesis by auto
    qed
    with token show ?thesis by blast
  qed blast
qed

theorem a2a_auth_witness:
  "w_Status (fst (a2a_serve memory_provider sample_server (\<lambda>_. calm 5) (\<lambda>_. False) sample_outside
     (a2a_post JNull) sample_auth mem_New)) \<noteq> 401 \<and>
   hr_Header (a2a_post JNull) ''X-Api-Key'' = xa_APIKey sample_auth"
proof -
  let ?r = "a2a_serve memory_provider sample_server (\<lambda>_. calm 5) (\<lambda>_. False) sample_outside (a2a_post JNull) sample_auth mem_New"
  have r: "?r = (fst ?r, fst (snd ?r), snd (snd ?r))" by simp
  have st: "w_Status (fst ?r) \<noteq> 401"
    by (simp add: a2a_serve_def Middleware_def CheckAuth_def a2a_post_def sample_auth_def a2a_ServeHTTP_def
        handleJSONRPC_def decode_def Unmarshal_def zero_rpc_request_def writeError_def)
  from a2a_auth [OF r disjI1 [OF st]] have "hr_Header (a2a_post JNull) ''X-Api-Key'' = xa_APIKey sample_auth"
    by (auto simp: a2a_post_def sample_auth_def)
  with st show ?thesis by blast
qed

text \<open>The URL of the card is not served.\<close>

lemma card_url_not_served:
  "ac_URL (GenerateAgentCard (Some cfg) v) = ''http://'' @ a2c_Addr cfg @ ''/a2a''"
  "hr_Path r = ''/a2a'' \<Longrightarrow> a2a_ServeHTTP P x es agent gone r s = (reply 404 NoBody, s)"
  by (simp_all add: GenerateAgentCard_def a2a_ServeHTTP_def)

end
