(* ===== verification/A2ARoundTrip.thy ===== *)
theory A2ARoundTrip
  imports A2AFacts
begin

text \<open>
  What is written to the store comes back: messages and parts through their JSON, tasks through
  \<open>taskToStorage\<close> and \<open>storageToTask\<close>, artifacts through the tables of the back ends.
\<close>

section \<open>Members that may be left out\<close>

lemma decode_omit_empty_end:
  assumes "map_of fs k = Some (string_field upd)" and "s = [] \<Longrightarrow> upd (\<lambda>_. s) r = r"
  shows "decode_members fs (omit_empty k s) (r, ok) = (upd (\<lambda>_. s) r, ok)"
  using decode_omit_empty [OF assms, of "[]"] by simp

lemma decode_omit_raw:
  assumes "map_of fs k = Some f"
  shows "decode_members fs (omit_raw k v @ kvs) (r, ok) = (case v of
      None \<Rightarrow> decode_members fs kvs (r, ok)
    | Some j \<Rightarrow> (case f j r of (r', ok') \<Rightarrow> decode_members fs kvs (r', ok \<and> ok')))"
  by (cases v) (simp_all add: omit_raw_def decode_members_exact [OF assms])

text \<open>A map as the decoder leaves it: an object with sorted names, not empty where \<open>omitempty\<close> drops it.\<close>

definition map_value :: "raw \<Rightarrow> bool" where
  "map_value r = (case r of None \<Rightarrow> True | Some (JObj kvs) \<Rightarrow> canon (JObj kvs) = JObj kvs | Some _ \<Rightarrow> False)"

lemma map_value_Some: "map_value (Some v) \<Longrightarrow> \<exists>kvs. v = JObj kvs \<and> canon v = v"
  by (auto simp: map_value_def split: json.splits)

section \<open>Parts and messages\<close>

lemma Unmarshal_file: "Unmarshal file_fields zero_file (Some (file_json f)) = (f, True)"
  by (simp add: file_json_def Unmarshal_obj file_fields_def decode_omit_empty decode_omit_empty_end zero_file_def)

lemma part_fields_map:
  "map_of part_fields ''type'' = Some (string_field pt_Type_update)"
  "map_of part_fields ''text'' = Some (string_field pt_Text_update)"
  "map_of part_fields ''file'' = Some (pointer_field file_fields zero_file pt_File_update)"
  "map_of part_fields ''data'' = Some (raw_field pt_Data_update)"
  by (simp_all add: part_fields_def)

lemma pointer_field_file:
  "pointer_field file_fields zero_file pt_File_update (file_json f) q = (q\<lparr>pt_File := Some f\<rparr>, True)"
proof -
  obtain kvs where "file_json f = JObj kvs" by (simp add: file_json_def)
  then show ?thesis
    using Unmarshal_file [of f] by (simp add: pointer_field_def Unmarshal_pointer_def)
qed

lemma Unmarshal_part: "Unmarshal part_fields zero_part (Some (part_json p)) = (p, True)"
proof -
  have end_data: "decode_members part_fields (omit_raw ''data'' d) (q, ok) = (q\<lparr>pt_Data := d\<rparr>, ok)"
    if "pt_Data q = None" for d q ok
    using that decode_omit_raw [OF part_fields_map(4), of d "[]" q ok]
    by (cases d) (simp_all add: raw_field_json)
  have members: "decode_members part_fields (omit_raw ''file'' (map_option file_json f) @ kvs) (q, ok) =
      decode_members part_fields kvs (q\<lparr>pt_File := f\<rparr>, ok)" if "pt_File q = None" for f q ok kvs
    using that decode_omit_raw [OF part_fields_map(3), of "map_option file_json f" kvs q ok]
    by (cases q; cases f) (simp_all add: pointer_field_file)
  have "decode_members part_fields ([(''type'', JStr (pt_Type p))] @ omit_empty ''text'' (pt_Text p)
     @ omit_raw ''file'' (map_option file_json (pt_File p)) @ omit_raw ''data'' (pt_Data p)) (zero_part, True) =
     (zero_part\<lparr>pt_Type := pt_Type p, pt_Text := pt_Text p, pt_File := pt_File p, pt_Data := pt_Data p\<rparr>, True)"
    by (simp add: decode_members_exact [OF part_fields_map(1)] string_field_JStr
        decode_omit_empty [OF part_fields_map(2)] members end_data zero_part_def)
  then show ?thesis by (simp add: part_json_def Unmarshal_obj zero_part_def)
qed

lemma Unmarshal_parts: "Unmarshal_slice part_fields zero_part (Some (nil_json part_json ps)) = (ps, True)"
  by (cases ps) (simp_all add: Unmarshal_slice_def nil_json_def Unmarshal_part Let_def list_all_iff comp_def)

definition message_ok :: "rpc_message \<Rightarrow> bool" where
  "message_ok m \<longleftrightarrow> map_value (am_Metadata m) \<and> am_Metadata m \<noteq> Some (JObj [])"

lemma Unmarshal_message:
  assumes "message_ok m"
  shows "Unmarshal rpc_message_fields zero_rpc_message (Some (rpc_message_json m)) = (m, True)"
proof -
  have parts: "slice_field part_fields zero_part am_Parts_update (nil_json part_json ps) q = (q\<lparr>am_Parts := ps\<rparr>, True)" for ps q
    by (simp add: slice_field_def Unmarshal_parts)
  have md: "omit_map ''metadata'' (am_Metadata m) = omit_raw ''metadata'' (am_Metadata m)"
    using assms by (simp add: omit_map_def message_ok_def)
  have map: "map_field am_Metadata_update v q = (q\<lparr>am_Metadata := Some v\<rparr>, True)" if "am_Metadata m = Some v" for v q
    using assms map_value_Some [of v] that by (auto simp: message_ok_def map_field_def)
  have "decode_members rpc_message_fields (omit_raw ''metadata'' (am_Metadata m)) (q, ok) = (q\<lparr>am_Metadata := am_Metadata m\<rparr>, ok)"
    if "am_Metadata q = None" for q ok
  proof (cases "am_Metadata m")
    case None
    with that show ?thesis by (simp add: omit_raw_def)
  next
    case (Some v)
    have "map_of rpc_message_fields ''metadata'' = Some (map_field am_Metadata_update)" by (simp add: rpc_message_fields_def)
    from decode_omit_raw [OF this, of "Some v" "[]" q ok] map [OF Some, of q] show ?thesis by (simp add: Some)
  qed
  then show ?thesis
    by (simp add: rpc_message_json_def Unmarshal_obj md decode_members_exact rpc_message_fields_def string_field_JStr parts
        zero_rpc_message_def)
qed

section \<open>Tasks\<close>

text \<open>A task read back from its stored form is the task that was stored, with its state,
  status message, time, claim and metadata, less its history and artifacts, which have tables of
  their own.\<close>

theorem task_roundtrip:
  assumes "case st_Message (tk_Status t) of None \<Rightarrow> True | Some m \<Rightarrow> message_ok m" and "map_value (tk_Metadata t)"
  shows "storageToTask (taskToStorage now t) = t\<lparr>tk_History := [], tk_Artifacts := []\<rparr>"
proof -
  have "fst (Unmarshal_pointer rpc_message_fields zero_rpc_message
      (Some (case st_Message (tk_Status t) of None \<Rightarrow> JNull | Some m \<Rightarrow> rpc_message_json m))) = st_Message (tk_Status t)"
  proof (cases "st_Message (tk_Status t)")
    case None
    then show ?thesis by (simp add: Unmarshal_pointer_def)
  next
    case (Some m)
    obtain kvs where "rpc_message_json m = JObj kvs" by (simp add: rpc_message_json_def)
    with Some Unmarshal_message [of m] assms(1) show ?thesis by (simp add: Unmarshal_pointer_def)
  qed
  moreover have "(case raw_json (tk_Metadata t) of JObj kvs \<Rightarrow> Some (canon (JObj kvs)) | _ \<Rightarrow> None) = tk_Metadata t"
  proof (cases "tk_Metadata t")
    case (Some v)
    with assms(2) map_value_Some [of v] show ?thesis by (auto simp: raw_json_def)
  qed (simp add: raw_json_def)
  ultimately show ?thesis by (simp add: storageToTask_def taskToStorage_def)
qed

theorem task_roundtrip_witness:
  "storageToTask (taskToStorage 9 (snd (Transition 5 TaskWorking (NewTask 1 ''t1'' ''s'' ''n'')))) =
     snd (Transition 5 TaskWorking (NewTask 1 ''t1'' ''s'' ''n''))"
proof -
  let ?t = "snd (Transition 5 TaskWorking (NewTask 1 ''t1'' ''s'' ''n''))"
  have t: "?t = (NewTask 1 ''t1'' ''s'' ''n'')\<lparr>tk_Status := \<lparr>st_State = TaskWorking, st_Message = None, st_Timestamp = 5\<rparr>\<rparr>"
    by (simp add: Transition_start) (simp add: NewTask_def)
  have "case st_Message (tk_Status ?t) of None \<Rightarrow> True | Some m \<Rightarrow> message_ok m" "map_value (tk_Metadata ?t)"
    unfolding t by (simp_all add: NewTask_def map_value_def)
  from task_roundtrip [OF this, of 9] show ?thesis unfolding t by (simp add: NewTask_def)
qed

end
