(* ===== verification/PostgresProvider.thy ===== *)
theory PostgresProvider
  imports SqliteProvider
begin

text \<open>
  The PostgreSQL back end, \<open>internal/postgres/postgres.go\<close>. The tables have the columns of the SQLite
  ones, so their rows are those of theory \<open>SqliteProvider\<close>, and a statement whose text is the same is
  the same function on the tables. What differs is written out: offsets come from one sequence for
  all namespaces, which is not rolled back; payloads are \<open>JSONB\<close> values; \<open>TIMESTAMPTZ\<close> columns hold
  microseconds; \<open>INTEGER\<close> columns hold 32 bits. Text is taken to be free of NUL characters, which
  PostgreSQL refuses, and is compared bytewise.
\<close>

section \<open>Values of the columns\<close>

text \<open>\<open>JSONB\<close> keeps the last member of each name, in the order of the length and the bytes of the names.\<close>

fun jsonb :: "json \<Rightarrow> json" where
  "jsonb (JArr vs) = JArr (map jsonb vs)"
| "jsonb (JObj kvs) =
     JObj (sort_key (\<lambda>kv. (length (fst kv), fst kv)) (keep_last (map (\<lambda>(k, v). (k, jsonb v)) kvs)))"
| "jsonb v = v"

text \<open>The empty string is not JSON.\<close>

definition jsonb_value :: "raw \<Rightarrow> error + raw" where
  "jsonb_value p = (case p of
     None \<Rightarrow> Inl (ExternalError ''invalid input syntax for type json'') | Some j \<Rightarrow> Inr (Some (jsonb j)))"

text \<open>The nearest microsecond, ties to the even one.\<close>

definition micros :: "time \<Rightarrow> time" where
  "micros t =
     (let q = t div 1000; r = t mod 1000
      in (if r < 500 \<or> r = 500 \<and> even q then q else q + 1) * 1000)"

definition integer_column :: "int \<Rightarrow> error + int" where
  "integer_column n =
     (if - (2 ^ 31) \<le> n \<and> n < 2 ^ 31 then Inr n else Inl (ExternalError ''integer out of range''))"

section \<open>The database\<close>

text \<open>The tables, and the next value of the sequence of offsets.\<close>

record postgres =
  pg_tables :: sqlite
  pg_next :: int

definition pg_New :: postgres where
  "pg_New = \<lparr>pg_tables = sq_New, pg_next = 1\<rparr>"

definition on_tables :: "(sqlite \<Rightarrow> error option \<times> sqlite) \<Rightarrow> postgres \<Rightarrow> error option \<times> postgres" where
  "on_tables f s = (case f (pg_tables s) of (r, t) \<Rightarrow> (r, s\<lparr>pg_tables := t\<rparr>))"

section \<open>Namespaces and audit\<close>

definition pg_CreateNamespace :: "env \<Rightarrow> namespace \<Rightarrow> postgres \<Rightarrow> error option \<times> postgres" where
  "pg_CreateNamespace e ns = on_tables (\<lambda>t. committed t (exec (Fault e 0) (Inr
     (if ns_ID ns \<in> ns_ID ` set (sq_namespaces t) then t
      else t\<lparr>sq_namespaces := sq_namespaces t @ [ns\<lparr>ns_CreatedAt := micros (ns_CreatedAt ns)\<rparr>]\<rparr>))))"

definition pg_AppendAudit :: "env \<Rightarrow> string \<Rightarrow> audit_event list \<Rightarrow> postgres \<Rightarrow> error option \<times> postgres" where
  "pg_AppendAudit e namespaceID events = on_tables
     (sq_AppendAudit e namespaceID (map (\<lambda>ev. ev\<lparr>ae_Timestamp := micros (ae_Timestamp ev)\<rparr>) events))"

text \<open>Seven statements without a transaction: the first failing one ends the call.\<close>

definition delete_statements :: "string \<Rightarrow> (sqlite \<Rightarrow> sqlite) list" where
  "delete_statements ns =
     [\<lambda>t. t\<lparr>sq_history := filter (\<lambda>y. y_TaskID y \<notin> task_ids ns t) (sq_history t)\<rparr>,
      \<lambda>t. t\<lparr>sq_artifacts := filter (\<lambda>x. x_TaskID x \<notin> task_ids ns t) (sq_artifacts t)\<rparr>,
      \<lambda>t. t\<lparr>sq_tasks := filter (\<lambda>x. t_Namespace x \<noteq> ns) (sq_tasks t)\<rparr>,
      \<lambda>t. t\<lparr>sq_messages := filter (\<lambda>r. r_Namespace r \<noteq> ns) (sq_messages t)\<rparr>,
      \<lambda>t. t\<lparr>sq_mailbox := filter (\<lambda>b. b_Namespace b \<noteq> ns) (sq_mailbox t)\<rparr>,
      \<lambda>t. t\<lparr>sq_audit := filter (\<lambda>a. ae_Namespace a \<noteq> ns) (sq_audit t)\<rparr>,
      \<lambda>t. t\<lparr>sq_namespaces := filter (\<lambda>n. ns_ID n \<noteq> ns) (sq_namespaces t)\<rparr>]"

fun run_statements :: "env \<Rightarrow> nat \<Rightarrow> (sqlite \<Rightarrow> sqlite) list \<Rightarrow> sqlite \<Rightarrow> error option \<times> sqlite" where
  "run_statements e i [] t = (None, t)"
| "run_statements e i (f # fs) t =
     (case Fault e i of Some err \<Rightarrow> (Some err, t) | None \<Rightarrow> run_statements e (Suc i) fs (f t))"

definition pg_DeleteNamespace :: "env \<Rightarrow> string \<Rightarrow> postgres \<Rightarrow> error option \<times> postgres" where
  "pg_DeleteNamespace e ns = on_tables (run_statements e 0 (delete_statements ns))"

section \<open>The message log\<close>

text \<open>
  A transaction of \<open>Append\<close>: it reads the next sequence number, inserts its rows, which nobody else
  sees, and commits. \<open>Tie e i\<close> is how many values of the offset sequence other sessions have taken
  before the i-th insert.
\<close>

definition tx_read :: "env \<Rightarrow> string \<Rightarrow> postgres \<Rightarrow> error + int" where
  "tx_read e ns s =
     bindE (exec (Fault e 0) (Inr ())) (\<lambda>_.
       exec (Fault e 1) (Inr (next_number (List.map_filter r_Seq (rows_of ns (pg_tables s))))))"

definition pg_row :: "env \<Rightarrow> string \<Rightarrow> nat \<Rightarrow> int \<Rightarrow> int \<Rightarrow> message \<Rightarrow> raw \<Rightarrow> message_row" where
  "pg_row e ns i off seq m p = \<lparr>r_Namespace = ns, r_Offset = off, r_Type = m_Type m,
     r_AgentID = m_AgentID m, r_Payload = p,
     r_Timestamp = micros (if m_Timestamp m = 0 then Now e i else m_Timestamp m), r_Seq = Some seq\<rparr>"

fun tx_insert ::
  "env \<Rightarrow> string \<Rightarrow> nat \<Rightarrow> int \<Rightarrow> message list \<Rightarrow> int \<Rightarrow> (error + message_row list) \<times> int" where
  "tx_insert e ns i nextSeq [] offset = (Inr [], offset)"
| "tx_insert e ns i nextSeq (m # msgs) offset =
     (case exec (Fault e (2 + i)) (jsonb_value (m_Payload m)) of
        Inl err \<Rightarrow> (Inl err, offset)
      | Inr p \<Rightarrow>
          let off = offset + int (Tie e i)
          in (case tx_insert e ns (Suc i) (nextSeq + 1) msgs (off + 1) of
                (Inl err, next) \<Rightarrow> (Inl err, next)
              | (Inr rows, next) \<Rightarrow> (Inr (pg_row e ns i off nextSeq m p # rows), next)))"

definition tx_commit :: "error option \<Rightarrow> message_row list \<Rightarrow> postgres \<Rightarrow> error option \<times> postgres" where
  "tx_commit fault rows = on_tables (\<lambda>t. committed t (exec fault
     (Inr (t\<lparr>sq_messages := sq_messages t @ rows\<rparr>))))"

definition pg_Append :: "env \<Rightarrow> string \<Rightarrow> message list \<Rightarrow> postgres \<Rightarrow> error option \<times> postgres" where
  "pg_Append e ns msgs s =
     (case tx_read e ns s of
        Inl err \<Rightarrow> (Some err, s)
      | Inr nextSeq \<Rightarrow>
          (case tx_insert e ns 0 nextSeq msgs (pg_next s) of
             (Inl err, next) \<Rightarrow> (Some err, s\<lparr>pg_next := next\<rparr>)
           | (Inr rows, next) \<Rightarrow> tx_commit (Fault e (2 + length msgs)) rows (s\<lparr>pg_next := next\<rparr>)))"

definition pg_where :: "query_opts \<Rightarrow> message_row \<Rightarrow> bool" where
  "pg_where opts r \<longleftrightarrow>
     (q_AgentID opts \<noteq> [] \<longrightarrow> r_AgentID r = q_AgentID opts) \<and>
     (q_Since opts > 0 \<longrightarrow> r_Offset r > q_Since opts) \<and>
     (length (q_Types opts) > 0 \<longrightarrow> r_Type r \<in> set (q_Types opts))"

definition pg_Query :: "env \<Rightarrow> string \<Rightarrow> query_opts \<Rightarrow> postgres \<Rightarrow> error + message list" where
  "pg_Query e ns opts s =
     (let found = sort_key r_Offset (filter (pg_where opts) (rows_of ns (pg_tables s)));
          rows = (if q_Limit opts > 0 then take (nat (q_Limit opts)) found else found)
      in bindE (exec (Fault e 0) (Inr rows)) (\<lambda>rows. exec (Fault e 1) (Inr (map row_message rows))))"

definition pg_ActiveClaims :: "env \<Rightarrow> string \<Rightarrow> string \<Rightarrow> postgres \<Rightarrow> error + claim list" where
  "pg_ActiveClaims e ns resourcePattern s =
     bindE (pg_Query e ns (no_opts\<lparr>q_Types := [MsgClaim, MsgRelease, MsgTransfer]\<rparr>) s) (\<lambda>msgs.
       Inr (matching_claims resourcePattern (FilterActiveClaims (Now e 0) msgs)))"

definition pg_AgentState :: "env \<Rightarrow> string \<Rightarrow> string \<Rightarrow> postgres \<Rightarrow> error + agent_state" where
  "pg_AgentState e ns agentID s =
     bindE (pg_Query e ns no_opts s) (\<lambda>msgs. Inr (agent_state_of (Now e 0) agentID msgs))"

text \<open>\<open>offset\<close> is a reserved word, and these two statements do not quote it, so the server cannot
  parse them.\<close>

definition syntax_error :: error where
  "syntax_error = ExternalError ''pq: syntax error''"

definition select_claims :: "env \<Rightarrow> string \<Rightarrow> postgres \<Rightarrow> error + message_row list" where
  "select_claims e ns s = exec (Fault e 0) (Inl syntax_error)"

definition delete_offset :: "env \<Rightarrow> nat \<Rightarrow> string \<Rightarrow> int \<Rightarrow> postgres \<Rightarrow> error option \<times> postgres" where
  "delete_offset e i ns off s = committed s (exec (Fault e i) (Inl syntax_error))"

fun pg_delete_loop :: "env \<Rightarrow> string \<Rightarrow> nat \<Rightarrow> int list \<Rightarrow> postgres \<Rightarrow> error option \<times> postgres" where
  "pg_delete_loop e ns i [] s = (None, s)"
| "pg_delete_loop e ns i (off # offs) s =
     (case delete_offset e i ns off s of
        (Some err, s') \<Rightarrow> (Some err, s')
      | (None, s') \<Rightarrow> pg_delete_loop e ns (Suc i) offs s')"

definition pg_ReleaseExpired :: "env \<Rightarrow> string \<Rightarrow> time \<Rightarrow> postgres \<Rightarrow> error option \<times> postgres" where
  "pg_ReleaseExpired e ns before s =
     (case select_claims e ns s of
        Inl err \<Rightarrow> (Some err, s)
      | Inr rows \<Rightarrow> pg_delete_loop e ns (1 + length rows) (expired_offsets e before 1 rows) s)"

section \<open>Subscriptions\<close>

text \<open>\<open>Subscribe\<close> polls \<open>Query\<close> and ends at its first error.\<close>

fun pg_send_loop :: "(nat \<Rightarrow> bool) \<Rightarrow> nat \<Rightarrow> message list \<Rightarrow> int \<Rightarrow> message list \<times> int \<times> bool" where
  "pg_send_loop cancelled i [] current = ([], current, False)"
| "pg_send_loop cancelled i (m # msgs) current =
     (if cancelled i then ([], current, True)
      else case pg_send_loop cancelled (Suc i) msgs (m_Offset m) of
        (sent, cur, stop) \<Rightarrow> (m # sent, cur, stop))"

fun pg_Subscribe ::
  "envs \<Rightarrow> (nat \<Rightarrow> nat \<Rightarrow> bool) \<Rightarrow> nat \<Rightarrow> string \<Rightarrow> postgres list \<Rightarrow> int \<Rightarrow> message list" where
  "pg_Subscribe es cancelled k ns [] current = []"
| "pg_Subscribe es cancelled k ns (s # ss) current =
     (case pg_Query (es k) ns (no_opts\<lparr>q_Since := current\<rparr>) s of
        Inl err \<Rightarrow> []
      | Inr msgs \<Rightarrow>
          (case pg_send_loop (cancelled k) 0 msgs current of
             (sent, cur, stop) \<Rightarrow>
               sent @ (if stop then [] else pg_Subscribe es cancelled (Suc k) ns ss cur)))"

definition pg_SubscribeEvents ::
  "envs \<Rightarrow> (nat \<Rightarrow> nat \<Rightarrow> bool) \<Rightarrow> string \<Rightarrow> postgres \<Rightarrow> postgres list \<Rightarrow> int \<Rightarrow> event list" where
  "pg_SubscribeEvents es cancelled ns s polls since =
     sq_SubscribeEvents es cancelled ns (pg_tables s) (map pg_tables polls) since"

section \<open>The mailbox\<close>

definition micro_mail :: "mailbox_message \<Rightarrow> mailbox_message" where
  "micro_mail m = m\<lparr>mb_CreatedAt := micros (mb_CreatedAt m), mb_ExpiresAt := micros (mb_ExpiresAt m)\<rparr>"

definition pg_SendMessage :: "env \<Rightarrow> string \<Rightarrow> mailbox_message \<Rightarrow> postgres \<Rightarrow> error option \<times> postgres" where
  "pg_SendMessage e ns msg = on_tables (\<lambda>t. committed t
     (exec (Fault e 0)
       (bindE (insert_row (\<lambda>b. mb_MessageID (b_Message b))
           \<lparr>b_Namespace = ns, b_Message = micro_mail (fill_times (Now e 0) msg)\<rparr> (sq_mailbox t))
         (\<lambda>rows. Inr (t\<lparr>sq_mailbox := rows\<rparr>)))))"

text \<open>\<open>NOW()\<close> is the time of the server, in whole microseconds.\<close>

definition pg_mailbox_where :: "time \<Rightarrow> string \<Rightarrow> string \<Rightarrow> mailbox_query_opts \<Rightarrow> mailbox_row \<Rightarrow> bool" where
  "pg_mailbox_where now ns agentID opts b \<longleftrightarrow> b_Namespace b = ns \<and>
     (mb_To (b_Message b) = agentID \<or> mb_To (b_Message b) = MailboxToBroadcast) \<and>
     \<not> mb_Archived (b_Message b) \<and> mb_ExpiresAt (b_Message b) > now - now mod 1000 \<and>
     (mq_Unread opts \<longrightarrow> \<not> mb_Read (b_Message b))"

definition pg_GetMailbox ::
  "env \<Rightarrow> string \<Rightarrow> string \<Rightarrow> mailbox_query_opts \<Rightarrow> postgres \<Rightarrow> error + mailbox_message list" where
  "pg_GetMailbox e ns agentID opts s =
     (let found = sort_slice (Tie e) (\<lambda>b. - mb_CreatedAt (b_Message b))
            (filter (pg_mailbox_where (Now e 0) ns agentID opts) (sq_mailbox (pg_tables s)));
          rows = (if mq_Limit opts > 0 then take (nat (mq_Limit opts)) found else found)
      in bindE (exec (Fault e 0) (Inr rows)) (\<lambda>rows. exec (Fault e 1) (Inr (map b_Message rows))))"

definition pg_MarkRead :: "env \<Rightarrow> string \<Rightarrow> string \<Rightarrow> postgres \<Rightarrow> error option \<times> postgres" where
  "pg_MarkRead e ns mid = on_tables (sq_MarkRead e ns mid)"

definition pg_ArchiveMessage :: "env \<Rightarrow> string \<Rightarrow> string \<Rightarrow> postgres \<Rightarrow> error option \<times> postgres" where
  "pg_ArchiveMessage e ns mid = on_tables (sq_ArchiveMessage e ns mid)"

text \<open>The argument is a timestamp too.\<close>

definition pg_ExpireMessages :: "env \<Rightarrow> string \<Rightarrow> time \<Rightarrow> postgres \<Rightarrow> error option \<times> postgres" where
  "pg_ExpireMessages e ns before = on_tables (sq_ExpireMessages e ns (micros before))"

section \<open>Tasks\<close>

definition micro_task :: "a2a_task \<Rightarrow> a2a_task" where
  "micro_task t = t\<lparr>t_StatusTime := micros (t_StatusTime t), t_CreatedAt := micros (t_CreatedAt t)\<rparr>"

definition pg_CreateTask :: "env \<Rightarrow> string \<Rightarrow> a2a_task \<Rightarrow> postgres \<Rightarrow> error option \<times> postgres" where
  "pg_CreateTask e ns t = on_tables (sq_CreateTask e ns (micro_task t))"

definition pg_GetTask :: "env \<Rightarrow> string \<Rightarrow> string \<Rightarrow> postgres \<Rightarrow> error + a2a_task" where
  "pg_GetTask e ns taskID s = sq_GetTask e ns taskID (pg_tables s)"

definition pg_UpdateTask :: "env \<Rightarrow> string \<Rightarrow> a2a_task \<Rightarrow> postgres \<Rightarrow> error option \<times> postgres" where
  "pg_UpdateTask e ns t = on_tables (sq_UpdateTask e ns (micro_task t))"

definition pg_AppendTaskHistory ::
  "env \<Rightarrow> string \<Rightarrow> string \<Rightarrow> int \<Rightarrow> a2a_message \<Rightarrow> postgres \<Rightarrow> error option \<times> postgres" where
  "pg_AppendTaskHistory e ns taskID seq msg = on_tables (\<lambda>t.
     case integer_column seq of
       Inl err \<Rightarrow> (Some err, t)
     | Inr n \<Rightarrow> sq_AppendTaskHistory e ns taskID n msg t)"

definition pg_GetTaskHistory ::
  "env \<Rightarrow> string \<Rightarrow> string \<Rightarrow> int \<Rightarrow> postgres \<Rightarrow> error + a2a_message list" where
  "pg_GetTaskHistory e ns taskID limit s = sq_GetTaskHistory e ns taskID limit (pg_tables s)"

definition pg_CreateArtifact ::
  "env \<Rightarrow> string \<Rightarrow> string \<Rightarrow> a2a_artifact \<Rightarrow> postgres \<Rightarrow> error option \<times> postgres" where
  "pg_CreateArtifact e ns taskID art = on_tables (\<lambda>t.
     case integer_column (art_Index art) of
       Inl err \<Rightarrow> (Some err, t)
     | Inr n \<Rightarrow> sq_CreateArtifact e ns taskID art t)"

definition pg_GetArtifacts :: "env \<Rightarrow> string \<Rightarrow> string \<Rightarrow> postgres \<Rightarrow> error + a2a_artifact list" where
  "pg_GetArtifacts e ns taskID s = sq_GetArtifacts e ns taskID (pg_tables s)"

definition postgres_provider :: "postgres provider" where
  "postgres_provider = \<lparr>p_CreateNamespace = pg_CreateNamespace, p_DeleteNamespace = pg_DeleteNamespace,
     p_Append = pg_Append, p_Query = pg_Query, p_ActiveClaims = pg_ActiveClaims,
     p_AgentState = pg_AgentState, p_ReleaseExpired = pg_ReleaseExpired,
     p_SendMessage = pg_SendMessage, p_GetMailbox = pg_GetMailbox, p_MarkRead = pg_MarkRead,
     p_ArchiveMessage = pg_ArchiveMessage, p_ExpireMessages = pg_ExpireMessages,
     p_CreateTask = pg_CreateTask, p_GetTask = pg_GetTask, p_UpdateTask = pg_UpdateTask,
     p_AppendTaskHistory = pg_AppendTaskHistory, p_GetTaskHistory = pg_GetTaskHistory,
     p_CreateArtifact = pg_CreateArtifact, p_GetArtifacts = pg_GetArtifacts,
     p_AppendAudit = pg_AppendAudit\<rparr>"

end
