(* ===== verification/PostgresFacts.thy ===== *)
theory PostgresFacts
  imports PostgresProvider ClientFacts
begin

text \<open>
  The PostgreSQL back end of \<open>internal/postgres/postgres.go\<close>: what an append stores, that claims
  survive the \<open>JSONB\<close> column, that a deletion may stop half-way, and what two appends at the same
  time do to subscribers.
\<close>

section \<open>The log\<close>

definition pg_log :: "postgres \<Rightarrow> string \<Rightarrow> message list" where
  "pg_log s ns = sq_log (pg_tables s) ns"

text \<open>Offsets are positive, distinct over all namespaces, and below the next value of the sequence;
  sequence numbers are positive.\<close>

definition pg_ok :: "postgres \<Rightarrow> bool" where
  "pg_ok s \<longleftrightarrow> distinct (map r_Offset (sq_messages (pg_tables s))) \<and> 0 < pg_next s \<and>
     (\<forall>r \<in> set (sq_messages (pg_tables s)). 0 < r_Offset r \<and> r_Offset r < pg_next s \<and>
        (\<forall>n. r_Seq r = Some n \<longrightarrow> 0 < n))"

lemma pg_ok_sq_ok:
  assumes "pg_ok s"
  shows "sq_ok (pg_tables s)"
proof -
  let ?rows = "sq_messages (pg_tables s)"
  have d: "distinct ?rows" "inj_on r_Offset (set ?rows)"
    using assms unfolding pg_ok_def distinct_map by blast+
  then have "distinct (map message_key ?rows)"
    unfolding distinct_map inj_on_def message_key_def by blast
  with assms show ?thesis by (simp add: pg_ok_def sq_ok_def)
qed

lemma pg_log_increasing: "pg_ok s \<Longrightarrow> increasing (pg_log s ns)"
  unfolding pg_log_def by (rule sq_log_increasing [OF pg_ok_sq_ok])

text \<open>What \<open>tx_read\<close> and \<open>tx_insert\<close> prepare.\<close>

lemma tx_read_number:
  assumes "tx_read e ns s = Inr n"
  shows "r \<in> set (rows_of ns (pg_tables s)) \<Longrightarrow> r_Seq r = Some q \<Longrightarrow> q < n" and "pg_ok s \<Longrightarrow> 0 < n"
proof -
  have n: "n = next_number (List.map_filter r_Seq (rows_of ns (pg_tables s)))"
    using assms by (auto simp: tx_read_def)
  have mem: "x \<in> set (List.map_filter r_Seq rs) \<longleftrightarrow> (\<exists>r \<in> set rs. r_Seq r = Some x)" for x rs
    by (induction rs) (auto simp: List.map_filter_simps split: option.splits)
  show "r \<in> set (rows_of ns (pg_tables s)) \<Longrightarrow> r_Seq r = Some q \<Longrightarrow> q < n"
    unfolding n by (rule next_number_gt) (use mem in blast)
  show "pg_ok s \<Longrightarrow> 0 < n"
    unfolding n by (rule next_number_pos) (auto simp: mem pg_ok_def)
qed

lemma tx_insert_rows:
  assumes "tx_insert e ns i seq msgs off = (Inr rows, next)"
  shows "off \<le> next \<and> (\<forall>r \<in> set rows. r_Namespace r = ns \<and> off \<le> r_Offset r \<and> r_Offset r < next) \<and>
    sorted_wrt (<) (map r_Offset rows) \<and> map r_Seq rows = map Some [seq..seq + int (length msgs) - 1] \<and>
    list_all2 (\<lambda>m r. r_Type r = m_Type m \<and> r_AgentID r = m_AgentID m \<and>
      r_Payload r = map_option jsonb (m_Payload m) \<and> m_Payload m \<noteq> None) msgs rows"
  using assms
proof (induction msgs arbitrary: i seq off rows)
  case (Cons m msgs)
  let ?off = "off + int (Tie e i)"
  from Cons.prems obtain j rows' where j: "m_Payload m = Some j" "Fault e (2 + i) = None"
    and rest: "tx_insert e ns (Suc i) (seq + 1) msgs (?off + 1) = (Inr rows', next)"
    and rows: "rows = pg_row e ns i ?off seq m (Some (jsonb j)) # rows'"
    by (auto simp: jsonb_value_def exec_def Let_def split: option.splits prod.splits sum.splits)
  note IH = Cons.IH [OF rest]
  have "[seq..seq + int (length (m # msgs)) - 1] = seq # [seq + 1..seq + 1 + int (length msgs) - 1]"
    by (simp add: upto_rec1)
  then show ?case using IH j by (auto simp: rows pg_row_def)
qed auto

lemma tx_insert_error: "tx_insert e ns i seq msgs off = (Inl err, next) \<Longrightarrow> off \<le> next"
proof (induction msgs arbitrary: i seq off)
  case (Cons m msgs)
  then show ?case by (fastforce simp: Let_def split: sum.splits prod.splits)
qed simp

text \<open>A stored message is the appended one with an offset, the namespace, a timestamp and the
  \<open>JSONB\<close> form of its payload.\<close>

definition pg_stamped :: "string \<Rightarrow> message \<Rightarrow> message \<Rightarrow> bool" where
  "pg_stamped ns m m' \<longleftrightarrow> m_Type m' = m_Type m \<and> m_AgentID m' = m_AgentID m \<and>
     m_Payload m' = map_option jsonb (m_Payload m) \<and> m_Namespace m' = ns"

lemma pg_log_append:
  assumes "\<forall>r \<in> set rows. r_Namespace r = ns \<and> (\<forall>x \<in> set (sq_messages (pg_tables s)). r_Offset x < r_Offset r)"
    and "sorted_wrt (<) (map r_Offset rows)"
    and "pg_tables s' = (pg_tables s)\<lparr>sq_messages := sq_messages (pg_tables s) @ rows\<rparr>"
  shows "pg_log s' ns' = (if ns' = ns then pg_log s ns @ map row_message rows else pg_log s ns')"
proof -
  have rows: "filter (\<lambda>r. r_Namespace r = ns') rows = (if ns' = ns then rows else [])"
    using assms(1) by (auto simp: filter_empty_conv intro!: filter_True)
  have "rows_of ns' (pg_tables s') = rows_of ns' (pg_tables s) @ (if ns' = ns then rows else [])"
    by (simp add: rows_of_def assms(3) rows)
  moreover have "sorted (map r_Offset rows)" using assms(2) strict_sorted_iff by blast
  moreover have "\<forall>x \<in> set (rows_of ns (pg_tables s)). \<forall>y \<in> set rows. r_Offset x \<le> r_Offset y"
    using assms(1) by (auto simp: rows_of_def intro: less_imp_le)
  ultimately show ?thesis by (simp add: pg_log_def sq_log_def sort_key_append_above)
qed

text \<open>What a commit leaves: the rows behind the old ones, in tables that are still well-formed.\<close>

lemma pg_commit_rows:
  assumes "pg_ok s" and "list_all2 (\<lambda>m r. r_Type r = m_Type m \<and> r_AgentID r = m_AgentID m \<and>
        r_Payload r = map_option jsonb (m_Payload m) \<and> m_Payload m \<noteq> None) msgs rows"
    and "\<forall>r \<in> set rows. r_Namespace r = ns \<and> pg_next s \<le> r_Offset r \<and> r_Offset r < nxt"
    and "sorted_wrt (<) (map r_Offset rows)" "pg_next s \<le> nxt" "\<forall>r \<in> set rows. \<forall>n. r_Seq r = Some n \<longrightarrow> 0 < n"
    and s': "s' = s\<lparr>pg_next := nxt, pg_tables := (pg_tables s)\<lparr>sq_messages := sq_messages (pg_tables s) @ rows\<rparr>\<rparr>"
  shows "pg_ok s'" "\<forall>m \<in> set msgs. m_Payload m \<noteq> None" "pg_log s' ns = pg_log s ns @ map row_message rows"
    "ns' \<noteq> ns \<Longrightarrow> pg_log s' ns' = pg_log s ns'" "list_all2 (pg_stamped ns) msgs (map row_message rows)"
    "increasing (map row_message rows)" "\<forall>m \<in> set (map row_message rows). pg_next s \<le> m_Offset m \<and> m_Offset m < pg_next s'"
proof -
  have above: "\<forall>r \<in> set rows. r_Namespace r = ns \<and> (\<forall>x \<in> set (sq_messages (pg_tables s)). r_Offset x < r_Offset r)"
    using assms(1,3) by (fastforce simp: pg_ok_def)
  have log: "pg_log s' ns' = (if ns' = ns then pg_log s ns @ map row_message rows else pg_log s ns')" for ns'
    by (rule pg_log_append [OF above assms(4)]) (simp add: s')
  from log [of ns] log [of ns'] show "pg_log s' ns = pg_log s ns @ map row_message rows"
    "ns' \<noteq> ns \<Longrightarrow> pg_log s' ns' = pg_log s ns'" by simp_all
  have "distinct (map r_Offset rows)" using assms(4) strict_sorted_iff by blast
  moreover have "r_Offset ` set (sq_messages (pg_tables s)) \<inter> r_Offset ` set rows = {}" using above by force
  ultimately show "pg_ok s'" using assms(1,3,5,6) unfolding pg_ok_def s' by (auto simp: s')
  show "\<forall>m \<in> set msgs. m_Payload m \<noteq> None"
    using assms(2) unfolding list_all2_conv_all_nth by (metis in_set_conv_nth)
  show "list_all2 (pg_stamped ns) msgs (map row_message rows)"
    using assms(2,3) unfolding list_all2_conv_all_nth by (simp add: pg_stamped_def row_message_def)
  show "increasing (map row_message rows)" unfolding increasing_def map_offset_rows by (rule assms(4))
  show "\<forall>m \<in> set (map row_message rows). pg_next s \<le> m_Offset m \<and> m_Offset m < pg_next s'"
    using assms(3) by (simp add: row_message_def s')
qed

text \<open>An append to PostgreSQL either fails and leaves all tables as they were, or stores all
  the messages, in order, behind the ones of the namespace; a message without a payload makes it fail.
  Offsets grow over all namespaces and are never reused: what a failed append took is skipped.\<close>

lemma pg_append_result:
  assumes "pg_ok s" and "pg_Append e ns msgs s = (r, s')"
  shows "pg_ok s' \<and> pg_next s \<le> pg_next s' \<and> (r \<noteq> None \<longrightarrow> pg_tables s' = pg_tables s) \<and>
    (r = None \<longrightarrow> (\<forall>m \<in> set msgs. m_Payload m \<noteq> None) \<and>
      (\<exists>new. pg_log s' ns = pg_log s ns @ new \<and> list_all2 (pg_stamped ns) msgs new \<and> increasing new \<and>
        (\<forall>m \<in> set new. pg_next s \<le> m_Offset m \<and> m_Offset m < pg_next s')) \<and>
      (\<forall>ns'. ns' \<noteq> ns \<longrightarrow> pg_log s' ns' = pg_log s ns'))"
proof (cases "tx_read e ns s")
  case (Inl err)
  with assms show ?thesis by (auto simp: pg_Append_def)
next
  case (Inr seq)
  obtain res nxt where ins: "tx_insert e ns 0 seq msgs (pg_next s) = (res, nxt)" by fastforce
  show ?thesis
  proof (cases res)
    case (Inl err)
    with Inr ins assms tx_insert_error show ?thesis by (fastforce simp: pg_Append_def pg_ok_def)
  next
    case rows: (Inr rows)
    note new = tx_insert_rows [OF ins [unfolded rows]]
    then have seqs: "map r_Seq rows = map Some [seq..seq + int (length msgs) - 1]" by blast
    have pos: "\<forall>r \<in> set rows. \<forall>n. r_Seq r = Some n \<longrightarrow> 0 < n"
    proof (intro ballI allI impI)
      fix r n assume "r \<in> set rows" "r_Seq r = Some n"
      then have "Some n \<in> set (map r_Seq rows)" by (metis image_eqI list.set_map)
      then have "n \<in> {seq..seq + int (length msgs) - 1}" unfolding seqs by auto
      with tx_read_number(2) [OF Inr assms(1)] show "0 < n" by simp
    qed
    have run: "(r, s') = tx_commit (Fault e (2 + length msgs)) rows (s\<lparr>pg_next := nxt\<rparr>)"
      using assms(2) Inr ins rows by (simp add: pg_Append_def)
    show ?thesis
    proof (cases "Fault e (2 + length msgs)")
      case (Some err)
      with run new assms(1) show ?thesis
        by (auto simp: tx_commit_def on_tables_def committed_def exec_def pg_ok_def)
    next
      case None
      then have r: "r = None" and s': "s' = s\<lparr>pg_next := nxt,
          pg_tables := (pg_tables s)\<lparr>sq_messages := sq_messages (pg_tables s) @ rows\<rparr>\<rparr>"
        using run by (simp_all add: tx_commit_def on_tables_def committed_def)
      have le: "pg_next s \<le> nxt" using new by blast
      have "list_all2 (\<lambda>m r. r_Type r = m_Type m \<and> r_AgentID r = m_AgentID m \<and>
          r_Payload r = map_option jsonb (m_Payload m) \<and> m_Payload m \<noteq> None) msgs rows"
        "\<forall>r \<in> set rows. r_Namespace r = ns \<and> pg_next s \<le> r_Offset r \<and> r_Offset r < nxt"
        "sorted_wrt (<) (map r_Offset rows)"
        using new by blast+
      note kept = pg_commit_rows [OF assms(1) this le pos s']
      have "pg_next s \<le> pg_next s'" using le by (simp add: s')
      with kept r show ?thesis by blast
    qed
  qed
qed

lemma pg_ok_New: "pg_ok pg_New"
  by (simp add: pg_ok_def pg_New_def sq_New_def)

definition one_claim_pg :: postgres where
  "one_claim_pg = snd (pg_Append (calm sample_time) ''n'' [claim_msg 0 0 (sample_claim ''c'' 60)] pg_New)"

section \<open>Claims in a JSONB column\<close>

lemma jsonb_time [simp]: "jsonb (time_json t) = time_json t"
  by (simp add: time_json_def)

text \<open>The members of a claim in the order in which \<open>JSONB\<close> stores them.\<close>

lemma jsonb_claim_json:
  "jsonb (claim_json c) = JObj (
     [(''intent'', JStr (c_Intent c)), (''agent_id'', JStr (c_AgentID c)), (''claim_id'', JStr (c_ClaimID c)),
      (''operation'', JStr (c_Operation c)), (''created_at'', time_json (c_CreatedAt c)),
      (''ttl_seconds'', JNum (c_TTLSeconds c)), (''resource_uri'', JStr (c_ResourceURI c))]
     @ omit_empty ''projected_end'' (c_ProjectedEnd c) @ omit_empty ''parent_claim_id'' (c_ParentClaimID c))"
  by (cases "c_ProjectedEnd c = []"; cases "c_ParentClaimID c = []") (simp_all add: claim_json_def omit_empty_def)

lemma decode_omit_last:
  assumes "map_of fs k = Some (string_field upd)" and "v = [] \<Longrightarrow> upd (\<lambda>_. v) r = r"
  shows "decode_members fs (omit_empty k v) (r, ok) = (upd (\<lambda>_. v) r, ok)"
  using decode_omit_empty [OF assms, of "[]" ok] by simp

lemma decode_jsonb_claim: "claim_ok c \<Longrightarrow> decode_claim (Some (jsonb (claim_json c))) = Some c"
  by (simp add: jsonb_claim_json decode_claim_def decode_obj decode_members_exact claim_fields_def
        decode_omit_empty decode_omit_last string_field_JStr int_field_JNum time_field_json claim_ok_def zero_claim_def)

text \<open>The column \<open>payload\<close> reorders the members of the JSON that the client writes, but
  loses nothing of it: what is read back decodes to the same claim, and to the same reference to a
  claim for releases, heartbeats, transfers and changes of intent.\<close>

theorem jsonb_claims:
  shows "(claim_ok c \<longrightarrow> decode_claim (Some (jsonb (claim_json c))) = Some c) \<and>
    decode_ref (Some (jsonb (JObj [(''claim_id'', JStr cid), (''outcome'', JStr o1), (''released_at'', time_json t)]))) = Some cid \<and>
    decode_ref (Some (jsonb (JObj [(''claim_id'', JStr cid), (''heartbeat_at'', time_json t)]))) = Some cid \<and>
    decode_ref (Some (jsonb (JObj [(''claim_id'', JStr cid), (''to_agent_id'', JStr a), (''transferred_at'', time_json t)]))) = Some cid \<and>
    decode_ref (Some (jsonb (JObj [(''claim_id'', JStr cid), (''intent'', JStr i), (''updated_at'', time_json t)]))) = Some cid"
proof (intro conjI impI)
  assume "claim_ok c"
  then show "decode_claim (Some (jsonb (claim_json c))) = Some c" by (rule decode_jsonb_claim)
next
  have skip: "decode_ref (Some (JObj ((k, v) # (''claim_id'', JStr cid) # kvs))) =
      decode_ref (Some (JObj ((''claim_id'', JStr cid) # kvs)))" if k: "fold_name k \<noteq> ''claim_id''" for k v kvs
  proof -
    have "fold_name ''claim_id'' = ''claim_id''" by code_simp
    with k have "find_field [(''claim_id'', string_field (\<lambda>f. f))] k = None" by (auto simp: find_field_def)
    then show ?thesis by (simp add: decode_ref_def decode_obj decode_members_unknown)
  qed
  show "decode_ref (Some (jsonb (JObj [(''claim_id'', JStr cid), (''outcome'', JStr o1), (''released_at'', time_json t)]))) = Some cid"
    using fold_name_keys by (simp add: skip decode_ref_first)
  show "decode_ref (Some (jsonb (JObj [(''claim_id'', JStr cid), (''heartbeat_at'', time_json t)]))) = Some cid"
    using fold_name_keys by (simp add: skip decode_ref_first)
  show "decode_ref (Some (jsonb (JObj [(''claim_id'', JStr cid), (''to_agent_id'', JStr a), (''transferred_at'', time_json t)]))) = Some cid"
    using fold_name_keys by (simp add: skip decode_ref_first)
  show "decode_ref (Some (jsonb (JObj [(''claim_id'', JStr cid), (''intent'', JStr i), (''updated_at'', time_json t)]))) = Some cid"
    using fold_name_keys by (simp add: skip decode_ref_first)
qed

theorem jsonb_claims_witness:
  "decode_claim (Some (jsonb (claim_json (sample_claim ''c'' 60)))) = Some (sample_claim ''c'' 60)"
proof -
  have "claim_ok (sample_claim ''c'' 60)" by (simp add: sample_claim_def claim_ok_def time_ok_sample)
  with jsonb_claims show ?thesis by blast
qed

section \<open>Queries and claims\<close>

lemma pg_log_positive: "pg_ok s \<Longrightarrow> m \<in> set (pg_log s ns) \<Longrightarrow> 0 < m_Offset m"
  unfolding pg_log_def by (rule sq_log_positive [OF pg_ok_sq_ok])

lemma pg_Query_eq:
  assumes "pg_ok s"
  shows "pg_Query e ns opts s = exec (Fault e 0) (exec (Fault e 1) (Inr (query_result opts (pg_log s ns))))"
proof -
  have "filter (pg_where opts) (rows_of ns (pg_tables s)) =
      filter (\<lambda>r. query_matches opts (row_message r)) (rows_of ns (pg_tables s))"
    using assms by (intro filter_cong) (auto simp: pg_where_def query_matches_def row_message_def pg_ok_def)
  then show ?thesis
    by (auto simp: pg_Query_def Let_def query_result_def limited_def pg_log_def sq_log_def filter_map o_def
        filter_sort take_map exec_def split: option.splits)
qed

lemma pg_ActiveClaims_eq:
  assumes "pg_ok s"
  shows "pg_ActiveClaims e ns pat s = exec (Fault e 0) (exec (Fault e 1)
    (Inr (matching_claims pat (FilterActiveClaims (Now e 0) (filter sq_seen (pg_log s ns))))))"
  using query_seen [OF pg_ok_sq_ok [OF assms], of ns]
  by (auto simp: pg_ActiveClaims_def pg_Query_eq [OF assms] exec_def pg_log_def split: option.splits)

text \<open>C23: The client over PostgreSQL, where any statement may fail: a claim is granted only if no
  active claim conflicts with it, and then exactly one message is stored, which decodes to the claim
  that the response names; a refusal or an error leaves the tables alone, and a conflict is reported
  against the active claims of the namespace, computed without the heartbeats.\<close>

theorem postgres_claim:
  assumes "pg_ok s" and "client_Claim postgres_provider ns es req s = ((resp, err), s')"
    and "c = request_claim (default_ttl req) (Now (es 1) 0) (Now (es 1) 1)" and "claim_ok c"
    and "active = FilterActiveClaims (Now (es 0) 0) (filter sq_seen (pg_log s ns))"
  shows "pg_ok s' \<and> (err \<noteq> None \<longrightarrow> pg_tables s' = pg_tables s) \<and>
    (err = None \<longrightarrow> resp = Some \<lparr>rs_ClaimID = c_ClaimID c, rs_Conflict = None\<rparr> \<and> (\<forall>a \<in> set active. \<not> blocks a c) \<and>
      (\<exists>m. pg_log s' ns = pg_log s ns @ [m] \<and> m_Type m = MsgClaim \<and> decode_claim (m_Payload m) = Some c)) \<and>
    (\<forall>report. err = Some (ConflictError report) \<longrightarrow> report = CheckConflict c active)"
proof -
  let ?m = "new_message MsgClaim (rq_AgentID req) (claim_json c)"
  obtain a t where app: "pg_Append (es 2) ns [?m] s = (a, t)" by fastforce
  have report: "CheckConflict c (matching_claims (rq_ResourceURI req) active) = CheckConflict c active"
    using CheckConflict_prefilter [of c active] by (simp add: assms(3))
  have P: "p_ActiveClaims postgres_provider = pg_ActiveClaims" "p_Append postgres_provider = pg_Append"
    by (simp_all add: postgres_provider_def)
  note run = assms(2) [unfolded client_Claim_def Let_def P pg_ActiveClaims_eq [OF assms(1)] assms(3) [symmetric]
      assms(5) [symmetric] default_ttl_simps(1,2) report app]
  note stored = pg_append_result [OF assms(1) app]
  consider (failed) "err \<noteq> None" "s' = s" "\<And>report. err = Some (ConflictError report) \<Longrightarrow> report = CheckConflict c active"
    | (append) "\<not> HasConflict (CheckConflict c active)" "s' = t"
        "err = map_option ProviderError a" "a = None \<Longrightarrow> resp = Some \<lparr>rs_ClaimID = c_ClaimID c, rs_Conflict = None\<rparr>"
    using run arg_cong [OF report, of HasConflict] report
    by (simp only: exec_def sum.case split: option.splits if_splits) (auto simp: exec_def split: option.splits if_splits)
  then show ?thesis
  proof cases
    case failed
    with assms(1) show ?thesis by auto
  next
    case append
    show ?thesis
    proof (cases a)
      case (Some er)
      with append stored show ?thesis by auto
    next
      case None
      with stored obtain new where new: "pg_log t ns = pg_log s ns @ new" "list_all2 (pg_stamped ns) [?m] new" by blast
      then obtain m where m: "new = [m]" "pg_stamped ns ?m m" by (auto simp: list_all2_Cons1)
      then have "decode_claim (m_Payload m) = Some c" "m_Type m = MsgClaim"
        using decode_jsonb_claim assms(4) by (auto simp: pg_stamped_def)
      with None append stored new(1) m(1) show ?thesis by auto
    qed
  qed
qed

theorem postgres_claim_witness:
  "let ((resp, err), s') = client_Claim postgres_provider ''n'' (\<lambda>_. calm sample_time)
     (\<lparr>rq_ResourceURI = ''file://a.go'', rq_AgentID = ''bob'', rq_Operation = OpWrite, rq_Intent = [],
        rq_ProjectedEnd = [], rq_TTLSeconds = 60, rq_ParentClaimID = []\<rparr>) pg_New
   in pg_ok s' \<and> err = None \<and> length (pg_log s' ''n'') = 1"
proof -
  let ?req = "\<lparr>rq_ResourceURI = ''file://a.go'', rq_AgentID = ''bob'', rq_Operation = OpWrite, rq_Intent = [],
        rq_ProjectedEnd = [], rq_TTLSeconds = 60, rq_ParentClaimID = []\<rparr>"
  let ?run = "client_Claim postgres_provider ''n'' (\<lambda>_. calm sample_time) ?req pg_New"
  have ok: "claim_ok (request_claim (default_ttl ?req) (Now ((\<lambda>_. calm sample_time) (1::nat)) 0)
      (Now ((\<lambda>_. calm sample_time) (1::nat)) 1))"
    by (simp add: claim_ok_def default_ttl_def)
  have empty: "pg_log pg_New ''n'' = []" by (simp add: pg_log_def sq_log_def pg_New_def sq_New_def rows_of_def)
  have "snd (fst ?run) = None"
    by (simp add: client_Claim_def Let_def postgres_provider_def pg_ActiveClaims_eq [OF pg_ok_New] empty
        FilterActiveClaims_eq matching_claims_def CheckConflict_eq pg_Append_def tx_read_def jsonb_value_def
        tx_commit_def on_tables_def committed_def new_message_def)
  moreover have "pg_ok (snd ?run) \<and> (snd (fst ?run) = None \<longrightarrow> (\<exists>m. pg_log (snd ?run) ''n'' = [] @ [m]))"
    using postgres_claim [OF pg_ok_New _ refl ok refl, of "''n''" "fst (fst ?run)" "snd (fst ?run)" "snd ?run",
        unfolded prod.collapse, OF refl] unfolding empty by blast
  ultimately obtain m where "snd (fst ?run) = None" "pg_ok (snd ?run)" "pg_log (snd ?run) ''n'' = [m]" by auto
  then show ?thesis by (simp add: Let_def split_beta)
qed

section \<open>Deleting a namespace\<close>

text \<open>Deleting a namespace is not atomic on PostgreSQL: when the fourth
  statement fails the call reports the error, but the tasks of the namespace are already gone with
  their histories and artifacts, while its messages, and with them its claims, are all still there.\<close>

theorem postgres_delete_partial:
  assumes "Fault e 0 = None" "Fault e 1 = None" "Fault e 2 = None" and "Fault e 3 = Some err"
    and "pg_DeleteNamespace e ns s = (r, s')"
  shows "r = Some err \<and> (\<forall>t \<in> set (sq_tasks (pg_tables s')). t_Namespace t \<noteq> ns) \<and>
    sq_history (pg_tables s') = filter (\<lambda>y. y_TaskID y \<notin> task_ids ns (pg_tables s)) (sq_history (pg_tables s)) \<and>
    sq_artifacts (pg_tables s') = filter (\<lambda>x. x_TaskID x \<notin> task_ids ns (pg_tables s)) (sq_artifacts (pg_tables s)) \<and>
    pg_log s' = pg_log s \<and> sq_mailbox (pg_tables s') = sq_mailbox (pg_tables s) \<and>
    sq_namespaces (pg_tables s') = sq_namespaces (pg_tables s)"
  using assms
  by (auto simp: pg_DeleteNamespace_def on_tables_def delete_statements_def task_ids_def pg_log_def sq_log_def
      rows_of_def numeral_eq_Suc fun_eq_iff)

theorem postgres_delete_partial_witness:
  "pg_log (snd (pg_DeleteNamespace ((calm 5)\<lparr>Fault := (\<lambda>i. if i = 3 then Some (ExternalError ''connection lost'') else None)\<rparr>)
     ''n'' one_claim_pg)) = pg_log one_claim_pg"
  using postgres_delete_partial [of "(calm 5)\<lparr>Fault := (\<lambda>i. if i = 3 then Some (ExternalError ''connection lost'') else None)\<rparr>"
      "ExternalError ''connection lost''", OF _ _ _ _ surjective_pairing] by simp

section \<open>Two appends at the same time\<close>

lemma row_loop_all:
  "row_loop (\<lambda>_. False) i rows since =
     (map row_event rows, (if rows = [] then since else the (r_Seq (last rows))), False)"
  by (induction rows arbitrary: i since) auto

lemma pg_send_all:
  "pg_send_loop (\<lambda>_. False) i msgs cur = (msgs, (if msgs = [] then cur else m_Offset (last msgs)), False)"
  by (induction msgs arbitrary: i cur) auto

text \<open>What a subscriber has reached after a poll.\<close>

definition reached :: "string \<Rightarrow> postgres \<Rightarrow> int" where
  "reached ns s = (let rows = rows_after ns 0 (pg_tables s) in if rows = [] then 0 else the (r_Seq (last rows)))"

lemma last_sorted_key:
  assumes "x \<in> set xs"
  shows "f x \<le> f (last (sort_key f xs))"
proof -
  define ys where "ys = sort_key f xs"
  have "x \<in> set ys" "sorted (map f ys)" using assms by (simp_all add: ys_def)
  moreover from this obtain zs z where "ys = zs @ [z]" by (cases ys rule: rev_cases) auto
  ultimately show ?thesis by (auto simp: sorted_append ys_def [symmetric])
qed

lemma rows_after_iff:
  "r \<in> set (rows_after ns n t) \<longleftrightarrow> r \<in> set (rows_of ns t) \<and> (\<exists>q. r_Seq r = Some q \<and> n < q)"
  by (auto simp: rows_after_def split: option.splits)

lemma none_after:
  assumes "\<And>r q. r \<in> set (rows_of ns t) \<Longrightarrow> r_Seq r = Some q \<Longrightarrow> q \<le> n"
  shows "filter (\<lambda>r. case r_Seq r of None \<Rightarrow> False | Some q \<Rightarrow> q > n) (rows_of ns t) = []"
  using assms by (fastforce simp: filter_empty_conv split: option.splits)

lemma reached_bound:
  assumes "pg_ok s" "r \<in> set (rows_of ns (pg_tables s))" "r_Seq r = Some q"
  shows "q \<le> reached ns s"
proof -
  have "0 < q" using assms by (auto simp: pg_ok_def)
  with assms(2,3) have r: "r \<in> set (rows_after ns 0 (pg_tables s))" by (auto simp: rows_after_iff)
  then have nonempty: "rows_after ns 0 (pg_tables s) \<noteq> []" by auto
  have "the (r_Seq r) \<le> the (r_Seq (last (rows_after ns 0 (pg_tables s))))"
    using last_sorted_key [of r _ "\<lambda>r. the (r_Seq r)"] r unfolding rows_after_def set_sort by blast
  with assms(3) nonempty show ?thesis by (simp add: reached_def Let_def)
qed

lemma pg_Subscribe_first:
  "Fault (es k) 0 = None \<Longrightarrow> Fault (es k) 1 = None \<Longrightarrow> pg_ok s \<Longrightarrow>
   pg_Subscribe es (\<lambda>_ _. False) k ns (s # ss) cur =
     (let new = filter (\<lambda>m. cur < m_Offset m) (pg_log s ns)
      in new @ pg_Subscribe es (\<lambda>_ _. False) (Suc k) ns ss (if new = [] then cur else m_Offset (last new)))"
  by (auto simp: pg_Query_eq pg_send_all query_result_def limited_def no_opts_def query_matches_def [abs_def] Let_def)

lemma set_pg_log: "set (pg_log s ns) = row_message ` set (rows_of ns (pg_tables s))"
  by (simp add: pg_log_def sq_log_def)

lemma increasing_last: "increasing ms \<Longrightarrow> m \<in> set ms \<Longrightarrow> m_Offset m \<le> m_Offset (last ms)"
  by (cases ms rule: rev_cases) (auto simp: increasing_def sorted_wrt_append intro: less_imp_le)

text \<open>A subscriber that has seen the whole log is behind every message that is appended later.\<close>

lemma seen_log:
  fixes s ns
  assumes "pg_ok s" "pg_next s \<le> k"
  defines "c \<equiv> (if pg_log s ns = [] then 0 else m_Offset (last (pg_log s ns)))"
  shows "c < k" "filter (\<lambda>m. 0 < m_Offset m) (pg_log s ns) = pg_log s ns" "filter (\<lambda>m. c < m_Offset m) (pg_log s ns) = []"
proof -
  have old: "0 < m_Offset m \<and> m_Offset m < pg_next s" if "m \<in> set (pg_log s ns)" for m
    using assms(1) that by (auto simp: set_pg_log row_message_def rows_of_def pg_ok_def)
  have "0 < pg_next s" using assms(1) by (simp add: pg_ok_def)
  then show "c < k" using old [of "last (pg_log s ns)"] assms(2) by (auto simp: c_def)
  show "filter (\<lambda>m. 0 < m_Offset m) (pg_log s ns) = pg_log s ns" using old by simp
  show "filter (\<lambda>m. c < m_Offset m) (pg_log s ns) = []"
    using increasing_last [OF pg_log_increasing [OF assms(1)]] by (fastforce simp: filter_empty_conv c_def)
qed

text \<open>The sequence numbers that a subscriber has reached are below the next one that is drawn.\<close>

lemma reached_below:
  assumes "pg_ok s" "tx_read e ns s = Inr n"
  shows "reached ns s < n" "\<And>r q. r \<in> set (rows_of ns (pg_tables s)) \<Longrightarrow> r_Seq r = Some q \<Longrightarrow> q \<le> reached ns s \<and> q \<le> n"
proof -
  have before: "q \<le> reached ns s \<and> q < n" if "r \<in> set (rows_of ns (pg_tables s))" "r_Seq r = Some q" for r q
    using reached_bound [OF assms(1) that] tx_read_number(1) [OF assms(2) that] by simp
  then show "\<And>r q. r \<in> set (rows_of ns (pg_tables s)) \<Longrightarrow> r_Seq r = Some q \<Longrightarrow> q \<le> reached ns s \<and> q \<le> n"
    using less_imp_le by blast
  show "reached ns s < n"
  proof (cases "rows_after ns 0 (pg_tables s) = []")
    case False
    then have "last (rows_after ns 0 (pg_tables s)) \<in> set (rows_after ns 0 (pg_tables s))" by simp
    with before False show ?thesis by (auto simp: rows_after_iff reached_def)
  qed (use tx_read_number(2) [OF assms(2,1)] in \<open>simp add: reached_def\<close>)
qed

text \<open>Two appends of one row each, of which the one with the smaller offset commits last.\<close>

lemma late_commit:
  assumes "pg_ok s0" and "tx_read ea ns s0 = Inr n" "tx_read eb ns s0 = Inr n'"
    and "tx_insert ea ns 0 n [a] (pg_next s0) = (Inr [ra], k1)" "tx_insert eb ns 0 n' [b] k1 = (Inr [rb], k2)"
    and "tx_commit None [rb] (s0\<lparr>pg_next := k2\<rparr>) = (None, s1)" "tx_commit None [ra] s1 = (None, s2)"
  shows "pg_ok s1" "pg_ok s2" "r_Seq ra = Some n" "r_Seq rb = Some n" "r_Offset ra < r_Offset rb" "pg_next s0 \<le> r_Offset rb"
    and "rows_of ns (pg_tables s1) = rows_of ns (pg_tables s0) @ [rb]"
    and "rows_of ns (pg_tables s2) = rows_of ns (pg_tables s0) @ [rb, ra]"
    and "pg_log s1 ns = pg_log s0 ns @ [row_message rb]"
    and "\<And>m. m \<in> set (pg_log s2 ns) \<Longrightarrow> m_Offset m \<le> r_Offset rb"
proof -
  have n: "n' = n" using assms(2,3) by (auto simp: tx_read_def)
  note ra = tx_insert_rows [OF assms(4)] and rb = tx_insert_rows [OF assms(5)]
  have bounds: "pg_next s0 \<le> r_Offset ra" "r_Offset ra < r_Offset rb" "r_Offset rb < k2" "0 < n"
    and seq: "r_Seq ra = Some n" "r_Seq rb = Some n" and ns: "r_Namespace ra = ns" "r_Namespace rb = ns"
    using ra rb tx_read_number(2) [OF assms(2,1)] n by auto
  have s1: "s1 = s0\<lparr>pg_next := k2, pg_tables := (pg_tables s0)\<lparr>sq_messages := sq_messages (pg_tables s0) @ [rb]\<rparr>\<rparr>"
    and s2: "s2 = s0\<lparr>pg_next := k2, pg_tables := (pg_tables s0)\<lparr>sq_messages := sq_messages (pg_tables s0) @ [rb, ra]\<rparr>\<rparr>"
    using assms(6,7) by (auto simp: tx_commit_def on_tables_def committed_def)
  have old: "0 < r_Offset r \<and> r_Offset r < pg_next s0" if "r \<in> set (sq_messages (pg_tables s0))" for r
    using assms(1) that by (simp add: pg_ok_def)
  show "pg_ok s1" "pg_ok s2" using assms(1) bounds seq old by (fastforce simp: pg_ok_def s1 s2)+
  show "rows_of ns (pg_tables s1) = rows_of ns (pg_tables s0) @ [rb]"
    and rows2: "rows_of ns (pg_tables s2) = rows_of ns (pg_tables s0) @ [rb, ra]"
    using ns by (simp_all add: rows_of_def s1 s2)
  show "pg_log s1 ns = pg_log s0 ns @ [row_message rb]"
    using pg_log_append [of "[rb]" ns s0 s1 ns] old bounds ns by (fastforce simp: s1)
  show "r_Seq ra = Some n" "r_Seq rb = Some n" "r_Offset ra < r_Offset rb" "pg_next s0 \<le> r_Offset rb"
    using bounds seq by simp_all
  fix m assume "m \<in> set (pg_log s2 ns)"
  then consider "m = row_message rb" | "m = row_message ra"
    | x where "x \<in> set (sq_messages (pg_tables s0))" "m = row_message x"
    unfolding set_pg_log rows2 by (auto simp: rows_of_def)
  then show "m_Offset m \<le> r_Offset rb"
  proof cases
    case 3
    with old [of x] bounds show ?thesis by (simp add: row_message_def)
  qed (use bounds in \<open>auto simp: row_message_def\<close>)
qed

text \<open>C24: Two agents append at the same time and the one that drew the smaller offset commits
  last. Both messages get the same sequence number, and a subscriber that polls before, between and
  after the commits never sees the message that was committed last, neither as an event nor as a
  message, although it is in the log.\<close>

theorem pg_event_lost:
  assumes "pg_ok s0" and "tx_read ea ns s0 = Inr n" "tx_read eb ns s0 = Inr n'"
    and "tx_insert ea ns 0 n [a] (pg_next s0) = (Inr [ra], k1)" "tx_insert eb ns 0 n' [b] k1 = (Inr [rb], k2)"
    and "tx_commit None [rb] (s0\<lparr>pg_next := k2\<rparr>) = (None, s1)" "tx_commit None [ra] s1 = (None, s2)"
    and "\<forall>k i. Fault (es k) i = None"
  shows "pg_ok s2 \<and> row_message ra \<in> set (pg_log s2 ns) \<and> r_Seq ra = r_Seq rb \<and> r_Offset ra < r_Offset rb \<and>
    pg_SubscribeEvents es (\<lambda>_ _. False) ns s0 [s1, s2] 0 =
      map row_event (rows_after ns 0 (pg_tables s0)) @ [row_event rb] \<and>
    pg_Subscribe es (\<lambda>_ _. False) 0 ns [s0, s1, s2] 0 = pg_log s0 ns @ [row_message rb]"
proof -
  note two = late_commit [OF assms(1-7)]
  note ok = two(1,2) and seq = two(3,4) and R = two(7,8) and log1 = two(9)
  note reach = reached_below [OF assms(1,2)]
  then have after: "rows_after ns (reached ns s0) (pg_tables s1) = [rb]" "rows_after ns n (pg_tables s2) = []"
    using none_after [of ns "pg_tables s0" "reached ns s0"] none_after [of ns "pg_tables s0" n] seq
    by (simp_all add: rows_after_def R split: option.splits)
  have "pg_SubscribeEvents es (\<lambda>_ _. False) ns s0 [s1, s2] 0 =
      map row_event (rows_after ns 0 (pg_tables s0)) @ [row_event rb]"
    using after seq
    by (simp add: pg_SubscribeEvents_def sq_SubscribeEvents_def row_loop_all assms(8) reached_def Let_def split: if_splits)
  moreover have "pg_Subscribe es (\<lambda>_ _. False) 0 ns [s0, s1, s2] 0 = pg_log s0 ns @ [row_message rb]"
  proof -
    have "m_Offset (row_message rb) \<ge> pg_next s0" using two(6) by (simp add: row_message_def)
    note seen_log [OF assms(1) this, of ns]
    moreover have "filter (\<lambda>m. m_Offset (row_message rb) < m_Offset m) (pg_log s2 ns) = []"
      using two(10) by (fastforce simp: filter_empty_conv row_message_def)
    ultimately show ?thesis
      by (simp add: pg_Subscribe_first assms(1,8) ok log1 Let_def del: pg_Subscribe.simps(2))
  qed
  moreover have "row_message ra \<in> set (pg_log s2 ns)" by (simp add: set_pg_log R)
  ultimately show ?thesis using ok seq two(5) by simp
qed

text \<open>Two agents claim different files at the same moment; a subscriber learns of one claim only.\<close>

theorem pg_event_lost_witness:
  "let e = calm sample_time; a = claim_msg 1 5 (sample_claim ''a'' 60); b = claim_msg 2 5 (sample_claim ''b'' 60);
     ra = pg_row e ''n'' 0 1 1 a (map_option jsonb (m_Payload a));
     rb = pg_row e ''n'' 0 2 1 b (map_option jsonb (m_Payload b));
     s1 = snd (tx_commit None [rb] (pg_New\<lparr>pg_next := 3\<rparr>)); s2 = snd (tx_commit None [ra] s1)
   in row_message ra \<in> set (pg_log s2 ''n'') \<and>
     pg_Subscribe (\<lambda>_. e) (\<lambda>_ _. False) 0 ''n'' [pg_New, s1, s2] 0 = [row_message rb]"
proof -
  let ?e = "calm sample_time"
  let ?a = "claim_msg 1 5 (sample_claim ''a'' 60)" and ?b = "claim_msg 2 5 (sample_claim ''b'' 60)"
  let ?ra = "pg_row ?e ''n'' 0 1 1 ?a (map_option jsonb (m_Payload ?a))"
  let ?rb = "pg_row ?e ''n'' 0 2 1 ?b (map_option jsonb (m_Payload ?b))"
  let ?s1 = "snd (tx_commit None [?rb] (pg_New\<lparr>pg_next := 3\<rparr>))"
  let ?s2 = "snd (tx_commit None [?ra] ?s1)"
  have read: "tx_read ?e ''n'' pg_New = Inr 1"
    by (simp add: tx_read_def pg_New_def sq_New_def rows_of_def next_number_def List.map_filter_simps)
  have insert: "tx_insert ?e ''n'' 0 1 [?a] (pg_next pg_New) = (Inr [?ra], 2)"
      "tx_insert ?e ''n'' 0 1 [?b] 2 = (Inr [?rb], 3)"
    by (simp_all add: pg_New_def jsonb_value_def claim_msg_def)
  have commit: "tx_commit None rows s = (None, snd (tx_commit None rows s))" for rows s
    by (simp add: tx_commit_def on_tables_def committed_def)
  have empty: "pg_log pg_New ''n'' = []" by (simp add: pg_log_def sq_log_def pg_New_def sq_New_def rows_of_def)
  have "\<forall>k i. Fault ((\<lambda>_. ?e) (k::nat)) i = None" by simp
  from pg_event_lost [OF pg_ok_New read read insert commit commit this] empty show ?thesis
    by (simp only: Let_def append_Nil)
qed

section \<open>The contract of tasks\<close>

text \<open>The laws of \<open>task_store\<close>, from the ones of the tables.\<close>

lemma on_tables_snd: "pg_tables (snd (on_tables f s)) = snd (f (pg_tables s))"
  by (simp add: on_tables_def split: prod.split)

lemma micro_task_simps [simp]: "t_State (micro_task t) = t_State t" "t_ClaimID (micro_task t) = t_ClaimID t"
  by (simp_all add: micro_task_def)

lemma tx_commit_tasks: "sq_tasks (pg_tables (snd (tx_commit fault rows s))) = sq_tasks (pg_tables s)"
  unfolding tx_commit_def on_tables_snd by (rule committed_field) auto

interpretation pg_task: task_store postgres_provider "\<lambda>s. set (sq_tasks (pg_tables s))" pg_log
proof (unfold_locales, goal_cases)
  case (1 e ns t s r s' t')
  then show ?case
    using sq_task.create_stores [of e ns "micro_task t" "pg_tables s" r "pg_tables s'" t']
    by (auto simp: postgres_provider_def sqlite_provider_def pg_CreateTask_def on_tables_def split: prod.splits)
next
  case (2 e ns t s r s' t')
  then show ?case
    using sq_task.update_stores [of e ns "micro_task t" "pg_tables s" r "pg_tables s'" t']
    by (auto simp: postgres_provider_def sqlite_provider_def pg_UpdateTask_def on_tables_def split: prod.splits)
next
  case (3 e ns i s t)
  then show ?case
    using sq_task.get_stored [of e ns i "pg_tables s" t]
    by (simp add: postgres_provider_def sqlite_provider_def pg_GetTask_def)
next
  case (4 e ns msgs s)
  show ?case
    by (auto simp: postgres_provider_def pg_Append_def tx_commit_tasks split: sum.split prod.split)
next
  case (5 e ns msg s)
  show ?case
    by (auto simp: postgres_provider_def pg_SendMessage_def on_tables_snd
        intro!: committed_field [where f = "\<lambda>t. set (sq_tasks t)"])
next
  case (6 e ns i n hm s)
  show ?case
    using sq_task.history_tasks [of e ns i n hm "pg_tables s"]
    by (simp add: postgres_provider_def sqlite_provider_def pg_AppendTaskHistory_def on_tables_snd integer_column_def)
next
  case (7 e ns i art s)
  show ?case
    using sq_task.artifact_tasks [of e ns i art "pg_tables s"]
    by (simp add: postgres_provider_def sqlite_provider_def pg_CreateArtifact_def on_tables_snd integer_column_def)
next
  case (8 e ns t s)
  show ?case
    using sq_task.update_log [of e ns "micro_task t" "pg_tables s"]
    by (simp add: postgres_provider_def sqlite_provider_def pg_UpdateTask_def on_tables_snd pg_log_def fun_eq_iff)
qed

end
