(* ===== verification/Managed.thy ===== *)
theory Managed
  imports Client Http
begin

text \<open>
  The managed provider, \<open>internal/managed/managed.go\<close>: every operation is an HTTP request to a
  hosted server. The transport (\<open>http.Client\<close> and what answers it) is a parameter: a function
  from a request and the state of the outside world to an error or a response and the new state.
  A failed response is reported with its status code; the text of its body is left out of the
  error. \<open>json.Marshal\<close> is taken to succeed: instants lie in the years 1 to 9999.
\<close>

section \<open>Transport\<close>

text \<open>A request as the client builds it: the full URL, the headers set, and the JSON body.\<close>

record http_call =
  hc_Method :: string
  hc_URL :: string
  hc_Header :: "(string \<times> string) list"
  hc_Body :: raw

type_synonym 's net = "env \<Rightarrow> http_call \<Rightarrow> 's \<Rightarrow> (error + response) \<times> 's"

record managed =
  mg_endpoint :: string
  mg_token :: string

definition mg_New :: "string \<Rightarrow> string \<Rightarrow> managed" where
  "mg_New endpoint token = \<lparr>mg_endpoint = endpoint, mg_token = token\<rparr>"

definition content_type :: "(string \<times> string) list" where
  "content_type = [(''Content-Type'', ''application/json'')]"

definition bearer_header :: "managed \<Rightarrow> (string \<times> string) list" where
  "bearer_header m = (if mg_token m \<noteq> [] then [(''Authorization'', ''Bearer '' @ mg_token m)] else [])"

definition mg_do ::
  "'s net \<Rightarrow> managed \<Rightarrow> env \<Rightarrow> string \<Rightarrow> string \<Rightarrow> raw \<Rightarrow> 's \<Rightarrow> (error + response) \<times> 's" where
  "mg_do net m e meth url body s =
     net e \<lparr>hc_Method = meth, hc_URL = url, hc_Header = content_type @ bearer_header m, hc_Body = body\<rparr> s"

definition failed_status :: "string \<Rightarrow> response \<Rightarrow> error" where
  "failed_status what w = Errorf (what @ '': '' @ itoa (w_Status w))"

text \<open>A request whose response is only checked: \<open>good\<close> says which codes are.\<close>

definition status_only ::
  "string \<Rightarrow> (int \<Rightarrow> bool) \<Rightarrow> (error + response) \<times> 's \<Rightarrow> error option \<times> 's" where
  "status_only what good r =
     (case r of
        (Inl err, s') \<Rightarrow> (Some err, s')
      | (Inr w, s') \<Rightarrow> (if good (w_Status w) then None else Some (failed_status what w), s'))"

definition mg_post :: "'s net \<Rightarrow> managed \<Rightarrow> env \<Rightarrow> string \<Rightarrow> raw \<Rightarrow> 's \<Rightarrow> error option \<times> 's" where
  "mg_post net m e path body s =
     status_only (''managed '' @ path) (\<lambda>code. code < 300)
       (mg_do net m e ''POST'' (mg_endpoint m @ path) body s)"

text \<open>A request whose response is decoded.\<close>

definition response_raw :: "response \<Rightarrow> raw" where
  "response_raw w = (case w_Body w of Json j \<Rightarrow> Some j | _ \<Rightarrow> None)"

definition decoded_response ::
  "string \<Rightarrow> (int \<Rightarrow> bool) \<Rightarrow> (raw \<Rightarrow> 'a option) \<Rightarrow> (error + response) \<times> 's \<Rightarrow> (error + 'a) \<times> 's" where
  "decoded_response what good dec r =
     (case r of
        (Inl err, s') \<Rightarrow> (Inl err, s')
      | (Inr w, s') \<Rightarrow>
          (if \<not> good (w_Status w) then (Inl (failed_status what w), s')
           else case dec (response_raw w) of
             None \<Rightarrow> (Inl (ExternalError ''json''), s')
           | Some x \<Rightarrow> (Inr x, s')))"

text \<open>Decoding into a nil slice of structs: a nil slice and an empty one are the empty list.\<close>

definition decode_slice :: "(string \<times> 'r field) list \<Rightarrow> 'r \<Rightarrow> raw \<Rightarrow> 'r list option" where
  "decode_slice fs zero v =
     (case Unmarshal_slice fs zero v of
        (rs, ok) \<Rightarrow> if ok then Some (case rs of None \<Rightarrow> [] | Some xs \<Rightarrow> xs) else None)"

section \<open>JSON of the data that is sent\<close>

definition namespace_json :: "namespace \<Rightarrow> json" where
  "namespace_json ns = JObj [(''ID'', JStr (ns_ID ns)), (''CreatedAt'', time_json (ns_CreatedAt ns))]"

definition omit_payload :: "string \<Rightarrow> raw \<Rightarrow> (string \<times> json) list" where
  "omit_payload k r = (case r of None \<Rightarrow> [] | Some v \<Rightarrow> [(k, v)])"

definition a2a_task_json :: "a2a_task \<Rightarrow> json" where
  "a2a_task_json t = JObj ([(''id'', JStr (t_ID t))] @ omit_empty ''session_id'' (t_SessionID t)
     @ [(''state'', JStr (t_State t))] @ omit_payload ''status_message'' (t_StatusMsg t)
     @ [(''status_time'', time_json (t_StatusTime t))] @ omit_empty ''claim_id'' (t_ClaimID t)
     @ [(''namespace'', JStr (t_Namespace t))] @ omit_payload ''metadata'' (t_Metadata t)
     @ [(''created_at'', time_json (t_CreatedAt t))])"

definition a2a_message_json :: "a2a_message \<Rightarrow> json" where
  "a2a_message_json m = JObj ([(''role'', JStr (h_Role m)), (''parts'', raw_json (h_Parts m))]
     @ omit_payload ''metadata'' (h_Metadata m))"

definition a2a_artifact_json :: "a2a_artifact \<Rightarrow> json" where
  "a2a_artifact_json a = JObj ([(''name'', JStr (art_Name a))] @ omit_empty ''description'' (art_Description a)
     @ [(''parts'', raw_json (art_Parts a))]
     @ (if art_Index a = 0 then [] else [(''index'', JNum (art_Index a))])
     @ (if art_Append a then [(''append'', JBool True)] else [])
     @ (if art_LastChunk a then [(''last_chunk'', JBool True)] else [])
     @ omit_payload ''metadata'' (art_Metadata a))"

text \<open>The metadata of an audit event is a string that holds JSON text.\<close>

definition hex_digit :: "nat \<Rightarrow> char" where
  "hex_digit n = ''0123456789abcdef'' ! n"

definition quote_char :: "char \<Rightarrow> string" where
  "quote_char c =
     (let n = of_char c :: nat
      in if n = 34 \<or> n = 92 then [char_of (92 :: nat), c]
         else if n = 10 then [char_of (92 :: nat), CHR ''n'']
         else if n = 13 then [char_of (92 :: nat), CHR ''r'']
         else if n = 9 then [char_of (92 :: nat), CHR ''t'']
         else if n = 8 then [char_of (92 :: nat), CHR ''b'']
         else if n = 12 then [char_of (92 :: nat), CHR ''f'']
         else if n < 32 \<or> c \<in> set ''<>&'' then
           char_of (92 :: nat) # ''u00'' @ [hex_digit (n div 16), hex_digit (n mod 16)]
         else [c])"

definition quote :: "string \<Rightarrow> string" where
  "quote s = char_of (34 :: nat) # concat (map quote_char s) @ [char_of (34 :: nat)]"

fun json_text :: "json \<Rightarrow> string" where
  "json_text JNull = ''null''"
| "json_text (JBool b) = (if b then ''true'' else ''false'')"
| "json_text (JNum n) = itoa n"
| "json_text (JReal s) = s"
| "json_text (JStr s) = quote s"
| "json_text (JArr vs) = ''['' @ Join (map json_text vs) '','' @ '']''"
| "json_text (JObj kvs) = ''{'' @ Join (map (\<lambda>(k, v). quote k @ '':'' @ json_text v) kvs) '','' @ ''}''"

definition audit_json :: "audit_event \<Rightarrow> json" where
  "audit_json ev = JObj ([(''namespace'', JStr (ae_Namespace ev)), (''timestamp'', time_json (ae_Timestamp ev)),
     (''level'', JStr (ae_Level ev)), (''event_type'', JStr (ae_EventType ev))]
     @ omit_empty ''agent_id'' (ae_AgentID ev) @ omit_empty ''resource_uri'' (ae_ResourceURI ev)
     @ omit_empty ''outcome'' (ae_Outcome ev)
     @ omit_empty ''metadata'' (case ae_Metadata ev of None \<Rightarrow> [] | Some j \<Rightarrow> json_text j))"

section \<open>Decoding what comes back\<close>

definition strings_field :: "((string list \<Rightarrow> string list) \<Rightarrow> 'r \<Rightarrow> 'r) \<Rightarrow> 'r field" where
  "strings_field upd v r =
     (case v of
        JArr vs \<Rightarrow>
          (upd (\<lambda>_. map (\<lambda>v. case v of JStr s \<Rightarrow> s | _ \<Rightarrow> []) vs) r,
           list_all (\<lambda>v. case v of JStr s \<Rightarrow> True | JNull \<Rightarrow> True | _ \<Rightarrow> False) vs)
      | JNull \<Rightarrow> (upd (\<lambda>_. []) r, True)
      | _ \<Rightarrow> (r, False))"

definition agent_state_fields :: "(string \<times> agent_state field) list" where
  "agent_state_fields = [(''AgentID'', string_field as_AgentID_update),
     (''ActiveClaims'', strings_field as_ActiveClaims_update), (''LastSeen'', time_field as_LastSeen_update)]"

definition zero_agent_state :: agent_state where
  "zero_agent_state = \<lparr>as_AgentID = [], as_ActiveClaims = [], as_LastSeen = 0\<rparr>"

definition mailbox_fields :: "(string \<times> mailbox_message field) list" where
  "mailbox_fields = [(''message_id'', string_field mb_MessageID_update), (''from'', string_field mb_From_update),
     (''to'', string_field mb_To_update), (''type'', string_field mb_Type_update),
     (''content'', string_field mb_Content_update),
     (''related_claim_id'', string_field mb_RelatedClaimID_update), (''read'', bool_field mb_Read_update),
     (''archived'', bool_field mb_Archived_update), (''created_at'', time_field mb_CreatedAt_update),
     (''expires_at'', time_field mb_ExpiresAt_update)]"

definition zero_mailbox :: mailbox_message where
  "zero_mailbox = \<lparr>mb_MessageID = [], mb_From = [], mb_To = [], mb_Type = [], mb_Content = [],
     mb_RelatedClaimID = [], mb_Read = False, mb_Archived = False, mb_CreatedAt = 0, mb_ExpiresAt = 0\<rparr>"

definition a2a_task_fields :: "(string \<times> a2a_task field) list" where
  "a2a_task_fields = [(''id'', string_field t_ID_update), (''session_id'', string_field t_SessionID_update),
     (''state'', string_field t_State_update), (''status_message'', raw_field t_StatusMsg_update),
     (''status_time'', time_field t_StatusTime_update), (''claim_id'', string_field t_ClaimID_update),
     (''namespace'', string_field t_Namespace_update), (''metadata'', raw_field t_Metadata_update),
     (''created_at'', time_field t_CreatedAt_update)]"

definition zero_a2a_task :: a2a_task where
  "zero_a2a_task = \<lparr>t_ID = [], t_SessionID = [], t_State = [], t_StatusMsg = None, t_StatusTime = 0,
     t_ClaimID = [], t_Namespace = [], t_Metadata = None, t_CreatedAt = 0\<rparr>"

definition a2a_message_fields :: "(string \<times> a2a_message field) list" where
  "a2a_message_fields = [(''role'', string_field h_Role_update), (''parts'', raw_field h_Parts_update),
     (''metadata'', raw_field h_Metadata_update)]"

definition zero_a2a_message :: a2a_message where
  "zero_a2a_message = \<lparr>h_Role = [], h_Parts = None, h_Metadata = None\<rparr>"

definition a2a_artifact_fields :: "(string \<times> a2a_artifact field) list" where
  "a2a_artifact_fields = [(''name'', string_field art_Name_update),
     (''description'', string_field art_Description_update), (''parts'', raw_field art_Parts_update),
     (''index'', int_field art_Index_update), (''append'', bool_field art_Append_update),
     (''last_chunk'', bool_field art_LastChunk_update), (''metadata'', raw_field art_Metadata_update)]"

definition zero_a2a_artifact :: a2a_artifact where
  "zero_a2a_artifact = \<lparr>art_Name = [], art_Description = [], art_Parts = None, art_Index = 0,
     art_Append = False, art_LastChunk = False, art_Metadata = None\<rparr>"

section \<open>Namespaces and the log\<close>

definition mg_CreateNamespace :: "'s net \<Rightarrow> managed \<Rightarrow> env \<Rightarrow> namespace \<Rightarrow> 's \<Rightarrow> error option \<times> 's" where
  "mg_CreateNamespace net m e ns s = mg_post net m e ''/namespaces/create'' (Some (namespace_json ns)) s"

definition mg_DeleteNamespace :: "'s net \<Rightarrow> managed \<Rightarrow> env \<Rightarrow> string \<Rightarrow> 's \<Rightarrow> error option \<times> 's" where
  "mg_DeleteNamespace net m e namespaceID s =
     mg_post net m e ''/namespaces/delete'' (Some (JObj [(''id'', JStr namespaceID)])) s"

definition mg_Append :: "'s net \<Rightarrow> managed \<Rightarrow> env \<Rightarrow> string \<Rightarrow> message list \<Rightarrow> 's \<Rightarrow> error option \<times> 's" where
  "mg_Append net m e namespaceID msgs s =
     mg_post net m e ''/append''
       (Some (JObj [(''messages'', slice_json message_json msgs), (''namespace'', JStr namespaceID)])) s"

definition mg_Query ::
  "'s net \<Rightarrow> managed \<Rightarrow> env \<Rightarrow> string \<Rightarrow> query_opts \<Rightarrow> 's \<Rightarrow> (error + message list) \<times> 's" where
  "mg_Query net m e namespaceID opts s =
     (let q = mg_endpoint m @ ''/query?namespace='' @ namespaceID @ ''&since='' @ itoa (q_Since opts)
            @ (if q_AgentID opts \<noteq> [] then ''&agent='' @ q_AgentID opts else [])
            @ (if q_Limit opts > 0 then ''&limit='' @ itoa (q_Limit opts) else [])
      in decoded_response ''managed query'' (\<lambda>code. code < 300) (decode_slice message_fields zero_message)
           (if length (q_Types opts) > 0 then
              mg_do net m e ''POST'' (mg_endpoint m @ ''/query'')
                (Some (JObj [(''agent_id'', JStr (q_AgentID opts)), (''limit'', JNum (q_Limit opts)),
                   (''namespace'', JStr namespaceID), (''since'', JNum (q_Since opts)),
                   (''types'', JArr (map JStr (q_Types opts)))])) s
            else mg_do net m e ''GET'' q None s))"

definition mg_ActiveClaims ::
  "'s net \<Rightarrow> managed \<Rightarrow> env \<Rightarrow> string \<Rightarrow> string \<Rightarrow> 's \<Rightarrow> (error + claim list) \<times> 's" where
  "mg_ActiveClaims net m e namespaceID resourcePattern s =
     decoded_response ''managed claims'' (\<lambda>code. code < 300) (decode_slice claim_fields zero_claim)
       (mg_do net m e ''GET''
          (mg_endpoint m @ ''/claims?namespace='' @ namespaceID @ ''&resource='' @ resourcePattern) None s)"

definition mg_AgentState ::
  "'s net \<Rightarrow> managed \<Rightarrow> env \<Rightarrow> string \<Rightarrow> string \<Rightarrow> 's \<Rightarrow> (error + agent_state) \<times> 's" where
  "mg_AgentState net m e namespaceID agentID s =
     decoded_response ''managed hearsay'' (\<lambda>code. code < 300) (decode agent_state_fields zero_agent_state)
       (mg_do net m e ''GET''
          (mg_endpoint m @ ''/agents?namespace='' @ namespaceID @ ''&agent='' @ agentID) None s)"

definition mg_ReleaseExpired :: "'s net \<Rightarrow> managed \<Rightarrow> env \<Rightarrow> string \<Rightarrow> time \<Rightarrow> 's \<Rightarrow> error option \<times> 's" where
  "mg_ReleaseExpired net m e namespaceID before s =
     mg_post net m e ''/expire''
       (Some (JObj [(''before'', time_json before), (''namespace'', JStr namespaceID)])) s"

section \<open>Polling\<close>

text \<open>As for the in-memory provider: \<open>cancelled k i\<close> says whether the context is done at the i-th
  message of the k-th poll, and the list holds the environment and the outside state of each poll.\<close>

fun mg_send_loop :: "(nat \<Rightarrow> bool) \<Rightarrow> nat \<Rightarrow> message list \<Rightarrow> int \<Rightarrow> message list \<times> int \<times> bool" where
  "mg_send_loop cancelled i [] current = ([], current, False)"
| "mg_send_loop cancelled i (m # msgs) current =
     (if cancelled i then ([], current, True)
      else case mg_send_loop cancelled (Suc i) msgs (m_Offset m) of
        (sent, cur, stop) \<Rightarrow> (m # sent, cur, stop))"

fun mg_Subscribe ::
  "'s net \<Rightarrow> managed \<Rightarrow> (nat \<Rightarrow> nat \<Rightarrow> bool) \<Rightarrow> nat \<Rightarrow> string \<Rightarrow> (env \<times> 's) list \<Rightarrow> int \<Rightarrow> message list" where
  "mg_Subscribe net m cancelled k ns [] current = []"
| "mg_Subscribe net m cancelled k ns ((e, s) # polls) current =
     (case fst (mg_Query net m e ns (no_opts\<lparr>q_Since := current\<rparr>) s) of
        Inl err \<Rightarrow> []
      | Inr msgs \<Rightarrow>
          (case mg_send_loop (cancelled k) 0 msgs current of
             (sent, cur, stop) \<Rightarrow>
               sent @ (if stop then [] else mg_Subscribe net m cancelled (Suc k) ns polls cur)))"

definition msgTypeToEvent :: "string \<Rightarrow> string" where
  "msgTypeToEvent t =
     (if t = MsgClaim then EventClaim
      else if t = MsgRelease then EventRelease
      else if t = MsgHeartbeat then EventHeartbeat
      else t)"

definition mg_event :: "message \<Rightarrow> event" where
  "mg_event m = \<lparr>ev_Seq = m_Offset m, ev_Type = msgTypeToEvent (m_Type m), ev_Payload = m_Payload m,
     ev_Timestamp = m_Timestamp m\<rparr>"

text \<open>A failed poll is skipped here, while it ends \<open>Subscribe\<close>.\<close>

fun mg_SubscribeEvents ::
  "'s net \<Rightarrow> managed \<Rightarrow> (nat \<Rightarrow> nat \<Rightarrow> bool) \<Rightarrow> nat \<Rightarrow> string \<Rightarrow> (env \<times> 's) list \<Rightarrow> int \<Rightarrow> event list" where
  "mg_SubscribeEvents net m cancelled k ns [] since = []"
| "mg_SubscribeEvents net m cancelled k ns ((e, s) # polls) since =
     (case fst (mg_Query net m e ns (no_opts\<lparr>q_Since := since\<rparr>) s) of
        Inl err \<Rightarrow> mg_SubscribeEvents net m cancelled (Suc k) ns polls since
      | Inr msgs \<Rightarrow>
          (case mg_send_loop (cancelled k) 0 msgs since of
             (sent, cur, stop) \<Rightarrow>
               map mg_event sent
                 @ (if stop then [] else mg_SubscribeEvents net m cancelled (Suc k) ns polls cur)))"

section \<open>The mailbox\<close>

text \<open>The namespace of a sent message travels in a header only.\<close>

definition mg_SendMessage ::
  "'s net \<Rightarrow> managed \<Rightarrow> env \<Rightarrow> string \<Rightarrow> mailbox_message \<Rightarrow> 's \<Rightarrow> error option \<times> 's" where
  "mg_SendMessage net m e namespace msg s =
     status_only ''send message failed'' (\<lambda>code. code = 201)
       (net e \<lparr>hc_Method = ''POST'', hc_URL = mg_endpoint m @ ''/message'',
          hc_Header = content_type @ [(''X-Namespace'', namespace)] @ bearer_header m,
          hc_Body = Some (mailbox_json msg)\<rparr> s)"

definition mg_GetMailbox ::
  "'s net \<Rightarrow> managed \<Rightarrow> env \<Rightarrow> string \<Rightarrow> string \<Rightarrow> mailbox_query_opts \<Rightarrow> 's \<Rightarrow>
     (error + mailbox_message list) \<times> 's" where
  "mg_GetMailbox net m e namespace agentID opts s =
     decoded_response ''get mailbox failed'' (\<lambda>code. code = 200) (decode_slice mailbox_fields zero_mailbox)
       (net e \<lparr>hc_Method = ''GET'',
          hc_URL = mg_endpoint m @ ''/mailbox?namespace='' @ namespace @ ''&agent_id='' @ agentID
            @ (if mq_Unread opts then ''&unread=true'' else []),
          hc_Header = bearer_header m, hc_Body = None\<rparr> s)"

definition mg_action :: "'s net \<Rightarrow> managed \<Rightarrow> env \<Rightarrow> string \<Rightarrow> string \<Rightarrow> string \<Rightarrow> string \<Rightarrow> 's \<Rightarrow> error option \<times> 's" where
  "mg_action net m e what path namespace messageID s =
     status_only what (\<lambda>code. code = 200)
       (mg_do net m e ''POST'' (mg_endpoint m @ path)
          (Some (JObj [(''message_id'', JStr messageID), (''namespace'', JStr namespace)])) s)"

definition mg_MarkRead :: "'s net \<Rightarrow> managed \<Rightarrow> env \<Rightarrow> string \<Rightarrow> string \<Rightarrow> 's \<Rightarrow> error option \<times> 's" where
  "mg_MarkRead net m e namespace messageID s =
     mg_action net m e ''mark read failed'' ''/message/read'' namespace messageID s"

definition mg_ArchiveMessage :: "'s net \<Rightarrow> managed \<Rightarrow> env \<Rightarrow> string \<Rightarrow> string \<Rightarrow> 's \<Rightarrow> error option \<times> 's" where
  "mg_ArchiveMessage net m e namespace messageID s =
     mg_action net m e ''archive failed'' ''/message/archive'' namespace messageID s"

definition mg_ExpireMessages :: "'s net \<Rightarrow> managed \<Rightarrow> env \<Rightarrow> string \<Rightarrow> time \<Rightarrow> 's \<Rightarrow> error option \<times> 's" where
  "mg_ExpireMessages net m e namespace before s = (None, s)"

section \<open>Tasks and the audit trail\<close>

definition mg_CreateTask :: "'s net \<Rightarrow> managed \<Rightarrow> env \<Rightarrow> string \<Rightarrow> a2a_task \<Rightarrow> 's \<Rightarrow> error option \<times> 's" where
  "mg_CreateTask net m e namespace t s =
     mg_post net m e ''/tasks/create''
       (Some (JObj [(''namespace'', JStr namespace), (''task'', a2a_task_json t)])) s"

definition mg_GetTask ::
  "'s net \<Rightarrow> managed \<Rightarrow> env \<Rightarrow> string \<Rightarrow> string \<Rightarrow> 's \<Rightarrow> (error + a2a_task) \<times> 's" where
  "mg_GetTask net m e namespace taskID s =
     decoded_response ''managed get task'' (\<lambda>code. code < 300) (decode a2a_task_fields zero_a2a_task)
       (mg_do net m e ''GET'' (mg_endpoint m @ ''/tasks/get?namespace='' @ namespace @ ''&id='' @ taskID) None s)"

definition mg_UpdateTask :: "'s net \<Rightarrow> managed \<Rightarrow> env \<Rightarrow> string \<Rightarrow> a2a_task \<Rightarrow> 's \<Rightarrow> error option \<times> 's" where
  "mg_UpdateTask net m e namespace t s =
     mg_post net m e ''/tasks/update''
       (Some (JObj [(''namespace'', JStr namespace), (''task'', a2a_task_json t)])) s"

definition mg_AppendTaskHistory ::
  "'s net \<Rightarrow> managed \<Rightarrow> env \<Rightarrow> string \<Rightarrow> string \<Rightarrow> int \<Rightarrow> a2a_message \<Rightarrow> 's \<Rightarrow> error option \<times> 's" where
  "mg_AppendTaskHistory net m e namespace taskID seq msg s =
     mg_post net m e ''/tasks/history''
       (Some (JObj [(''message'', a2a_message_json msg), (''namespace'', JStr namespace), (''seq'', JNum seq),
          (''task_id'', JStr taskID)])) s"

definition mg_GetTaskHistory ::
  "'s net \<Rightarrow> managed \<Rightarrow> env \<Rightarrow> string \<Rightarrow> string \<Rightarrow> int \<Rightarrow> 's \<Rightarrow> (error + a2a_message list) \<times> 's" where
  "mg_GetTaskHistory net m e namespace taskID limit s =
     decoded_response ''managed get task history'' (\<lambda>code. code < 300)
       (decode_slice a2a_message_fields zero_a2a_message)
       (mg_do net m e ''GET'' (mg_endpoint m @ ''/tasks/history?namespace='' @ namespace @ ''&id='' @ taskID
          @ ''&limit='' @ itoa limit) None s)"

definition mg_CreateArtifact ::
  "'s net \<Rightarrow> managed \<Rightarrow> env \<Rightarrow> string \<Rightarrow> string \<Rightarrow> a2a_artifact \<Rightarrow> 's \<Rightarrow> error option \<times> 's" where
  "mg_CreateArtifact net m e namespace taskID art s =
     mg_post net m e ''/tasks/artifact''
       (Some (JObj [(''artifact'', a2a_artifact_json art), (''namespace'', JStr namespace),
          (''task_id'', JStr taskID)])) s"

definition mg_GetArtifacts ::
  "'s net \<Rightarrow> managed \<Rightarrow> env \<Rightarrow> string \<Rightarrow> string \<Rightarrow> 's \<Rightarrow> (error + a2a_artifact list) \<times> 's" where
  "mg_GetArtifacts net m e namespace taskID s =
     decoded_response ''managed get artifacts'' (\<lambda>code. code < 300)
       (decode_slice a2a_artifact_fields zero_a2a_artifact)
       (mg_do net m e ''GET'' (mg_endpoint m @ ''/tasks/artifacts?namespace='' @ namespace @ ''&id='' @ taskID)
          None s)"

definition mg_AppendAudit ::
  "'s net \<Rightarrow> managed \<Rightarrow> env \<Rightarrow> string \<Rightarrow> audit_event list \<Rightarrow> 's \<Rightarrow> error option \<times> 's" where
  "mg_AppendAudit net m e namespaceID events s =
     status_only ''managed AppendAudit'' (\<lambda>code. code = 200)
       (mg_do net m e ''POST'' (mg_endpoint m @ ''/audit?namespace='' @ namespaceID)
          (Some (slice_json audit_json events)) s)"

section \<open>The provider\<close>

text \<open>The interface record drops the state after a read; over the repository's own server reads do
  not change it.\<close>

definition managed_provider :: "'s net \<Rightarrow> managed \<Rightarrow> 's provider" where
  "managed_provider net m =
     \<lparr>p_CreateNamespace = mg_CreateNamespace net m, p_DeleteNamespace = mg_DeleteNamespace net m,
      p_Append = mg_Append net m, p_Query = (\<lambda>e ns opts s. fst (mg_Query net m e ns opts s)),
      p_ActiveClaims = (\<lambda>e ns pat s. fst (mg_ActiveClaims net m e ns pat s)),
      p_AgentState = (\<lambda>e ns a s. fst (mg_AgentState net m e ns a s)),
      p_ReleaseExpired = mg_ReleaseExpired net m, p_SendMessage = mg_SendMessage net m,
      p_GetMailbox = (\<lambda>e ns a opts s. fst (mg_GetMailbox net m e ns a opts s)),
      p_MarkRead = mg_MarkRead net m, p_ArchiveMessage = mg_ArchiveMessage net m,
      p_ExpireMessages = mg_ExpireMessages net m, p_CreateTask = mg_CreateTask net m,
      p_GetTask = (\<lambda>e ns i s. fst (mg_GetTask net m e ns i s)), p_UpdateTask = mg_UpdateTask net m,
      p_AppendTaskHistory = mg_AppendTaskHistory net m,
      p_GetTaskHistory = (\<lambda>e ns i n s. fst (mg_GetTaskHistory net m e ns i n s)),
      p_CreateArtifact = mg_CreateArtifact net m,
      p_GetArtifacts = (\<lambda>e ns i s. fst (mg_GetArtifacts net m e ns i s)),
      p_AppendAudit = mg_AppendAudit net m\<rparr>"

end
