(* ===== verification/Subscriptions.thy ===== *)
theory Subscriptions
  imports MemoryFacts SqliteFacts Managed
begin

text \<open>
  \<open>Subscribe\<close> of the SQLite provider, \<open>internal/sqlite/sqlite.go\<close>: a goroutine that polls \<open>Query\<close> every half
  second and ends at the first error. \<open>cancelled k i\<close> says whether the context is cancelled at the \<open>i\<close>-th
  message of the \<open>k\<close>-th poll, and the list holds the environment and the database of each poll.
\<close>

fun sq_send_loop :: "(nat \<Rightarrow> bool) \<Rightarrow> nat \<Rightarrow> message list \<Rightarrow> int \<Rightarrow> message list \<times> int \<times> bool" where
  "sq_send_loop cancelled i [] current = ([], current, False)"
| "sq_send_loop cancelled i (m # msgs) current =
     (if cancelled i then ([], current, True)
      else case sq_send_loop cancelled (Suc i) msgs (m_Offset m) of
        (sent, cur, stop) \<Rightarrow> (m # sent, cur, stop))"

fun sq_Subscribe ::
  "(nat \<Rightarrow> nat \<Rightarrow> bool) \<Rightarrow> nat \<Rightarrow> string \<Rightarrow> (env \<times> sqlite) list \<Rightarrow> int \<Rightarrow> message list" where
  "sq_Subscribe cancelled k ns [] current = []"
| "sq_Subscribe cancelled k ns ((e, s) # polls) current =
     (case sq_Query e ns (no_opts\<lparr>q_Since := current\<rparr>) s of
        Inl err \<Rightarrow> []
      | Inr msgs \<Rightarrow>
          (case sq_send_loop (cancelled k) 0 msgs current of
             (sent, cur, stop) \<Rightarrow>
               sent @ (if stop then [] else sq_Subscribe cancelled (Suc k) ns polls cur)))"

lemma sq_send_all: "sq_send_loop (\<lambda>_. False) i msgs cur = (msgs, if msgs = [] then cur else m_Offset (last msgs), False)"
  by (induction msgs arbitrary: i cur) auto

text \<open>The messages of a log above an offset.\<close>

definition later :: "int \<Rightarrow> message list \<Rightarrow> message list" where
  "later since msgs = filter (\<lambda>m. since < m_Offset m) msgs"

lemma sq_Query_later:
  "Fault e 0 = None \<Longrightarrow> Fault e 1 = None \<Longrightarrow>
   sq_Query e ns (no_opts\<lparr>q_Since := since\<rparr>) s = Inr (later since (sq_log s ns))"
proof -
  assume fine: "Fault e 0 = None" "Fault e 1 = None"
  then obtain ms where ms: "sq_Query e ns (no_opts\<lparr>q_Since := since\<rparr>) s = Inr ms"
    by (simp add: sq_Query_def exec_def bindE_def Let_def)
  from sq_Query_eq [OF this] show ?thesis
    unfolding ms by (simp add: query_result_def limited_def no_opts_def query_matches_def [abs_def] later_def)
qed

text \<open>After the messages of a log have been sent, only what is appended to it remains to send.\<close>

lemma later_append:
  assumes "increasing (xs @ ys)"
  shows "later since (xs @ ys) = later since xs
    @ later (if later since xs = [] then since else m_Offset (last (later since xs))) (xs @ ys)"
proof (cases "later since xs = []")
  case False
  let ?m = "last (later since xs)"
  have m: "?m \<in> set xs" "since < m_Offset ?m"
    using last_in_set [OF False] by (auto simp: later_def)
  have "later (m_Offset ?m) xs = []"
  proof -
    have "x \<in> set xs \<Longrightarrow> m_Offset x \<le> m_Offset ?m" for x
    proof (cases "since < m_Offset x")
      case True
      have "increasing (later since xs)"
        using assms
        by (simp add: later_def increasing_def sorted_wrt_append sorted_wrt_map sorted_wrt_filter)
      moreover assume "x \<in> set xs"
      with True have "x \<in> set (later since xs)" by (simp add: later_def)
      ultimately show ?thesis
        using False by (cases "later since xs" rule: rev_cases) (auto simp: increasing_append order_less_imp_le)
    qed (use m in auto)
    then show ?thesis by (auto simp: later_def filter_empty_conv not_less)
  qed
  moreover have "later (m_Offset ?m) ys = ys" "later since ys = ys"
    using assms m by (auto simp: later_def increasing_append intro!: filter_True intro: less_trans [OF m(2)])
  ultimately show ?thesis using False by (simp add: later_def)
qed (simp add: later_def)

text \<open>A subscriber that is not cancelled receives each message above its offset once and in order, as long
  as no poll fails.\<close>

lemma sq_Subscribe_eq:
  assumes "growing (map (\<lambda>(e, s). sq_log s ns) polls)" "polls \<noteq> []"
    and "\<forall>(e, s) \<in> set polls. sq_ok s \<and> Fault e 0 = None \<and> Fault e 1 = None"
  shows "sq_Subscribe (\<lambda>_ _. False) k ns polls since = later since (sq_log (snd (last polls)) ns)"
  using assms
proof (induction polls arbitrary: k since)
  case (Cons p polls)
  obtain e s where p: "p = (e, s)" by fastforce
  then have q: "sq_Query e ns (no_opts\<lparr>q_Since := cur\<rparr>) s = Inr (later cur (sq_log s ns))" for cur
    using Cons.prems(3) by (intro sq_Query_later) auto
  show ?case
  proof (cases "polls = []")
    case False
    then have gr: "growing (map (\<lambda>(e, s). sq_log s ns) polls)" using Cons.prems(1) by (cases polls) auto
    obtain zs where zs: "sq_log (snd (last polls)) ns = sq_log s ns @ zs"
      using growing_last [of "sq_log s ns" "map (\<lambda>q. sq_log (snd q) ns) polls"] Cons.prems(1) False
      by (auto simp: p last_map split_beta)
    have "sq_ok (snd (last polls))" using Cons.prems(3) last_in_set [OF False] by (cases "last polls") auto
    then have "increasing (sq_log s ns @ zs)" using sq_log_increasing zs by metis
    from later_append [OF this, of since] show ?thesis
      using Cons.IH [OF gr False] Cons.prems(3) False by (simp add: p q sq_send_all zs)
  qed (simp add: p q sq_send_all)
qed simp

text \<open>The first failing poll ends the subscription for good.\<close>

lemma sq_Subscribe_stops: "Fault e 0 = Some err \<Longrightarrow> sq_Subscribe cancelled k ns ((e, s) # polls) since = []"
  by (simp add: sq_Query_def exec_def bindE_def)

end
