(* ===== verification/Url.thy ===== *)
theory Url
  imports Http
begin

text \<open>
  What the HTTP client of \<open>internal/managed\<close> and the query parameters of the server use of
  \<open>net/url\<close>: cutting a URL into path, query and fragment, and \<open>ParseQuery\<close>.
\<close>

section \<open>Cutting strings\<close>

text \<open>\<open>strings.Cut\<close> at a character.\<close>

fun cut :: "char \<Rightarrow> string \<Rightarrow> string \<times> string" where
  "cut c [] = ([], [])"
| "cut c (d # s) = (if d = c then ([], s) else (case cut c s of (u, v) \<Rightarrow> (d # u, v)))"

fun split_char :: "char \<Rightarrow> string \<Rightarrow> string list" where
  "split_char c [] = [[]]"
| "split_char c (d # s) =
     (if d = c then [] # split_char c s
      else (case split_char c s of u # us \<Rightarrow> (d # u) # us | [] \<Rightarrow> [[d]]))"

lemma cut_append: "c \<notin> set u \<Longrightarrow> cut c (u @ c # v) = (u, v)"
  by (induction u) auto

lemma cut_none: "c \<notin> set u \<Longrightarrow> cut c u = (u, [])"
  by (induction u) auto

lemma split_char_none: "c \<notin> set u \<Longrightarrow> split_char c u = [u]"
  by (induction u) auto

lemma split_char_append: "c \<notin> set u \<Longrightarrow> split_char c (u @ c # v) = u # split_char c v"
  by (induction u) auto

section \<open>Escapes\<close>

definition hex_val :: "char \<Rightarrow> nat option" where
  "hex_val c = map_of (zip ''0123456789abcdefABCDEF'' ([0..<16] @ [10..<16])) c"

text \<open>\<open>QueryUnescape\<close>; \<open>None\<close> is its error.\<close>

fun unescape :: "string \<Rightarrow> string option" where
  "unescape [] = Some []"
| "unescape (c # s) =
     (if c = CHR ''%'' then
        (case s of
           a # b # s' \<Rightarrow>
             (case (hex_val a, hex_val b) of
                (Some x, Some y) \<Rightarrow> map_option (\<lambda>t. char_of (16 * x + y) # t) (unescape s')
              | _ \<Rightarrow> None)
         | _ \<Rightarrow> None)
      else if c = CHR ''+'' then map_option (\<lambda>t. CHR '' '' # t) (unescape s)
      else map_option (\<lambda>t. c # t) (unescape s))"

text \<open>One pair of a query; an ill-formed one is dropped.\<close>

definition query_pair :: "string \<Rightarrow> (string \<times> string) option" where
  "query_pair kv =
     (if kv = [] \<or> CHR '';'' \<in> set kv then None
      else case cut (CHR ''='') kv of
        (k, v) \<Rightarrow> (case (unescape k, unescape v) of (Some k', Some v') \<Rightarrow> Some (k', v') | _ \<Rightarrow> None))"

definition parse_query :: "string \<Rightarrow> (string \<times> string) list" where
  "parse_query q = List.map_filter query_pair (split_char (CHR ''&'') q)"

text \<open>\<open>Values.Get\<close> and \<open>Header.Get\<close>: the first value of the key.\<close>

definition first_value :: "(string \<times> string) list \<Rightarrow> string \<Rightarrow> string" where
  "first_value kvs k = (case map_of kvs k of None \<Rightarrow> [] | Some v \<Rightarrow> v)"

section \<open>Text that needs no escape\<close>

definition control :: "char \<Rightarrow> bool" where
  "control c \<longleftrightarrow> of_char c < (32 :: nat) \<or> of_char c = (127 :: nat)"

definition plain :: "string \<Rightarrow> bool" where
  "plain s \<longleftrightarrow> list_all (\<lambda>c. c \<notin> set ''&+%#; '' \<and> \<not> control c) s"

lemma plain_append [simp]: "plain (s @ t) \<longleftrightarrow> plain s \<and> plain t"
  by (simp add: plain_def)

lemma plain_simps [simp]: "plain []" "plain (c # s) \<longleftrightarrow> c \<notin> set ''&+%#; '' \<and> \<not> control c \<and> plain s"
  by (simp_all add: plain_def)

lemma plain_utoa: "plain (utoa n)"
proof (induction n rule: utoa.induct)
  case (1 n)
  have "plain [digit_char d]" if "d < 10" for d
    using less_10_cases [OF that] by (auto simp: digit_char_def control_def)
  with 1 show ?case by (subst utoa.simps) (simp del: plain_simps)
qed

lemma plain_itoa [simp]: "plain (itoa i)"
  by (simp add: itoa_def plain_utoa control_def)

lemma plain_chars:
  assumes "plain s"
  shows "CHR ''&'' \<notin> set s" "CHR '';'' \<notin> set s" "CHR ''#'' \<notin> set s" "CHR '' '' \<notin> set s" "\<not> list_ex control s"
  using assms by (auto simp: plain_def list_all_iff list_ex_iff)

lemma unescape_plain: "plain s \<Longrightarrow> unescape s = Some s"
  by (induction s) auto

text \<open>What a list of pairs looks like in a URL, and that it is read back when nothing needs an escape.\<close>

definition query_of :: "(string \<times> string) list \<Rightarrow> string" where
  "query_of kvs = Join (map (\<lambda>(k, v). k @ ''='' @ v) kvs) ''&''"

lemma query_pair_plain:
  assumes "plain k" "plain v" "CHR ''='' \<notin> set k"
  shows "query_pair (k @ ''='' @ v) = Some (k, v)"
  using assms plain_chars [OF assms(1)] plain_chars [OF assms(2)]
  by (auto simp: query_pair_def cut_append unescape_plain)

lemma parse_query_of:
  assumes "kvs \<noteq> []" "\<forall>(k, v) \<in> set kvs. plain k \<and> plain v \<and> CHR ''='' \<notin> set k"
  shows "parse_query (query_of kvs) = kvs"
  using assms
proof (induction kvs rule: induct_list012)
  case (2 x)
  obtain k v where x: "x = (k, v)" by fastforce
  with 2 have kv: "plain k" "plain v" "CHR ''='' \<notin> set k" by auto
  then have "CHR ''&'' \<notin> set (k @ ''='' @ v)" using plain_chars(1) by auto
  then show ?case
    using query_pair_plain [OF kv]
    by (simp add: x query_of_def parse_query_def split_char_none List.map_filter_simps)
next
  case (3 x y kvs)
  obtain k v where x: "x = (k, v)" by fastforce
  with 3 have kv: "plain k" "plain v" "CHR ''='' \<notin> set k" by auto
  then have no: "CHR ''&'' \<notin> set (k @ ''='' @ v)" using plain_chars(1) by auto
  have "parse_query (query_of (y # kvs)) = y # kvs" using 3 by simp
  moreover have "query_of (x # y # kvs) = (k @ ''='' @ v) @ CHR ''&'' # query_of (y # kvs)"
    by (simp add: x query_of_def)
  ultimately show ?case
    using query_pair_plain [OF kv] unfolding parse_query_def
    by (simp only: split_char_append [OF no]) (simp add: List.map_filter_simps x)
qed simp

lemma control_separators: "\<not> control (CHR ''&'')" "\<not> control (CHR ''='')"
  by (simp_all add: control_def)

lemma plain_query_of:
  "\<forall>(k, v) \<in> set kvs. plain k \<and> plain v \<Longrightarrow>
   CHR ''#'' \<notin> set (query_of kvs) \<and> CHR '' '' \<notin> set (query_of kvs) \<and> \<not> list_ex control (query_of kvs)"
proof (induction kvs rule: induct_list012)
  case (2 x)
  then show ?case using plain_chars control_separators by (auto simp: query_of_def split: prod.splits)
next
  case (3 x y kvs)
  then show ?case using plain_chars control_separators by (auto simp: query_of_def split: prod.splits)
qed (simp add: query_of_def)

end
