(* ===== verification/Mailbox.thy ===== *)
theory Mailbox
  imports MemoryFacts Validation
begin

text \<open>
  The mailbox service, \<open>internal/mailbox/mailbox.go\<close>: it validates and completes a message before
  it hands it to the provider, and passes the other operations on.
\<close>

section \<open>The service\<close>

text \<open>The id comes from \<open>uuid.New\<close>; \<open>CreatedAt\<close> and \<open>ExpiresAt\<close> read the clock once each.\<close>

definition mailbox_Send ::
  "'s provider \<Rightarrow> envs \<Rightarrow> string \<Rightarrow> string \<Rightarrow> string \<Rightarrow> string \<Rightarrow> string \<Rightarrow> string \<Rightarrow> int \<Rightarrow> 's \<Rightarrow>
     (error + string) \<times> 's" where
  "mailbox_Send P es ns from to msgType content relatedClaimID ttlSeconds s =
     (if \<not> IsValidMailboxType msgType then (Inl (Errorf (''invalid message type: '' @ msgType)), s)
      else if content = [] then (Inl (Errorf ''content cannot be empty''), s)
      else if from = [] then (Inl (Errorf ''from cannot be empty''), s)
      else if to = [] then (Inl (Errorf ''to cannot be empty''), s)
      else
        let ttl = (if ttlSeconds \<le> 0 then 300 else ttlSeconds);
            msg = \<lparr>mb_MessageID = Uuid (es 0) 0, mb_From = from, mb_To = to, mb_Type = msgType,
              mb_Content = content, mb_RelatedClaimID = relatedClaimID, mb_Read = False,
              mb_Archived = False, mb_CreatedAt = Now (es 0) 0,
              mb_ExpiresAt = Now (es 0) 1 + seconds ttl\<rparr>
        in case p_SendMessage P (es 1) ns msg s of
             (Some err, s') \<Rightarrow> (Inl err, s')
           | (None, s') \<Rightarrow> (Inr (mb_MessageID msg), s'))"

definition mailbox_GetMailbox ::
  "'s provider \<Rightarrow> env \<Rightarrow> string \<Rightarrow> string \<Rightarrow> mailbox_query_opts \<Rightarrow> 's \<Rightarrow> error + mailbox_message list" where
  "mailbox_GetMailbox P e ns agentID opts s = p_GetMailbox P e ns agentID opts s"

definition mailbox_MarkRead :: "'s provider \<Rightarrow> env \<Rightarrow> string \<Rightarrow> string \<Rightarrow> 's \<Rightarrow> error option \<times> 's" where
  "mailbox_MarkRead P e ns mid s = p_MarkRead P e ns mid s"

definition mailbox_Archive :: "'s provider \<Rightarrow> env \<Rightarrow> string \<Rightarrow> string \<Rightarrow> 's \<Rightarrow> error option \<times> 's" where
  "mailbox_Archive P e ns mid s = p_ArchiveMessage P e ns mid s"

definition mailbox_Expire :: "'s provider \<Rightarrow> envs \<Rightarrow> string \<Rightarrow> 's \<Rightarrow> error option \<times> 's" where
  "mailbox_Expire P es ns s = p_ExpireMessages P (es 1) ns (Now (es 0) 0) s"

section \<open>Delivery\<close>

lemma mailbox_Send_refused:
  "mailbox_Send P es ns from to ty content rel ttl s = (Inl err, s') \<Longrightarrow>
   ty \<notin> set ValidMailboxTypes \<or> content = [] \<or> from = [] \<or> to = [] \<Longrightarrow> s' = s"
  by (auto simp: mailbox_Send_def IsValidMailboxType_def split: if_splits)

lemma mailbox_Send_memory:
  assumes "ty \<in> set ValidMailboxTypes" "content \<noteq> []" "from \<noteq> []" "to \<noteq> []"
  shows "mailbox_Send memory_provider es ns from to ty content rel ttl s =
    (Inr (Uuid (es 0) 0), s\<lparr>mem_mailbox := (mem_mailbox s)(ns \<mapsto> go_get [] (mem_mailbox s) ns @
      [fill_times (Now (es 1) 0) \<lparr>mb_MessageID = Uuid (es 0) 0, mb_From = from, mb_To = to, mb_Type = ty,
        mb_Content = content, mb_RelatedClaimID = rel, mb_Read = False, mb_Archived = False,
        mb_CreatedAt = Now (es 0) 0,
        mb_ExpiresAt = Now (es 0) 1 + seconds (if ttl \<le> 0 then 300 else ttl)\<rparr>])\<rparr>)"
  using assms by (simp add: mailbox_Send_def IsValidMailboxType_def mem_SendMessage_def Let_def)



end
