(* ===== verification/RateLimit.thy ===== *)
theory RateLimit
  imports Types
begin

text \<open>
  The rate limiter of the HTTP server, \<open>internal/server/ratelimit.go\<close>: per agent the times of the
  admitted requests of the last second. The theorems characterise the decision exactly and bound
  the admitted requests of every window of one second.
\<close>

section \<open>The limiter\<close>

record rate_limiter =
  rl_perAgent :: "string \<rightharpoonup> time list"
  rl_limit :: int

text \<open>The parameter \<open>burst\<close> is not used.\<close>

definition NewRateLimiter :: "int \<Rightarrow> int \<Rightarrow> rate_limiter" where
  "NewRateLimiter limit burst = \<lparr>rl_perAgent = Map.empty, rl_limit = limit\<rparr>"

text \<open>The loop that looks for the first timestamp inside the window; \<open>cutoff\<close> is its initial
  value \<open>len(timestamps)\<close>.\<close>

fun cutoff_loop :: "time \<Rightarrow> nat \<Rightarrow> time list \<Rightarrow> nat \<Rightarrow> nat" where
  "cutoff_loop windowStart i [] cutoff = cutoff"
| "cutoff_loop windowStart i (ts # rest) cutoff =
     (if ts > windowStart then i else cutoff_loop windowStart (Suc i) rest cutoff)"

text \<open>The verdict on a request, with the values of the three rate limit headers.\<close>

record verdict =
  v_Limited :: bool
  v_Limit :: int
  v_Remaining :: int
  v_Reset :: int

definition rl_check :: "string \<Rightarrow> time \<Rightarrow> rate_limiter \<Rightarrow> verdict \<times> rate_limiter" where
  "rl_check agentID now rl =
     (let windowStart = now - nanos_per_second;
          stored = (case rl_perAgent rl agentID of None \<Rightarrow> [] | Some ts \<Rightarrow> ts);
          timestamps = drop (cutoff_loop windowStart 0 stored (length stored)) stored;
          count = int (length timestamps);
          limited = (count \<ge> rl_limit rl);
          rl' = (if \<not> limited then rl\<lparr>rl_perAgent := (rl_perAgent rl)(agentID \<mapsto> timestamps @ [now])\<rparr>
                 else rl);
          remaining = rl_limit rl - count - 1
      in (\<lparr>v_Limited = limited, v_Limit = rl_limit rl,
           v_Remaining = (if remaining < 0 then 0 else remaining), v_Reset = Unix now + 1\<rparr>, rl'))"

text \<open>A header that is missing or empty makes the agent \<open>unknown\<close>.\<close>

definition rl_agent :: "string \<Rightarrow> string" where
  "rl_agent header = (if header = [] then ''unknown'' else header)"

text \<open>A sequence of requests of agents at times: those that are admitted.\<close>

fun rl_run :: "(string \<times> time) list \<Rightarrow> rate_limiter \<Rightarrow> (string \<times> time) list \<times> rate_limiter" where
  "rl_run [] rl = ([], rl)"
| "rl_run ((a, now) # reqs) rl =
     (case rl_check a now rl of
        (v, rl') \<Rightarrow> (case rl_run reqs rl' of
          (adm, rl'') \<Rightarrow> (if v_Limited v then adm else (a, now) # adm, rl'')))"

section \<open>The window\<close>

lemma cutoff_loop_eq:
  "cutoff_loop w i ts (i + length ts) = i + length (takeWhile (\<lambda>t. \<not> t > w) ts)"
  by (induction ts arbitrary: i) (auto simp flip: add_Suc)

lemma evict_eq: "drop (cutoff_loop w 0 ts (length ts)) ts = dropWhile (\<lambda>t. \<not> t > w) ts"
  using cutoff_loop_eq [of w 0 ts] by (simp add: dropWhile_eq_drop)

lemma dropWhile_sorted: "sorted ts \<Longrightarrow> dropWhile (\<lambda>t. \<not> t > (w::time)) ts = filter (\<lambda>t. t > w) ts"
proof (induction ts)
  case (Cons a ts)
  show ?case
  proof (cases "a > w")
    case True
    with Cons.prems have "\<forall>t \<in> set ts. w < t" by (auto intro: order.strict_trans2)
    with True show ?thesis by simp
  qed (use Cons in simp)
qed simp

definition times_of :: "string \<Rightarrow> (string \<times> time) list \<Rightarrow> time list" where
  "times_of a reqs = map snd (filter (\<lambda>r. fst r = a) reqs)"

lemma times_of_simps [simp]:
  "times_of a [] = []" "times_of a (r # rs) = (if fst r = a then snd r # times_of a rs else times_of a rs)"
  "times_of a (rs @ rs') = times_of a rs @ times_of a rs'"
  by (simp_all add: times_of_def)

text \<open>The state after a history \<open>adm\<close> of admitted requests, the last request having come at \<open>T\<close>:
  what is stored of an agent are its admitted times, less some that are out of every later
  window.\<close>

definition rl_inv :: "(string \<times> time) list \<Rightarrow> time \<Rightarrow> rate_limiter \<Rightarrow> bool" where
  "rl_inv adm T rl \<longleftrightarrow> (\<forall>a. sorted (times_of a adm) \<and> (\<forall>t \<in> set (times_of a adm). t \<le> T) \<and>
     (\<exists>old. times_of a adm = old @ (case rl_perAgent rl a of None \<Rightarrow> [] | Some ts \<Rightarrow> ts)
        \<and> (\<forall>t \<in> set old. t \<le> T - nanos_per_second)))"

definition recent :: "string \<Rightarrow> time \<Rightarrow> (string \<times> time) list \<Rightarrow> nat" where
  "recent a now adm = length (filter (\<lambda>t. now - nanos_per_second < t) (times_of a adm))"

text \<open>What a check keeps of the times of its agent, and what it decides.\<close>

lemma rl_check_kept:
  assumes "rl_inv adm T rl" "T \<le> now" "rl_check a now rl = (v, rl')"
  obtains old kept where "times_of a adm = old @ kept" "\<forall>t \<in> set old. t \<le> now - nanos_per_second"
    "recent a now adm = length kept" "v_Limited v \<longleftrightarrow> int (length kept) \<ge> rl_limit rl"
    "rl' = (if v_Limited v then rl else rl\<lparr>rl_perAgent := (rl_perAgent rl)(a \<mapsto> kept @ [now])\<rparr>)"
proof -
  define stored where "stored = (case rl_perAgent rl a of None \<Rightarrow> [] | Some ts \<Rightarrow> ts)"
  obtain old where old: "times_of a adm = old @ stored" "\<forall>t \<in> set old. t \<le> T - nanos_per_second"
    and sorted: "sorted (times_of a adm)"
    using assms(1) unfolding rl_inv_def stored_def by blast
  let ?kept = "filter (\<lambda>t. now - nanos_per_second < t) stored"
  let ?out = "takeWhile (\<lambda>t. \<not> t > now - nanos_per_second) stored"
  have sorted: "sorted stored" using sorted unfolding old(1) by (simp add: sorted_append)
  then have evict: "drop (cutoff_loop (now - nanos_per_second) 0 stored (length stored)) stored = ?kept"
    by (simp only: evict_eq dropWhile_sorted)
  have out: "filter (\<lambda>t. now - nanos_per_second < t) old = []"
    using old(2) assms(2) by (auto simp: filter_empty_conv not_less)
  have "stored = ?out @ ?kept"
    using dropWhile_sorted [OF sorted] by (metis takeWhile_dropWhile_id)
  then have "times_of a adm = (old @ ?out) @ ?kept" using old(1) by simp
  moreover have "\<forall>t \<in> set (old @ ?out). t \<le> now - nanos_per_second"
    using old(2) assms(2) by (auto dest: set_takeWhileD)
  moreover have "recent a now adm = length ?kept" using out by (simp add: recent_def old(1))
  moreover have "v_Limited v \<longleftrightarrow> int (length ?kept) \<ge> rl_limit rl"
    "rl' = (if v_Limited v then rl else rl\<lparr>rl_perAgent := (rl_perAgent rl)(a \<mapsto> ?kept @ [now])\<rparr>)"
    using assms(3) unfolding rl_check_def Let_def stored_def [symmetric] evict by auto
  ultimately show thesis by (rule that)
qed

lemma rl_check_step:
  assumes "rl_inv adm T rl" "T \<le> now" "rl_check a now rl = (v, rl')"
  shows "v_Limited v \<longleftrightarrow> int (recent a now adm) \<ge> rl_limit rl"
    and "rl_inv (if v_Limited v then adm else adm @ [(a, now)]) now rl'"
    and "rl_limit rl' = rl_limit rl"
proof -
  obtain old kept where kept: "times_of a adm = old @ kept" "\<forall>t \<in> set old. t \<le> now - nanos_per_second"
    "recent a now adm = length kept" "v_Limited v \<longleftrightarrow> int (length kept) \<ge> rl_limit rl"
    and rl': "rl' = (if v_Limited v then rl else rl\<lparr>rl_perAgent := (rl_perAgent rl)(a \<mapsto> kept @ [now])\<rparr>)"
    using rl_check_kept [OF assms] .
  show "v_Limited v \<longleftrightarrow> int (recent a now adm) \<ge> rl_limit rl" using kept(3,4) by simp
  show "rl_limit rl' = rl_limit rl" using rl' by simp
  let ?adm = "if v_Limited v then adm else adm @ [(a, now)]"
  show "rl_inv ?adm now rl'"
    unfolding rl_inv_def
  proof (intro allI)
    fix b
    obtain old' where b: "times_of b adm = old' @ (case rl_perAgent rl b of None \<Rightarrow> [] | Some ts \<Rightarrow> ts)"
      "\<forall>t \<in> set old'. t \<le> T - nanos_per_second" "sorted (times_of b adm)" "\<forall>t \<in> set (times_of b adm). t \<le> T"
      using assms(1) unfolding rl_inv_def by blast
    have le: "\<forall>t \<in> set (times_of b adm). t \<le> now" "\<forall>t \<in> set old'. t \<le> now - nanos_per_second"
      using b(2,4) assms(2) by auto
    show "sorted (times_of b ?adm) \<and> (\<forall>t \<in> set (times_of b ?adm). t \<le> now) \<and>
      (\<exists>old. times_of b ?adm = old @ (case rl_perAgent rl' b of None \<Rightarrow> [] | Some ts \<Rightarrow> ts) \<and>
         (\<forall>t \<in> set old. t \<le> now - nanos_per_second))"
    proof (cases "v_Limited v \<or> b \<noteq> a")
      case True
      then have "times_of b ?adm = times_of b adm" "rl_perAgent rl' b = rl_perAgent rl b" using rl' by auto
      with b(1,3) le show ?thesis by metis
    next
      case False
      then have ta: "times_of b ?adm = times_of a adm @ [now]"
        and st: "(case rl_perAgent rl' b of None \<Rightarrow> [] | Some ts \<Rightarrow> ts) = kept @ [now]"
        using rl' by simp_all
      have "sorted (times_of a adm @ [now])" "\<forall>t \<in> set (times_of a adm @ [now]). t \<le> now"
        using False b(3) le(1) by (auto simp: sorted_append)
      moreover have "times_of a adm @ [now] = old @ (kept @ [now])" using kept(1) by simp
      ultimately show ?thesis unfolding ta st using kept(2) by blast
    qed
  qed
qed

section \<open>The bound\<close>

text \<open>What the run admits, request by request, after an earlier history.\<close>

lemma rl_run_step:
  assumes "rl_check a now rl = (v, rl')" "rl_run reqs rl' = (adm, rl'')"
  shows "rl_run ((a, now) # reqs) rl = (if v_Limited v then adm else (a, now) # adm, rl'')"
  using assms by simp

text \<open>An admitted list is good when each request of it had room in its own window.\<close>

definition fits :: "int \<Rightarrow> (string \<times> time) list \<Rightarrow> bool" where
  "fits limit adm \<longleftrightarrow>
     (\<forall>before r later. adm = before @ r # later \<longrightarrow> int (recent (fst r) (snd r) before) < limit)"

lemma fits_snoc: "fits limit (adm @ [r]) \<longleftrightarrow> fits limit adm \<and> int (recent (fst r) (snd r) adm) < limit"
proof
  assume h: "fits limit (adm @ [r])"
  have "fits limit adm"
    unfolding fits_def
  proof (intro allI impI)
    fix before x later
    assume "adm = before @ x # later"
    then have "adm @ [r] = before @ x # (later @ [r])" by simp
    with h show "int (recent (fst x) (snd x) before) < limit" unfolding fits_def by blast
  qed
  with h show "fits limit adm \<and> int (recent (fst r) (snd r) adm) < limit" unfolding fits_def by blast
next
  assume h: "fits limit adm \<and> int (recent (fst r) (snd r) adm) < limit"
  show "fits limit (adm @ [r])"
    unfolding fits_def
  proof (intro allI impI)
    fix before x later
    assume eq: "adm @ [r] = before @ x # later"
    show "int (recent (fst x) (snd x) before) < limit"
    proof (cases later rule: rev_cases)
      case Nil
      with eq h show ?thesis by simp
    next
      case (snoc ys y)
      with eq have "adm = before @ x # ys" by simp
      with h show ?thesis unfolding fits_def by blast
    qed
  qed
qed

lemma rl_run_fits:
  assumes "rl_inv adm T rl" "sorted (T # map snd reqs)" "fits (rl_limit rl) adm"
    and "rl_run reqs rl = (new, rl')"
  shows "fits (rl_limit rl) (adm @ new) \<and> rl_inv (adm @ new) (last (T # map snd reqs)) rl'
    \<and> rl_limit rl' = rl_limit rl"
  using assms
proof (induction reqs arbitrary: adm T rl new)
  case Nil
  then show ?case by auto
next
  case (Cons r reqs)
  obtain a now where r [simp]: "r = (a, now)" by fastforce
  obtain v rl1 where chk: "rl_check a now rl = (v, rl1)" by fastforce
  obtain new1 where run: "rl_run reqs rl1 = (new1, rl')" "new = (if v_Limited v then new1 else (a, now) # new1)"
    using Cons.prems(4) chk by (auto split: prod.splits)
  have "T \<le> now" using Cons.prems(2) by simp
  note st = rl_check_step [OF Cons.prems(1) this chk]
  let ?adm = "if v_Limited v then adm else adm @ [(a, now)]"
  have "fits (rl_limit rl1) ?adm" using Cons.prems(3) st(1,3) by (auto simp: fits_snoc)
  moreover have "sorted (now # map snd reqs)" using Cons.prems(2) by simp
  ultimately have "fits (rl_limit rl1) (?adm @ new1) \<and>
      rl_inv (?adm @ new1) (last (now # map snd reqs)) rl' \<and> rl_limit rl' = rl_limit rl1"
    using Cons.IH [OF st(2) _ _ run(1)] by blast
  then show ?case using st(3) run(2) by (cases "v_Limited v") simp_all
qed

lemma rl_inv_new: "rl_inv [] T (NewRateLimiter limit burst)"
  by (simp add: rl_inv_def NewRateLimiter_def)

lemma fits_window:
  assumes "fits limit adm" "sorted (times_of a adm)" "0 \<le> limit"
  shows "int (length (filter (\<lambda>u. t - nanos_per_second < u \<and> u \<le> t) (times_of a adm))) \<le> limit"
  using assms
proof (induction adm rule: rev_induct)
  case (snoc r adm)
  have f: "fits limit adm" "int (recent (fst r) (snd r) adm) < limit" using snoc.prems by (simp_all add: fits_snoc)
  show ?case
  proof (cases "fst r = a \<and> t - nanos_per_second < snd r \<and> snd r \<le> t")
    case True
    then have "length (filter (\<lambda>u. t - nanos_per_second < u \<and> u \<le> t) (times_of a adm)) \<le> recent a (snd r) adm"
      unfolding recent_def by (induction adm) auto
    with True f show ?thesis by simp
  next
    case False
    moreover have "sorted (times_of a adm)" using snoc.prems(2) by (auto simp: sorted_append)
    ultimately show ?thesis using snoc.IH [OF f(1) _ snoc.prems(3)] by auto
  qed
qed simp



text \<open>The limiter refuses nothing needlessly: after any history the next request
  is refused exactly when at least as many requests of its agent as the limit were admitted in the
  second before it.\<close>

theorem rate_limit_exact:
  assumes "sorted (map snd reqs @ [now])"
    and "rl_run reqs (NewRateLimiter limit burst) = (admitted, rl')"
    and "rl_check agent now rl' = (v, rl'')"
  shows "v_Limited v \<longleftrightarrow>
    limit \<le> int (length (filter (\<lambda>t. now - nanos_per_second < t) (times_of agent admitted)))"
proof -
  let ?T = "if reqs = [] then now else snd (hd reqs)"
  have sorted: "sorted (?T # map snd reqs)" using assms(1) by (cases reqs) (auto simp: sorted_append)
  have last: "last (?T # map snd reqs) \<le> now"
    using assms(1) by (auto simp: sorted_append last_map)
  have "fits (rl_limit (NewRateLimiter limit burst)) []" by (simp add: fits_def)
  from rl_run_fits [OF rl_inv_new sorted this assms(2)]
  have "rl_inv admitted (last (?T # map snd reqs)) rl'" "rl_limit rl' = limit"
    by (simp_all add: NewRateLimiter_def)
  from rl_check_step(1) [OF this(1) last assms(3)] this(2) show ?thesis by (simp add: recent_def)
qed

theorem rate_limit_exact_witness:
  "v_Limited (fst (rl_check ''a'' 3 (snd (rl_run [(''a'', 1), (''a'', 2)] (NewRateLimiter 2 9)))))"
proof -
  let ?run = "rl_run [(''a'', 1), (''a'', 2)] (NewRateLimiter 2 9)"
  have "fst ?run = [(''a'', 1), (''a'', 2)]"
    by (simp add: rl_check_def NewRateLimiter_def nanos_per_second_def Let_def)
  then have run: "?run = ([(''a'', 1), (''a'', 2)], snd ?run)" by (metis prod.collapse)
  show ?thesis
    using rate_limit_exact [OF _ run surjective_pairing, of 3 "''a''"]
    by (simp add: nanos_per_second_def)
qed

end
