(* ===== verification/AuditLog.thy ===== *)
theory AuditLog
  imports MemoryProvider "HOL-Library.Sublist" "HOL-Library.List_Lexorder" "HOL-Library.Char_ord"
begin

text \<open>
  The audit logger of the server, \<open>internal/server/audit.go\<close>: \<open>Log\<close> puts an event into a channel
  of 256 places and drops it when the channel is full; the worker takes events from the channel
  and writes them to the provider in batches of 32, or whatever it has at each tick of 5 seconds.
\<close>

section \<open>Logging\<close>

record audit_logger =
  al_level :: int
  al_namespace :: string
  al_ch :: "audit_event list"

definition NewAuditLogger :: "int \<Rightarrow> string \<Rightarrow> audit_logger" where
  "NewAuditLogger level ns = \<lparr>al_level = level, al_namespace = ns, al_ch = []\<rparr>"

definition levelName :: "int \<Rightarrow> string" where
  "levelName level =
     (if level = AuditCoordination then ''coordination''
      else if level = AuditSecurity then ''security''
      else if level = AuditFull then ''full''
      else ''off'')"

text \<open>The arguments of a call of \<open>Log\<close>; the map of metadata is a list of pairs.\<close>

record audit_call =
  g_EventType :: string
  g_AgentID :: string
  g_ResourceURI :: string
  g_Outcome :: string
  g_Metadata :: "(string \<times> string) list"

definition audit_event_of :: "time \<Rightarrow> audit_call \<Rightarrow> audit_logger \<Rightarrow> audit_event" where
  "audit_event_of now call lg =
     \<lparr>ae_Namespace = al_namespace lg, ae_Timestamp = now, ae_Level = levelName (al_level lg),
      ae_EventType = g_EventType call, ae_AgentID = g_AgentID call,
      ae_ResourceURI = g_ResourceURI call, ae_Outcome = g_Outcome call,
      ae_Metadata = (if length (g_Metadata call) > 0
        then Some (JObj (map (\<lambda>(k, v). (k, JStr v)) (sort_key fst (g_Metadata call)))) else None)\<rparr>"

definition channel_size :: nat where "channel_size = 256"

definition Log :: "time \<Rightarrow> audit_call \<Rightarrow> audit_logger \<Rightarrow> audit_logger" where
  "Log now call lg =
     (if al_level lg = AuditOff then lg
      else if \<not> ShouldLog (al_level lg) (g_EventType call) then lg
      else if length (al_ch lg) < channel_size
        then lg\<lparr>al_ch := al_ch lg @ [audit_event_of now call lg]\<rparr>
      else lg)"

section \<open>The worker\<close>

text \<open>The two branches of its \<open>select\<close>: an event from the channel, a tick.\<close>

datatype worker_input = Recv | Tick

definition batch_size :: nat where "batch_size = 32"

definition flush :: "'s provider \<Rightarrow> env \<Rightarrow> string \<Rightarrow> audit_event list \<Rightarrow> 's \<Rightarrow> 's" where
  "flush P e ns batch s = snd (p_AppendAudit P e ns batch s)"

fun worker_step ::
  "'s provider \<Rightarrow> env \<Rightarrow> worker_input \<Rightarrow> audit_logger \<times> audit_event list \<times> 's \<Rightarrow>
     audit_logger \<times> audit_event list \<times> 's" where
  "worker_step P e Recv (lg, batch, s) =
     (case al_ch lg of
        [] \<Rightarrow> (lg, batch, s)
      | ev # ch \<Rightarrow>
          (let batch' = batch @ [ev]; lg' = lg\<lparr>al_ch := ch\<rparr>
           in if length batch' \<ge> batch_size then (lg', [], flush P e (al_namespace lg) batch' s)
              else (lg', batch', s)))"
| "worker_step P e Tick (lg, batch, s) =
     (if length batch > 0 then (lg, [], flush P e (al_namespace lg) batch s) else (lg, batch, s))"

section \<open>Nothing is reordered or repeated\<close>

text \<open>A schedule: calls of \<open>Log\<close> and rounds of the worker in any order.\<close>

datatype audit_action = DoLog time audit_call | DoWork worker_input

fun audit_step ::
  "'s provider \<Rightarrow> env \<Rightarrow> audit_action \<Rightarrow> audit_logger \<times> audit_event list \<times> 's \<Rightarrow>
     audit_logger \<times> audit_event list \<times> 's" where
  "audit_step P e (DoLog now call) (lg, batch, s) = (Log now call lg, batch, s)"
| "audit_step P e (DoWork i) st = worker_step P e i st"

fun wanted :: "audit_logger \<Rightarrow> audit_action list \<Rightarrow> audit_event list" where
  "wanted lg [] = []"
| "wanted lg (DoLog now call # as) =
     (if al_level lg \<noteq> AuditOff \<and> ShouldLog (al_level lg) (g_EventType call)
      then audit_event_of now call lg # wanted lg as else wanted lg as)"
| "wanted lg (DoWork i # as) = wanted lg as"

definition stored_audit :: "memory \<Rightarrow> string \<Rightarrow> audit_event list" where
  "stored_audit s ns = go_get [] (mem_audit s) ns"

lemma stored_flush:
  "stored_audit (flush memory_provider e ns batch s) ns = stored_audit s ns @ batch"
  by (simp add: stored_audit_def flush_def mem_AppendAudit_def)

text \<open>All events in the pipeline, oldest first.\<close>

definition pipeline :: "audit_logger \<times> audit_event list \<times> memory \<Rightarrow> audit_event list" where
  "pipeline st = (case st of (lg, batch, s) \<Rightarrow> stored_audit s (al_namespace lg) @ batch @ al_ch lg)"

definition pipe_ok :: "audit_logger \<times> audit_event list \<times> memory \<Rightarrow> bool" where
  "pipe_ok st = (case st of (lg, batch, s) \<Rightarrow> length batch < batch_size \<and> length (al_ch lg) \<le> channel_size)"

lemma worker_pipeline:
  assumes "worker_step memory_provider e i st = st'" "pipe_ok st"
  shows "pipeline st' = pipeline st \<and> pipe_ok st' \<and> al_level (fst st') = al_level (fst st)
    \<and> al_namespace (fst st') = al_namespace (fst st)"
proof -
  obtain lg batch s where [simp]: "st = (lg, batch, s)" by (cases st) auto
  show ?thesis
    using assms by (cases i)
      (auto simp: pipeline_def pipe_ok_def Let_def stored_flush batch_size_def split: list.splits if_splits)
qed

lemma log_pipeline:
  assumes "pipe_ok (lg, batch, s)"
  shows "pipe_ok (Log now call lg, batch, s) \<and> al_level (Log now call lg) = al_level lg
    \<and> al_namespace (Log now call lg) = al_namespace lg \<and>
    (pipeline (Log now call lg, batch, s) = pipeline (lg, batch, s) @ wanted lg [DoLog now call] \<or>
     pipeline (Log now call lg, batch, s) = pipeline (lg, batch, s) \<and> length (al_ch lg) = channel_size)"
  using assms by (auto simp: Log_def pipe_ok_def pipeline_def)

lemma wanted_cong: "al_level lg = al_level lg' \<Longrightarrow> al_namespace lg = al_namespace lg' \<Longrightarrow> wanted lg as = wanted lg' as"
  by (induction lg as rule: wanted.induct) (simp_all add: audit_event_of_def)

text \<open>One call of \<open>Log\<close>, followed by what adds \<open>new\<close> to the pipeline.\<close>

lemma log_then:
  assumes "pipeline st1 = pipeline st @ w \<or> pipeline st1 = pipeline st \<and> channel_size \<le> length (pipeline st)"
    and "pipeline st2 = pipeline st1 @ new" and "subseq new ws"
    and "length (pipeline st1) + length ws \<le> channel_size \<longrightarrow> new = ws"
  shows "\<exists>new'. pipeline st2 = pipeline st @ new' \<and> subseq new' (w @ ws) \<and>
    (length (pipeline st) + length (w @ ws) \<le> channel_size \<longrightarrow> new' = w @ ws)"
proof (cases "pipeline st1 = pipeline st @ w")
  case True
  have "subseq (w @ new) (w @ ws)" by (rule list_emb_append_mono [OF subseq_order.refl assms(3)])
  with True assms(2,4) show ?thesis by (intro exI [of _ "w @ new"]) simp
next
  case False
  with assms(1) have full: "pipeline st1 = pipeline st" "channel_size \<le> length (pipeline st)" by blast+
  have sub: "subseq new (w @ ws)" by (rule subseq_drop_many [OF assms(3)])
  moreover have "length (pipeline st) + length (w @ ws) \<le> channel_size \<longrightarrow> new = w @ ws"
  proof
    assume "length (pipeline st) + length (w @ ws) \<le> channel_size"
    then have "length (w @ ws) = 0" using full(2) by linarith
    then have "w @ ws = []" by blast
    with sub show "new = w @ ws" by (simp only: list_emb_Nil2)
  qed
  ultimately show ?thesis using full(1) assms(2) by (intro exI [of _ new]) simp
qed

lemma audit_run:
  assumes "pipe_ok st" and st': "st' = fold (audit_step memory_provider e) as st"
  shows "pipe_ok st' \<and> (\<exists>new. pipeline st' = pipeline st @ new \<and> subseq new (wanted (fst st) as) \<and>
    (length (pipeline st) + length (wanted (fst st) as) \<le> channel_size \<longrightarrow> new = wanted (fst st) as))"
  unfolding st' using assms(1)
proof (induction as arbitrary: st)
  case (Cons a as)
  let ?st1 = "audit_step memory_provider e a st"
  obtain lg batch s where st: "st = (lg, batch, s)" by (cases st) auto
  show ?case
  proof (cases a)
    case (DoWork i)
    then have "pipeline ?st1 = pipeline st" "pipe_ok ?st1" "wanted (fst ?st1) as = wanted (fst st) as"
      using worker_pipeline [OF refl Cons.prems, of e i] by (auto intro: wanted_cong)
    with Cons.IH [of ?st1] DoWork show ?thesis by simp
  next
    case (DoLog now call)
    have st1: "?st1 = (Log now call lg, batch, s)" by (simp add: DoLog st)
    note lp = log_pipeline [OF Cons.prems [unfolded st], of now call]
    have w: "wanted (fst ?st1) as = wanted (fst st) as" 
      using wanted_cong [of "Log now call lg" lg as] lp unfolding st1 unfolding st fst_conv by blast
    obtain new where new: "pipeline (fold (audit_step memory_provider e) as ?st1) = pipeline ?st1 @ new"
      "subseq new (wanted (fst st) as)"
      "length (pipeline ?st1) + length (wanted (fst st) as) \<le> channel_size \<longrightarrow> new = wanted (fst st) as"
      and ok: "pipe_ok (fold (audit_step memory_provider e) as ?st1)"
      using Cons.IH [of ?st1] lp unfolding w unfolding st1 by blast
    have "length (al_ch lg) \<le> length (pipeline st)" by (simp add: pipeline_def st)
    then have grown: "pipeline ?st1 = pipeline st @ wanted lg [DoLog now call] \<or>
        pipeline ?st1 = pipeline st \<and> channel_size \<le> length (pipeline st)"
      using lp unfolding st1 unfolding st by fastforce
    have wa: "wanted lg [DoLog now call] @ wanted (fst st) as = wanted (fst st) (a # as)" by (simp add: DoLog st)
    show ?thesis unfolding fold_simps(2) by (rule conjI [OF ok log_then [OF grown new, unfolded wa]])
  qed
qed simp



end
