(* ===== verification/Server.thy ===== *)
theory Server
  imports Client Http Mailbox RateLimit AuditLog
begin

text \<open>
  The REST server, \<open>internal/server/server.go\<close>, \<open>mailbox_handlers.go\<close>, \<open>middleware.go\<close> and
  \<open>sse.go\<close>: every handler, the two wrappers around the mutating ones (first the rate limiter, then
  authentication), and the routes. A handler gets one environment per call it makes, the server's
  configuration and state, and returns the response and the new state. The logging middleware,
  which passes the response on, is in theory \<open>RequestLog\<close>.
\<close>

section \<open>The state of the server\<close>

text \<open>\<open>sv_namespace\<close> is the namespace of the server's client.\<close>

record 's server =
  sv_store :: 's
  sv_rate :: rate_limiter
  sv_audit :: audit_logger
  sv_locking :: bool
  sv_token :: string
  sv_namespace :: string

type_synonym 's handler = "'s provider \<Rightarrow> envs \<Rightarrow> request \<Rightarrow> 's server \<Rightarrow> response \<times> 's server"

definition New_server :: "bool \<Rightarrow> string \<Rightarrow> int \<Rightarrow> int \<Rightarrow> int \<Rightarrow> string \<Rightarrow> 's \<Rightarrow> 's server" where
  "New_server locking authToken rateLimit rateBurst auditLevel ns s =
     \<lparr>sv_store = s, sv_rate = NewRateLimiter rateLimit rateBurst, sv_audit = NewAuditLogger auditLevel ns,
      sv_locking = locking, sv_token = authToken, sv_namespace = ns\<rparr>"

definition audit :: "time \<Rightarrow> string \<Rightarrow> string \<Rightarrow> string \<Rightarrow> string \<Rightarrow> (string \<times> string) list \<Rightarrow> 's server \<Rightarrow> 's server" where
  "audit now eventType agentID resourceURI outcome metadata sv =
     sv\<lparr>sv_audit := Log now \<lparr>g_EventType = eventType, g_AgentID = agentID, g_ResourceURI = resourceURI,
        g_Outcome = outcome, g_Metadata = metadata\<rparr> (sv_audit sv)\<rparr>"

lemma audit_simps [simp]:
  "sv_store (audit now ty a r out md sv) = sv_store sv" "sv_token (audit now ty a r out md sv) = sv_token sv"
  by (simp_all add: audit_def)

definition bad_request :: "response" where
  "bad_request = http_Error DecodeError 400"

text \<open>The answer to an operation that returns an error or nothing.\<close>

definition answer :: "int \<Rightarrow> response \<Rightarrow> error option \<times> 's \<Rightarrow> 's server \<Rightarrow> response \<times> 's server" where
  "answer code ok r sv =
     (case r of
        (Some err, s') \<Rightarrow> (error_reply err code, sv\<lparr>sv_store := s'\<rparr>)
      | (None, s') \<Rightarrow> (ok, sv\<lparr>sv_store := s'\<rparr>))"

section \<open>Claims\<close>

text \<open>\<open>ClaimRequest\<close> has no JSON tags: its members are named like the Go fields.\<close>

definition claim_request_fields :: "(string \<times> claim_request field) list" where
  "claim_request_fields =
     [(''ResourceURI'', string_field rq_ResourceURI_update), (''AgentID'', string_field rq_AgentID_update),
      (''Operation'', string_field rq_Operation_update), (''Intent'', string_field rq_Intent_update),
      (''ProjectedEnd'', string_field rq_ProjectedEnd_update),
      (''TTLSeconds'', int_field rq_TTLSeconds_update),
      (''ParentClaimID'', string_field rq_ParentClaimID_update)]"

definition zero_request :: claim_request where
  "zero_request = \<lparr>rq_ResourceURI = [], rq_AgentID = [], rq_Operation = [], rq_Intent = [],
     rq_ProjectedEnd = [], rq_TTLSeconds = 0, rq_ParentClaimID = []\<rparr>"

definition response_json :: "claim_response \<Rightarrow> json" where
  "response_json r = JObj ([(''claim_id'', JStr (rs_ClaimID r))]
     @ (case rs_Conflict r of None \<Rightarrow> [] | Some rep \<Rightarrow> [(''conflicts'', report_json rep)]))"

definition locked_json :: "claim_response \<Rightarrow> conflict_report \<Rightarrow> conflict \<Rightarrow> json" where
  "locked_json r rep c = JObj [(''claim_id'', JStr (rs_ClaimID r)), (''conflicts'', report_json rep),
     (''error'', JStr ''resource_locked''), (''intent'', JStr (cf_Intent c)),
     (''locked_by'', JStr (cf_AgentID c)),
     (''message'', JStr (''Resource locked by '' @ cf_AgentID c @ '' ('' @ cf_Intent c @ '')'')),
     (''resource'', JStr (cf_Resource c))]"

definition refusal :: "bool \<Rightarrow> claim_response option \<Rightarrow> error \<Rightarrow> response" where
  "refusal locking resp err =
     (case (err, resp) of
        (ConflictError _, Some r) \<Rightarrow>
          (case rs_Conflict r of
             Some rep \<Rightarrow>
               (case Conflicts rep of
                  c # cs \<Rightarrow>
                    if locking then reply_json 423 (locked_json r rep c)
                    else reply 409 (Json (response_json r))
                | [] \<Rightarrow> reply 409 (Json (response_json r)))
           | None \<Rightarrow> reply 409 (Json (response_json r)))
      | (ConflictError _, None) \<Rightarrow> reply 409 (Json JNull)
      | _ \<Rightarrow> error_reply err 500)"

definition handleClaim :: "'s handler" where
  "handleClaim P es r sv =
     (case decode claim_request_fields zero_request (hr_Body r) of
        None \<Rightarrow> (bad_request, sv)
      | Some req \<Rightarrow>
          (case ValidateAgentID (rq_AgentID req) of Some err \<Rightarrow> (error_reply err 400, sv) | None \<Rightarrow>
           case ValidateResourceURI (rq_ResourceURI req) of Some err \<Rightarrow> (error_reply err 400, sv) | None \<Rightarrow>
           case ValidateIntent (rq_Intent req) of Some err \<Rightarrow> (error_reply err 400, sv) | None \<Rightarrow>
             (case client_Claim P (sv_namespace sv) es req (sv_store sv) of
                ((resp, Some err), s') \<Rightarrow> (refusal (sv_locking sv) resp err, sv\<lparr>sv_store := s'\<rparr>)
              | ((resp, None), s') \<Rightarrow>
                  (reply 200 (Json (case resp of None \<Rightarrow> JNull | Some x \<Rightarrow> response_json x)),
                   audit (Now (es 3) 0) AuditEventClaim (rq_AgentID req) (rq_ResourceURI req) ''granted'' []
                     (sv\<lparr>sv_store := s'\<rparr>)))))"

record release_request =
  rr_ClaimID :: string
  rr_Outcome :: string

definition release_fields :: "(string \<times> release_request field) list" where
  "release_fields =
     [(''claim_id'', string_field rr_ClaimID_update), (''outcome'', string_field rr_Outcome_update)]"

definition handleRelease :: "'s handler" where
  "handleRelease P es r sv =
     (case decode release_fields \<lparr>rr_ClaimID = [], rr_Outcome = []\<rparr> (hr_Body r) of
        None \<Rightarrow> (bad_request, sv)
      | Some req \<Rightarrow>
          (case client_Release P (sv_namespace sv) es (rr_ClaimID req) (rr_Outcome req) (sv_store sv) of
             (Some err, s') \<Rightarrow> (error_reply err 500, sv\<lparr>sv_store := s'\<rparr>)
           | (None, s') \<Rightarrow>
               (reply 204 NoBody,
                audit (Now (es 2) 0) AuditEventRelease [] [] (rr_Outcome req)
                  [(''claim_id'', rr_ClaimID req)] (sv\<lparr>sv_store := s'\<rparr>))))"

definition handleHeartbeat :: "'s handler" where
  "handleHeartbeat P es r sv =
     (case decode_ref (hr_Body r) of
        None \<Rightarrow> (bad_request, sv)
      | Some cid \<Rightarrow>
          answer 500 (reply 204 NoBody) (client_Heartbeat P (sv_namespace sv) es cid (sv_store sv)) sv)"

record intent_request =
  ir_ClaimID :: string
  ir_Intent :: string

definition intent_fields :: "(string \<times> intent_request field) list" where
  "intent_fields =
     [(''claim_id'', string_field ir_ClaimID_update), (''intent'', string_field ir_Intent_update)]"

definition handleIntent :: "'s handler" where
  "handleIntent P es r sv =
     (case decode intent_fields \<lparr>ir_ClaimID = [], ir_Intent = []\<rparr> (hr_Body r) of
        None \<Rightarrow> (bad_request, sv)
      | Some req \<Rightarrow>
          answer 500 (reply 204 NoBody)
            (client_UpdateIntent P (sv_namespace sv) es (ir_ClaimID req) (ir_Intent req) (sv_store sv)) sv)"

definition handleQueryClaims :: "'s handler" where
  "handleQueryClaims P es r sv =
     (case client_ActiveClaims P (sv_namespace sv) (es 0) (hr_Param r ''resource'') (sv_store sv) of
        Inl err \<Rightarrow> (error_reply err 500, sv)
      | Inr claims \<Rightarrow> (reply 200 (Json (slice_json claim_json claims)), sv))"

definition handleCheck :: "'s handler" where
  "handleCheck P es r sv =
     (case client_CheckConflict P (sv_namespace sv) (es 0) (hr_Param r ''resource'')
         (hr_Param r ''operation'') (sv_store sv) of
        Inl err \<Rightarrow> (error_reply err 500, sv)
      | Inr report \<Rightarrow> (reply 200 (Json (report_json report)), sv))"

section \<open>The provider behind the server\<close>

definition handleCreateNamespace :: "'s handler" where
  "handleCreateNamespace P es r sv =
     (case decode namespace_fields zero_namespace (hr_Body r) of
        None \<Rightarrow> (bad_request, sv)
      | Some ns \<Rightarrow> answer 500 (reply 200 NoBody) (p_CreateNamespace P (es 0) ns (sv_store sv)) sv)"

definition handleDeleteNamespace :: "'s handler" where
  "handleDeleteNamespace P es r sv =
     (case decode [(''id'', string_field (\<lambda>f. f))] [] (hr_Body r) of
        None \<Rightarrow> (bad_request, sv)
      | Some ns \<Rightarrow> answer 500 (reply 200 NoBody) (p_DeleteNamespace P (es 0) ns (sv_store sv)) sv)"

record append_request =
  ar_Namespace :: string
  ar_Messages :: "message list"

definition append_fields :: "(string \<times> append_request field) list" where
  "append_fields =
     [(''namespace'', string_field ar_Namespace_update),
      (''messages'', array_field message_fields zero_message ar_Messages_update)]"

definition handleAppend :: "'s handler" where
  "handleAppend P es r sv =
     (case decode append_fields \<lparr>ar_Namespace = [], ar_Messages = []\<rparr> (hr_Body r) of
        None \<Rightarrow> (bad_request, sv)
      | Some req \<Rightarrow>
          answer 500 (reply 200 NoBody)
            (p_Append P (es 0) (ar_Namespace req) (ar_Messages req) (sv_store sv)) sv)"

record expire_request =
  er_Namespace :: string
  er_Before :: time

definition expire_fields :: "(string \<times> expire_request field) list" where
  "expire_fields =
     [(''namespace'', string_field er_Namespace_update), (''before'', time_field er_Before_update)]"

definition handleReleaseExpired :: "'s handler" where
  "handleReleaseExpired P es r sv =
     (case decode expire_fields \<lparr>er_Namespace = [], er_Before = 0\<rparr> (hr_Body r) of
        None \<Rightarrow> (bad_request, sv)
      | Some req \<Rightarrow>
          answer 500 (reply 200 NoBody)
            (p_ReleaseExpired P (es 0) (er_Namespace req) (er_Before req) (sv_store sv)) sv)"

text \<open>A parameter that is not a number is ignored.\<close>

definition number_param :: "string \<Rightarrow> int" where
  "number_param v =
     (if v \<noteq> [] then (case ParseInt v of Some n \<Rightarrow> n | None \<Rightarrow> 0) else 0)"

definition handleQuery :: "'s handler" where
  "handleQuery P es r sv =
     (let opts = \<lparr>q_Since = number_param (hr_Param r ''since''), q_Types = [],
            q_AgentID = hr_Param r ''agent'', q_Limit = number_param (hr_Param r ''limit'')\<rparr>
      in case p_Query P (es 0) (hr_Param r ''namespace'') opts (sv_store sv) of
           Inl err \<Rightarrow> (error_reply err 500, sv)
         | Inr msgs \<Rightarrow> (reply 200 (Json (slice_json message_json msgs)), sv))"

definition handleAgentState :: "'s handler" where
  "handleAgentState P es r sv =
     (case p_AgentState P (es 0) (hr_Param r ''namespace'') (hr_Param r ''agent'') (sv_store sv) of
        Inl err \<Rightarrow> (error_reply err 500, sv)
      | Inr a \<Rightarrow> (reply 200 (Json (agent_state_json a)), sv))"

section \<open>The mailbox\<close>

record send_request =
  sr_Namespace :: string
  sr_From :: string
  sr_To :: string
  sr_Type :: string
  sr_Content :: string
  sr_RelatedClaimID :: string
  sr_TTLSeconds :: int

definition send_fields :: "(string \<times> send_request field) list" where
  "send_fields =
     [(''namespace'', string_field sr_Namespace_update), (''from'', string_field sr_From_update),
      (''to'', string_field sr_To_update), (''type'', string_field sr_Type_update),
      (''content'', string_field sr_Content_update),
      (''related_claim_id'', string_field sr_RelatedClaimID_update),
      (''ttl_seconds'', int_field sr_TTLSeconds_update)]"

definition zero_send :: send_request where
  "zero_send = \<lparr>sr_Namespace = [], sr_From = [], sr_To = [], sr_Type = [], sr_Content = [],
     sr_RelatedClaimID = [], sr_TTLSeconds = 0\<rparr>"

definition method_not_allowed :: response where
  "method_not_allowed = http_Error (Text ''method not allowed'') 405"

definition validate_to :: "string \<Rightarrow> error option" where
  "validate_to to = (if to \<noteq> [] \<and> to \<noteq> ''broadcast'' then ValidateAgentID to else None)"

definition handleSendMessage :: "'s handler" where
  "handleSendMessage P es r sv =
     (if hr_Method r \<noteq> ''POST'' then (method_not_allowed, sv)
      else case decode send_fields zero_send (hr_Body r) of
        None \<Rightarrow> (bad_request, sv)
      | Some q \<Rightarrow>
          (case ValidateNamespace (sr_Namespace q) of Some err \<Rightarrow> (error_reply err 400, sv) | None \<Rightarrow>
           case ValidateAgentID (sr_From q) of Some err \<Rightarrow> (error_reply err 400, sv) | None \<Rightarrow>
           case validate_to (sr_To q) of Some err \<Rightarrow> (error_reply err 400, sv) | None \<Rightarrow>
             (case mailbox_Send P es (sr_Namespace q) (sr_From q) (sr_To q) (sr_Type q) (sr_Content q)
                 (sr_RelatedClaimID q) (sr_TTLSeconds q) (sv_store sv) of
                (Inl err, s') \<Rightarrow> (error_reply err 400, sv\<lparr>sv_store := s'\<rparr>)
              | (Inr mid, s') \<Rightarrow>
                  (reply_json 201 (JObj [(''message_id'', JStr mid)]), sv\<lparr>sv_store := s'\<rparr>))))"

definition handleGetMailbox :: "'s handler" where
  "handleGetMailbox P es r sv =
     (if hr_Method r \<noteq> ''GET'' then (method_not_allowed, sv)
      else if hr_Param r ''namespace'' = [] \<or> hr_Param r ''agent_id'' = [] then
        (http_Error (Text ''namespace and agent_id required'') 400, sv)
      else case mailbox_GetMailbox P (es 0) (hr_Param r ''namespace'') (hr_Param r ''agent_id'')
          \<lparr>mq_Unread = (hr_Param r ''unread'' = ''true''),
           mq_IncludeClaims = (hr_Param r ''include_claims'' = ''true''), mq_Limit = 0\<rparr> (sv_store sv) of
        Inl err \<Rightarrow> (error_reply err 500, sv)
      | Inr msgs \<Rightarrow> (reply_json 200 (slice_json mailbox_json msgs), sv))"

record action_request =
  ma_Namespace :: string
  ma_MessageID :: string

definition action_fields :: "(string \<times> action_request field) list" where
  "action_fields =
     [(''namespace'', string_field ma_Namespace_update), (''message_id'', string_field ma_MessageID_update)]"

definition handleMarkRead :: "'s handler" where
  "handleMarkRead P es r sv =
     (if hr_Method r \<noteq> ''POST'' then (method_not_allowed, sv)
      else case decode action_fields \<lparr>ma_Namespace = [], ma_MessageID = []\<rparr> (hr_Body r) of
        None \<Rightarrow> (bad_request, sv)
      | Some q \<Rightarrow>
          answer 404 (reply_json 200 (JObj [(''ok'', JBool True)]))
            (mailbox_MarkRead P (es 0) (ma_Namespace q) (ma_MessageID q) (sv_store sv)) sv)"

definition handleArchiveMessage :: "'s handler" where
  "handleArchiveMessage P es r sv =
     (if hr_Method r \<noteq> ''POST'' then (method_not_allowed, sv)
      else case decode action_fields \<lparr>ma_Namespace = [], ma_MessageID = []\<rparr> (hr_Body r) of
        None \<Rightarrow> (bad_request, sv)
      | Some q \<Rightarrow>
          answer 404 (reply_json 200 (JObj [(''ok'', JBool True)]))
            (mailbox_Archive P (es 0) (ma_Namespace q) (ma_MessageID q) (sv_store sv)) sv)"

section \<open>Server-sent events\<close>

text \<open>\<open>events\<close> is what \<open>SubscribeEvents\<close> delivers for the namespace and the starting number until
  the client goes away.\<close>

definition handleSSE :: "(string \<Rightarrow> int \<Rightarrow> 's \<Rightarrow> error + event list) \<Rightarrow> request \<Rightarrow> 's server \<Rightarrow> response" where
  "handleSSE subscribe r sv =
     (if hr_Param r ''namespace'' = [] then http_Error (Text ''namespace required'') 400
      else
        let since = (if hr_Param r ''since'' \<noteq> [] then ParseInt (hr_Param r ''since'') else Some 0)
        in case since of
             None \<Rightarrow> http_Error (Text ''invalid since parameter'') 400
           | Some n \<Rightarrow>
               \<lparr>w_Status = 200, w_Headers = [(''Content-Type'', ''text/event-stream''),
                  (''Cache-Control'', ''no-cache''), (''Connection'', ''keep-alive'')],
                w_Body = Stream (case subscribe (hr_Param r ''namespace'') n (sv_store sv) of
                  Inl err \<Rightarrow> [(''error'', Some (JObj [(''error'', JStr (error_text err))]))]
                | Inr events \<Rightarrow> map (\<lambda>ev. (ev_Type ev, ev_Payload ev)) events)\<rparr>)"

section \<open>Middleware\<close>

definition bearer :: "string \<Rightarrow> string \<Rightarrow> bool" where
  "bearer token auth \<longleftrightarrow> HasPrefix auth ''Bearer '' \<and> TrimPrefix auth ''Bearer '' = token"

definition authorized :: "string \<Rightarrow> (string \<Rightarrow> string) \<Rightarrow> bool" where
  "authorized token header =
     (let auth = header ''Authorization''
      in if auth = [] then
           let key = header ''X-Api-Key''
           in if key \<noteq> [] \<and> key = token then True else bearer token key
         else bearer token auth)"

definition auth_Wrap :: "'s handler \<Rightarrow> 's handler" where
  "auth_Wrap next P es r sv =
     (if sv_token sv = [] then next P es r sv
      else if authorized (sv_token sv) (hr_Header r) then next P es r sv
      else (http_Error (Text ''{\"error\":\"unauthorized\"}'') 401,
            audit (Now (es 0) 0) AuditEventAuthFailure [] [] ''unauthorized'' [] sv))"

definition rate_headers :: "verdict \<Rightarrow> (string \<times> string) list" where
  "rate_headers v =
     [(''X-RateLimit-Limit'', itoa (v_Limit v)), (''X-RateLimit-Remaining'', itoa (v_Remaining v)),
      (''X-RateLimit-Reset'', itoa (v_Reset v))]"

definition with_headers :: "(string \<times> string) list \<Rightarrow> response \<Rightarrow> response" where
  "with_headers hs w = w\<lparr>w_Headers := hs @ w_Headers w\<rparr>"

definition rate_Wrap :: "'s handler \<Rightarrow> 's handler" where
  "rate_Wrap next P es r sv =
     (if rl_limit (sv_rate sv) \<le> 0 then next P es r sv
      else
        let agent = rl_agent (hr_Header r ''X-Agent-ID'')
        in case rl_check agent (Now (es 0) 0) (sv_rate sv) of
             (v, rl') \<Rightarrow>
               let sv' = sv\<lparr>sv_rate := rl'\<rparr>
               in if v_Limited v then
                    (with_headers (rate_headers v @ [(''Retry-After'', ''1'')])
                       (http_Error (Text ''{\"error\":\"rate limit exceeded\"}'') 429),
                     audit (Now (es 0) 1) AuditEventRateLimit agent [] ''blocked'' [] sv')
                  else (case next P (after 1 es) r sv' of
                    (w, sv'') \<Rightarrow> (with_headers (rate_headers v) w, sv'')))"

section \<open>Routes\<close>

definition handle_health :: "'s handler" where
  "handle_health P es r sv = (reply 200 (Json (JObj [(''status'', JStr ''ok'')])), sv)"

definition get_routes :: "(string \<Rightarrow> int \<Rightarrow> 's \<Rightarrow> error + event list) \<Rightarrow> (string \<times> 's handler) list" where
  "get_routes subscribe = [(''/health'', handle_health), (''/claims'', handleQueryClaims),
     (''/check'', handleCheck), (''/mailbox'', handleGetMailbox),
     (''/events'', \<lambda>P es r sv. (handleSSE subscribe r sv, sv)), (''/query'', handleQuery),
     (''/agents'', handleAgentState)]"

definition post_routes :: "(string \<times> 's handler) list" where
  "post_routes = [(''/claim'', handleClaim), (''/release'', handleRelease),
     (''/heartbeat'', handleHeartbeat), (''/intent'', handleIntent), (''/message'', handleSendMessage),
     (''/message/read'', handleMarkRead), (''/message/archive'', handleArchiveMessage),
     (''/namespaces/create'', handleCreateNamespace), (''/namespaces/delete'', handleDeleteNamespace),
     (''/append'', handleAppend), (''/expire'', handleReleaseExpired)]"

text \<open>The multiplexer: a pattern \<open>GET /path\<close> matches the methods GET and HEAD; a known path with
  another method is answered 405, an unknown one 404. Paths are taken to be clean (the multiplexer
  redirects a path with a double slash or a dot segment). \<open>subscribe\<close> is what the event stream of
  the store delivers while the client stays connected.\<close>

definition ServeHTTP :: "(string \<Rightarrow> int \<Rightarrow> 's \<Rightarrow> error + event list) \<Rightarrow> 's handler" where
  "ServeHTTP subscribe P es r sv =
     (let post = map_of post_routes (hr_Path r); get = map_of (get_routes subscribe) (hr_Path r)
      in if hr_Method r = ''POST'' \<and> post \<noteq> None then rate_Wrap (auth_Wrap (the post)) P es r sv
      else if (hr_Method r = ''GET'' \<or> hr_Method r = ''HEAD'') \<and> get \<noteq> None then the get P es r sv
      else if post \<noteq> None \<or> get \<noteq> None then (http_Error (Text ''Method Not Allowed'') 405, sv)
      else (http_Error (Text ''404 page not found'') 404, sv))"

end
