(* ===== verification/ServerFacts.thy ===== *)
theory ServerFacts
  imports Server Exclusion
begin

text \<open>
  What the REST server of \<open>internal/server\<close> guarantees: who may change the store, what a claim
  request is answered, and which bodies are understood.
\<close>

section \<open>Reading leaves the server alone\<close>

lemmas get_handlers = handle_health_def handleQueryClaims_def handleCheck_def handleGetMailbox_def
  handleQuery_def handleAgentState_def

lemma get_route_pure:
  assumes "map_of (get_routes subscribe) path = Some h"
  shows "snd (h P es r sv) = sv"
proof -
  have "h \<in> snd ` set (get_routes subscribe)" using map_of_SomeD [OF assms] by force
  then show ?thesis
    by (auto simp: get_routes_def get_handlers Let_def split: sum.split)
qed

lemma auth_Wrap_refused:
  assumes "sv_token sv \<noteq> []" "\<not> authorized (sv_token sv) (hr_Header r)"
  shows "w_Status (fst (auth_Wrap h P es r sv)) = 401 \<and> sv_store (snd (auth_Wrap h P es r sv)) = sv_store sv"
  using assms by (simp add: auth_Wrap_def)

lemma with_headers_status [simp]: "w_Status (with_headers hs w) = w_Status w"
  by (simp add: with_headers_def)

lemma rate_Wrap_cases:
  obtains (direct) "rate_Wrap h P es r sv = h P es r sv"
  | (limited) "w_Status (fst (rate_Wrap h P es r sv)) = 429" "sv_store (snd (rate_Wrap h P es r sv)) = sv_store sv"
  | (passed) rl' hs w sv' where "h P (after 1 es) r (sv\<lparr>sv_rate := rl'\<rparr>) = (w, sv')"
      "rate_Wrap h P es r sv = (with_headers hs w, sv')"
proof (cases "rl_limit (sv_rate sv) \<le> 0")
  case True
  then show thesis by (intro direct) (simp add: rate_Wrap_def)
next
  case False
  obtain v rl' where chk: "rl_check (rl_agent (hr_Header r ''X-Agent-ID'')) (Now (es 0) 0) (sv_rate sv) = (v, rl')"
    by fastforce
  show thesis
  proof (cases "v_Limited v")
    case True
    with False chk show thesis by (intro limited) (simp_all add: rate_Wrap_def Let_def)
  next
    case passes: False
    obtain w sv' where w: "h P (after 1 es) r (sv\<lparr>sv_rate := rl'\<rparr>) = (w, sv')" by fastforce
    with False chk passes have "rate_Wrap h P es r sv = (with_headers (rate_headers v) w, sv')"
      by (simp add: rate_Wrap_def Let_def)
    with w show thesis by (rule passed)
  qed
qed

section \<open>Authentication\<close>

lemma bearer_iff: "bearer t auth \<longleftrightarrow> auth = ''Bearer '' @ t"
proof
  assume h: "bearer t auth"
  then obtain u where "auth = ''Bearer '' @ u" unfolding bearer_def HasPrefix_iff by blast
  with h show "auth = ''Bearer '' @ t" unfolding bearer_def by (simp only: TrimPrefix_append)
qed (simp only: bearer_def HasPrefix_append TrimPrefix_append)

lemma unauthorized_wrapped:
  assumes "sv_token sv \<noteq> []" and "\<not> authorized (sv_token sv) (hr_Header r)"
  shows "w_Status (fst (rate_Wrap (auth_Wrap h) P es r sv)) \<in> {401, 429} \<and>
    sv_store (snd (rate_Wrap (auth_Wrap h) P es r sv)) = sv_store sv"
proof (cases rule: rate_Wrap_cases [of "auth_Wrap h" P es r sv])
  case direct
  then show ?thesis using auth_Wrap_refused [OF assms] by simp
next
  case (passed rl' hs w' sv'')
  have "sv_token (sv\<lparr>sv_rate := rl'\<rparr>) \<noteq> []" "\<not> authorized (sv_token (sv\<lparr>sv_rate := rl'\<rparr>)) (hr_Header r)"
    using assms by simp_all
  from auth_Wrap_refused [OF this, of h P "after 1 es"] passed show ?thesis by simp
qed simp

text \<open>What is no POST to a known path changes nothing.\<close>

lemma ServeHTTP_other:
  fixes P :: "'s provider"
  assumes "\<not> (hr_Method r = ''POST'' \<and> map_of (post_routes :: (string \<times> 's handler) list) (hr_Path r) \<noteq> None)"
  shows "snd (ServeHTTP subscribe P es r sv) = sv"
proof (cases "map_of (get_routes subscribe :: (string \<times> 's handler) list) (hr_Path r)")
  case None
  with assms show ?thesis by (auto simp: ServeHTTP_def Let_def)
next
  case (Some h)
  with assms get_route_pure [OF Some, of P es r sv] show ?thesis
    by (auto simp: ServeHTTP_def Let_def)
qed

text \<open>C9: When the server has a token, a request without it changes nothing in the store,
  whatever its method and path are and whatever back end there is; on a mutating route it is
  answered 401, or 429 if the rate limiter refuses it first. The token is accepted as a bearer
  token, or in \<open>X-Api-Key\<close> if there is no \<open>Authorization\<close> header.\<close>

theorem server_auth:
  fixes P :: "'s provider"
  assumes "sv_token sv \<noteq> []"
    and "hr_Header r ''Authorization'' \<noteq> ''Bearer '' @ sv_token sv"
    and "hr_Header r ''Authorization'' = [] \<Longrightarrow>
      hr_Header r ''X-Api-Key'' \<noteq> sv_token sv \<and> hr_Header r ''X-Api-Key'' \<noteq> ''Bearer '' @ sv_token sv"
    and "ServeHTTP subscribe P es r sv = (w, sv')"
  shows "sv_store sv' = sv_store sv \<and>
    (hr_Method r = ''POST'' \<and> hr_Path r \<in> fst ` set (post_routes :: (string \<times> 's handler) list) \<longrightarrow>
      w_Status w = 401 \<or> w_Status w = 429)"
proof -
  have un: "\<not> authorized (sv_token sv) (hr_Header r)"
    using assms(1-3) by (auto simp: authorized_def Let_def bearer_iff)
  show ?thesis
  proof (cases "hr_Method r = ''POST'' \<and> map_of (post_routes :: (string \<times> 's handler) list) (hr_Path r) \<noteq> None")
    case True
    then have "ServeHTTP subscribe P es r sv = rate_Wrap (auth_Wrap (the (map_of post_routes (hr_Path r)))) P es r sv"
      by (simp add: ServeHTTP_def Let_def)
    with unauthorized_wrapped [OF assms(1) un, of "the (map_of post_routes (hr_Path r))" P es] assms(4)
    show ?thesis by auto
  next
    case False
    then have "hr_Path r \<notin> fst ` set (post_routes :: (string \<times> 's handler) list) \<or> hr_Method r \<noteq> ''POST''"
      by (auto simp: map_of_eq_None_iff)
    moreover have "sv' = sv" using ServeHTTP_other [OF False] assms(4) by (metis snd_conv)
    ultimately show ?thesis by auto
  qed
qed

definition post_request :: "string \<Rightarrow> json \<Rightarrow> request" where
  "post_request path b = \<lparr>hr_Method = ''POST'', hr_Path = path, hr_Header = (\<lambda>_. []),
     hr_Param = (\<lambda>_. []), hr_Body = Some b\<rparr>"

lemma post_request_simps [simp]:
  "hr_Method (post_request path b) = ''POST''" "hr_Path (post_request path b) = path"
  "hr_Header (post_request path b) h = []" "hr_Body (post_request path b) = Some b"
  by (simp_all add: post_request_def)

theorem server_auth_witness:
  "let (w, sv') = ServeHTTP (\<lambda>ns since s. Inr (mem_SubscribeEvents (\<lambda>_ _. False) ns s [] since)) memory_provider (\<lambda>_. calm 5)
      (post_request ''/append'' (JObj [(''namespace'', JStr ''n'')])) (New_server False ''secret'' 0 0 0 ''n'' mem_New)
   in sv_store sv' = mem_New \<and> (w_Status w = 401 \<or> w_Status w = 429)"
proof -
  let ?r = "post_request ''/append'' (JObj [(''namespace'', JStr ''n'')])"
  let ?sv = "New_server False ''secret'' 0 0 0 ''n'' mem_New"
  have "''/append'' \<in> fst ` set (post_routes :: (string \<times> memory handler) list)" by (simp add: post_routes_def)
  then show ?thesis
    using server_auth [of ?sv ?r "\<lambda>ns since s. Inr (mem_SubscribeEvents (\<lambda>_ _. False) ns s [] since)" memory_provider "\<lambda>_. calm 5", OF _ _ _ surjective_pairing]
    by (simp add: New_server_def split_beta)
qed

section \<open>Claim requests\<close>

text \<open>The answer to a claim request that decodes, on the in-memory back end.\<close>

definition claim_valid :: "claim_request \<Rightarrow> bool" where
  "claim_valid req \<longleftrightarrow> rq_AgentID req \<noteq> [] \<and> length (rq_AgentID req) \<le> 128 \<and>
     length (rq_ResourceURI req) \<le> 2048 \<and> Contains (rq_ResourceURI req) ''://'' \<and> length (rq_Intent req) \<le> 512"

lemma claim_valid_iff:
  "claim_valid req \<longleftrightarrow> ValidateAgentID (rq_AgentID req) = None \<and>
     ValidateResourceURI (rq_ResourceURI req) = None \<and> ValidateIntent (rq_Intent req) = None"
  by (auto simp: claim_valid_def)

lemma handleClaim_invalid:
  assumes "decode claim_request_fields zero_request (hr_Body r) = Some req" "\<not> claim_valid req"
  shows "w_Status (fst (handleClaim P es r sv)) = 400 \<and> snd (handleClaim P es r sv) = sv"
  using assms unfolding claim_valid_iff by (auto simp: handleClaim_def split: option.split)


definition write_body :: "string \<Rightarrow> json" where
  "write_body agent = JObj [(''ResourceURI'', JStr ''file://a.go''), (''AgentID'', JStr agent),
     (''Operation'', JStr OpWrite), (''TTLSeconds'', JNum 60)]"

lemma decode_write_body:
  "decode claim_request_fields zero_request (Some (write_body agent)) =
     Some (zero_request\<lparr>rq_ResourceURI := ''file://a.go'', rq_AgentID := agent, rq_Operation := OpWrite,
       rq_TTLSeconds := 60\<rparr>)"
  by (simp add: write_body_def decode_obj decode_members_exact claim_request_fields_def
      string_field_JStr int_field_JNum)


section \<open>Snake case\<close>

lemma find_field_name:
  assumes "find_field fs k = Some f"
  shows "\<exists>n. (n, f) \<in> set fs \<and> fold_name n = fold_name k"
proof (cases "map_of fs k")
  case None
  then obtain n where "find (\<lambda>(n, f). fold_name n = fold_name k) fs = Some (n, f)"
    using assms by (auto simp: find_field_def)
  then have "(n, f) \<in> set fs \<and> fold_name n = fold_name k" by (auto simp: find_Some_iff) (metis nth_mem)
  then show ?thesis by blast
next
  case (Some g)
  with assms show ?thesis by (auto simp: find_field_def dest: map_of_SomeD)
qed

lemma decode_members_invariant:
  assumes "\<And>k v r f. (k, v) \<in> set kvs \<Longrightarrow> find_field fs k = Some f \<Longrightarrow> Q r \<Longrightarrow> Q (fst (f v r))" "Q r"
  shows "Q (fst (decode_members fs kvs (r, ok)))"
  using assms
proof (induction kvs arbitrary: r ok)
  case (Cons x kvs)
  obtain k v where x: "x = (k, v)" by fastforce
  have IH: "Q (fst (decode_members fs kvs (r, ok)))" if "Q r" for r ok
  proof (rule Cons.IH [OF _ that])
    fix k' v' r' f
    assume "(k', v') \<in> set kvs" "find_field fs k' = Some f" "Q r'"
    then show "Q (fst (f v' r'))" by (intro Cons.prems(1)) simp_all
  qed
  show ?case
  proof (cases "find_field fs k")
    case None
    with IH Cons.prems(2) x show ?thesis by (simp add: decode_members_unknown)
  next
    case (Some f)
    obtain r' ok' where f: "f v r = (r', ok')" by fastforce
    have "Q r'" using Cons.prems(1) [of k v f r] Cons.prems(2) Some f x by simp
    then have "Q (fst (decode_members fs kvs (r', ok \<and> ok')))" by (rule IH)
    then show ?thesis by (simp add: x decode_members.simps(2) Some f)
  qed
qed simp

lemma agent_id_stays_empty:
  assumes "\<forall>x \<in> set kvs. fold_name (fst x) \<noteq> ''agentid''"
  shows "rq_AgentID (fst (decode_members claim_request_fields kvs (zero_request, ok))) = []"
proof (rule decode_members_invariant)
  fix k v f and r :: claim_request
  assume kv: "(k, v) \<in> set kvs" "find_field claim_request_fields k = Some f" and r: "rq_AgentID r = []"
  obtain n where n: "(n, f) \<in> set claim_request_fields" "fold_name n = fold_name k"
    using find_field_name [OF kv(2)] by blast
  have "fold_name ''AgentID'' = ''agentid''" by (simp add: fold_name_def lower_char_def)
  with n assms kv(1) have "n \<noteq> ''AgentID''" by fastforce
  with n(1) r show "rq_AgentID (fst (f v r)) = []"
    by (auto simp: claim_request_fields_def string_field_def int_field_def split: json.split)
qed (simp add: zero_request_def)

text \<open>The names of the members are those of the Go struct, with no underscore. A
  body that spells the agent \<open>agent_id\<close>, like all the clients and documents of the repository do,
  is answered 400, on every back end.\<close>

theorem snake_case_rejected:
  assumes "hr_Body r = Some (JObj kvs)"
    and "\<forall>x \<in> set kvs. fst x \<in> {''resource_uri'', ''agent_id'', ''operation'', ''intent'', ''projected_end'',
      ''ttl_seconds'', ''parent_claim_id''}"
  shows "w_Status (fst (handleClaim P es r sv)) = 400 \<and> snd (handleClaim P es r sv) = sv"
proof -
  have "\<forall>x \<in> set kvs. fold_name (fst x) \<noteq> ''agentid''"
    using assms(2) by (auto simp: fold_name_def lower_char_def)
  then have empty: "rq_AgentID (fst (decode_members claim_request_fields kvs (zero_request, True))) = []"
    by (rule agent_id_stays_empty)
  show ?thesis
  proof (cases "decode claim_request_fields zero_request (hr_Body r)")
    case None
    then show ?thesis by (simp add: handleClaim_def bad_request_def)
  next
    case (Some req)
    then have "rq_AgentID req = []"
      using empty by (auto simp: assms(1) decode_obj split: prod.splits if_splits)
    then show ?thesis using handleClaim_invalid [OF Some] by (simp add: claim_valid_def)
  qed
qed

theorem snake_case_rejected_witness:
  "w_Status (fst (handleClaim memory_provider (\<lambda>_. calm sample_time)
     (post_request ''/claim'' (JObj [(''resource_uri'', JStr ''file://src/api.go''), (''agent_id'', JStr ''bot-1''),
       (''operation'', JStr ''write''), (''intent'', JStr ''refactoring'')]))
     (New_server False [] 0 0 0 ''n'' mem_New))) = 400"
proof -
  let ?kvs = "[(''resource_uri'', JStr ''file://src/api.go''), (''agent_id'', JStr ''bot-1''),
       (''operation'', JStr ''write''), (''intent'', JStr ''refactoring'')]"
  have "hr_Body (post_request ''/claim'' (JObj ?kvs)) = Some (JObj ?kvs)" by simp
  from snake_case_rejected [OF this, of memory_provider "\<lambda>_. calm sample_time" "New_server False [] 0 0 0 ''n'' mem_New"]
  show ?thesis by fastforce
qed

end
