(* ===== verification/ManagedFacts.thy ===== *)
theory ManagedFacts
  imports Managed Url ServerFacts
begin

text \<open>
  The managed provider of \<open>internal/managed\<close> against the REST server of \<open>internal/server\<close>: which of
  its operations do what the provider behind the server does, and which the server cannot answer.
\<close>

section \<open>The repository's server at the other end\<close>

text \<open>
  The server listens at \<open>base\<close>. A request with a control character is not sent, one whose target
  has a space is answered 400, and the fragment of a URL stays with the client; the query string is
  parsed as \<open>net/url\<close> does. \<open>es_of\<close> gives the environments of the calls that serve a request.
\<close>

definition over_rest ::
  "string \<Rightarrow> (string \<Rightarrow> int \<Rightarrow> 's \<Rightarrow> error + event list) \<Rightarrow> 's provider \<Rightarrow> (env \<Rightarrow> envs) \<Rightarrow> 's server net" where
  "over_rest base subscribe P es_of e call sv =
     (if list_ex control (hc_URL call) then
        (Inl (ExternalError ''net/url: invalid control character in URL''), sv)
      else if \<not> HasPrefix (hc_URL call) base then (Inl (ExternalError ''connection refused''), sv)
      else
        let target = fst (cut (CHR ''#'') (drop (length base) (hc_URL call)))
        in if CHR '' '' \<in> set target then (Inr (http_Error (Text ''400 Bad Request'') 400), sv)
           else case cut (CHR ''?'') target of
             (path, q) \<Rightarrow> apfst Inr
               (ServeHTTP subscribe P (es_of e)
                  \<lparr>hr_Method = hc_Method call, hr_Path = path, hr_Header = first_value (hc_Header call),
                   hr_Param = first_value (parse_query q), hr_Body = hc_Body call\<rparr> sv))"

definition rest_request :: "string \<Rightarrow> string \<Rightarrow> (string \<times> string) list \<Rightarrow> (string \<times> string) list \<Rightarrow> raw \<Rightarrow> request" where
  "rest_request meth path params header body =
     \<lparr>hr_Method = meth, hr_Path = path, hr_Header = first_value header, hr_Param = first_value params,
      hr_Body = body\<rparr>"

lemma rest_request_simps [simp]:
  "hr_Method (rest_request me p q h b) = me" "hr_Path (rest_request me p q h b) = p"
  "hr_Header (rest_request me p q h b) = first_value h" "hr_Param (rest_request me p q h b) = first_value q"
  "hr_Body (rest_request me p q h b) = b"
  by (simp_all add: rest_request_def)

definition path_ok :: "string \<Rightarrow> bool" where
  "path_ok p \<longleftrightarrow> plain p \<and> CHR ''?'' \<notin> set p"

text \<open>A request without parameters, and one whose parameters need no escape.\<close>

lemma over_rest_post:
  assumes "\<not> list_ex control base" "path_ok path"
  shows "over_rest base subscribe P es_of e
      \<lparr>hc_Method = me, hc_URL = base @ path, hc_Header = h, hc_Body = b\<rparr> sv =
    apfst Inr (ServeHTTP subscribe P (es_of e) (rest_request me path [] h b) sv)"
proof -
  have "query_pair [] = None" by (simp add: query_pair_def)
  then have "parse_query [] = []" by (simp add: parse_query_def List.map_filter_simps)
  with assms plain_chars [of path] show ?thesis
    by (simp add: over_rest_def path_ok_def cut_none rest_request_def)
qed

lemma over_rest_get:
  assumes "\<not> list_ex control base" "path_ok path" "url = base @ path @ ''?'' @ query_of kvs" "kvs \<noteq> []"
    and "\<forall>(k, v) \<in> set kvs. plain k \<and> plain v \<and> CHR ''='' \<notin> set k"
  shows "over_rest base subscribe P es_of e
      \<lparr>hc_Method = me, hc_URL = url, hc_Header = h, hc_Body = b\<rparr> sv =
    apfst Inr (ServeHTTP subscribe P (es_of e) (rest_request me path kvs h b) sv)"
proof -
  have q: "CHR ''#'' \<notin> set (query_of kvs)" "CHR '' '' \<notin> set (query_of kvs)" "\<not> list_ex control (query_of kvs)"
    using plain_query_of [of kvs] assms(5) by (auto simp: split_beta)
  have p: "CHR ''#'' \<notin> set path" "CHR '' '' \<notin> set path" "\<not> list_ex control path" "CHR ''?'' \<notin> set path"
    using assms(2) plain_chars [of path] by (simp_all add: path_ok_def)
  have "\<not> control (CHR ''?'')" by (simp add: control_def)
  then show ?thesis
    using assms(1) p q parse_query_of [OF assms(4,5)]
    by (simp add: over_rest_def assms(3) cut_none cut_append rest_request_def)
qed

section \<open>What survives the JSON encoding\<close>

definition message_ok :: "message \<Rightarrow> bool" where
  "message_ok m \<longleftrightarrow> time_ok (m_Timestamp m) \<and> - (2 ^ 63) \<le> m_Offset m \<and> m_Offset m < 2 ^ 63 \<and> m_Payload m \<noteq> None"

lemma Unmarshal_message_json:
  "message_ok m \<Longrightarrow> Unmarshal message_fields zero_message (Some (message_json m)) = (m, True)"
  by (auto simp: Unmarshal_def message_json_def message_fields_def decode_members_exact string_field_JStr
      int_field_JNum time_field_json raw_field_json raw_json_def message_ok_def zero_message_def)

lemma Unmarshal_claim_json:
  assumes "claim_ok c"
  shows "Unmarshal claim_fields zero_claim (Some (claim_json c)) = (c, True)"
proof -
  obtain r ok where u: "Unmarshal claim_fields zero_claim (Some (claim_json c)) = (r, ok)" by fastforce
  with decode_claim_json [OF assms] show ?thesis by (auto simp: decode_claim_def decode_def split: if_splits)
qed

lemma map_Unmarshal:
  assumes "\<And>x. x \<in> set xs \<Longrightarrow> Unmarshal fs zero (Some (js x)) = (x, True)"
  shows "map (\<lambda>x. fst (Unmarshal fs zero (Some (js x)))) xs = xs"
    "\<forall>x \<in> set xs. snd (Unmarshal fs zero (Some (js x)))"
  using assms by (simp_all add: map_idI)

lemma decode_slice_json:
  assumes "\<And>x. x \<in> set xs \<Longrightarrow> Unmarshal fs zero (Some (js x)) = (x, True)"
  shows "decode_slice fs zero (Some (slice_json js xs)) = Some xs"
  using map_Unmarshal [of xs fs zero js, OF assms]
  by (simp add: decode_slice_def Unmarshal_slice_def slice_json_def Let_def comp_def list_all_iff)

lemma array_field_json:
  assumes "\<And>x. x \<in> set xs \<Longrightarrow> Unmarshal fs zero (Some (js x)) = (x, True)"
  shows "array_field fs zero upd (slice_json js xs) r = (upd (\<lambda>_. xs) r, True)"
  using map_Unmarshal [of xs fs zero js, OF assms]
  by (simp add: array_field_def slice_json_def Let_def comp_def list_all_iff)

lemma decode_append_body:
  assumes "\<forall>m \<in> set msgs. message_ok m"
  shows "decode append_fields \<lparr>ar_Namespace = [], ar_Messages = []\<rparr>
      (Some (JObj [(''messages'', slice_json message_json msgs), (''namespace'', JStr ns)])) =
    Some \<lparr>ar_Namespace = ns, ar_Messages = msgs\<rparr>"
  using assms Unmarshal_message_json
  by (simp add: decode_obj append_fields_def decode_members_exact array_field_json string_field_JStr)

section \<open>How the server serves a request of the client\<close>

lemma auth_Wrap_cases:
  obtains (refused) "w_Status (fst (auth_Wrap h P es r sv)) = 401" "sv_store (snd (auth_Wrap h P es r sv)) = sv_store sv"
  | (direct) "auth_Wrap h P es r sv = h P es r sv"
proof (cases "sv_token sv = [] \<or> authorized (sv_token sv) (hr_Header r)")
  case True
  then show thesis by (intro direct) (auto simp: auth_Wrap_def)
next
  case False
  then show thesis using auth_Wrap_refused [of sv r h P es] refused by simp
qed

lemma post_served:
  assumes "map_of post_routes (hr_Path r) = Some h" "hr_Method r = ''POST''"
    and "ServeHTTP subscribe P es r sv = (w, sv')"
  obtains (refused) "w_Status w = 401 \<or> w_Status w = 429" "sv_store sv' = sv_store sv"
  | (served) k sv0 w0 where "h P (after k es) r sv0 = (w0, sv')" "sv_store sv0 = sv_store sv"
      "w_Status w = w_Status w0"
proof -
  note R = refused and S = served
  have es: "after 0 es = es" by (simp add: after_def)
  have rate: "rate_Wrap (auth_Wrap h) P es r sv = (w, sv')"
    using assms by (simp add: ServeHTTP_def Let_def)
  have auth: thesis
    if "auth_Wrap h P (after k es) r sv0 = (w0, sv')" "sv_store sv0 = sv_store sv" "w_Status w = w_Status w0"
    for k sv0 w0
  proof (cases rule: auth_Wrap_cases [of h P "after k es" r sv0])
    case refused
    with that show thesis by (intro R) auto
  next
    case direct
    with that show thesis by (intro S [of k sv0 w0]) auto
  qed
  show thesis
  proof (cases rule: rate_Wrap_cases [of "auth_Wrap h" P es r sv])
    case direct
    with rate show thesis by (intro auth [of 0 sv w]) (simp_all add: es)
  next
    case limited
    with rate show thesis by (intro R) auto
  next
    case (passed rl' hs w' sv'')
    with rate show thesis by (intro auth [of 1 "sv\<lparr>sv_rate := rl'\<rparr>" w']) auto
  qed
qed

lemma mg_New_simps [simp]: "mg_endpoint (mg_New base token) = base" "mg_token (mg_New base token) = token"
  by (simp_all add: mg_New_def)

lemma mg_post_rest:
  assumes "\<not> list_ex control base" "path_ok path"
  shows "mg_post (over_rest base subscribe P es_of) (mg_New base token) e path b sv =
    status_only (''managed '' @ path) (\<lambda>code. code < 300)
      (apfst Inr (ServeHTTP subscribe P (es_of e)
        (rest_request ''POST'' path [] (content_type @ bearer_header (mg_New base token)) b) sv))"
  by (simp add: mg_post_def mg_do_def over_rest_post [OF assms])

lemma status_only_Inr [simp]:
  "status_only what good (Inr w, s) = (if good (w_Status w) then None else Some (failed_status what w), s)"
  by (simp add: status_only_def)

lemma path_ok_literals: "path_ok ''/append''" "path_ok ''/message''" "path_ok ''/query''" "path_ok ''/claims''"
  "path_ok ''/tasks/create''" "path_ok ''/tasks/get''" "path_ok ''/tasks/update''" "path_ok ''/tasks/history''"
  "path_ok ''/tasks/artifact''" "path_ok ''/tasks/artifacts''" "path_ok ''/audit''"
  by (simp_all add: path_ok_def control_def)


lemma message_ok_new: "message_ok (new_message ty a p)"
  by (simp add: message_ok_def new_message_def time_ok_def nanos_per_day_def nanos_per_second_def)

lemma auth_Wrap_bearer:
  "sv_token sv = [] \<or> sv_token sv = token \<Longrightarrow>
   auth_Wrap h P es (rest_request me path q (content_type @ bearer_header (mg_New base token)) b) sv =
   h P es (rest_request me path q (content_type @ bearer_header (mg_New base token)) b) sv"
  using TrimPrefix_append [of "''Bearer ''" token] HasPrefix_append [of "''Bearer ''" token]
  by (auto simp: auth_Wrap_def authorized_def bearer_def first_value_def bearer_header_def content_type_def Let_def)


section \<open>Reading through the server\<close>

lemma mg_get_rest:
  assumes "\<not> list_ex control base" "path_ok path" "url = base @ path @ ''?'' @ query_of kvs" "kvs \<noteq> []"
    and "\<forall>(k, v) \<in> set kvs. plain k \<and> plain v \<and> CHR ''='' \<notin> set k"
    and "map_of (get_routes subscribe) path = Some h"
  shows "mg_do (over_rest base subscribe P es_of) (mg_New base token) e ''GET'' url None sv =
    apfst Inr (h P (es_of e) (rest_request ''GET'' path kvs (content_type @ bearer_header (mg_New base token)) None) sv)"
  unfolding mg_do_def over_rest_get [OF assms(1-5)] using assms(6) by (simp add: ServeHTTP_def Let_def)

lemma number_param_itoa: "- (2 ^ 63) \<le> i \<Longrightarrow> i < 2 ^ 63 \<Longrightarrow> number_param (itoa i) = i"
  using ParseInt_itoa [of i] by (auto simp: number_param_def itoa_def)

lemma decoded_response_Inr [simp]:
  "decoded_response what good dec (Inr w, s) =
     (if \<not> good (w_Status w) then (Inl (failed_status what w), s)
      else case dec (response_raw w) of None \<Rightarrow> (Inl (ExternalError ''json''), s) | Some x \<Rightarrow> (Inr x, s))"
  by (simp add: decoded_response_def)

text \<open>A query without message types, whose strings need no escape in a URL, returns
  through the managed provider what the provider behind the server returns for it, and an error when
  that fails; a negative limit counts as none. The server's state stays as it is.\<close>

theorem managed_query:
  assumes "\<not> list_ex control base" and "q_Types opts = []" and "plain ns" "plain (q_AgentID opts)"
    and "- (2 ^ 63) \<le> q_Since opts" "q_Since opts < 2 ^ 63" "q_Limit opts < 2 ^ 63"
    and "res = p_Query P (es_of e 0) ns (opts\<lparr>q_Limit := max 0 (q_Limit opts)\<rparr>) (sv_store sv)"
    and "\<And>ms. res = Inr ms \<Longrightarrow> \<forall>m \<in> set ms. message_ok m"
  shows "mg_Query (over_rest base subscribe P es_of) (mg_New base token) e ns opts sv =
    ((case res of Inl err \<Rightarrow> Inl (Errorf ''managed query: 500'') | Inr ms \<Rightarrow> Inr ms), sv)"
proof -
  define kvs where "kvs = [(''namespace'', ns), (''since'', itoa (q_Since opts))]
    @ (if q_AgentID opts \<noteq> [] then [(''agent'', q_AgentID opts)] else [])
    @ (if q_Limit opts > 0 then [(''limit'', itoa (q_Limit opts))] else [])"
  let ?url = "base @ ''/query?namespace='' @ ns @ ''&since='' @ itoa (q_Since opts)
            @ (if q_AgentID opts \<noteq> [] then ''&agent='' @ q_AgentID opts else [])
            @ (if q_Limit opts > 0 then ''&limit='' @ itoa (q_Limit opts) else [])"
  have url: "?url = base @ ''/query'' @ ''?'' @ query_of kvs"
    by (simp add: kvs_def query_of_def)
  have kvs: "\<forall>(k, v) \<in> set kvs. plain k \<and> plain v \<and> CHR ''='' \<notin> set k" "kvs \<noteq> []"
    using assms(3,4) by (auto simp: kvs_def control_def)
  have "map_of (get_routes subscribe) ''/query'' = Some handleQuery" by (simp add: get_routes_def)
  note get = mg_get_rest [OF assms(1) path_ok_literals(3) url kvs(2,1) this]
  let ?r = "rest_request ''GET'' ''/query'' kvs (content_type @ bearer_header (mg_New base token)) None"
  have params: "hr_Param ?r ''namespace'' = ns" "hr_Param ?r ''agent'' = q_AgentID opts"
    "number_param (hr_Param ?r ''since'') = q_Since opts"
    "number_param (hr_Param ?r ''limit'') = max 0 (q_Limit opts)"
    using assms(5-7) by (simp_all add: kvs_def first_value_def number_param_itoa number_param_def [of "[]"])
  have "\<lparr>q_Since = q_Since opts, q_Types = [], q_AgentID = q_AgentID opts, q_Limit = max 0 (q_Limit opts)\<rparr> =
      opts\<lparr>q_Limit := max 0 (q_Limit opts)\<rparr>" using assms(2) by simp
  then have h: "handleQuery P (es_of e) ?r sv =
      (case res of Inl err \<Rightarrow> (error_reply err 500, sv) | Inr msgs \<Rightarrow> (reply 200 (Json (slice_json message_json msgs)), sv))"
    unfolding handleQuery_def Let_def params assms(8) by simp
  have mg: "mg_Query (over_rest base subscribe P es_of) (mg_New base token) e ns opts sv =
      decoded_response ''managed query'' (\<lambda>code. code < 300) (decode_slice message_fields zero_message)
        (apfst Inr (handleQuery P (es_of e) ?r sv))"
    using assms(2) by (simp add: mg_Query_def Let_def get [simplified])
  show ?thesis
  proof (cases res)
    case (Inl err)
    then show ?thesis
      unfolding mg h
      by (simp add: failed_status_def itoa_def utoa.simps digit_char_def)
  next
    case (Inr ms)
    have "decode_slice message_fields zero_message (Some (slice_json message_json ms)) = Some ms"
      using assms(9) [OF Inr] Unmarshal_message_json by (intro decode_slice_json) blast
    with Inr show ?thesis unfolding mg h by (simp add: response_raw_def reply_def)
  qed
qed

lemma two_releases_query:
  "mem_Query e ''n'' (no_opts\<lparr>q_Limit := 1\<rparr>) two_releases = Inr [hd (mem_log two_releases ''n'')]"
  by (simp add: mem_Query_def two_releases_log no_opts_def Let_def ref_msg_def)

theorem managed_query_witness:
  "let sv = New_server False [] 0 0 0 ''n'' two_releases
   in mg_Query (over_rest ''http://h'' (\<lambda>_ _ _. Inr []) memory_provider (\<lambda>e _. e)) (mg_New ''http://h'' [])
        (calm 5) ''n'' (no_opts\<lparr>q_Limit := 1\<rparr>) sv = (Inr [hd (mem_log two_releases ''n'')], sv)"
proof -
  let ?sv = "New_server False [] 0 0 0 ''n'' two_releases"
  let ?opts = "no_opts\<lparr>q_Limit := 1\<rparr>"
  have base: "\<not> list_ex control ''http://h''" by (simp add: control_def)
  have res: "p_Query memory_provider ((\<lambda>e _. e) (calm 5) (0::nat)) ''n'' (?opts\<lparr>q_Limit := max 0 (q_Limit ?opts)\<rparr>) (sv_store ?sv) =
      Inr [hd (mem_log two_releases ''n'')]"
    using two_releases_query by (simp add: New_server_def)
  have ok: "message_ok (hd (mem_log two_releases ''n''))"
    by (simp add: two_releases_log message_ok_def ref_msg_def time_ok_def nanos_per_day_def nanos_per_second_def)
  have opts: "q_Types ?opts = []" "plain ''n''" "plain (q_AgentID ?opts)" "- (2 ^ 63) \<le> q_Since ?opts"
      "q_Since ?opts < 2 ^ 63" "q_Limit ?opts < 2 ^ 63"
    by (simp_all add: no_opts_def control_def)
  from managed_query [where es_of = "\<lambda>e _. e" and e = "calm 5" and P = memory_provider and sv = ?sv,
      OF base opts res [symmetric], of "\<lambda>_ _ _. Inr []" "[]"] ok
  show ?thesis by (simp add: Let_def)
qed

section \<open>Claims through the server\<close>

text \<open>The server answers with the claims of its own namespace, whatever namespace is asked for.\<close>

lemma managed_active_claims:
  assumes "\<not> list_ex control base" "plain ns" "plain pat"
    and "\<And>cs. p_ActiveClaims P (es_of e 0) (sv_namespace sv) pat (sv_store sv) = Inr cs \<Longrightarrow> \<forall>c \<in> set cs. claim_ok c"
  shows "mg_ActiveClaims (over_rest base subscribe P es_of) (mg_New base token) e ns pat sv =
    ((case p_ActiveClaims P (es_of e 0) (sv_namespace sv) pat (sv_store sv) of
        Inl err \<Rightarrow> Inl (Errorf ''managed claims: 500'') | Inr cs \<Rightarrow> Inr cs), sv)"
proof -
  let ?kvs = "[(''namespace'', ns), (''resource'', pat)]"
  have url: "base @ ''/claims?namespace='' @ ns @ ''&resource='' @ pat = base @ ''/claims'' @ ''?'' @ query_of ?kvs"
    by (simp add: query_of_def)
  have kvs: "\<forall>(k, v) \<in> set ?kvs. plain k \<and> plain v \<and> CHR ''='' \<notin> set k" "?kvs \<noteq> []"
    using assms(2,3) by (auto simp: control_def)
  have "map_of (get_routes subscribe) ''/claims'' = Some handleQueryClaims" by (simp add: get_routes_def)
  note get = mg_get_rest [OF assms(1) path_ok_literals(4) url kvs(2,1) this]
  let ?r = "rest_request ''GET'' ''/claims'' ?kvs (content_type @ bearer_header (mg_New base token)) None"
  have mg: "mg_ActiveClaims (over_rest base subscribe P es_of) (mg_New base token) e ns pat sv =
      decoded_response ''managed claims'' (\<lambda>code. code < 300) (decode_slice claim_fields zero_claim)
        (apfst Inr (handleQueryClaims P (es_of e) ?r sv))"
    by (simp add: mg_ActiveClaims_def get [simplified])
  have h: "handleQueryClaims P (es_of e) ?r sv =
      (case p_ActiveClaims P (es_of e 0) (sv_namespace sv) pat (sv_store sv) of
         Inl err \<Rightarrow> (error_reply err 500, sv) | Inr cs \<Rightarrow> (reply 200 (Json (slice_json claim_json cs)), sv))"
    by (simp add: handleQueryClaims_def client_ActiveClaims_def first_value_def)
  show ?thesis
  proof (cases "p_ActiveClaims P (es_of e 0) (sv_namespace sv) pat (sv_store sv)")
    case (Inl err)
    then show ?thesis unfolding mg h by (simp add: failed_status_def itoa_def utoa.simps digit_char_def)
  next
    case (Inr cs)
    have "decode_slice claim_fields zero_claim (Some (slice_json claim_json cs)) = Some cs"
      using assms(4) [OF Inr] Unmarshal_claim_json by (intro decode_slice_json) blast
    with Inr show ?thesis unfolding mg h by (simp add: response_raw_def reply_def)
  qed
qed

text \<open>Without a rate limit, and with the server's token if it has one, \<open>Append\<close> is served.\<close>

lemma managed_append_served:
  assumes "\<not> list_ex control base" "\<forall>m \<in> set msgs. message_ok m" "rl_limit (sv_rate sv) \<le> 0"
    and "sv_token sv = [] \<or> sv_token sv = token"
  shows "mg_Append (over_rest base subscribe P es_of) (mg_New base token) e ns msgs sv =
    (case p_Append P (es_of e 0) ns msgs (sv_store sv) of
       (Some err, s') \<Rightarrow> (Some (Errorf ''managed /append: 500''), sv\<lparr>sv_store := s'\<rparr>)
     | (None, s') \<Rightarrow> (None, sv\<lparr>sv_store := s'\<rparr>))"
  using decode_append_body [OF assms(2), of ns] assms(3,4)
  by (auto simp: mg_Append_def mg_post_rest [OF assms(1) path_ok_literals(1)] ServeHTTP_def post_routes_def Let_def
      rate_Wrap_def auth_Wrap_bearer handleAppend_def answer_def failed_status_def itoa_def utoa.simps
      digit_char_def split: prod.split option.split)



section \<open>Requests the server has no route for\<close>

lemma over_rest_unknown:
  assumes "path_ok path" "hc_URL call = base @ path @ rest" "rest = [] \<or> (\<exists>q. rest = CHR ''?'' # q)"
    and "hc_Method call = ''POST'' \<and> map_of (post_routes :: (string \<times> 's handler) list) path = None \<or>
      hc_Method call = ''GET'' \<and> map_of (get_routes subscribe :: (string \<times> 's handler) list) path = None"
    and "over_rest base subscribe P es_of e call (sv :: 's server) = (res, sv')"
  shows "sv' = sv \<and> (\<forall>w. res = Inr w \<longrightarrow> w_Status w \<in> {400, 404, 405})"
proof -
  have p: "CHR ''#'' \<notin> set path" "CHR ''?'' \<notin> set path"
    using assms(1) plain_chars [of path] by (simp_all add: path_ok_def)
  have cut_hash: "\<exists>r. fst (cut (CHR ''#'') (path @ rest)) = path @ r \<and> (r = [] \<or> (\<exists>q. r = CHR ''?'' # q))"
    using assms(3)
  proof
    assume "rest = []"
    with p show ?thesis by (simp add: cut_none)
  next
    assume "\<exists>q. rest = CHR ''?'' # q"
    then obtain q where q: "rest = CHR ''?'' # q" by blast
    have "fst (cut c (u @ v)) = u @ fst (cut c v)" if "c \<notin> set u" for c :: char and u v
      using that by (induction u) (auto simp: split_beta)
    from this [OF p(1), of rest] show ?thesis by (simp add: q split_beta)
  qed
  then obtain r where r: "fst (cut (CHR ''#'') (path @ rest)) = path @ r" "r = [] \<or> (\<exists>q. r = CHR ''?'' # q)" by blast
  then have "fst (cut (CHR ''?'') (path @ r)) = path" using p by (auto simp: cut_none cut_append)
  then show ?thesis
    using assms(4,5) r(1) by (auto simp: over_rest_def assms(2) Let_def ServeHTTP_def split_beta split: if_splits)
qed

definition refused :: "'s server \<Rightarrow> error option \<times> 's server \<Rightarrow> bool" where
  "refused sv r \<longleftrightarrow> fst r \<noteq> None \<and> sv_store (snd r) = sv_store sv"

definition unread :: "'s server \<Rightarrow> (error + 'a) \<times> 's server \<Rightarrow> bool" where
  "unread sv r \<longleftrightarrow> isl (fst r) \<and> sv_store (snd r) = sv_store sv"

lemma refused_status:
  "(\<And>res sv'. r = (res, sv') \<Longrightarrow> sv' = sv \<and> (\<forall>w. res = Inr w \<longrightarrow> w_Status w \<in> {400, 404, 405})) \<Longrightarrow>
   \<not> good 400 \<Longrightarrow> \<not> good 404 \<Longrightarrow> \<not> good 405 \<Longrightarrow> refused sv (status_only what good r)"
  by (cases r; cases "fst r") (auto simp: refused_def status_only_def)

lemma unread_status:
  "(\<And>res sv'. r = (res, sv') \<Longrightarrow> sv' = sv \<and> (\<forall>w. res = Inr w \<longrightarrow> w_Status w \<in> {400, 404, 405})) \<Longrightarrow>
   \<not> good 400 \<Longrightarrow> \<not> good 404 \<Longrightarrow> \<not> good 405 \<Longrightarrow> unread sv (decoded_response what good dec r)"
  by (cases r; cases "fst r") (auto simp: unread_def decoded_response_def)

lemma no_namespace_decoded:
  assumes "decode send_fields zero_send (Some (mailbox_json msg)) = Some q"
  shows "sr_Namespace q = []"
proof -
  let ?kvs = "[(''message_id'', JStr (mb_MessageID msg)), (''from'', JStr (mb_From msg)),
     (''to'', JStr (mb_To msg)), (''type'', JStr (mb_Type msg)), (''content'', JStr (mb_Content msg))]
     @ omit_empty ''related_claim_id'' (mb_RelatedClaimID msg)
     @ [(''read'', JBool (mb_Read msg)), (''archived'', JBool (mb_Archived msg)),
        (''created_at'', time_json (mb_CreatedAt msg)), (''expires_at'', time_json (mb_ExpiresAt msg))]"
  have "sr_Namespace (fst (decode_members send_fields ?kvs (zero_send, True))) = []"
  proof (rule decode_members_invariant)
    fix k v f and r :: send_request
    assume kv: "(k, v) \<in> set ?kvs" "find_field send_fields k = Some f" and r: "sr_Namespace r = []"
    obtain n where n: "(n, f) \<in> set send_fields" "fold_name n = fold_name k"
      using find_field_name [OF kv(2)] by blast
    have "fst ` set ?kvs \<subseteq> {''message_id'', ''from'', ''to'', ''type'', ''content'', ''related_claim_id'', ''read'',
        ''archived'', ''created_at'', ''expires_at''}"
      by (simp add: omit_empty_def)
    with kv(1) have "k \<in> {''message_id'', ''from'', ''to'', ''type'', ''content'', ''related_claim_id'', ''read'',
        ''archived'', ''created_at'', ''expires_at''}" by fastforce
    then have "fold_name k \<noteq> ''namespace''"
      by (elim insertE emptyE; simp add: fold_name_def lower_char_def)
    moreover have "fold_name ''namespace'' = ''namespace''" by (simp add: fold_name_def lower_char_def)
    ultimately have "n \<noteq> ''namespace''" using n(2) by auto
    with n(1) r show "sr_Namespace (fst (f v r)) = []"
      by (auto simp: send_fields_def string_field_def int_field_def split: json.split)
  qed (simp add: zero_send_def)
  then show ?thesis
    using assms unfolding mailbox_json_def decode_obj by (auto split: prod.splits if_splits)
qed

lemma send_refused:
  assumes "\<not> list_ex control base"
  shows "refused sv (mg_SendMessage (over_rest base subscribe P es_of) (mg_New base token) e ns msg sv)"
proof -
  let ?r = "rest_request ''POST'' ''/message'' [] (content_type @ [(''X-Namespace'', ns)] @ bearer_header (mg_New base token))
    (Some (mailbox_json msg))"
  obtain w sv' where w: "ServeHTTP subscribe P (es_of e) ?r sv = (w, sv')" by fastforce
  have route: "map_of post_routes (hr_Path ?r) = Some handleSendMessage" by (simp add: post_routes_def)
  have rejects: "w_Status w0 = 400 \<and> sv1 = sv0" if h: "handleSendMessage P es' ?r sv0 = (w0, sv1)" for es' sv0 w0 sv1
  proof (cases "decode send_fields zero_send (hr_Body ?r)")
    case None
    with h show ?thesis by (auto simp: handleSendMessage_def bad_request_def)
  next
    case (Some q)
    then have "sr_Namespace q = []" using no_namespace_decoded [of msg q] by simp
    then obtain er where "ValidateNamespace (sr_Namespace q) = Some er" by (simp add: ValidateNamespace_def)
    with h Some show ?thesis by (auto simp: handleSendMessage_def)
  qed
  have "w_Status w \<noteq> 201 \<and> sv_store sv' = sv_store sv"
  proof (cases rule: post_served [OF route _ w])
    case (3 k sv0 w0)
    with rejects show ?thesis by auto
  qed auto
  then show ?thesis
    using w by (simp add: mg_SendMessage_def over_rest_post [OF assms path_ok_literals(2)] refused_def)
qed

definition unserved :: "string list" where
  "unserved = [''/tasks/create'', ''/tasks/get'', ''/tasks/update'', ''/tasks/history'', ''/tasks/artifact'',
     ''/tasks/artifacts'', ''/audit'']"

lemma unserved_routes:
  fixes subscribe :: "string \<Rightarrow> int \<Rightarrow> 's \<Rightarrow> error + event list"
  assumes "p \<in> set unserved"
  shows "map_of (post_routes :: (string \<times> 's handler) list) p = None" "map_of (get_routes subscribe) p = None"
    "path_ok p"
  using assms unfolding unserved_def
  by (simp_all only: list.set insert_iff empty_iff)
    (elim disjE FalseE; simp add: post_routes_def get_routes_def path_ok_literals)+

lemma post_query_route: "map_of (post_routes :: (string \<times> 's handler) list) ''/query'' = None"
  by (simp add: post_routes_def)

lemma refused_post:
  fixes subscribe :: "string \<Rightarrow> int \<Rightarrow> 's \<Rightarrow> error + event list"
  assumes "p \<in> set unserved"
  shows "refused sv (mg_post (over_rest base subscribe P es_of) (mg_New base token) e p b sv)"
  unfolding mg_post_def mg_do_def
  by (rule refused_status, rule over_rest_unknown [of p _ base "[]" subscribe])
    (use unserved_routes [OF assms] in auto)

lemma unread_get:
  fixes subscribe :: "string \<Rightarrow> int \<Rightarrow> 's \<Rightarrow> error + event list"
  assumes "p \<in> set unserved"
  shows "unread sv (decoded_response what (\<lambda>code. code < 300) dec
    (mg_do (over_rest base subscribe P es_of) (mg_New base token) e ''GET'' (base @ p @ CHR ''?'' # q) None sv))"
  unfolding mg_do_def
  by (rule unread_status, rule over_rest_unknown [of p _ base "CHR ''?'' # q" subscribe])
    (use unserved_routes(2,3) [OF assms] in auto)

text \<open>C20: Through the managed provider against the repository's own server, some
  operations can never succeed, and change nothing: a query that asks for message types (the server
  has no \<open>POST /query\<close>), sending a mailbox message (the server reads the namespace from the body, the
  client writes it to a header), everything about tasks, and appending audit events.\<close>

theorem managed_refuses:
  assumes "\<not> list_ex control base" and "net = over_rest base subscribe P es_of" and "m = mg_New base token"
  shows "(q_Types opts \<noteq> [] \<longrightarrow> unread sv (mg_Query net m e ns opts sv)) \<and>
    refused sv (mg_SendMessage net m e ns msg sv) \<and>
    refused sv (mg_CreateTask net m e ns t sv) \<and> unread sv (mg_GetTask net m e ns i sv) \<and>
    refused sv (mg_UpdateTask net m e ns t sv) \<and> refused sv (mg_AppendTaskHistory net m e ns i n hm sv) \<and>
    unread sv (mg_GetTaskHistory net m e ns i n sv) \<and> refused sv (mg_CreateArtifact net m e ns i art sv) \<and>
    unread sv (mg_GetArtifacts net m e ns i sv) \<and> refused sv (mg_AppendAudit net m e ns evs sv)"
proof -
  have paths: "set unserved = {''/tasks/create'', ''/tasks/get'', ''/tasks/update'', ''/tasks/history'', ''/tasks/artifact'',
     ''/tasks/artifacts'', ''/audit''}" by (simp add: unserved_def)
  have query: "unread sv (mg_Query net m e ns opts sv)" if "q_Types opts \<noteq> []"
    unfolding mg_Query_def Let_def mg_do_def assms(2,3) using that
    by (simp only: length_greater_0_conv not_False_eq_True if_True)
      (rule unread_status, rule over_rest_unknown [of "''/query''" _ base "[]" subscribe],
        simp_all add: path_ok_literals post_query_route)
  have audit: "refused sv (mg_AppendAudit net m e ns evs sv)"
    unfolding mg_AppendAudit_def mg_do_def assms(2,3)
    by (rule refused_status, rule over_rest_unknown [of "''/audit''" _ base "''?namespace='' @ ns" subscribe])
      (use unserved_routes [of "''/audit''"] paths in auto)
  note post = refused_post [where base = base and subscribe = subscribe and P = P and es_of = es_of and token = token, folded assms(2,3)]
  note get = unread_get [where base = base and subscribe = subscribe and P = P and es_of = es_of and token = token, folded assms(2,3)]
  have "refused sv (mg_CreateTask net m e ns t sv)" "refused sv (mg_UpdateTask net m e ns t sv)"
    "refused sv (mg_AppendTaskHistory net m e ns i n hm sv)" "refused sv (mg_CreateArtifact net m e ns i art sv)"
    unfolding mg_CreateTask_def mg_UpdateTask_def mg_AppendTaskHistory_def mg_CreateArtifact_def
    by (rule post, simp add: paths)+
  moreover have "unread sv (mg_GetTask net m e ns i sv)" "unread sv (mg_GetTaskHistory net m e ns i n sv)"
    "unread sv (mg_GetArtifacts net m e ns i sv)"
    using get [of "''/tasks/get''"] get [of "''/tasks/history''"] get [of "''/tasks/artifacts''"] paths
    by (simp_all add: mg_GetTask_def mg_GetTaskHistory_def mg_GetArtifacts_def assms(3))
  moreover have "refused sv (mg_SendMessage net m e ns msg sv)"
    unfolding assms(2,3) by (rule send_refused [OF assms(1)])
  ultimately show ?thesis using query audit by blast
qed

theorem managed_refuses_witness:
  "let net = over_rest ''http://h'' (\<lambda>_ _ _. Inr []) memory_provider (\<lambda>e _. e); m = mg_New ''http://h'' [];
       sv = New_server False [] 0 0 0 ''n'' bob_claims
   in isl (fst (mg_Query net m (calm 5) ''n'' (no_opts\<lparr>q_Types := [MsgClaim]\<rparr>) sv)) \<and>
      fst (mg_SendMessage net m (calm 5) ''n'' zero_mailbox sv) \<noteq> None \<and>
      fst (mg_CreateTask net m (calm 5) ''n'' zero_a2a_task sv) \<noteq> None"
proof -
  have "\<not> list_ex control ''http://h''" by (simp add: control_def)
  then show ?thesis
    using managed_refuses [where base = "''http://h''" and subscribe = "\<lambda>_ _ _. Inr []" and P = memory_provider
        and es_of = "\<lambda>e _. e" and opts = "no_opts\<lparr>q_Types := [MsgClaim]\<rparr>" and msg = zero_mailbox and t = zero_a2a_task
        and sv = "New_server False [] 0 0 0 ''n'' bob_claims" and token = "[]" and e = "calm 5" and ns = "''n''",
        OF _ refl refl]
    by (simp add: Let_def unread_def refused_def)
qed

end
