(* ===== verification/Watcher.thy ===== *)
theory Watcher
  imports ClientFacts SqliteFacts
begin

text \<open>
  The filesystem watcher, \<open>internal/watcher/watcher.go\<close>, which claims the files that change. The
  directory tree that \<open>filepath.Walk\<close> visits and the events of the \<open>fsnotify\<close> package, which is not
  part of the repository, are inputs. The machine's time zone is UTC.
\<close>

section \<open>Configuration\<close>

text \<open>The client is given by its provider and namespace where the watcher runs.\<close>

record watcher_config =
  wc_Path :: string
  wc_Namespace :: string
  wc_PollInterval :: int
  wc_ClaimTTL :: int
  wc_Include :: "string list"
  wc_Exclude :: "string list"

definition New_watcher :: "watcher_config \<Rightarrow> watcher_config" where
  "New_watcher cfg =
     (let cfg = (if wc_PollInterval cfg = 0 then cfg\<lparr>wc_PollInterval := 2 * nanos_per_second\<rparr> else cfg)
      in if wc_ClaimTTL cfg = 0 then cfg\<lparr>wc_ClaimTTL := 60\<rparr> else cfg)"

section \<open>Which paths count\<close>

text \<open>\<open>filepath.Base\<close>.\<close>

definition trim_slashes :: "string \<Rightarrow> string" where
  "trim_slashes s = rev (dropWhile (\<lambda>c. c = CHR ''/'') (rev s))"

definition Base :: "string \<Rightarrow> string" where
  "Base path =
     (if path = [] then ''.''
      else let p = rev (takeWhile (\<lambda>c. c \<noteq> CHR ''/'') (rev (trim_slashes path)))
           in if p = [] then ''/'' else p)"

text \<open>\<open>matched, _ := filepath.Match(pattern, s)\<close>: a malformed pattern matches nothing.\<close>

definition matched :: "string \<Rightarrow> string \<Rightarrow> bool" where
  "matched pattern s \<longleftrightarrow> Match pattern s = Some True"

definition isIncluded :: "watcher_config \<Rightarrow> string \<Rightarrow> bool" where
  "isIncluded cfg path \<longleftrightarrow>
     length (wc_Include cfg) = 0 \<or> list_ex (\<lambda>pattern. matched pattern (Base path)) (wc_Include cfg)"

definition isExcluded :: "watcher_config \<Rightarrow> string \<Rightarrow> bool" where
  "isExcluded cfg path \<longleftrightarrow>
     list_ex (\<lambda>pattern. matched pattern (Base path) \<or> Contains path pattern) (wc_Exclude cfg)"

section \<open>Walking the tree\<close>

text \<open>
  What \<open>filepath.Walk\<close> finds under a name: a file, a directory with its sorted entries or the error of
  reading it, or an entry whose status cannot be read. \<open>add\<close> is \<open>watcher.Add\<close>.
\<close>

datatype fs_tree =
    File
  | Dir "(string \<times> fs_tree) list"
  | Unreadable error
  | Broken error

definition join_path :: "string \<Rightarrow> string \<Rightarrow> string" where
  "join_path dir name =
     (if dir = ''.'' then name else if HasSuffix dir ''/'' then dir @ name else dir @ ''/'' @ name)"

text \<open>The directories watched so far, and the error that stops the walk.\<close>

fun walk :: "watcher_config \<Rightarrow> (string \<Rightarrow> error option) \<Rightarrow> string \<Rightarrow> fs_tree \<Rightarrow> string list \<times> error option"
  and walk_entries ::
    "watcher_config \<Rightarrow> (string \<Rightarrow> error option) \<Rightarrow> string \<Rightarrow> (string \<times> fs_tree) list \<Rightarrow> string list \<times> error option" where
  "walk cfg add path File = ([], None)"
| "walk cfg add path (Broken err) = ([], Some err)"
| "walk cfg add path (Unreadable err) = ([], Some err)"
| "walk cfg add path (Dir entries) =
     (if isExcluded cfg path then ([], None)
      else case add path of
        Some err \<Rightarrow> ([], Some (Errorf (''watch '' @ path @ '': '' @ error_text err)))
      | None \<Rightarrow> (case walk_entries cfg add path entries of (ds, err) \<Rightarrow> (path # ds, err)))"
| "walk_entries cfg add path [] = ([], None)"
| "walk_entries cfg add path ((name, t) # entries) =
     (case walk cfg add (join_path path name) t of
        (ds, Some err) \<Rightarrow> (ds, Some err)
      | (ds, None) \<Rightarrow> (case walk_entries cfg add path entries of (ds', err) \<Rightarrow> (ds @ ds', err)))"

section \<open>Handling changes\<close>

definition handleChange ::
  "'s provider \<Rightarrow> string \<Rightarrow> watcher_config \<Rightarrow> envs \<Rightarrow> string \<Rightarrow> string \<Rightarrow> 's \<Rightarrow> 's" where
  "handleChange P ns cfg es path op s =
     (let uri = ''file://'' @ path;
          now = Now (es 0) 0;
          intent = ''auto-detected: file changed at ''
            @ format_rfc3339 (now - now mod nanos_per_second);
          req = \<lparr>rq_ResourceURI = uri, rq_AgentID = ''watcher:auto'', rq_Operation = op, rq_Intent = intent,
            rq_ProjectedEnd = [], rq_TTLSeconds = wc_ClaimTTL cfg, rq_ParentClaimID = []\<rparr>
      in snd (client_Claim P ns (after 1 es) req s))"

text \<open>An event and the operations it has.\<close>

record fs_event =
  fe_Name :: string
  fe_Create :: bool
  fe_Write :: bool
  fe_Remove :: bool
  fe_Rename :: bool
  fe_Chmod :: bool

definition event_op :: "fs_event \<Rightarrow> string option" where
  "event_op ev =
     (if fe_Write ev \<or> fe_Create ev then Some OpWrite
      else if fe_Remove ev then Some OpDelete
      else if fe_Rename ev then Some OpRename
      else None)"

definition handle_event ::
  "'s provider \<Rightarrow> string \<Rightarrow> watcher_config \<Rightarrow> envs \<Rightarrow> fs_event \<Rightarrow> 's \<Rightarrow> 's" where
  "handle_event P ns cfg es ev s =
     (case event_op ev of
        None \<Rightarrow> s
      | Some op \<Rightarrow>
          if isIncluded cfg (fe_Name ev) \<and> \<not> isExcluded cfg (fe_Name ev)
          then handleChange P ns cfg es (fe_Name ev) op s else s)"

text \<open>What the loop of \<open>Run\<close> may receive; it returns on a closed channel, an error and a cancelled context.\<close>

datatype watch_input = Event envs fs_event | EventsClosed | WatchError error | ErrorsClosed | Cancelled error

datatype watch_result = Running | Returned "error option"

fun watch_loop ::
  "'s provider \<Rightarrow> string \<Rightarrow> watcher_config \<Rightarrow> watch_input list \<Rightarrow> 's \<Rightarrow> watch_result \<times> 's" where
  "watch_loop P ns cfg [] s = (Running, s)"
| "watch_loop P ns cfg (Event es ev # is) s = watch_loop P ns cfg is (handle_event P ns cfg es ev s)"
| "watch_loop P ns cfg (EventsClosed # is) s = (Returned None, s)"
| "watch_loop P ns cfg (WatchError err # is) s =
     (Returned (Some (Errorf (''fsnotify error: '' @ error_text err))), s)"
| "watch_loop P ns cfg (ErrorsClosed # is) s = (Returned None, s)"
| "watch_loop P ns cfg (Cancelled err # is) s = (Returned (Some err), s)"

definition Run ::
  "'s provider \<Rightarrow> string \<Rightarrow> watcher_config \<Rightarrow> error option \<Rightarrow> (string \<Rightarrow> error option) \<Rightarrow> fs_tree \<Rightarrow>
     watch_input list \<Rightarrow> 's \<Rightarrow> watch_result \<times> 's" where
  "Run P ns cfg created add tree inputs s =
     (case created of
        Some err \<Rightarrow> (Returned (Some (Errorf (''create fsnotify watcher: '' @ error_text err))), s)
      | None \<Rightarrow>
          (case walk cfg add (wc_Path cfg) tree of
             (ds, Some err) \<Rightarrow> (Returned (Some (Errorf (''walk path: '' @ error_text err))), s)
           | (ds, None) \<Rightarrow> watch_loop P ns cfg inputs s))"

section \<open>Which directories are watched\<close>

text \<open>The directories of a tree, each with the chain of directories that leads to it.\<close>

fun dirs :: "string list \<Rightarrow> string \<Rightarrow> fs_tree \<Rightarrow> (string \<times> string list) list"
  and dirs_entries :: "string list \<Rightarrow> string \<Rightarrow> (string \<times> fs_tree) list \<Rightarrow> (string \<times> string list) list" where
  "dirs up path (Dir entries) = (path, up) # dirs_entries (path # up) path entries"
| "dirs up path _ = []"
| "dirs_entries up path [] = []"
| "dirs_entries up path ((name, t) # entries) = dirs up (join_path path name) t @ dirs_entries up path entries"

lemma dirs_above:
  "(p, a) \<in> set (dirs up path t) \<Longrightarrow> set up \<subseteq> set a"
  "(p, a) \<in> set (dirs_entries up path entries) \<Longrightarrow> set up \<subseteq> set a"
  by (induction up path t and up path entries arbitrary: p a and p a rule: dirs_dirs_entries.induct) fastforce+

definition reachable_dir :: "watcher_config \<Rightarrow> string \<times> string list \<Rightarrow> bool" where
  "reachable_dir cfg d \<longleftrightarrow> \<not> isExcluded cfg (fst d) \<and> (\<forall>x \<in> set (snd d). \<not> isExcluded cfg x)"

lemma walk_dirs:
  "(\<forall>x \<in> set up. \<not> isExcluded cfg x) \<Longrightarrow> walk cfg (\<lambda>_. None) path t = (ds, None) \<Longrightarrow>
   ds = map fst (filter (reachable_dir cfg) (dirs up path t))"
  "(\<forall>x \<in> set up. \<not> isExcluded cfg x) \<Longrightarrow> walk_entries cfg (\<lambda>_. None) path entries = (ds, None) \<Longrightarrow>
   ds = map fst (filter (reachable_dir cfg) (dirs_entries up path entries))"
proof (induction cfg "\<lambda>_ :: string. None :: error option" path t and cfg "\<lambda>_ :: string. None :: error option" path entries
    arbitrary: up ds and up ds rule: walk_walk_entries.induct)
  case (4 cfg path entries)
  show ?case
  proof (cases "isExcluded cfg path")
    case True
    have "filter (reachable_dir cfg) (dirs_entries (path # up) path entries) = []"
      using dirs_above(2) True by (fastforce simp: filter_empty_conv reachable_dir_def)
    with 4 True show ?thesis by (simp add: reachable_dir_def)
  next
    case False
    obtain ds' err where w: "walk_entries cfg (\<lambda>_. None) path entries = (ds', err)" by fastforce
    with 4 False have "err = None" "ds = path # ds'" by auto
    with 4 False w show ?thesis by (auto simp: reachable_dir_def)
  qed
next
  case (6 cfg path name t entries)
  from "6.prems"(2) obtain ds1 ds2 where
    "walk cfg (\<lambda>_. None) (join_path path name) t = (ds1, None)"
    "walk_entries cfg (\<lambda>_. None) path entries = (ds2, None)" "ds = ds1 @ ds2"
    by (auto split: prod.splits option.splits)
  with 6 show ?case by auto
qed auto

text \<open>When the walk meets no error, the watched directories are exactly, and in the order
  of the tree, the directories that are not excluded and lie in no excluded directory.\<close>

theorem watched_dirs:
  assumes "walk cfg (\<lambda>_. None) (wc_Path cfg) tree = (ds, None)"
  shows "ds = map fst (filter (reachable_dir cfg) (dirs [] (wc_Path cfg) tree))"
  by (rule walk_dirs(1) [OF _ assms]) simp

definition sample_watch :: watcher_config where
  "sample_watch = \<lparr>wc_Path = ''src'', wc_Namespace = ''n'', wc_PollInterval = 0, wc_ClaimTTL = 60, wc_Include = [],
     wc_Exclude = [''node_modules'']\<rparr>"

theorem watched_dirs_witness:
  "fst (walk sample_watch (\<lambda>_. None) ''src'' (Dir [(''a.go'', File), (''lib'', Dir []), (''node_modules'', Dir [(''x'', Dir [])])])) =
     [''src'', ''src/lib'']"
proof -
  let ?t = "Dir [(''a.go'', File), (''lib'', Dir []), (''node_modules'', Dir [(''x'', Dir [])])]"
  have no: "isExcluded sample_watch ''src'' = False" "isExcluded sample_watch ''src/lib'' = False"
    "isExcluded sample_watch ''src/node_modules''"
    by (code_simp, code_simp, code_simp)
  have w: "walk sample_watch (\<lambda>_. None) (wc_Path sample_watch) ?t = (fst (walk sample_watch (\<lambda>_. None) ''src'' ?t), None)"
    using no by (simp add: sample_watch_def [THEN arg_cong [of _ _ wc_Path]] join_path_def HasSuffix_def)
  have d: "dirs [] (wc_Path sample_watch) ?t = [(''src'', []), (''src/lib'', [''src'']),
      (''src/node_modules'', [''src'']), (''src/node_modules/x'', [''src/node_modules'', ''src''])]"
    by (simp add: sample_watch_def join_path_def HasSuffix_def)
  from watched_dirs [OF w] show ?thesis unfolding d using no by (simp add: reachable_dir_def)
qed

section \<open>What the watcher claims\<close>

definition auto_claim :: "watcher_config \<Rightarrow> watch_input list \<Rightarrow> message \<Rightarrow> bool" where
  "auto_claim cfg inputs m \<longleftrightarrow>
     (\<exists>es ev c op. Event es ev \<in> set inputs \<and> event_op ev = Some op \<and>
        isIncluded cfg (fe_Name ev) \<and> \<not> isExcluded cfg (fe_Name ev) \<and>
        m_Type m = MsgClaim \<and> m_Payload m = Some (claim_json c) \<and> c_AgentID c = ''watcher:auto'' \<and>
        c_ResourceURI c = ''file://'' @ fe_Name ev \<and> c_Operation c = op)"

lemma auto_claim_more: "auto_claim cfg is m \<Longrightarrow> auto_claim cfg (i # is) m"
  by (auto simp: auto_claim_def)

context claim_store
begin

lemma handle_event_log:
  assumes "ok s"
  shows "ok (handle_event P ns cfg es ev s) \<and> (\<exists>new. log (handle_event P ns cfg es ev s) ns = log s ns @ new \<and>
    (\<forall>m \<in> set new. auto_claim cfg (Event es ev # is) m))"
proof (cases "event_op ev \<noteq> None \<and> isIncluded cfg (fe_Name ev) \<and> \<not> isExcluded cfg (fe_Name ev)")
  case False
  then have "handle_event P ns cfg es ev s = s" by (auto simp: handle_event_def split: option.split)
  with assms show ?thesis by simp
next
  case True
  then obtain op where op: "event_op ev = Some op" by auto
  define req where "req = \<lparr>rq_ResourceURI = ''file://'' @ fe_Name ev, rq_AgentID = ''watcher:auto'',
    rq_Operation = op, rq_Intent = ''auto-detected: file changed at ''
      @ format_rfc3339 (Now (es 0) 0 - Now (es 0) 0 mod nanos_per_second),
    rq_ProjectedEnd = [], rq_TTLSeconds = wc_ClaimTTL cfg, rq_ParentClaimID = []\<rparr>"
  obtain resp err s' where run: "client_Claim P ns (after 1 es) req s = ((resp, err), s')" by (metis prod.collapse)
  have eq: "handle_event P ns cfg es ev s = s'"
    using True op run by (simp add: handle_event_def handleChange_def Let_def req_def)
  show ?thesis
  proof (cases err)
    case None
    then obtain r where "resp = Some r"
      using run by (auto simp: client_Claim_def Let_def split: sum.splits if_splits prod.splits option.splits)
    with None run have run': "client_Claim P ns (after 1 es) req s = ((Some r, None), s')" by simp
    let ?c = "request_claim (default_ttl req) (Now (after 1 es 1) 0) (Now (after 1 es 1) 1)"
    obtain m where m: "log s' ns = log s ns @ [m]" "m_Type m = MsgClaim" "m_Payload m = Some (claim_json ?c)" "ok s'"
      using claim_granted [OF assms run'] by (auto simp: Let_def)
    have "c_AgentID ?c = ''watcher:auto''" "c_ResourceURI ?c = ''file://'' @ fe_Name ev" "c_Operation ?c = op"
      by (simp_all add: req_def)
    with m(2,3) op True have "auto_claim cfg (Event es ev # is) m" unfolding auto_claim_def by fastforce
    with m(1,4) show ?thesis unfolding eq by auto
  next
    case (Some er)
    with claim_refused [OF assms] run have "s' = s" by blast
    with assms show ?thesis unfolding eq by simp
  qed
qed

lemma watch_loop_log:
  assumes "ok s" "watch_loop P ns cfg inputs s = (res, s')"
  shows "ok s' \<and> (\<exists>new. log s' ns = log s ns @ new \<and> (\<forall>m \<in> set new. auto_claim cfg inputs m))"
  using assms
proof (induction inputs arbitrary: s)
  case (Cons i "is")
  show ?case
  proof (cases i)
    case (Event es ev)
    let ?s1 = "handle_event P ns cfg es ev s"
    from handle_event_log [OF Cons.prems(1), of ns cfg es ev "is"] obtain new where
      new: "ok ?s1" "log ?s1 ns = log s ns @ new" "\<forall>m \<in> set new. auto_claim cfg (i # is) m"
      unfolding Event by blast
    from Cons.prems(2) Event have "watch_loop P ns cfg is ?s1 = (res, s')" by simp
    from Cons.IH [OF new(1) this] new(2,3) auto_claim_more [of cfg "is" _ i] show ?thesis by fastforce
  qed (use Cons.prems in auto)
qed auto

end



end
