(* ===== verification/Background.thy ===== *)
theory Background
  imports ClientFacts SqliteFacts Exclusion
begin

text \<open>
  The two background loops of \<open>hearsay serve\<close> (\<open>cmd/hearsay/cmd_serve.go\<close> and
  \<open>internal/server/sweeper_native.go\<close>): the sweeper, and the death detector, which releases the
  claims of agents that have not been seen for a while. Each tick of a loop is a function of the
  store, and a loop is a function of what its \<open>select\<close> receives; what its log lines say is left out.
\<close>

section \<open>The sweeper\<close>

definition sweeper_tick :: "'s provider \<Rightarrow> envs \<Rightarrow> string \<Rightarrow> 's \<Rightarrow> 's" where
  "sweeper_tick P es ns s = (let before = Now (es 0) 0 in snd (p_ReleaseExpired P (es 1) ns before s))"

text \<open>What the loop receives: a tick, with the environment of its body, or the end of the context. The
  second component says that the goroutine has returned; otherwise it waits for the next tick.\<close>

datatype wake = Ticked envs | CtxDone

fun RunSweeper :: "'s provider \<Rightarrow> string \<Rightarrow> wake list \<Rightarrow> 's \<Rightarrow> 's \<times> bool" where
  "RunSweeper P ns [] s = (s, False)"
| "RunSweeper P ns (Ticked es # ws) s = RunSweeper P ns ws (sweeper_tick P es ns s)"
| "RunSweeper P ns (CtxDone # ws) s = (s, True)"

text \<open>Nothing that is received after the end of the context has an effect.\<close>

lemma RunSweeper_done:
  "CtxDone \<notin> set ws \<Longrightarrow> RunSweeper P ns (ws @ CtxDone # ws') s = (fst (RunSweeper P ns ws s), True)"
  by (induction P ns ws s rule: RunSweeper.induct) simp_all

text \<open>The context of \<open>hearsay serve\<close> is never cancelled.\<close>

lemma RunSweeper_ticks:
  "RunSweeper P ns (map Ticked ess) s = (fold (\<lambda>es. sweeper_tick P es ns) ess s, False)"
  by (induction ess arbitrary: s) simp_all

section \<open>The death detector\<close>

definition death_message :: "string \<Rightarrow> claim \<Rightarrow> message" where
  "death_message agentID c = new_message MsgRelease agentID
     (JObj [(''claim_id'', JStr (c_ClaimID c)), (''outcome'', JStr ''abandoned_by_death'')])"

fun release_all :: "'s provider \<Rightarrow> envs \<Rightarrow> string \<Rightarrow> string \<Rightarrow> claim list \<Rightarrow> 's \<Rightarrow> 's" where
  "release_all P es ns agentID [] s = s"
| "release_all P es ns agentID (c # cs) s =
     release_all P (after 1 es) ns agentID cs (snd (p_Append P (es 0) ns [death_message agentID c] s))"

definition appears_dead :: "int \<Rightarrow> time \<Rightarrow> time \<Rightarrow> bool" where
  "appears_dead agentTimeout now lastSeen \<longleftrightarrow> time_sub now lastSeen > seconds agentTimeout"

fun check_agents ::
  "'s provider \<Rightarrow> envs \<Rightarrow> string \<Rightarrow> int \<Rightarrow> time \<Rightarrow> claim list \<Rightarrow> string list \<Rightarrow> 's \<Rightarrow> 's" where
  "check_agents P es ns agentTimeout now claims [] s = s"
| "check_agents P es ns agentTimeout now claims (agentID # agents) s =
     (let cs = filter (\<lambda>c. c_AgentID c = agentID) claims;
          s' = (case p_AgentState P (es 0) ns agentID s of
            Inl err \<Rightarrow> s
          | Inr state \<Rightarrow>
              (if as_LastSeen state = 0 then s
               else if appears_dead agentTimeout now (as_LastSeen state) then
                 release_all P (after 1 es) ns agentID cs s
               else s))
      in check_agents P (after (1 + length cs) es) ns agentTimeout now claims agents s')"

text \<open>A map is iterated in any order: that of its keys which \<open>Tie\<close> chooses.\<close>

definition map_keys :: "env \<Rightarrow> string list \<Rightarrow> string list" where
  "map_keys e ks = sort_slice (Tie e) (\<lambda>_. 0) (remdups ks)"

lemma set_map_keys [simp]: "set (map_keys e ks) = set ks"
  by (simp add: map_keys_def)

lemma distinct_map_keys: "distinct (map_keys e ks)"
proof -
  have "mset (map_keys e ks) = mset (remdups ks)" by (simp add: map_keys_def)
  then show ?thesis by (metis distinct_remdups mset_eq_imp_distinct_iff)
qed

definition detector_tick :: "'s provider \<Rightarrow> envs \<Rightarrow> string \<Rightarrow> int \<Rightarrow> 's \<Rightarrow> 's" where
  "detector_tick P es ns agentTimeout s =
     (let now = Now (es 0) 0
      in case p_ActiveClaims P (es 1) ns [] s of
           Inl err \<Rightarrow> s
         | Inr claims \<Rightarrow>
             check_agents P (after 2 es) ns agentTimeout now claims
               (map_keys (es 0) (map c_AgentID claims)) s)"

text \<open>The loop has no other way out than the first test.\<close>

fun detector_loop :: "'s provider \<Rightarrow> string \<Rightarrow> int \<Rightarrow> envs list \<Rightarrow> 's \<Rightarrow> 's" where
  "detector_loop P ns agentTimeout [] s = s"
| "detector_loop P ns agentTimeout (es # ticks) s =
     detector_loop P ns agentTimeout ticks (detector_tick P es ns agentTimeout s)"

definition run_detector :: "'s provider \<Rightarrow> string \<Rightarrow> int \<Rightarrow> envs list \<Rightarrow> 's \<Rightarrow> 's" where
  "run_detector P ns agentTimeout ticks s =
     (if agentTimeout \<le> 0 then s else detector_loop P ns agentTimeout ticks s)"

lemma death_message_simps [simp]:
  "is_release (death_message a c)" "m_Type (death_message a c) = MsgRelease" "m_AgentID (death_message a c) = a"
  "decode_ref (m_Payload (death_message a c)) = Some (c_ClaimID c)"
proof -
  have "fold_name ''outcome'' \<noteq> ''claim_id''" by (rule fold_name_keys)
  then show "decode_ref (m_Payload (death_message a c)) = Some (c_ClaimID c)"
    by (simp add: death_message_def decode_ref_first)
qed (simp_all add: death_message_def is_release_def)

lemma last_seen_ge:
  "m \<in> set msgs \<Longrightarrow> m_AgentID m = a \<Longrightarrow> m_Timestamp m \<le> last_seen a msgs t"
proof (induction msgs arbitrary: t)
  case (Cons x msgs)
  have up: "t \<le> last_seen a msgs t" for t by (induction msgs arbitrary: t) (auto intro: order_trans less_imp_le)
  show ?case
  proof (cases "m = x")
    case True
    with Cons.prems(2) up [of "max t (m_Timestamp m)"] show ?thesis by (auto simp: max_def split: if_splits intro: order_trans)
  qed (use Cons in simp)
qed simp

lemma not_dead_later:
  assumes "\<not> appears_dead timeout now seen" "seen \<le> seen'"
  shows "\<not> appears_dead timeout now seen'"
  using assms by (auto simp: appears_dead_def time_sub_def split: if_splits)

section \<open>What the detector may write\<close>

text \<open>Back ends whose \<open>AgentState\<close> reads the whole log of the namespace.\<close>

locale watched_store = claim_store +
  assumes agent_state: "ok s \<Longrightarrow> p_AgentState P e ns a s = Inr st \<Longrightarrow>
    st = agent_state_of (Now e 0) a (log s ns)"
begin

text \<open>Each new message is the release of one of the claims, in the name of its agent, and its agent
  counts as dead.\<close>

definition death_of :: "(string \<Rightarrow> time) \<Rightarrow> int \<Rightarrow> time \<Rightarrow> claim list \<Rightarrow> string \<Rightarrow> message \<Rightarrow> bool" where
  "death_of seen_at timeout now claims ns m \<longleftrightarrow>
     (\<exists>c \<in> set claims. stamped ns (death_message (c_AgentID c) c) m \<and>
        seen_at (c_AgentID c) \<noteq> 0 \<and> appears_dead timeout now (seen_at (c_AgentID c)))"

lemma release_all_log:
  assumes "ok s" "\<forall>c \<in> set cs. c_AgentID c = a"
  shows "ok (release_all P es ns a cs s) \<and> (\<exists>new. log (release_all P es ns a cs s) ns = log s ns @ new \<and>
    (\<forall>m \<in> set new. \<exists>c \<in> set cs. stamped ns (death_message a c) m))"
  using assms
proof (induction cs arbitrary: es s)
  case (Cons c cs)
  obtain r s1 where app: "p_Append P (es 0) ns [death_message a c] s = (r, s1)" by fastforce
  have one: "ok s1 \<and> (\<exists>new. log s1 ns = log s ns @ new \<and> (\<forall>m \<in> set new. stamped ns (death_message a c) m))"
  proof (cases r)
    case None
    with append_one [OF Cons.prems(1)] app obtain m' where
      "log s1 ns = log s ns @ [m']" "stamped ns (death_message a c) m'" "ok s1" by blast
    then show ?thesis by force
  next
    case (Some err)
    with append_atomic [OF Cons.prems(1)] app have "s1 = s" by blast
    with Cons.prems(1) show ?thesis by simp
  qed
  from Cons.IH [of s1 "after 1 es"] one Cons.prems(2) obtain new where
    "ok (release_all P (after 1 es) ns a cs s1)" "log (release_all P (after 1 es) ns a cs s1) ns = log s1 ns @ new"
    "\<forall>m \<in> set new. \<exists>c \<in> set cs. stamped ns (death_message a c) m" by auto
  with one show ?case by (fastforce simp: app)
qed simp

lemma last_seen_append:
  "last_seen a (xs @ ys) t = last_seen a ys (last_seen a xs t)"
  by (induction xs arbitrary: t) auto

lemma last_seen_other: "\<forall>m \<in> set msgs. m_AgentID m \<noteq> a \<Longrightarrow> last_seen a msgs t = t"
  by (induction msgs) auto

lemma check_agents_log:
  assumes "ok s" "distinct agents" "\<forall>a \<in> set agents. last_seen a (log s ns) 0 = seen_at a"
  shows "ok (check_agents P es ns timeout now claims agents s) \<and>
    (\<exists>new. log (check_agents P es ns timeout now claims agents s) ns = log s ns @ new \<and>
      (\<forall>m \<in> set new. death_of seen_at timeout now claims ns m))"
  using assms
proof (induction agents arbitrary: es s)
  case (Cons a agents)
  let ?cs = "filter (\<lambda>c. c_AgentID c = a) claims"
  define s1 where "s1 = (case p_AgentState P (es 0) ns a s of Inl err \<Rightarrow> s
    | Inr state \<Rightarrow> (if as_LastSeen state = 0 then s
        else if appears_dead timeout now (as_LastSeen state) then release_all P (after 1 es) ns a ?cs s else s))"
  have "ok s1 \<and> (\<exists>new. log s1 ns = log s ns @ new \<and>
    (\<forall>m \<in> set new. death_of seen_at timeout now claims ns m \<and> m_AgentID m = a))"
  proof (cases "s1 = s")
    case False
    then obtain st where st: "p_AgentState P (es 0) ns a s = Inr st" "as_LastSeen st \<noteq> 0"
      "appears_dead timeout now (as_LastSeen st)" "s1 = release_all P (after 1 es) ns a ?cs s"
      by (auto simp: s1_def split: sum.splits if_splits)
    have seen: "as_LastSeen st = seen_at a"
      using agent_state [OF Cons.prems(1) st(1)] Cons.prems(3) by (simp add: agent_state_of_def)
    have "\<forall>c \<in> set ?cs. c_AgentID c = a" by simp
    from release_all_log [OF Cons.prems(1) this, of "after 1 es" ns] obtain new where new: "ok s1" "log s1 ns = log s ns @ new"
      "\<forall>m \<in> set new. \<exists>c \<in> set ?cs. stamped ns (death_message a c) m" unfolding st(4) by blast
    moreover have "death_of seen_at timeout now claims ns m \<and> m_AgentID m = a" if "m \<in> set new" for m
      using new(3) that st(2,3) seen by (fastforce simp: death_of_def stamped_def)
    ultimately show ?thesis by blast
  qed (use Cons.prems(1) in simp)
  then obtain new where s1: "ok s1" "log s1 ns = log s ns @ new"
    and new: "\<forall>m \<in> set new. death_of seen_at timeout now claims ns m \<and> m_AgentID m = a" by blast
  have same: "\<forall>b \<in> set agents. last_seen b (log s1 ns) 0 = seen_at b"
  proof
    fix b assume b: "b \<in> set agents"
    with Cons.prems(2) have "b \<noteq> a" by auto
    with new have "\<forall>m \<in> set new. m_AgentID m \<noteq> b" by blast
    with b Cons.prems(3) show "last_seen b (log s1 ns) 0 = seen_at b"
      by (simp add: s1(2) last_seen_append last_seen_other)
  qed
  have "distinct agents" using Cons.prems(2) by simp
  from Cons.IH [OF s1(1) this same, of "after (1 + length ?cs) es"] s1(2) new
  show ?case by (fastforce simp: Let_def s1_def [symmetric])
qed simp

lemma detector_writes:
  assumes "ok s"
  shows "ok (detector_tick P es ns timeout s) \<and>
    (\<exists>new. log (detector_tick P es ns timeout s) ns = log s ns @ new \<and>
      (\<forall>m \<in> set new. death_of (\<lambda>a. last_seen a (log s ns) 0) timeout (Now (es 0) 0)
         (FilterActiveClaims (Now (es 1) 0) (filter seen (log s ns))) ns m))"
proof (cases "\<exists>err. p_ActiveClaims P (es 1) ns [] s = Inl err")
  case True
  with assms show ?thesis by (auto simp: detector_tick_def)
next
  case False
  then obtain claims where claims: "p_ActiveClaims P (es 1) ns [] s = Inr claims"
    by (metis sum.exhaust)
  have "claims = FilterActiveClaims (Now (es 1) 0) (filter seen (log s ns))"
    using active_claims [OF assms claims] by (simp add: matching_claims_def ResourceMatchesPattern_def)
  with check_agents_log [OF assms distinct_map_keys, of "es 0" "map c_AgentID claims" ns
      "\<lambda>a. last_seen a (log s ns) 0" "after 2 es" timeout "Now (es 0) 0" claims]
  show ?thesis using False claims by (simp add: detector_tick_def Let_def)
qed

text \<open>Over any number of ticks.\<close>

definition death_release :: "message \<Rightarrow> bool" where
  "death_release m \<longleftrightarrow> (\<exists>c. m_Type m = MsgRelease \<and> m_AgentID m = c_AgentID c \<and>
     m_Payload m = m_Payload (death_message (c_AgentID c) c))"

lemma detector_loop_log:
  assumes "ok s"
  shows "ok (detector_loop P ns timeout ticks s) \<and>
    (\<exists>new. log (detector_loop P ns timeout ticks s) ns = log s ns @ new \<and> (\<forall>m \<in> set new. death_release m))"
  using assms
proof (induction ticks arbitrary: s)
  case (Cons es ticks)
  let ?s1 = "detector_tick P es ns timeout s"
  obtain new where new: "ok ?s1" "log ?s1 ns = log s ns @ new"
    "\<forall>m \<in> set new. death_of (\<lambda>a. last_seen a (log s ns) 0) timeout (Now (es 0) 0)
       (FilterActiveClaims (Now (es 1) 0) (filter seen (log s ns))) ns m"
    using detector_writes [OF Cons.prems] by blast
  have rel: "\<forall>m \<in> set new. death_release m"
    using new(3) by (fastforce simp: death_of_def death_release_def stamped_def)
  from Cons.IH [OF new(1)] obtain new' where "ok (detector_loop P ns timeout ticks ?s1)"
    "log (detector_loop P ns timeout ticks ?s1) ns = log ?s1 ns @ new'" "\<forall>m \<in> set new'. death_release m" by blast
  with new(2) rel show ?case by auto
qed simp

text \<open>An agent with a message that is not older than the timeout is spared, whoever wrote that message.\<close>

lemma detector_spares:
  assumes "ok s" "m \<in> set (log s ns)" "\<not> appears_dead timeout (Now (es 0) 0) (m_Timestamp m)"
  obtains new where "log (detector_tick P es ns timeout s) ns = log s ns @ new"
    "\<forall>x \<in> set new. m_AgentID x \<noteq> m_AgentID m"
proof -
  obtain new where new: "log (detector_tick P es ns timeout s) ns = log s ns @ new"
    "\<forall>x \<in> set new. death_of (\<lambda>a. last_seen a (log s ns) 0) timeout (Now (es 0) 0)
       (FilterActiveClaims (Now (es 1) 0) (filter seen (log s ns))) ns x"
    using detector_writes [OF assms(1)] by blast
  have "\<not> appears_dead timeout (Now (es 0) 0) (last_seen (m_AgentID m) (log s ns) 0)"
    by (rule not_dead_later [OF assms(3) last_seen_ge [OF assms(2) refl]])
  with new(2) have "\<forall>x \<in> set new. m_AgentID x \<noteq> m_AgentID m"
    by (fastforce simp: death_of_def stamped_def)
  with new(1) that show thesis by blast
qed

end

interpretation mem_watch: watched_store memory_provider mem_log mem_ok "\<lambda>_. True"
  by unfold_locales (auto simp: mem_AgentState_def mem_Query_all)

interpretation sq_watch: watched_store sqlite_provider sq_log sq_ok sq_seen
proof
  fix s e ns a st
  assume "sq_ok s" "p_AgentState sqlite_provider e ns a s = Inr st"
  then show "st = agent_state_of (Now e 0) a (sq_log s ns)"
    using sq_log_positive query_result_no_opts
    by (auto simp: sq_AgentState_def dest!: sq_Query_eq split: sum.splits)
qed

text \<open>On SQLite, where any statement may fail, a tick of the death detector
  keeps the store well-formed and only appends releases, each of a claim that was active, in the name
  of the claim's agent, whose last message is older than the timeout.\<close>

theorem sqlite_detector_safe:
  assumes "sq_ok s" and "s' = detector_tick sqlite_provider es ns timeout s"
    and "active = FilterActiveClaims (Now (es 1) 0) (filter sq_seen (sq_log s ns))"
  shows "sq_ok s' \<and> (\<exists>new. sq_log s' ns = sq_log s ns @ new \<and>
    (\<forall>m \<in> set new. \<exists>c \<in> set active. m_Type m = MsgRelease \<and> m_AgentID m = c_AgentID c \<and>
       decode_ref (m_Payload m) = Some (c_ClaimID c) \<and> last_seen (c_AgentID c) (sq_log s ns) 0 \<noteq> 0 \<and>
       appears_dead timeout (Now (es 0) 0) (last_seen (c_AgentID c) (sq_log s ns) 0)))"
proof -
  obtain new where new: "sq_ok s'" "sq_log s' ns = sq_log s ns @ new" and "\<forall>m \<in> set new.
      sq_watch.death_of (\<lambda>a. last_seen a (sq_log s ns) 0) timeout (Now (es 0) 0) active ns m"
    using sq_watch.detector_writes [OF assms(1), of es ns timeout] unfolding assms(2,3) by blast
  moreover have "\<exists>c \<in> set active. m_Type m = MsgRelease \<and> m_AgentID m = c_AgentID c \<and>
       decode_ref (m_Payload m) = Some (c_ClaimID c) \<and> seen_at (c_AgentID c) \<noteq> 0 \<and>
       appears_dead timeout now (seen_at (c_AgentID c))"
    if "sq_watch.death_of seen_at timeout now active ns m" for m seen_at now
    using that unfolding sq_watch.death_of_def stamped_def by (metis death_message_simps(2-4))
  ultimately show ?thesis by blast
qed

theorem sqlite_detector_safe_witness:
  "sq_ok (detector_tick sqlite_provider (\<lambda>_. calm (sample_time + 70000000000)) ''n'' 60 one_claim_db)"
  using sqlite_detector_safe [OF one_claim_db_ok refl refl] by blast

text \<open>Over any number of ticks the detector only appends releases.\<close>

theorem sqlite_detector_loop:
  assumes "sq_ok s" and "s' = run_detector sqlite_provider ns timeout ticks s"
  shows "sq_ok s' \<and> (\<exists>new. sq_log s' ns = sq_log s ns @ new \<and>
    (\<forall>m \<in> set new. m_Type m = MsgRelease \<and> (\<exists>c. m_Payload m = m_Payload (death_message (m_AgentID m) c))))"
proof (cases "timeout \<le> 0")
  case False
  then have "s' = detector_loop sqlite_provider ns timeout ticks s" using assms(2) by (simp add: run_detector_def)
  with sq_watch.detector_loop_log [OF assms(1), of ns timeout ticks]
  obtain new where "sq_ok s'" "sq_log s' ns = sq_log s ns @ new" "\<forall>m \<in> set new. sq_watch.death_release m"
    by blast
  then show ?thesis by (metis sq_watch.death_release_def)
qed (use assms in \<open>simp add: run_detector_def\<close>)

text \<open>
  The releases of the detector carry the id of the dead agent, so they count as a sign of its life:
  when some of them fail, as any statement may, what is left of its claims is spared by every tick up to
  another timeout later.
\<close>

theorem releases_count_as_seen:
  assumes "sq_ok s" and "p_Append sqlite_provider e ns [death_message (c_AgentID c) c] s = (None, s1)"
    and "sq_ok s2" and "sq_log s2 ns = sq_log s1 ns @ later"
  obtains m where "m \<in> set (sq_log s1 ns) - set (sq_log s ns)" "m_AgentID m = c_AgentID c"
    "\<And>es timeout. \<not> appears_dead timeout (Now (es 0) 0) (m_Timestamp m) \<Longrightarrow>
      \<exists>new. sq_log (detector_tick sqlite_provider es ns timeout s2) ns = sq_log s2 ns @ new \<and>
        (\<forall>x \<in> set new. m_AgentID x \<noteq> c_AgentID c)"
proof -
  obtain m where m: "sq_log s1 ns = sq_log s ns @ [m]" "stamped ns (death_message (c_AgentID c) c) m"
    "follows (sq_log s ns) m"
    using sq.append_one [OF assms(1,2)] by blast
  have in2: "m \<in> set (sq_log s2 ns)" using m(1) assms(4) by simp
  have agent: "m_AgentID m = c_AgentID c" using m(2) by (simp add: stamped_def)
  have "m \<notin> set (sq_log s ns)" using m(3) by (auto simp: follows_def)
  with m(1) have "m \<in> set (sq_log s1 ns) - set (sq_log s ns)" by simp
  then show thesis
    by (rule that [OF _ agent]) (use sq_watch.detector_spares [OF assms(3) in2] agent in metis)
qed

section \<open>What the detector achieves\<close>

lemma no_early_release_append:
  assumes "no_early_release msgs cid" "m_Type m \<noteq> MsgClaim" "follows msgs m"
  shows "no_early_release (msgs @ [m]) cid"
proof -
  have "fst e < m_Offset m" if "e \<in> set (claim_entries msgs)" for e
    using that assms(3) entry_offset [of "fst e" "snd e" msgs] by (auto simp: follows_def)
  with assms show ?thesis
    by (auto simp: no_early_release_def claim_entries_not_claim release_offsets_def)
qed

lemma mem_Append_one:
  assumes "mem_ok s"
  obtains m' where "mem_log (snd (mem_Append e ns [m] s)) ns = mem_log s ns @ [m']" "stamped ns m m'"
    "follows (mem_log s ns) m'" "mem_ok (snd (mem_Append e ns [m] s))"
  using mem.append_one [OF assms, of e ns m "snd (mem_Append e ns [m] s)"] mem_Append_None
  by (metis memory_provider_simps(3))

lemma release_all_memory:
  assumes "mem_ok s" and "\<forall>c \<in> set cs. c_ClaimID c \<noteq> [] \<and> no_early_release (mem_log s ns) (c_ClaimID c)"
    and "s' = release_all memory_provider es ns a cs s"
  shows "mem_ok s' \<and>
    FilterActiveClaims t (mem_log s' ns) =
      filter (\<lambda>c. c_ClaimID c \<notin> c_ClaimID ` set cs) (FilterActiveClaims t (mem_log s ns)) \<and>
    (\<forall>cid. no_early_release (mem_log s ns) cid \<longrightarrow> no_early_release (mem_log s' ns) cid) \<and>
    (\<forall>b. b \<noteq> a \<longrightarrow> last_seen b (mem_log s' ns) 0 = last_seen b (mem_log s ns) 0)"
  using assms
proof (induction cs arbitrary: es s)
  case (Cons c cs)
  define s1 where "s1 = snd (mem_Append (es 0) ns [death_message a c] s)"
  obtain m where m: "mem_log s1 ns = mem_log s ns @ [m]" "stamped ns (death_message a c) m"
      "follows (mem_log s ns) m" and ok: "mem_ok s1"
    using mem_Append_one [OF Cons.prems(1)] unfolding s1_def by blast
  have rel: "is_release m" "decode_ref (m_Payload m) = Some (c_ClaimID c)" "m_Type m \<noteq> MsgClaim" "m_AgentID m = a"
    using m(2) death_message_simps [of a c] unfolding stamped_def by (auto simp: is_release_def)
  have act: "FilterActiveClaims t (mem_log s1 ns) =
      filter (\<lambda>x. c_ClaimID x \<noteq> c_ClaimID c) (FilterActiveClaims t (mem_log s ns))"
    using FilterActiveClaims_release [OF rel(1,2) _ m(3)] Cons.prems(2) by (simp add: m(1))
  have early: "no_early_release (mem_log s ns) cid \<Longrightarrow> no_early_release (mem_log s1 ns) cid" for cid
    unfolding m(1) by (rule no_early_release_append [OF _ rel(3) m(3)])
  have seen: "b \<noteq> a \<Longrightarrow> last_seen b (mem_log s1 ns) 0 = last_seen b (mem_log s ns) 0" for b
    using rel(4) by (simp add: m(1) mem_watch.last_seen_append)
  have "s' = release_all memory_provider (after 1 es) ns a cs s1"
    using Cons.prems(3) by (simp add: s1_def)
  from Cons.IH [OF ok _ this] Cons.prems(2) early seen act show ?case by (auto simp: o_def)
qed simp

definition dead_ids :: "(string \<Rightarrow> time) \<Rightarrow> int \<Rightarrow> time \<Rightarrow> claim list \<Rightarrow> string set \<Rightarrow> string set" where
  "dead_ids seen_at timeout now claims agents =
     {c_ClaimID c | c. c \<in> set claims \<and> c_AgentID c \<in> agents \<and> seen_at (c_AgentID c) \<noteq> 0 \<and>
        appears_dead timeout now (seen_at (c_AgentID c))}"

lemma check_agents_memory:
  assumes "mem_ok s" and "distinct agents" and "\<forall>a \<in> set agents. last_seen a (mem_log s ns) 0 = seen_at a"
    and "\<forall>c \<in> set claims. c_ClaimID c \<noteq> [] \<and> no_early_release (mem_log s ns) (c_ClaimID c)"
    and "s' = check_agents memory_provider es ns timeout now claims agents s"
  shows "FilterActiveClaims t (mem_log s' ns) =
    filter (\<lambda>c. c_ClaimID c \<notin> dead_ids seen_at timeout now claims (set agents)) (FilterActiveClaims t (mem_log s ns))"
  using assms
proof (induction agents arbitrary: es s)
  case (Cons a agents)
  let ?cs = "filter (\<lambda>c. c_AgentID c = a) claims"
  let ?dead = "seen_at a \<noteq> 0 \<and> appears_dead timeout now (seen_at a)"
  define s1 where "s1 = (if ?dead then release_all memory_provider (after 1 es) ns a ?cs s else s)"
  have "s' = check_agents memory_provider (after (1 + length ?cs) es) ns timeout now claims agents s1"
    using Cons.prems(1,3,5) by (simp add: s1_def Let_def mem_AgentState_def mem_Query_all agent_state_of_def)
  moreover have eff: "mem_ok s1 \<and> FilterActiveClaims t (mem_log s1 ns) =
      filter (\<lambda>c. c_ClaimID c \<notin> dead_ids seen_at timeout now claims {a}) (FilterActiveClaims t (mem_log s ns)) \<and>
    (\<forall>cid. no_early_release (mem_log s ns) cid \<longrightarrow> no_early_release (mem_log s1 ns) cid) \<and>
    (\<forall>b. b \<noteq> a \<longrightarrow> last_seen b (mem_log s1 ns) 0 = last_seen b (mem_log s ns) 0)"
  proof (cases ?dead)
    case True
    then have ids: "dead_ids seen_at timeout now claims {a} = c_ClaimID ` set ?cs" by (auto simp: dead_ids_def)
    have "\<forall>c \<in> set ?cs. c_ClaimID c \<noteq> [] \<and> no_early_release (mem_log s ns) (c_ClaimID c)"
      using Cons.prems(4) by simp
    from release_all_memory [OF Cons.prems(1) this, of s1 "after 1 es" a t] True show ?thesis
      unfolding ids s1_def by simp
  next
    case False
    then have "dead_ids seen_at timeout now claims {a} = {}" by (auto simp: dead_ids_def)
    with False Cons.prems(1) show ?thesis by (auto simp: s1_def)
  qed
  moreover have "distinct agents" "\<forall>b \<in> set agents. last_seen b (mem_log s1 ns) 0 = seen_at b"
    using Cons.prems(2,3) eff by auto
  moreover have "\<forall>c \<in> set claims. c_ClaimID c \<noteq> [] \<and> no_early_release (mem_log s1 ns) (c_ClaimID c)"
    using Cons.prems(4) eff by blast
  ultimately have "FilterActiveClaims t (mem_log s' ns) =
      filter (\<lambda>c. c_ClaimID c \<notin> dead_ids seen_at timeout now claims (set agents)) (FilterActiveClaims t (mem_log s1 ns))"
    using Cons.IH by blast
  moreover have "dead_ids seen_at timeout now claims (set (a # agents)) =
      dead_ids seen_at timeout now claims {a} \<union> dead_ids seen_at timeout now claims (set agents)"
    by (auto simp: dead_ids_def)
  ultimately show ?case using eff by (auto intro!: filter_cong)
qed (simp add: dead_ids_def)

lemma death_ids_tick:
  assumes "mem_ok s" and "s' = detector_tick memory_provider es ns timeout s"
    and "active = FilterActiveClaims (Now (es 1) 0) (mem_log s ns)"
    and "\<forall>c \<in> set active. c_ClaimID c \<noteq> [] \<and> no_early_release (mem_log s ns) (c_ClaimID c)"
  shows "FilterActiveClaims t (mem_log s' ns) =
    filter (\<lambda>x. c_ClaimID x \<notin> dead_ids (\<lambda>a. last_seen a (mem_log s ns) 0) timeout (Now (es 0) 0) active UNIV)
      (FilterActiveClaims t (mem_log s ns))"
proof -
  have "s' = check_agents memory_provider (after 2 es) ns timeout (Now (es 0) 0) active
      (map_keys (es 0) (map c_AgentID active)) s"
    using assms(1-3) by (simp add: detector_tick_def mem_ActiveClaims_eq matching_claims_def
        ResourceMatchesPattern_def Let_def)
  from check_agents_memory [where seen_at = "\<lambda>a. last_seen a (mem_log s ns) 0", OF assms(1) distinct_map_keys _ assms(4) this]
  show ?thesis by (auto simp: dead_ids_def intro!: filter_cong)
qed


lemma bob_claims_log:
  "mem_log bob_claims ''n'' = [(new_message MsgClaim ''bob''
     (claim_json (request_claim (default_ttl (sample_request ''bob'')) sample_time sample_time)))
       \<lparr>m_Offset := 1, m_Namespace := ''n'', m_Timestamp := sample_time\<rparr>]"
  by (simp add: bob_claims_eq mem_Append_log)

lemma bob_claims_early: "no_early_release (mem_log bob_claims ''n'') cid"
  by (simp add: no_early_release_def release_offsets_def bob_claims_log is_release_def)

lemma bob_seen: "last_seen ''bob'' (mem_log bob_claims ''n'') 0 = sample_time"
  by (simp add: bob_claims_log sample_time_def)


section \<open>Heartbeats\<close>

text \<open>Any number of heartbeats, for any claims.\<close>

fun send_heartbeats :: "string \<Rightarrow> (envs \<times> string) list \<Rightarrow> memory \<Rightarrow> memory" where
  "send_heartbeats ns [] s = s"
| "send_heartbeats ns ((es, cid) # hs) s =
     send_heartbeats ns hs (snd (client_Heartbeat memory_provider ns es cid s))"

lemma send_heartbeats_seen:
  assumes "mem_ok s" "a \<noteq> []"
  shows "mem_ok (send_heartbeats ns hs s) \<and>
    last_seen a (mem_log (send_heartbeats ns hs s) ns) t = last_seen a (mem_log s ns) t"
  using assms(1)
proof (induction hs arbitrary: s)
  case (Cons h hs)
  obtain es cid where h: "h = (es, cid)" by fastforce
  let ?s1 = "snd (client_Heartbeat memory_provider ns es cid s)"
  let ?m = "new_message MsgHeartbeat [] (JObj [(''claim_id'', JStr cid), (''heartbeat_at'', time_json (Now (es 0) 0))])"
  obtain m where "mem_log ?s1 ns = mem_log s ns @ [m]" "stamped ns ?m m" "mem_ok ?s1"
    using mem_Append_one [OF Cons.prems, of "es 1" ns ?m] by (auto simp: client_Heartbeat_def)
  with Cons.IH [of ?s1] assms(2) show ?case by (auto simp: h mem_watch.last_seen_append stamped_def)
qed simp

text \<open>A heartbeat carries no agent, so it does not count as being seen: an
  agent that sends nothing but heartbeats for longer than the timeout is taken for dead, and its
  claim, which the heartbeats keep active, is released.\<close>

theorem heartbeats_do_not_help:
  assumes "mem_ok s0" and "s = send_heartbeats ns hs s0" and "s' = detector_tick memory_provider es ns timeout s"
    and "c \<in> set (FilterActiveClaims (Now (es 1) 0) (mem_log s ns))" and "c_AgentID c \<noteq> []"
    and "last_seen (c_AgentID c) (mem_log s0 ns) 0 \<noteq> 0"
    and "appears_dead timeout (Now (es 0) 0) (last_seen (c_AgentID c) (mem_log s0 ns) 0)"
    and "\<forall>x \<in> set (FilterActiveClaims (Now (es 1) 0) (mem_log s ns)).
      c_ClaimID x \<noteq> [] \<and> no_early_release (mem_log s ns) (c_ClaimID x)"
  shows "c \<notin> set (FilterActiveClaims t (mem_log s' ns))"
proof -
  have "mem_ok s" "last_seen (c_AgentID c) (mem_log s ns) 0 = last_seen (c_AgentID c) (mem_log s0 ns) 0"
    using send_heartbeats_seen [OF assms(1,5), of ns hs 0] unfolding assms(2) by simp_all
  then have "FilterActiveClaims t (mem_log s' ns) = filter (\<lambda>x. c_ClaimID x \<notin>
        dead_ids (\<lambda>a. last_seen a (mem_log s ns) 0) timeout (Now (es 0) 0)
          (FilterActiveClaims (Now (es 1) 0) (mem_log s ns)) UNIV)
      (FilterActiveClaims t (mem_log s ns))"
    using death_ids_tick [OF _ assms(3) refl assms(8)] by blast
  moreover have "c_ClaimID c \<in> dead_ids (\<lambda>a. last_seen a (mem_log s ns) 0) timeout (Now (es 0) 0)
      (FilterActiveClaims (Now (es 1) 0) (mem_log s ns)) UNIV"
    using assms(4,6,7) \<open>last_seen (c_AgentID c) (mem_log s ns) 0 = _\<close> by (auto simp: dead_ids_def)
  ultimately show ?thesis by simp
qed

text \<open>Bob claims for 60 seconds, sends a heartbeat after 50, and is taken for dead after 61.\<close>

theorem heartbeats_do_not_help_witness:
  "let s = send_heartbeats ''n'' [(\<lambda>_. calm (sample_time + 50000000000), generateClaimID sample_time)] bob_claims;
       c = request_claim (default_ttl (sample_request ''bob'')) sample_time sample_time
   in FilterActiveClaims (sample_time + 61000000000) (mem_log s ''n'') = [c] \<and>
      c \<notin> set (FilterActiveClaims (sample_time + 61000000000)
        (mem_log (detector_tick memory_provider (\<lambda>_. calm (sample_time + 61000000000)) ''n'' 60 s) ''n''))"
proof -
  let ?hs = "[(\<lambda>_. calm (sample_time + 50000000000), generateClaimID sample_time)] :: (envs \<times> string) list"
  let ?s = "send_heartbeats ''n'' ?hs bob_claims"
  let ?c = "request_claim (default_ttl (sample_request ''bob'')) sample_time sample_time"
  let ?t = "sample_time + 61000000000"
  let ?h = "(new_message MsgHeartbeat [] (JObj [(''claim_id'', JStr (generateClaimID sample_time)),
      (''heartbeat_at'', time_json (sample_time + 50000000000))]))
    \<lparr>m_Offset := 2, m_Namespace := ''n'', m_Timestamp := sample_time + 50000000000\<rparr>"
  have log: "mem_log ?s ''n'' = mem_log bob_claims ''n'' @ [?h]"
    by (simp add: client_Heartbeat_def mem_Append_log) (simp add: bob_claims_eq mem_Append_def)
  have act: "FilterActiveClaims ?t (mem_log ?s ''n'') = [?c]"
  proof -
    have ttl: "seconds (rq_TTLSeconds (default_ttl (sample_request ''bob''))) = 60000000000"
      by (simp add: sample_request_def seconds_exact nanos_per_second_def)
    have pos: "0 < sample_time" by (simp add: sample_time_def)
    show ?thesis
      unfolding log bob_claims_log using decode_claim_json [OF request_claim_sample, of "''bob''"] ttl pos
      by (simp add: FilterActiveClaims_eq live_def released_in_def deadline_def is_release_def
          client_payload_ref release_offsets_def)
  qed
  have early: "no_early_release (mem_log ?s ''n'') cid" for cid
    unfolding log bob_claims_log by (simp add: no_early_release_def release_offsets_def is_release_def)
  have dead: "appears_dead 60 ?t sample_time"
    by (simp add: appears_dead_def time_sub_def seconds_exact nanos_per_second_def max_duration_def min_duration_def)
  have "?c \<notin> set (FilterActiveClaims ?t (mem_log (detector_tick memory_provider (\<lambda>_. calm ?t) ''n'' 60 ?s) ''n''))"
    by (rule heartbeats_do_not_help [OF bob_claims_ok refl refl])
      (use act early dead in \<open>simp_all add: sample_request_def bob_seen\<close>, simp_all add: sample_time_def)
  with act show ?thesis by (simp add: Let_def)
qed

end
