(* ===== verification/Cli.thy ===== *)
theory Cli
  imports Background Http "HOL-Library.AList"
begin

text \<open>
  The commands of the native binary: \<open>cmd/hearsay/cmd_claims.go\<close>, \<open>cmd_config.go\<close> and the
  \<open>status\<close> command of \<open>cmd_other.go\<close>, with what they use of Go's \<open>flag\<close> package. A command is a function of its
  arguments, of the configuration file and of the store; its result is the exit code and what it
  prints. The usage texts of the \<open>flag\<close> package are left out, and its message for a value that does not parse
  is cut down to the name of the flag. The commands that stay, \<open>serve\<close> and \<open>watch\<close>, are in
  theory \<open>Serve\<close>.
\<close>

section \<open>Flags\<close>

datatype flag_value = FString string | FBool bool | FInt int

type_synonym flag_set = "(string \<times> flag_value) list"

datatype flag_error = HelpRequested | BadFlag string

definition ParseBool :: "string \<Rightarrow> bool option" where
  "ParseBool s =
     (if s \<in> set [''1'', ''t'', ''T'', ''TRUE'', ''true'', ''True''] then Some True
      else if s \<in> set [''0'', ''f'', ''F'', ''FALSE'', ''false'', ''False''] then Some False
      else None)"

text \<open>\<open>strconv.ParseInt\<close> with base 0 and 64 bits: a prefix chooses the base, and single underscores may
  stand between digits and after the prefix.\<close>

definition digit36 :: "char \<Rightarrow> nat option" where
  "digit36 c =
     (let n = of_char c :: nat; l = of_char (lower_char c) :: nat
      in if 48 \<le> n \<and> n \<le> 57 then Some (n - 48)
         else if 97 \<le> l \<and> l \<le> 122 then Some (l - 97 + 10) else None)"

fun parse_base :: "nat \<Rightarrow> nat \<Rightarrow> string \<Rightarrow> nat option" where
  "parse_base b n [] = Some n"
| "parse_base b n (c # s) =
     (if c = CHR ''_'' then parse_base b n s
      else case digit36 c of
        None \<Rightarrow> None
      | Some d \<Rightarrow> if d < b then parse_base b (b * n + d) s else None)"

text \<open>What the last character was: a digit, an underscore or something else.\<close>

fun underscores_ok :: "bool \<Rightarrow> char \<Rightarrow> string \<Rightarrow> bool" where
  "underscores_ok hex saw [] \<longleftrightarrow> saw \<noteq> CHR ''_''"
| "underscores_ok hex saw (c # s) \<longleftrightarrow>
     (if (case digit36 c of None \<Rightarrow> False | Some d \<Rightarrow> d < 10 \<or> hex \<and> d < 16) then underscores_ok hex (CHR ''0'') s
      else if c = CHR ''_'' then saw = CHR ''0'' \<and> underscores_ok hex (CHR ''_'') s
      else saw \<noteq> CHR ''_'' \<and> underscores_ok hex (CHR ''!'') s)"

definition number_prefix :: "string \<Rightarrow> (nat \<times> nat) option" where
  "number_prefix s =
     (if length s \<ge> 2 \<and> s ! 0 = CHR ''0'' then
        map_of [(CHR ''b'', (2, 2)), (CHR ''o'', (8, 2)), (CHR ''x'', (16, 2))] (lower_char (s ! 1))
      else None)"

definition underscoreOK :: "string \<Rightarrow> bool" where
  "underscoreOK s =
     (case number_prefix s of
        Some (b, k) \<Rightarrow> underscores_ok (b = 16) (CHR ''0'') (drop k s)
      | None \<Rightarrow> underscores_ok False (CHR ''^'') s)"

definition ParseUint0 :: "string \<Rightarrow> nat option" where
  "ParseUint0 s =
     (if s = [] then None
      else
        let (b, k) = (if s ! 0 = CHR ''0'' then
              (case number_prefix s of Some p \<Rightarrow> if length s \<ge> 3 then p else (8, 1) | None \<Rightarrow> (8, 1))
            else (10, 0))
        in case parse_base b 0 (drop k s) of
             None \<Rightarrow> None
           | Some n \<Rightarrow> if CHR ''_'' \<in> set s \<and> \<not> underscoreOK s then None else Some n)"

definition ParseInt0 :: "string \<Rightarrow> int option" where
  "ParseInt0 s =
     (let v = (case s of
          [] \<Rightarrow> None
        | c # s' \<Rightarrow>
            if c = CHR ''-'' then map_option (\<lambda>n. - int n) (ParseUint0 s')
            else if c = CHR ''+'' then map_option int (ParseUint0 s')
            else map_option int (ParseUint0 s))
      in case v of
           None \<Rightarrow> None
         | Some n \<Rightarrow> if - (2 ^ 63) \<le> n \<and> n < 2 ^ 63 then Some n else None)"

definition set_value :: "flag_value \<Rightarrow> string \<Rightarrow> flag_value option" where
  "set_value old v =
     (case old of
        FString _ \<Rightarrow> Some (FString v)
      | FBool _ \<Rightarrow> map_option FBool (ParseBool v)
      | FInt _ \<Rightarrow> map_option FInt (ParseInt0 v))"

text \<open>A flag, \<open>-name\<close> or \<open>--name\<close>, and the value that follows an equals sign.\<close>

definition split_flag :: "string \<Rightarrow> (string \<times> string option) option" where
  "split_flag s =
     (let name0 = (if s ! 1 = CHR ''-'' then drop 2 s else drop 1 s);
          name = takeWhile (\<lambda>c. c \<noteq> CHR ''='') name0
      in if name0 = [] \<or> name0 ! 0 = CHR ''-'' \<or> name0 ! 0 = CHR ''='' then None
         else Some (name, if name = name0 then None else Some (drop (length name + 1) name0)))"

text \<open>\<open>FlagSet.Parse\<close>: the flags with their values, and the arguments that are left.\<close>

fun parse_flags :: "flag_set \<Rightarrow> string list \<Rightarrow> flag_error + flag_set \<times> string list" where
  "parse_flags fs [] = Inr (fs, [])"
| "parse_flags fs (s # args) =
     (if length s < 2 \<or> s ! 0 \<noteq> CHR ''-'' then Inr (fs, s # args)
      else if s = ''--'' then Inr (fs, args)
      else case split_flag s of
          None \<Rightarrow> Inl (BadFlag (''bad flag syntax: '' @ s))
        | Some (name, value) \<Rightarrow>
            (case map_of fs name of
               None \<Rightarrow>
                 if name = ''help'' \<or> name = ''h'' then Inl HelpRequested
                 else Inl (BadFlag (''flag provided but not defined: -'' @ name))
             | Some (FBool _) \<Rightarrow>
                 (case (case value of None \<Rightarrow> Some True | Some v \<Rightarrow> ParseBool v) of
                    None \<Rightarrow> Inl (BadFlag (''invalid boolean value for -'' @ name))
                  | Some b \<Rightarrow> parse_flags (AList.update name (FBool b) fs) args)
             | Some old \<Rightarrow>
                 (case (value, args) of
                    (Some v, _) \<Rightarrow>
                      (case set_value old v of
                         None \<Rightarrow> Inl (BadFlag (''invalid value for flag -'' @ name))
                       | Some v' \<Rightarrow> parse_flags (AList.update name v' fs) args)
                  | (None, []) \<Rightarrow> Inl (BadFlag (''flag needs an argument: -'' @ name))
                  | (None, v # args') \<Rightarrow>
                      (case set_value old v of
                         None \<Rightarrow> Inl (BadFlag (''invalid value for flag -'' @ name))
                       | Some v' \<Rightarrow> parse_flags (AList.update name v' fs) args'))))"

definition string_flag :: "flag_set \<Rightarrow> string \<Rightarrow> string" where
  "string_flag fs name = (case map_of fs name of Some (FString s) \<Rightarrow> s | _ \<Rightarrow> [])"

definition bool_flag :: "flag_set \<Rightarrow> string \<Rightarrow> bool" where
  "bool_flag fs name = (case map_of fs name of Some (FBool b) \<Rightarrow> b | _ \<Rightarrow> False)"

definition int_flag :: "flag_set \<Rightarrow> string \<Rightarrow> int" where
  "int_flag fs name = (case map_of fs name of Some (FInt n) \<Rightarrow> n | _ \<Rightarrow> 0)"

section \<open>Results of a command\<close>

datatype printed = Line string | Doc json

record cli =
  cl_Code :: int
  cl_Stdout :: "printed list"
  cl_Stderr :: "printed list"

definition succeeds :: "printed list \<Rightarrow> cli" where
  "succeeds out = \<lparr>cl_Code = 0, cl_Stdout = out, cl_Stderr = []\<rparr>"

definition fails :: "int \<Rightarrow> string \<Rightarrow> cli" where
  "fails n line = \<lparr>cl_Code = n, cl_Stdout = [], cl_Stderr = [Line line]\<rparr>"

text \<open>\<open>flag.ExitOnError\<close>.\<close>

definition flag_exit :: "flag_error \<Rightarrow> cli" where
  "flag_exit err = (case err of HelpRequested \<Rightarrow> succeeds [] | BadFlag msg \<Rightarrow> fails 2 msg)"

section \<open>Configuration and provider\<close>

datatype backend = SQLiteAt string | PostgreSQLAt string | ManagedAt string string

text \<open>
  The surroundings of a process: what \<open>LoadConfig\<close> finds in \<open>.hearsay.toml\<close>, what the constructors
  of the back ends return, and the environment variables.
\<close>

record 's host =
  ho_Config :: "error + config"
  ho_Connect :: "backend \<Rightarrow> error + 's provider"
  ho_Getenv :: "string \<Rightarrow> string"

definition chosen_backend :: "config \<Rightarrow> backend option" where
  "chosen_backend cfg =
     (let pc = cfg_ProviderCfg cfg
      in if cfg_Provider cfg = ''sqlite'' then
           Some (SQLiteAt (case pc_SQLite pc of None \<Rightarrow> ''.hearsay.db''
             | Some path \<Rightarrow> if path \<noteq> [] then path else ''.hearsay.db''))
         else if cfg_Provider cfg = ''postgresql'' then
           Some (PostgreSQLAt (case pc_PostgreSQL pc of None \<Rightarrow> [] | Some url \<Rightarrow> url))
         else if cfg_Provider cfg = ''managed'' then
           Some (case pc_Managed pc of None \<Rightarrow> ManagedAt [] [] | Some (endpoint, token) \<Rightarrow> ManagedAt endpoint token)
         else None)"

definition loadProvider :: "'s host \<Rightarrow> error + 's provider" where
  "loadProvider h =
     (case ho_Config h of
        Inl err \<Rightarrow> Inl (Errorf (''load config: '' @ error_text err))
      | Inr cfg \<Rightarrow>
          (case chosen_backend cfg of
             None \<Rightarrow> Inl (Errorf (''unsupported provider: '' @ cfg_Provider cfg))
           | Some b \<Rightarrow> ho_Connect h b))"

text \<open>\<open>hearsay serve\<close> has its own copy.\<close>

definition loadProviderFromConfig :: "'s host \<Rightarrow> config \<Rightarrow> error + 's provider" where
  "loadProviderFromConfig h cfg =
     (case chosen_backend cfg of
        None \<Rightarrow> Inl (Errorf (''unknown provider: '' @ cfg_Provider cfg))
      | Some b \<Rightarrow> ho_Connect h b)"

text \<open>A client: its provider and its namespace. A failure to create the namespace is dropped.\<close>

definition loadClientFromProvider ::
  "'s host \<Rightarrow> envs \<Rightarrow> 's provider \<Rightarrow> 's \<Rightarrow> (error + 's provider \<times> string) \<times> 's" where
  "loadClientFromProvider h es P s =
     (case ho_Config h of
        Inl err \<Rightarrow> (Inl (Errorf (''load config: '' @ error_text err)), s)
      | Inr cfg \<Rightarrow>
          (case p_CreateNamespace P (es 1) \<lparr>ns_ID = cfg_Namespace cfg, ns_CreatedAt = Now (es 0) 0\<rparr> s of
             (_, s') \<Rightarrow> (Inr (P, cfg_Namespace cfg), s')))"

definition loadClient :: "'s host \<Rightarrow> envs \<Rightarrow> 's \<Rightarrow> (error + 's provider \<times> string) \<times> 's" where
  "loadClient h es s =
     (case loadProvider h of Inl err \<Rightarrow> (Inl err, s) | Inr P \<Rightarrow> loadClientFromProvider h es P s)"

section \<open>init and namespace\<close>

definition init_flags :: flag_set where
  "init_flags = [(''provider'', FString ''sqlite''), (''path'', FString ''.hearsay.db''),
     (''postgresql-url'', FString []), (''endpoint'', FString []), (''token'', FString []),
     (''namespace'', FString ''default'')]"

definition init_config :: "flag_set \<Rightarrow> config" where
  "init_config fs =
     (let none = \<lparr>pc_SQLite = None, pc_PostgreSQL = None, pc_DynamoDB = None, pc_D1 = None, pc_Managed = None\<rparr>;
          prov = string_flag fs ''provider'';
          cfg = \<lparr>cfg_Version = 1, cfg_Namespace = string_flag fs ''namespace'', cfg_Provider = prov,
            cfg_ProviderCfg = none,
            cfg_Defaults = \<lparr>df_TTLSeconds = 300, df_ClaimOnRead = False, df_AutoHeartbeat = True,
              df_Locking = bool_flag fs ''locking''\<rparr>, cfg_A2A = None\<rparr>
      in if prov = ''sqlite'' then
           cfg\<lparr>cfg_ProviderCfg := none\<lparr>pc_SQLite := Some (string_flag fs ''path'')\<rparr>\<rparr>
         else if prov = ''postgresql'' then
           cfg\<lparr>cfg_ProviderCfg := none\<lparr>pc_PostgreSQL := Some (string_flag fs ''postgresql-url'')\<rparr>\<rparr>
         else if prov = ''managed'' then
           cfg\<lparr>cfg_ProviderCfg := none\<lparr>pc_Managed := Some (string_flag fs ''endpoint'', string_flag fs ''token'')\<rparr>\<rparr>
         else cfg)"

text \<open>The result, and the configuration that is written. The arguments are parsed twice, the first
  time without the flag \<open>locking\<close>; \<open>saved\<close> is the error of writing the file.\<close>

definition cmdInit :: "error option \<Rightarrow> string list \<Rightarrow> cli \<times> config option" where
  "cmdInit saved args =
     (case parse_flags init_flags args of
        Inl err \<Rightarrow> (flag_exit err, None)
      | Inr (fs, _) \<Rightarrow>
          (case parse_flags (fs @ [(''locking'', FBool False)]) args of
             Inl err \<Rightarrow> (flag_exit err, None)
           | Inr (fs, _) \<Rightarrow>
               (case saved of
                  Some err \<Rightarrow> (fails 1 (''Error: '' @ error_text err), None)
                | None \<Rightarrow> (succeeds [Line ''Created .hearsay.toml''], Some (init_config fs)))))"

definition cmdNamespace :: "string list \<Rightarrow> cli" where
  "cmdNamespace args =
     (case args of
        [] \<Rightarrow> fails 1 ''Usage: hearsay namespace <create|delete|list>''
      | sub # rest \<Rightarrow>
          if sub = ''create'' then
            (case rest of [] \<Rightarrow> fails 1 ''Usage: hearsay namespace create <id>''
             | x # _ \<Rightarrow> succeeds [Line (''Namespace '' @ x @ '' created (config-only; namespace is created on first claim)'')])
          else if sub = ''delete'' then
            (case rest of [] \<Rightarrow> fails 1 ''Usage: hearsay namespace delete <id>''
             | x # _ \<Rightarrow> succeeds [Line (''Namespace '' @ x @ '' deleted (config-only)'')])
          else if sub = ''list'' then succeeds [Line ''[default]'']
          else fails 1 (''Unknown namespace subcommand: '' @ sub))"

section \<open>Claims\<close>

text \<open>What every command does first: parse its flags, check the required one, load the client.\<close>

definition with_client ::
  "'s host \<Rightarrow> envs \<Rightarrow> flag_set \<Rightarrow> string list \<Rightarrow> (string \<times> string) option \<Rightarrow>
     (flag_set \<Rightarrow> 's provider \<Rightarrow> string \<Rightarrow> 's \<Rightarrow> cli \<times> 's) \<Rightarrow> 's \<Rightarrow> cli \<times> 's" where
  "with_client h es flags args required run s =
     (case parse_flags flags args of
        Inl err \<Rightarrow> (flag_exit err, s)
      | Inr (fs, _) \<Rightarrow>
          (case (case required of Some (name, usage) \<Rightarrow> if string_flag fs name = [] then Some usage else None
                | None \<Rightarrow> None) of
             Some usage \<Rightarrow> (fails 1 usage, s)
           | None \<Rightarrow>
               (case loadClient h es s of
                  (Inl err, s') \<Rightarrow> (fails 1 (''Error: '' @ error_text err), s')
                | (Inr (P, ns), s') \<Rightarrow> run fs P ns s')))"

definition cmdClaim :: "'s host \<Rightarrow> envs \<Rightarrow> string list \<Rightarrow> 's \<Rightarrow> cli \<times> 's" where
  "cmdClaim h es args s = with_client h es
     [(''resource'', FString []), (''operation'', FString ''write''), (''intent'', FString []),
      (''agent'', FString (ho_Getenv h ''HEARSAY_AGENT_ID''))] args
     (Some (''resource'', ''Usage: hearsay claim --resource <uri> --operation <op> --intent <intent>''))
     (\<lambda>fs P ns s.
        case client_Claim P ns (after 2 es)
            \<lparr>rq_ResourceURI = string_flag fs ''resource'', rq_AgentID = string_flag fs ''agent'',
             rq_Operation = string_flag fs ''operation'', rq_Intent = string_flag fs ''intent'',
             rq_ProjectedEnd = [], rq_TTLSeconds = 0, rq_ParentClaimID = []\<rparr> s of
          ((_, Some (ConflictError report)), s') \<Rightarrow>
            (\<lparr>cl_Code = 2, cl_Stdout = [], cl_Stderr = [Line ''Conflict:'', Doc (report_json report)]\<rparr>, s')
        | ((_, Some err), s') \<Rightarrow> (fails 1 (''Error: '' @ error_text err), s')
        | ((resp, None), s') \<Rightarrow>
            (succeeds [Line (''Claimed: '' @ (case resp of None \<Rightarrow> [] | Some r \<Rightarrow> rs_ClaimID r))], s')) s"

definition cmdRelease :: "'s host \<Rightarrow> envs \<Rightarrow> string list \<Rightarrow> 's \<Rightarrow> cli \<times> 's" where
  "cmdRelease h es args s = with_client h es
     [(''claim'', FString []), (''outcome'', FString ''succeeded'')] args
     (Some (''claim'', ''Usage: hearsay release --claim <id>''))
     (\<lambda>fs P ns s.
        case client_Release P ns (after 2 es) (string_flag fs ''claim'') (string_flag fs ''outcome'') s of
          (Some err, s') \<Rightarrow> (fails 1 (''Error: '' @ error_text err), s')
        | (None, s') \<Rightarrow> (succeeds [Line ''Released''], s')) s"

definition cmdHeartbeat :: "'s host \<Rightarrow> envs \<Rightarrow> string list \<Rightarrow> 's \<Rightarrow> cli \<times> 's" where
  "cmdHeartbeat h es args s = with_client h es [(''claim'', FString [])] args
     (Some (''claim'', ''Usage: hearsay heartbeat --claim <id>''))
     (\<lambda>fs P ns s.
        case client_Heartbeat P ns (after 2 es) (string_flag fs ''claim'') s of
          (Some err, s') \<Rightarrow> (fails 1 (''Error: '' @ error_text err), s')
        | (None, s') \<Rightarrow> (succeeds [Line ''Heartbeat sent''], s')) s"

definition cmdQuery :: "'s host \<Rightarrow> envs \<Rightarrow> string list \<Rightarrow> 's \<Rightarrow> cli \<times> 's" where
  "cmdQuery h es args s = with_client h es [(''resource'', FString [])] args None
     (\<lambda>fs P ns s.
        case client_ActiveClaims P ns (es 2) (string_flag fs ''resource'') s of
          Inl err \<Rightarrow> (fails 1 (''Error: '' @ error_text err), s)
        | Inr claims \<Rightarrow> (succeeds [Doc (slice_json claim_json claims)], s)) s"

definition cmdCheck :: "'s host \<Rightarrow> envs \<Rightarrow> string list \<Rightarrow> 's \<Rightarrow> cli \<times> 's" where
  "cmdCheck h es args s = with_client h es
     [(''resource'', FString []), (''operation'', FString ''write'')] args
     (Some (''resource'', ''Usage: hearsay check --resource <uri> --operation <op>''))
     (\<lambda>fs P ns s.
        case client_CheckConflict P ns (es 2) (string_flag fs ''resource'') (string_flag fs ''operation'') s of
          Inl err \<Rightarrow> (fails 1 (''Error: '' @ error_text err), s)
        | Inr report \<Rightarrow> (succeeds [Doc (report_json report)], s)) s"

section \<open>Status\<close>

text \<open>\<open>fmt\<close>'s verb \<open>%-10s\<close> pads to a number of runes, and a duration of whole seconds prints as
  \<open>1h2m3s\<close>.\<close>

function rune_count :: "string \<Rightarrow> nat" where
  "rune_count s = (if s = [] then 0 else Suc (rune_count (drop (snd (decode_rune s)) s)))"
  by auto

termination
  by (relation "measure length") (use decode_rune_width in \<open>auto simp: diff_less\<close>)

declare rune_count.simps [simp del]

definition pad_right :: "nat \<Rightarrow> string \<Rightarrow> string" where
  "pad_right w s = s @ replicate (w - rune_count s) (CHR '' '')"

definition duration_text :: "int \<Rightarrow> string" where
  "duration_text secs =
     (let u = \<bar>secs\<bar>
      in (if secs < 0 then ''-'' else [])
         @ (if u \<ge> 3600 then itoa (u div 3600) @ ''h'' else [])
         @ (if u \<ge> 60 then itoa (u div 60 mod 60) @ ''m'' else [])
         @ itoa (u mod 60) @ ''s'')"

text \<open>\<open>time.Since(t).Truncate(time.Second)\<close>: rounded towards zero.\<close>

definition age_text :: "time \<Rightarrow> time \<Rightarrow> string" where
  "age_text now t =
     (let d = time_sub now t
      in duration_text (if d < 0 then - (- d div nanos_per_second) else d div nanos_per_second))"

fun status_mailboxes ::
  "'s provider \<Rightarrow> envs \<Rightarrow> string \<Rightarrow> string list \<Rightarrow> 's \<Rightarrow> mailbox_message list" where
  "status_mailboxes P es ns [] s = []"
| "status_mailboxes P es ns (agentID # agents) s =
     (case p_GetMailbox P (es 0) ns agentID \<lparr>mq_Unread = False, mq_IncludeClaims = False, mq_Limit = 50\<rparr> s of
        Inl err \<Rightarrow> []
      | Inr msgs \<Rightarrow> msgs) @ status_mailboxes P (after 1 es) ns agents s"

definition claim_line :: "time \<Rightarrow> claim \<Rightarrow> string" where
  "claim_line now c = ''  '' @ pad_right 10 (c_AgentID c) @ '' '' @ pad_right 30 (c_ResourceURI c) @ '' ''
     @ pad_right 8 (c_Operation c) @ '' '' @ pad_right 15 (c_Intent c) @ '' '' @ age_text now (c_CreatedAt c) @ '' ago''"

text \<open>The mark of a read message and the arrow are UTF-8.\<close>

definition mailbox_line :: "time \<Rightarrow> mailbox_message \<Rightarrow> string" where
  "mailbox_line now m = ''  '' @ (if mb_Read m then [CHR 0xE2, CHR 0x9C, CHR 0x93] else '' '') @ '' ''
     @ pad_right 10 (mb_From m) @ '' '' @ [CHR 0xE2, CHR 0x86, CHR 0x92] @ '' '' @ pad_right 10 (mb_To m) @ '' ''
     @ pad_right 20 (mb_Type m) @ '' '' @ age_text now (mb_CreatedAt m) @ '' ago''"

definition status_lines ::
  "config \<Rightarrow> env \<Rightarrow> env \<Rightarrow> bool \<Rightarrow> claim list \<Rightarrow> string list \<Rightarrow> mailbox_message list \<Rightarrow> string list" where
  "status_lines cfg e order verbose claims agents msgs =
     (let providerInfo = (case chosen_backend cfg of
            Some (SQLiteAt path) \<Rightarrow> ''sqlite ('' @ path @ '')'' | _ \<Rightarrow> cfg_Provider cfg);
          agentList = sort agents
      in [''Namespace:       '' @ cfg_Namespace cfg,
          ''Provider:        '' @ providerInfo,
          ''Active claims:   '' @ itoa (int (length claims)),
          ''Mailbox:         '' @ itoa (int (length msgs)) @ '' messages (''
            @ itoa (int (length (filter (\<lambda>m. \<not> mb_Read m) msgs))) @ '' unread)'',
          ''Agents online:   '' @ itoa (int (length agents))
            @ (if length agentList > 0 then '' ('' @ Join agentList '', '' @ '')'' else [])]
         @ (if \<not> verbose then []
            else [[]]
              @ (if length claims > 0 then
                   [''Active claims:'']
                   @ map (\<lambda>(i, c). claim_line (Now e i) c) (List.enumerate 0 claims) @ [[]]
                 else [])
              @ (if length msgs > 0 then
                   [''Recent mailbox (last 10):'']
                   @ map (\<lambda>(i, m). mailbox_line (Now e i) m)
                       (List.enumerate (length claims) (take 10 (sort_slice (Tie order) (\<lambda>m. - mb_CreatedAt m) msgs)))
                 else [])))"

text \<open>\<open>es 0\<close> is the process, which iterates over its map of agents in any order, and \<open>es 2\<close> its call of
  \<open>sort.Slice\<close>, which orders equal elements in any way.\<close>

definition cmdStatus :: "'s host \<Rightarrow> envs \<Rightarrow> string list \<Rightarrow> 's \<Rightarrow> cli" where
  "cmdStatus h es args s =
     (case parse_flags [(''verbose'', FBool False)] args of
        Inl err \<Rightarrow> flag_exit err
      | Inr (fs, _) \<Rightarrow>
          (case loadProvider h of
             Inl err \<Rightarrow> fails 1 (''Error: '' @ error_text err)
           | Inr P \<Rightarrow>
               (case ho_Config h of
                  Inl err \<Rightarrow> fails 1 (''Error loading config: '' @ error_text err)
                | Inr cfg \<Rightarrow>
                    (case p_ActiveClaims P (es 1) (cfg_Namespace cfg) [] s of
                       Inl err \<Rightarrow> fails 1 (''Error querying claims: '' @ error_text err)
                     | Inr claims \<Rightarrow>
                         let agents = map_keys (es 0) (map c_AgentID claims);
                             msgs = status_mailboxes P (after 3 es) (cfg_Namespace cfg) agents s
                         in succeeds (map Line (status_lines cfg (es 0) (es 2) (bool_flag fs ''verbose'') claims agents msgs))))))"

section \<open>No configuration with locking\<close>

definition flag_kind :: "flag_value \<Rightarrow> nat" where
  "flag_kind v = (case v of FString _ \<Rightarrow> 0 | FBool _ \<Rightarrow> 1 | FInt _ \<Rightarrow> 2)"

lemma flag_kind_simps [simp]: "flag_kind (FString x) = 0" "flag_kind (FBool b) = 1" "flag_kind (FInt n) = 2"
  by (simp_all add: flag_kind_def)

lemma set_value_kind: "set_value v x = Some v' \<Longrightarrow> flag_kind v' = flag_kind v"
  by (cases v) (auto simp: set_value_def)

lemma same_kind: "flag_kind v = flag_kind w \<Longrightarrow> set_value v = set_value w"
  by (cases v; cases w) (simp_all add: set_value_def fun_eq_iff)

text \<open>One round of the loop: either no flag is left, or one flag is set, and any other set of flags with a
  flag of that name and kind takes the same step.\<close>

text \<open>One flag, when the argument \<open>s\<close> is one: a Boolean, or with a value that may be the next argument.\<close>

definition flag_arg :: "string \<Rightarrow> bool" where
  "flag_arg s \<longleftrightarrow> \<not> (length s < 2 \<or> s ! 0 \<noteq> CHR ''-'' \<or> s = ''--'')"

lemma parse_flags_bool:
  assumes "flag_arg s" "split_flag s = Some (name, val)" "map_of gs name = Some w" "flag_kind w = 1"
    and "(case val of None \<Rightarrow> Some True | Some x \<Rightarrow> ParseBool x) = Some b"
  shows "parse_flags gs (s # rest) = parse_flags (AList.update name (FBool b) gs) rest"
  using assms by (cases w) (simp_all add: flag_arg_def)

lemma parse_flags_valued:
  assumes "flag_arg s" "split_flag s = Some (name, val)" "map_of gs name = Some w" "flag_kind w = flag_kind v"
    and "flag_kind v \<noteq> 1"
  shows "parse_flags gs (s # rest) =
    (case (val, rest) of
       (Some x, _) \<Rightarrow>
         (case set_value v x of
            None \<Rightarrow> Inl (BadFlag (''invalid value for flag -'' @ name))
          | Some v' \<Rightarrow> parse_flags (AList.update name v' gs) rest)
     | (None, []) \<Rightarrow> Inl (BadFlag (''flag needs an argument: -'' @ name))
     | (None, x # args') \<Rightarrow>
         (case set_value v x of
            None \<Rightarrow> Inl (BadFlag (''invalid value for flag -'' @ name))
          | Some v' \<Rightarrow> parse_flags (AList.update name v' gs) args'))"
  unfolding same_kind [OF assms(4), symmetric] using assms
  by (cases v; cases w; hypsubst_thin) (simp_all add: flag_arg_def)

lemma parse_flags_round:
  assumes "parse_flags fs args = Inr out"
  obtains (stop) "\<And>gs. parse_flags gs args = Inr (gs, snd out)" "fst out = fs"
    | (set) name v v' args' where "length args' < length args" "map_of fs name = Some v" "flag_kind v' = flag_kind v"
        "parse_flags (AList.update name v' fs) args' = Inr out"
        "\<And>gs w. map_of gs name = Some w \<Longrightarrow> flag_kind w = flag_kind v \<Longrightarrow>
           parse_flags gs args = parse_flags (AList.update name v' gs) args'"
proof (cases "args = [] \<or> \<not> flag_arg (hd args)")
  case True
  with assms show thesis by (cases args) (auto intro: stop simp: flag_arg_def split: if_splits)
next
  case False
  then obtain s rest where Cons: "args = s # rest" and arg: "flag_arg s" by (cases args) auto
  with assms obtain name val v where flag: "split_flag s = Some (name, val)" "map_of fs name = Some v"
    by (auto simp: flag_arg_def split: option.splits if_splits)
  show thesis
  proof (cases "flag_kind v = 1")
    case True
    then obtain b where v: "v = FBool b" by (cases v) auto
    with assms Cons arg flag obtain b' where b': "(case val of None \<Rightarrow> Some True | Some x \<Rightarrow> ParseBool x) = Some b'"
      by (auto simp: flag_arg_def split: option.splits)
    have step: "parse_flags gs args = parse_flags (AList.update name (FBool b') gs) rest"
      if "map_of gs name = Some w" "flag_kind w = flag_kind v" for gs w
      unfolding Cons by (rule parse_flags_bool [OF arg flag(1) that(1) _ b']) (use that True in simp)
    from step [OF flag(2) refl] assms have done_fs: "parse_flags (AList.update name (FBool b') fs) rest = Inr out" by simp
    show thesis
      by (rule set [where args' = rest and v' = "FBool b'"]) (fact flag(2) done_fs step | simp add: Cons v)+
  next
    case other: False
    note step = parse_flags_valued [OF arg flag(1) _ _ other, of _ _ rest, folded Cons]
    obtain x args' where x: "val = Some x \<and> args' = rest \<or> val = None \<and> rest = x # args'"
      using assms step [OF flag(2) refl] by (cases val; cases rest) auto
    then obtain v' where v': "set_value v x = Some v'"
      using assms step [OF flag(2) refl] by (cases "set_value v x") (auto split: list.splits)
    have next_arg: "parse_flags gs args = parse_flags (AList.update name v' gs) args'"
      if "map_of gs name = Some w" "flag_kind w = flag_kind v" for gs w
      using step [OF that] x v' by auto
    from next_arg [OF flag(2) refl] assms have done_fs: "parse_flags (AList.update name v' fs) args' = Inr out" by simp
    have kind: "flag_kind v' = flag_kind v" and shorter: "length args' < length args"
      using x Cons set_value_kind [OF v'] by auto
    show thesis by (rule set [where args' = args' and v' = v']) (fact shorter flag(2) kind done_fs next_arg)+
  qed
qed

lemma parse_flags_kinds:
  "parse_flags fs args = Inr (fs', rest) \<Longrightarrow>
   map_option flag_kind (map_of fs' n) = map_option flag_kind (map_of fs n)"
proof (induction args arbitrary: fs rule: length_induct)
  case (1 args)
  from 1(2) show ?case
  proof (cases rule: parse_flags_round)
    case (set name v v' args')
    with 1(1) show ?thesis by (fastforce simp: update_conv')
  qed simp
qed

text \<open>A flag that the first set does not define cannot be set by arguments that it accepts.\<close>

lemma parse_flags_undefined:
  assumes "parse_flags fs args = Inr out" and "map_of fs flag = None" and "parse_flags gs args = Inr (gs', rest)"
    and "\<And>n. n \<noteq> flag \<Longrightarrow> map_option flag_kind (map_of gs n) = map_option flag_kind (map_of fs n)"
  shows "map_of gs' flag = map_of gs flag"
  using assms
proof (induction args arbitrary: fs gs rule: length_induct)
  case (1 args)
  note prems = 1(2-5)
  from prems(1) show ?case
  proof (cases rule: parse_flags_round)
    case stop
    from stop(1) [of gs] prems(3) show ?thesis by simp
  next
    case (set name v v' args')
    then have other: "name \<noteq> flag" using prems(2) by auto
    from prems(4) [OF this] set(2) obtain w where w: "map_of gs name = Some w" "flag_kind w = flag_kind v"
      by (cases "map_of gs name") auto
    have "map_of gs' flag = map_of (AList.update name v' gs) flag"
    proof (rule 1(1) [rule_format, OF set(1) set(4)])
      show "map_of (AList.update name v' fs) flag = None" using prems(2) other by (simp add: update_conv')
      show "parse_flags (AList.update name v' gs) args' = Inr (gs', rest)" using set(5) [OF w] prems(3) by simp
      show "map_option flag_kind (map_of (AList.update name v' gs) n) =
          map_option flag_kind (map_of (AList.update name v' fs) n)" if "n \<noteq> flag" for n
        using prems(4) [OF that] by (simp add: update_conv')
    qed
    with other show ?thesis by (simp add: update_conv')
  qed
qed



end
