(* ===== verification/JsonText.thy ===== *)
theory JsonText
  imports GoJson GoPath Http
begin

text \<open>
  The texts behind the parsed values: how \<open>encoding/json\<close> writes a value as bytes and reads it back.
  Writing is \<open>json.Marshal\<close>, with its HTML escapes; reading is a scanner for tokens and a machine with a
  stack of open arrays and objects, as the decoder has it, at most 10000 deep; \<open>Unmarshal\<close> reads a whole
  text (\<open>parse_json\<close>), \<open>Decode\<close> its first value. Strings are bytes: what is
  not UTF-8 is replaced, on the way out as on the way in.
\<close>

section \<open>Strings\<close>

definition hex_digit :: "nat \<Rightarrow> char" where
  "hex_digit n = ''0123456789abcdef'' ! n"

definition replacement :: string where
  "replacement = [CHR 0xEF, CHR 0xBF, CHR 0xBD]"

text \<open>One ASCII character of a string, as \<open>appendString\<close> writes it.\<close>

definition escape_char :: "char \<Rightarrow> string" where
  "escape_char c =
     (if c = CHR 0x22 \<or> c = CHR 0x5C then [CHR 0x5C, c]
      else if c = CHR 0x08 then [CHR 0x5C, CHR ''b'']
      else if c = CHR 0x0C then [CHR 0x5C, CHR ''f'']
      else if c = CHR 0x0A then [CHR 0x5C, CHR ''n'']
      else if c = CHR 0x0D then [CHR 0x5C, CHR ''r'']
      else if c = CHR 0x09 then [CHR 0x5C, CHR ''t'']
      else if byte c < 32 \<or> c \<in> set ''<>&'' then
        CHR 0x5C # ''u00'' @ [hex_digit (byte c div 16), hex_digit (byte c mod 16)]
      else [c])"

fun string_body :: "string \<Rightarrow> string" where
  "string_body [] = []"
| "string_body (c # s) =
     (if byte c < 128 then escape_char c @ string_body s
      else case decode_rune (c # s) of (r, n) \<Rightarrow>
        (if r = RuneError \<and> n = 1 then CHR 0x5C # ''ufffd''
         else if r = 8232 then CHR 0x5C # ''u2028''
         else if r = 8233 then CHR 0x5C # ''u2029''
         else take n (c # s)) @ string_body (drop (n - 1) s))"

definition quoted :: "string \<Rightarrow> string" where
  "quoted s = CHR 0x22 # string_body s @ [CHR 0x22]"

text \<open>What is left of a string: every byte that is not part of a rune is replaced.\<close>

fun to_valid :: "string \<Rightarrow> string" where
  "to_valid [] = []"
| "to_valid (c # s) =
     (if byte c < 128 then c # to_valid s
      else case decode_rune (c # s) of (r, n) \<Rightarrow>
        (if r = RuneError \<and> n = 1 then replacement else take n (c # s)) @ to_valid (drop (n - 1) s))"

text \<open>Reading: \<open>getu4\<close>, \<open>utf8.EncodeRune\<close>, and \<open>unquote\<close> from behind the opening quote, with the rest.\<close>

definition hex_value :: "char \<Rightarrow> nat option" where
  "hex_value c = map_of (zip ''0123456789abcdefABCDEF'' ([0..<16] @ [10..<16])) c"

definition getu4 :: "string \<Rightarrow> nat option" where
  "getu4 s =
     (case s of
        a # b # c # d # t \<Rightarrow>
          (case (hex_value a, hex_value b, hex_value c, hex_value d) of
             (Some w, Some x, Some y, Some z) \<Rightarrow> Some (4096 * w + 256 * x + 16 * y + z)
           | _ \<Rightarrow> None)
      | _ \<Rightarrow> None)"

definition encode_rune :: "nat \<Rightarrow> string" where
  "encode_rune r =
     (if r < 128 then [char_of r]
      else if r < 2048 then [char_of (192 + r div 64), char_of (128 + r mod 64)]
      else if 55296 \<le> r \<and> r < 57344 \<or> 1114111 < r then replacement
      else if r < 65536 then
        [char_of (224 + r div 4096), char_of (128 + r div 64 mod 64), char_of (128 + r mod 64)]
      else [char_of (240 + r div 262144), char_of (128 + r div 4096 mod 64),
        char_of (128 + r div 64 mod 64), char_of (128 + r mod 64)])"

definition simple_escape :: "char \<Rightarrow> char option" where
  "simple_escape c =
     map_of [(CHR 0x22, CHR 0x22), (CHR 0x5C, CHR 0x5C), (CHR ''/'', CHR ''/''), (CHR ''b'', CHR 0x08),
       (CHR ''f'', CHR 0x0C), (CHR ''n'', CHR 0x0A), (CHR ''r'', CHR 0x0D), (CHR ''t'', CHR 0x09)] c"

text \<open>The escape behind the first half of a surrogate pair, when it is the second half.\<close>

definition low_surrogate :: "string \<Rightarrow> nat option" where
  "low_surrogate s =
     (case s of
        a # b # t \<Rightarrow>
          if a = CHR 0x5C \<and> b = CHR ''u'' then
            (case getu4 t of
               Some r \<Rightarrow> if 56320 \<le> r \<and> r < 57344 then Some r else None
             | None \<Rightarrow> None)
          else None
      | _ \<Rightarrow> None)"

text \<open>The bytes and the number of characters that an escape \<open>\u\<close> with what follows it stands for.\<close>

definition unicode_escape :: "string \<Rightarrow> (string \<times> nat) option" where
  "unicode_escape t =
     (case getu4 t of
        None \<Rightarrow> None
      | Some r \<Rightarrow>
          if 55296 \<le> r \<and> r < 56320 then
            (case low_surrogate (drop 4 t) of
               Some q \<Rightarrow> Some (encode_rune ((r - 55296) * 1024 + (q - 56320) + 65536), 10)
             | None \<Rightarrow> Some (replacement, 4))
          else Some (encode_rune r, 4))"

fun unquote :: "string \<Rightarrow> (string \<times> string) option" where
  "unquote [] = None"
| "unquote (c # s) =
     (if c = CHR 0x22 then Some ([], s)
      else if byte c < 32 then None
      else if c = CHR 0x5C then
        (case s of
           [] \<Rightarrow> None
         | e # t \<Rightarrow>
             if e = CHR ''u'' then
               (case unicode_escape t of
                  None \<Rightarrow> None
                | Some (u, k) \<Rightarrow> map_option (map_prod (append u) id) (unquote (drop k t)))
             else
               (case simple_escape e of
                  None \<Rightarrow> None
                | Some d \<Rightarrow> map_option (map_prod (Cons d) id) (unquote t)))
      else if byte c < 128 then map_option (map_prod (Cons c) id) (unquote s)
      else case decode_rune (c # s) of (r, n) \<Rightarrow>
        map_option (map_prod (append (if r = RuneError \<and> n = 1 then replacement else take n (c # s))) id)
          (unquote (drop (n - 1) s)))"

lemma unquote_shorter: "unquote s = Some (u, rest) \<Longrightarrow> length rest < length s"
proof (induction s arbitrary: u rest rule: length_induct)
  case (1 s)
  have IH: "length rest < length s" if "unquote t = Some (v, rest)" "length t < length s" for t v
    using "1.IH" that by fastforce
  show ?case
  proof (cases s)
    case (Cons c t)
    with "1.prems" show ?thesis
      by (auto split: if_splits list.splits option.splits prod.splits dest: IH)
  qed (use "1.prems" in simp)
qed

section \<open>What is written is read\<close>

lemma byte_less [simp]: "byte c < 256"
  using of_char_mod_256 [of c, where 'a = nat] mod_less_divisor [of 256 "of_char c"] by (simp add: byte_def)

lemma byte_char_of [simp]: "n < 256 \<Longrightarrow> byte (char_of n) = n"
  by (simp add: byte_def)

lemma char_of_byte [simp]: "char_of (byte c) = c"
  by (simp add: byte_def)

lemma hex_value_digit: "n < 16 \<Longrightarrow> hex_value (hex_digit n) = Some n"
proof -
  have "\<forall>n \<in> set [0..<16]. hex_value (hex_digit n) = Some n" by code_simp
  then show "n < 16 \<Longrightarrow> hex_value (hex_digit n) = Some n" by simp
qed

lemma byte_quote [simp]: "byte CHR 0x22 = 34" "byte CHR 0x5C = 92"
  by (simp_all add: byte_def)

lemma append_single [simp]: "(@) [c] = (#) c"
  by (simp add: fun_eq_iff)

lemma hex_value_zero: "hex_value CHR ''0'' = Some 0"
  by code_simp

lemma unquote_escape:
  assumes "byte c < 128"
  shows "unquote (escape_char c @ s) = map_option (map_prod (Cons c) id) (unquote s)"
proof (cases "c \<in> {CHR 0x22, CHR 0x5C, CHR 0x08, CHR 0x0C, CHR 0x0A, CHR 0x0D, CHR 0x09}")
  case True
  then show ?thesis by (elim insertE emptyE) (simp_all add: escape_char_def simple_escape_def byte_def)
next
  case plain: False
  show ?thesis
  proof (cases "byte c < 32 \<or> c \<in> set ''<>&''")
    case True
    have "unicode_escape (''00'' @ [hex_digit (byte c div 16), hex_digit (byte c mod 16)] @ s) = Some ([c], 4)"
      using assms hex_value_digit [of "byte c div 16"] hex_value_digit [of "byte c mod 16"]
      by (simp add: unicode_escape_def getu4_def hex_value_zero encode_rune_def)
    with plain True show ?thesis by (simp add: escape_char_def prod.map_comp)
  next
    case False
    with plain assms show ?thesis by (simp add: escape_char_def)
  qed
qed

text \<open>A rune is decoded from its own bytes alone, whatever follows them.\<close>

lemma decode_rune_length:
  "decode_rune (c # s) = (r, n) \<Longrightarrow> 0 < n \<and> n \<le> Suc (length s)"
  by (auto simp: decode_rune_def Let_def split: if_splits)

lemma decode_rune_multi:
  assumes "decode_rune (c # s) = (r, n)" "\<not> (r = RuneError \<and> n = 1)" "128 \<le> byte c"
  obtains d s' where "194 \<le> byte c" "byte c \<le> 223" "n = 2" "s = d # s'"
    | d e s' where "224 \<le> byte c" "byte c \<le> 239" "n = 3" "s = d # e # s'"
    | d e f s' where "240 \<le> byte c" "byte c \<le> 244" "n = 4" "s = d # e # f # s'"
proof -
  have "194 \<le> byte c \<and> byte c \<le> 223 \<and> n = 2 \<or> 224 \<le> byte c \<and> byte c \<le> 239 \<and> n = 3 \<or>
      240 \<le> byte c \<and> byte c \<le> 244 \<and> n = 4" and "n \<le> Suc (length s)"
    using assms decode_rune_length [OF assms(1)] by (auto simp: decode_rune_def Let_def split: if_splits)
  then show thesis
    using that by (cases s; cases "tl s"; cases "tl (tl s)") auto
qed

lemma decode_rune_take:
  assumes "decode_rune (c # s) = (r, n)" "\<not> (r = RuneError \<and> n = 1)" "128 \<le> byte c"
  shows "decode_rune (take n (c # s) @ t) = (r, n)"
  using assms
proof (cases rule: decode_rune_multi [OF assms])
  case (1 d s')
  with assms(1,2) show ?thesis by (simp add: decode_rune_def Let_def split: if_splits)
next
  case (2 d e s')
  with assms(1,2) show ?thesis by (simp add: decode_rune_def Let_def split: if_splits)
next
  case (3 d e f s')
  with assms(1,2) show ?thesis by (simp add: decode_rune_def Let_def split: if_splits)
qed

lemma unquote_rune:
  assumes "decode_rune (c # s) = (r, n)" "\<not> (r = RuneError \<and> n = 1)" "128 \<le> byte c"
  shows "unquote (take n (c # s) @ t) = map_option (map_prod (append (take n (c # s))) id) (unquote t)"
proof -
  obtain k where k: "n = Suc k" "0 < k" "k \<le> length s"
    by (cases rule: decode_rune_multi [OF assms]) (auto intro: that)
  have dec: "decode_rune (c # take k s @ t) = (r, n)" using decode_rune_take [OF assms] by (simp add: k)
  have rest: "drop k (take k s @ t) = t" "take k (take k s @ t) = take k s" using k(3) by simp_all
  have "c \<noteq> CHR 0x22" "c \<noteq> CHR 0x5C" "\<not> byte c < 128" "\<not> byte c < 32" using assms(3) by auto
  then show ?thesis
    using k(2) by (simp only: k(1) take_Suc_Cons append_Cons unquote.simps(2) if_False dec [unfolded k(1)] prod.case
        diff_Suc_1 rest) simp
qed

lemma hex_values:
  "hex_value CHR ''f'' = Some 15" "hex_value CHR ''d'' = Some 13" "hex_value CHR ''2'' = Some 2"
  "hex_value CHR ''8'' = Some 8" "hex_value CHR ''9'' = Some 9"
  by code_simp+

lemma replacement_bytes: "replacement = [char_of (239 :: nat), char_of (191 :: nat), char_of (189 :: nat)]"
proof -
  have "byte CHR 0xEF = 239" "byte CHR 0xBF = 191" "byte CHR 0xBD = 189" by (simp_all add: byte_def)
  then show ?thesis unfolding replacement_def by (metis char_of_byte)
qed

lemma unquote_short_escape:
  "unquote ((CHR 0x5C # ''ufffd'') @ t) = map_option (map_prod (append replacement) id) (unquote t)"
  "unquote ((CHR 0x5C # ''u2028'') @ t) = map_option (map_prod (append (encode_rune 8232)) id) (unquote t)"
  "unquote ((CHR 0x5C # ''u2029'') @ t) = map_option (map_prod (append (encode_rune 8233)) id) (unquote t)"
proof -
  have "unicode_escape (''fffd'' @ t) = Some (replacement, 4)" "unicode_escape (''2028'' @ t) = Some (encode_rune 8232, 4)"
      "unicode_escape (''2029'' @ t) = Some (encode_rune 8233, 4)"
    by (simp_all add: unicode_escape_def getu4_def hex_values hex_value_zero encode_rune_def replacement_bytes)
  then show "unquote ((CHR 0x5C # ''ufffd'') @ t) = map_option (map_prod (append replacement) id) (unquote t)"
    "unquote ((CHR 0x5C # ''u2028'') @ t) = map_option (map_prod (append (encode_rune 8232)) id) (unquote t)"
    "unquote ((CHR 0x5C # ''u2029'') @ t) = map_option (map_prod (append (encode_rune 8233)) id) (unquote t)"
    by simp_all
qed

text \<open>The line and the paragraph separator are written as escapes.\<close>

lemma encode_separator:
  assumes "decode_rune (c # s) = (int q, n)" "128 \<le> byte c" "q \<in> {8232, 8233}"
  shows "take n (c # s) = encode_rune q"
proof -
  have no_error: "\<not> (int q = RuneError \<and> n = 1)" using assms(3) by (auto simp: RuneError_def)
  show ?thesis
  proof (cases rule: decode_rune_multi [OF assms(1) no_error assms(2)])
    case (1 d s')
    with assms show ?thesis by (simp add: decode_rune_def continuation_def split: if_splits)
  next
    case (2 d e s')
    have "int q = int ((byte c - 224) * 4096 + (byte d - 128) * 64 + (byte e - 128))"
        "128 \<le> byte d" "byte d \<le> 191" "128 \<le> byte e" "byte e \<le> 191"
      using 2 assms(1) by (auto simp: decode_rune_def continuation_def Let_def split: if_splits)
    then have sum: "q = (byte c - 224) * 4096 + (byte d - 128) * 64 + (byte e - 128)" "byte c - 224 \<le> 15"
        "byte d - 128 \<le> 63" "byte e - 128 \<le> 63" and low: "128 \<le> byte d" "128 \<le> byte e"
      using 2 by linarith+
    have "i = 2 \<and> j = 0 \<and> k = q - 8192"
      if "q = i * 4096 + j * 64 + k" "i \<le> 15" "j \<le> 63" "k \<le> 63" for i j k :: nat
    proof -
      have q: "8232 \<le> q" "q \<le> 8233" using assms(3) by auto
      have "\<not> i \<le> 1" "\<not> 3 \<le> i" using that q by linarith+
      then have "i = 2" by simp
      moreover from this have "\<not> 1 \<le> j" using that q by linarith
      ultimately show ?thesis using that(1) by simp
    qed
    from this [OF sum] 2(1) low assms(3) have "byte c = 226" "byte d = 128" "byte e = q - 8064" by auto
    then have "c = char_of (226 :: nat)" "d = char_of (128 :: nat)" "e = char_of (q - 8064)"
      by (metis char_of_byte)+
    with 2 assms(3) show ?thesis by (auto simp: encode_rune_def)
  next
    case (3 d e f s')
    with assms show ?thesis
      by (auto simp: decode_rune_def continuation_def Let_def RuneError_def split: if_splits)
  qed
qed

lemma unquote_string_body: "unquote (string_body s @ CHR 0x22 # t) = Some (to_valid s, t)"
proof (induction s rule: string_body.induct)
  case (2 c s)
  show ?case
  proof (cases "byte c < 128")
    case True
    with "2.IH"(1) show ?thesis by (simp add: unquote_escape)
  next
    case False
    obtain r n where rune: "decode_rune (c # s) = (r, n)" by fastforce
    note IH = "2.IH"(2) [OF False rune [symmetric]]
    consider "r = RuneError" "n = 1" | q where "r = int q" "q \<in> {8232, 8233}" "\<not> (r = RuneError \<and> n = 1)"
      | "r \<noteq> 8232" "r \<noteq> 8233" "\<not> (r = RuneError \<and> n = 1)"
      by (cases "r \<in> {8232, 8233}") (auto simp: RuneError_def intro: that(2) [of 8232] that(2) [of 8233])
    then show ?thesis
    proof cases
      case 1
      have "string_body (c # s) = (CHR 0x5C # ''ufffd'') @ string_body (drop (n - 1) s)"
        "to_valid (c # s) = replacement @ to_valid (drop (n - 1) s)" using False rune 1 by simp_all
      then show ?thesis by (simp only: append_assoc unquote_short_escape(1) IH option.map map_prod_simp id_apply)
    next
      case (2 q)
      have sep: "take n (c # s) = encode_rune q" using encode_separator [of c s q n] rune 2 False by simp
      from 2(2) have "string_body (c # s) = (CHR 0x5C # (if q = 8232 then ''u2028'' else ''u2029'')) @ string_body (drop (n - 1) s)"
        "to_valid (c # s) = encode_rune q @ to_valid (drop (n - 1) s)"
        using False rune 2(1,3) by (auto simp: sep)
      with 2(2) show ?thesis
        by (elim insertE emptyE) (simp_all only: append_assoc unquote_short_escape(2,3) IH option.map map_prod_simp id_apply
            refl if_True if_False num.simps numeral_eq_iff)
    next
      case 3
      have high: "128 \<le> byte c" using False by simp
      have "string_body (c # s) = take n (c # s) @ string_body (drop (n - 1) s)"
        "to_valid (c # s) = take n (c # s) @ to_valid (drop (n - 1) s)" using False rune 3 by auto
      then show ?thesis by (simp only: append_assoc unquote_rune [OF rune 3(3) high] IH option.map map_prod_simp id_apply)
    qed
  qed
qed simp

section \<open>Numbers\<close>

text \<open>The parts of a number; each leaves the rest.\<close>

definition int_part :: "string \<Rightarrow> string option" where
  "int_part s =
     (case s of
        [] \<Rightarrow> None
      | c # t \<Rightarrow> if c = CHR ''0'' then Some t else if is_digit c then Some (dropWhile is_digit t) else None)"

definition some_digits :: "string \<Rightarrow> string option" where
  "some_digits s = (if s \<noteq> [] \<and> is_digit (hd s) then Some (dropWhile is_digit s) else None)"

definition frac_part :: "string \<Rightarrow> string option" where
  "frac_part s = (if HasPrefix s ''.'' then some_digits (tl s) else Some s)"

definition exp_part :: "string \<Rightarrow> string option" where
  "exp_part s =
     (if s \<noteq> [] \<and> hd s \<in> set ''eE'' then
        some_digits (if HasPrefix (tl s) ''+'' \<or> HasPrefix (tl s) ''-'' then tl (tl s) else tl s)
      else Some s)"

definition number_rest :: "string \<Rightarrow> string option" where
  "number_rest s = Option.bind (Option.bind (int_part (if HasPrefix s ''-'' then tl s else s)) frac_part) exp_part"

definition number_value :: "string \<Rightarrow> json" where
  "number_value s =
     (case (if HasPrefix s ''-'' then map_option uminus (parse_digits10 (tl s)) else parse_digits10 s) of
        Some n \<Rightarrow> JNum n
      | None \<Rightarrow> JReal s)"

section \<open>Tokens\<close>

datatype token = TPunct char | TStr string | TVal json

definition literals :: "(string \<times> json) list" where
  "literals = [(''null'', JNull), (''true'', JBool True), (''false'', JBool False)]"

definition space :: "char \<Rightarrow> bool" where
  "space c \<longleftrightarrow> c \<in> {CHR '' '', CHR 0x09, CHR 0x0A, CHR 0x0D}"

definition next_token :: "string \<Rightarrow> (token \<times> string) option" where
  "next_token s =
     (case s of
        [] \<Rightarrow> None
      | c # t \<Rightarrow>
          if c \<in> set ''[]{},:'' then Some (TPunct c, t)
          else if c = CHR 0x22 then map_option (map_prod TStr id) (unquote t)
          else if c = CHR ''-'' \<or> is_digit c then
            map_option (\<lambda>rest. (TVal (number_value (take (length s - length rest) s)), rest)) (number_rest s)
          else map_option (\<lambda>(w, j). (TVal j, drop (length w) s)) (find (\<lambda>(w, j). HasPrefix s w) literals))"

lemma parts_shorter:
  "int_part s = Some t \<Longrightarrow> length t < length s"
  "frac_part s = Some t \<Longrightarrow> length t \<le> length s"
  "exp_part s = Some t \<Longrightarrow> length t \<le> length s"
proof -
  have digits: "some_digits u = Some t \<Longrightarrow> length t \<le> length u" for u t
    by (auto simp: some_digits_def length_dropWhile_le split: if_splits)
  show "int_part s = Some t \<Longrightarrow> length t < length s"
    by (auto simp: int_part_def length_dropWhile_le le_imp_less_Suc split: list.splits if_splits)
  show "frac_part s = Some t \<Longrightarrow> length t \<le> length s"
    using digits [of "tl s" t] by (auto simp: frac_part_def split: if_splits)
  show "exp_part s = Some t \<Longrightarrow> length t \<le> length s"
    using digits [of "tl s" t] digits [of "tl (tl s)" t] by (auto simp: exp_part_def split: if_splits)
qed

lemma number_rest_shorter: "number_rest s = Some t \<Longrightarrow> length t < length s"
  unfolding number_rest_def
  by (cases s) (fastforce simp: bind_eq_Some_conv dest: parts_shorter split: if_splits)+

lemma next_token_shorter: "next_token s = Some (t, rest) \<Longrightarrow> length rest < length s"
proof (cases s)
  case (Cons c u)
  assume s: "next_token s = Some (t, rest)"
  consider "c \<in> set ''[]{},:''" | "c = CHR 0x22" | "c \<notin> set ''[]{},:''" "c \<noteq> CHR 0x22" "c = CHR ''-'' \<or> is_digit c"
    | "c \<notin> set ''[]{},:''" "c \<noteq> CHR 0x22" "\<not> (c = CHR ''-'' \<or> is_digit c)" by blast
  then show ?thesis
  proof cases
    case 1
    with s Cons show ?thesis by (simp add: next_token_def del: set_simps)
  next
    case 2
    with s Cons show ?thesis by (auto simp: next_token_def dest: unquote_shorter)
  next
    case 3
    with s have "number_rest s = Some rest" by (auto simp: next_token_def Cons simp del: set_simps)
    then show ?thesis by (rule number_rest_shorter)
  next
    case 4
    with s have "\<exists>w j. find (\<lambda>(w, j). HasPrefix s w) literals = Some (w, j) \<and> rest = drop (length w) s"
      by (auto simp: next_token_def Cons simp del: set_simps)
    then obtain w j where "find (\<lambda>(w, j). HasPrefix s w) literals = Some (w, j)" and rest: "rest = drop (length w) s"
      by blast
    then have "(w, j) \<in> set literals" by (auto simp: find_Some_iff) (metis nth_mem)
    with rest show ?thesis by (auto simp: literals_def Cons)
  qed
qed (simp add: next_token_def)

function tokenize :: "string \<Rightarrow> token list option" where
  "tokenize [] = Some []"
| "tokenize (c # s) =
     (if space c then tokenize s
      else case next_token (c # s) of
        None \<Rightarrow> None
      | Some (t, rest) \<Rightarrow> map_option (Cons t) (tokenize rest))"
  by pat_completeness auto

termination
  by (relation "measure length") (auto dest: next_token_shorter)

declare tokenize.simps(2) [simp del]

section \<open>The machine\<close>

text \<open>The open arrays and objects, the innermost first; \<open>Member\<close> waits for the value of its key.\<close>

datatype frame = Elems "json list" | Members "(string \<times> json) list" | Member "(string \<times> json) list" string

datatype mode = Value | ValueOrEnd | Key | KeyOrEnd | Colon string | After | Finished json

type_synonym machine = "mode \<times> frame list"

definition maxNestingDepth :: nat where
  "maxNestingDepth = 10000"

definition push :: "mode \<Rightarrow> frame \<Rightarrow> frame list \<Rightarrow> machine option" where
  "push m f fs = (if length fs < maxNestingDepth then Some (m, f # fs) else None)"

fun deliver :: "json \<Rightarrow> frame list \<Rightarrow> machine option" where
  "deliver j [] = Some (Finished j, [])"
| "deliver j (Elems vs # fs) = Some (After, Elems (vs @ [j]) # fs)"
| "deliver j (Member kvs k # fs) = Some (After, Members (kvs @ [(k, j)]) # fs)"
| "deliver j (Members kvs # fs) = None"

text \<open>A value or its beginning.\<close>

fun begin_value :: "token \<Rightarrow> frame list \<Rightarrow> machine option" where
  "begin_value (TStr s) fs = deliver (JStr s) fs"
| "begin_value (TVal j) fs = deliver j fs"
| "begin_value (TPunct c) fs =
     (if c = CHR ''['' then push ValueOrEnd (Elems []) fs
      else if c = CHR ''{'' then push KeyOrEnd (Members []) fs
      else None)"

fun token_step :: "token \<Rightarrow> machine \<Rightarrow> machine option" where
  "token_step t (Value, fs) = begin_value t fs"
| "token_step t (ValueOrEnd, fs) =
     (case fs of
        Elems vs # fs' \<Rightarrow> if t = TPunct (CHR '']'') then deliver (JArr vs) fs' else begin_value t fs
      | _ \<Rightarrow> None)"
| "token_step t (Key, fs) = (case t of TStr k \<Rightarrow> Some (Colon k, fs) | _ \<Rightarrow> None)"
| "token_step t (KeyOrEnd, fs) =
     (case fs of
        Members kvs # fs' \<Rightarrow>
          if t = TPunct (CHR ''}'') then deliver (JObj kvs) fs'
          else (case t of TStr k \<Rightarrow> Some (Colon k, fs) | _ \<Rightarrow> None)
      | _ \<Rightarrow> None)"
| "token_step t (Colon k, fs) =
     (case fs of
        Members kvs # fs' \<Rightarrow> if t = TPunct (CHR '':'') then Some (Value, Member kvs k # fs') else None
      | _ \<Rightarrow> None)"
| "token_step t (After, fs) =
     (case fs of
        Elems vs # fs' \<Rightarrow>
          if t = TPunct (CHR '','') then Some (Value, fs)
          else if t = TPunct (CHR '']'') then deliver (JArr vs) fs'
          else None
      | Members kvs # fs' \<Rightarrow>
          if t = TPunct (CHR '','') then Some (Key, fs)
          else if t = TPunct (CHR ''}'') then deliver (JObj kvs) fs'
          else None
      | _ \<Rightarrow> None)"
| "token_step t (Finished j, fs) = None"

fun run_tokens :: "token list \<Rightarrow> machine option \<Rightarrow> machine option" where
  "run_tokens [] m = m"
| "run_tokens (t # ts) m = run_tokens ts (Option.bind m (token_step t))"

definition parse_json :: "string \<Rightarrow> raw" where
  "parse_json s =
     (case Option.bind (tokenize s) (\<lambda>ts. run_tokens ts (Some (Value, []))) of
        Some (Finished j, fs) \<Rightarrow> Some j
      | _ \<Rightarrow> None)"

text \<open>\<open>json.NewDecoder(r).Decode\<close>: the first value of the text, whatever follows it.\<close>

function decode_from :: "string \<Rightarrow> machine \<Rightarrow> raw" where
  "decode_from s m =
     (case fst m of
        Finished j \<Rightarrow> Some j
      | _ \<Rightarrow>
          (case s of
             [] \<Rightarrow> None
           | c # t \<Rightarrow>
               if space c then decode_from t m
               else
                 (case next_token s of
                    None \<Rightarrow> None
                  | Some (tok, rest) \<Rightarrow>
                      (case token_step tok m of None \<Rightarrow> None | Some m' \<Rightarrow> decode_from rest m'))))"
  by pat_completeness auto

termination
  by (relation "measure (\<lambda>(s, m). length s)") (auto dest: next_token_shorter)

declare decode_from.simps [simp del]

definition Decode :: "string \<Rightarrow> raw" where
  "Decode s = decode_from s (Value, [])"

section \<open>Writing\<close>

fun separated :: "'a list \<Rightarrow> 'a list list \<Rightarrow> 'a list" where
  "separated c [] = []"
| "separated c [x] = x"
| "separated c (x # y # xs) = x @ c @ separated c (y # xs)"

fun json_text :: "json \<Rightarrow> string" where
  "json_text JNull = ''null''"
| "json_text (JBool b) = (if b then ''true'' else ''false'')"
| "json_text (JNum n) = itoa n"
| "json_text (JReal s) = s"
| "json_text (JStr s) = quoted s"
| "json_text (JArr vs) = ''['' @ separated '','' (map json_text vs) @ '']''"
| "json_text (JObj kvs) =
     ''{'' @ separated '','' (map (\<lambda>(k, v). quoted k @ '':'' @ json_text v) kvs) @ ''}''"

text \<open>What arrives, how deep it is, and whether it is one that \<open>Marshal\<close> can be given: a \<open>JReal\<close> is the
  text of a number that is no integer.\<close>

fun clean :: "json \<Rightarrow> json" where
  "clean (JStr s) = JStr (to_valid s)"
| "clean (JArr vs) = JArr (map clean vs)"
| "clean (JObj kvs) = JObj (map (\<lambda>(k, v). (to_valid k, clean v)) kvs)"
| "clean v = v"

fun depth :: "json \<Rightarrow> nat" where
  "depth (JArr vs) = Suc (fold max (map depth vs) 0)"
| "depth (JObj kvs) = Suc (fold max (map (\<lambda>(k, v). depth v) kvs) 0)"
| "depth v = 0"

fun writable :: "json \<Rightarrow> bool" where
  "writable (JReal s) \<longleftrightarrow> number_rest s = Some [] \<and> number_value s = JReal s"
| "writable (JArr vs) \<longleftrightarrow> list_all id (map writable vs)"
| "writable (JObj kvs) \<longleftrightarrow> list_all id (map (\<lambda>(k, v). writable v) kvs)"
| "writable v \<longleftrightarrow> True"

section \<open>The round trip\<close>

text \<open>The tokens of what is written.\<close>

fun json_tokens :: "json \<Rightarrow> token list" where
  "json_tokens (JStr s) = [TStr (to_valid s)]"
| "json_tokens (JArr vs) =
     TPunct (CHR ''['') # separated [TPunct (CHR '','')] (map json_tokens vs) @ [TPunct (CHR '']'')]"
| "json_tokens (JObj kvs) =
     TPunct (CHR ''{'') #
       separated [TPunct (CHR '','')] (map (\<lambda>(k, v). TStr (to_valid k) # TPunct (CHR '':'') # json_tokens v) kvs)
     @ [TPunct (CHR ''}'')]"
| "json_tokens v = [TVal v]"

text \<open>A text before which a number ends.\<close>

definition number_char :: "char \<Rightarrow> bool" where
  "number_char c \<longleftrightarrow> is_digit c \<or> c \<in> set ''+-.eE''"

definition ends_number :: "string \<Rightarrow> bool" where
  "ends_number t \<longleftrightarrow> t = [] \<or> \<not> number_char (hd t)"

lemma is_digit_chars: "is_digit c \<longleftrightarrow> c \<in> set ''0123456789''"
  by (auto simp: is_digit_def digit_val_def upt_rec split: if_splits)

lemma not_number_char [simp]:
  "\<not> number_char CHR '',''" "\<not> number_char CHR '']''" "\<not> number_char CHR ''}''" "\<not> number_char CHR '':''"
  "\<not> number_char CHR ''['' " "\<not> number_char CHR ''{''" "\<not> number_char CHR 0x22"
  "\<not> number_char CHR ''n''" "\<not> number_char CHR ''t''" "\<not> number_char CHR ''f''"
  by (simp_all add: number_char_def is_digit_chars)

lemma ends_number_Cons [simp]: "ends_number (c # t) \<longleftrightarrow> \<not> number_char c"
  by (simp add: ends_number_def)

lemma not_space [simp]:
  "c \<in> set ''[]{},:'' \<Longrightarrow> \<not> space c" "\<not> space CHR 0x22" "\<not> space CHR ''n''" "\<not> space CHR ''t''" "\<not> space CHR ''f''"
  by (auto simp: space_def)

lemma tokens_punct [simp]: "c \<in> set ''[]{},:'' \<Longrightarrow> tokenize (c # s) = map_option (Cons (TPunct c)) (tokenize s)"
  using not_space(1) [of c] by (simp add: tokenize.simps(2) next_token_def del: set_simps not_space)

lemma tokens_quoted: "tokenize (quoted s @ t) = map_option (Cons (TStr (to_valid s))) (tokenize t)"
  by (simp add: quoted_def tokenize.simps(2) next_token_def unquote_string_body)

lemma dropWhile_digits:
  "ends_number t \<Longrightarrow> dropWhile is_digit (s @ t) = dropWhile is_digit s @ t"
  by (induction s) (cases t; auto simp: ends_number_def number_char_def)+

lemma some_digits_append: "ends_number t \<Longrightarrow> some_digits s = Some r \<Longrightarrow> some_digits (s @ t) = Some (r @ t)"
  by (auto simp: some_digits_def dropWhile_digits hd_append split: if_splits)

lemma parts_append:
  assumes "ends_number t"
  shows "int_part s = Some r \<Longrightarrow> int_part (s @ t) = Some (r @ t)"
    and "frac_part s = Some r \<Longrightarrow> frac_part (s @ t) = Some (r @ t)"
    and "exp_part s = Some r \<Longrightarrow> exp_part (s @ t) = Some (r @ t)"
proof -
  have t: "t = [] \<or> hd t \<noteq> CHR ''.'' \<and> hd t \<noteq> CHR ''e'' \<and> hd t \<noteq> CHR ''E'' \<and> hd t \<noteq> CHR ''+'' \<and> hd t \<noteq> CHR ''-''"
    using assms by (auto simp: ends_number_def number_char_def)
  show "int_part s = Some r \<Longrightarrow> int_part (s @ t) = Some (r @ t)"
    by (auto simp: int_part_def dropWhile_digits [OF assms] split: list.splits if_splits)
  show "frac_part s = Some r \<Longrightarrow> frac_part (s @ t) = Some (r @ t)"
    using t some_digits_append [OF assms, of "tl s" r]
    by (cases s; cases t) (auto simp: frac_part_def HasPrefix_def split: if_splits)
  show "exp_part s = Some r \<Longrightarrow> exp_part (s @ t) = Some (r @ t)"
    using t some_digits_append [OF assms, of "tl s" r] some_digits_append [OF assms, of "tl (tl s)" r]
    by (cases s; cases "tl s"; cases t) (auto simp: exp_part_def HasPrefix_def some_digits_def split: if_splits)
qed

lemma number_rest_append:
  assumes "number_rest n = Some []" "ends_number t"
  shows "number_rest (n @ t) = Some t"
proof -
  obtain c s where n: "n = c # s" using number_rest_shorter [OF assms(1)] by (cases n) auto
  from assms(1) obtain u v where "int_part (if HasPrefix n ''-'' then tl n else n) = Some u" "frac_part u = Some v"
    "exp_part v = Some []" by (auto simp: number_rest_def bind_eq_Some_conv)
  note parts = this(1) [THEN parts_append(1) [OF assms(2)]] this(2) [THEN parts_append(2) [OF assms(2)]]
    this(3) [THEN parts_append(3) [OF assms(2)]]
  then show ?thesis by (auto simp: number_rest_def n HasPrefix_def split: if_splits)
qed

lemma number_head:
  assumes "number_rest n = Some t"
  obtains c s where "n = c # s" "c = CHR ''-'' \<or> is_digit c"
proof -
  obtain u where "int_part (if HasPrefix n ''-'' then tl n else n) = Some u"
    using assms by (auto simp: number_rest_def bind_eq_Some_conv)
  then show thesis
    by (cases n) (auto simp: int_part_def HasPrefix_def is_digit_chars intro: that split: if_splits)
qed

lemma tokens_number:
  assumes "number_rest n = Some []" "ends_number t"
  shows "tokenize (n @ t) = map_option (Cons (TVal (number_value n))) (tokenize t)"
proof -
  obtain c s where n: "n = c # s" and c: "c = CHR ''-'' \<or> is_digit c" using number_head [OF assms(1)] by blast
  from c have "\<not> space c" "c \<notin> set ''[]{},:''" "c \<noteq> CHR 0x22" by (auto simp: space_def is_digit_chars)
  then have "next_token (n @ t) = Some (TVal (number_value n), t)"
    using c number_rest_append [OF assms] by (simp add: n next_token_def)
  with \<open>\<not> space c\<close> show ?thesis by (simp add: n tokenize.simps(2))
qed

lemma digit_char_digit: "d < 10 \<Longrightarrow> is_digit (digit_char d)"
  by (simp add: is_digit_def)

lemma utoa_digits: "list_all is_digit (utoa n)"
proof (induction n rule: utoa.induct)
  case (1 n)
  then show ?case by (subst utoa.simps) (simp add: digit_char_digit)
qed

lemma utoa_leading: "0 < n \<Longrightarrow> hd (utoa n) \<noteq> CHR ''0''"
proof (induction n rule: utoa.induct)
  case (1 n)
  show ?case
  proof (cases "n < 10")
    case True
    with "1.prems" show ?thesis
      using less_10_cases [OF True] by (subst utoa.simps) (auto simp: digit_char_def)
  next
    case False
    with "1.IH" show ?thesis by (subst utoa.simps) simp
  qed
qed

lemma int_part_utoa: "int_part (utoa n) = Some []"
proof (cases n)
  case 0
  then show ?thesis by (simp add: int_part_def utoa.simps digit_char_def)
next
  case (Suc m)
  obtain c t where u: "utoa n = c # t" by (cases "utoa n") auto
  with utoa_leading [of n] utoa_digits [of n] Suc show ?thesis by (simp add: int_part_def list_all_iff)
qed

lemma utoa_head: "\<not> HasPrefix (utoa n) ''-''"
  by (cases "utoa n") (use utoa_no_minus [of n] in \<open>auto simp: HasPrefix_def\<close>)

lemma itoa_number: "number_rest (itoa n) = Some []" "number_value (itoa n) = JNum n"
  using utoa_head [of "nat n"]
  by (simp_all add: itoa_def number_rest_def int_part_utoa frac_part_def exp_part_def HasPrefix_def
      number_value_def parse_digits10_utoa)

lemma tokens_literal:
  "tokenize (''null'' @ t) = map_option (Cons (TVal JNull)) (tokenize t)"
  "tokenize (''true'' @ t) = map_option (Cons (TVal (JBool True))) (tokenize t)"
  "tokenize (''false'' @ t) = map_option (Cons (TVal (JBool False))) (tokenize t)"
  by (simp_all add: tokenize.simps(2) next_token_def literals_def HasPrefix_def is_digit_chars)

lemma tokens_separated:
  assumes "\<And>x t. x \<in> set xs \<Longrightarrow> ends_number t \<Longrightarrow> tokenize (f x @ t) = map_option (append (g x)) (tokenize t)"
    and "ends_number t"
  shows "tokenize (separated '','' (map f xs) @ t) = map_option (append (separated [TPunct (CHR '','')] (map g xs))) (tokenize t)"
  using assms(1)
proof (induction xs rule: induct_list012)
  case (2 x)
  with assms(2) show ?case by simp
next
  case (3 x y zs)
  let ?rest = "separated '','' (map f (y # zs)) @ t"
  have "tokenize (f x @ '','' @ ?rest) = map_option (append (g x)) (tokenize ('','' @ ?rest))"
    by (rule 3) simp_all
  also have "tokenize ('','' @ ?rest) = map_option (Cons (TPunct (CHR '',''))) (tokenize ?rest)" by simp
  finally show ?case using 3 by (cases "tokenize t") simp_all
qed (cases "tokenize t", simp_all)

lemma tokens_text:
  "writable j \<Longrightarrow> ends_number t \<Longrightarrow> tokenize (json_text j @ t) = map_option (append (json_tokens j)) (tokenize t)"
proof (induction j arbitrary: t)
  case (JArr vs)
  have "tokenize (separated '','' (map json_text vs) @ '']'' @ t) =
      map_option (append (separated [TPunct (CHR '','')] (map json_tokens vs))) (tokenize ('']'' @ t))"
    by (rule tokens_separated) (use JArr in \<open>auto simp: list_all_iff\<close>)
  then show ?case by (simp add: option.map_comp o_def)
next
  case (JObj kvs)
  have "tokenize (separated '','' (map (\<lambda>(k, v). quoted k @ '':'' @ json_text v) kvs) @ ''}'' @ t) =
      map_option (append (separated [TPunct (CHR '','')]
        (map (\<lambda>(k, v). TStr (to_valid k) # TPunct (CHR '':'') # json_tokens v) kvs))) (tokenize (''}'' @ t))"
  proof (rule tokens_separated)
    fix x t' assume x: "x \<in> set kvs" and t': "ends_number t'"
    obtain k v where kv: "x = (k, v)" by fastforce
    have "tokenize (json_text v @ t') = map_option (append (json_tokens v)) (tokenize t')"
      using JObj.IH [of x v t'] JObj.prems(1) x t' by (force simp: kv list_all_iff)
    then show "tokenize ((case x of (k, v) \<Rightarrow> quoted k @ '':'' @ json_text v) @ t') =
        map_option (append (case x of (k, v) \<Rightarrow> TStr (to_valid k) # TPunct (CHR '':'') # json_tokens v)) (tokenize t')"
      by (cases "tokenize t'") (simp_all add: kv tokens_quoted)
  qed simp
  then show ?case by (simp add: option.map_comp o_def)
next
  case (JBool b)
  then show ?case using tokens_literal(2,3) [of t] by (cases b) (simp_all del: append_Cons)
next
  case JNull
  then show ?case using tokens_literal(1) [of t] by (simp del: append_Cons)
next
  case (JNum n)
  then show ?case using tokens_number [OF itoa_number(1) JNum(2), of n] by (simp add: itoa_number)
next
  case (JReal s)
  then show ?case using tokens_number [of s t] by simp
qed (simp add: tokens_quoted)

text \<open>A machine that waits for a value ends where the value has been delivered.\<close>

definition accepts :: "json \<Rightarrow> bool" where
  "accepts j \<longleftrightarrow> (\<forall>fs ts. depth j + length fs \<le> maxNestingDepth \<longrightarrow>
     run_tokens (json_tokens j @ ts) (Some (Value, fs)) = run_tokens ts (deliver (clean j) fs))"

lemma acceptsD:
  "accepts j \<Longrightarrow> depth j + length fs \<le> maxNestingDepth \<Longrightarrow>
    run_tokens (json_tokens j @ ts) (Some (Value, fs)) = run_tokens ts (deliver (clean j) fs)"
  by (simp add: accepts_def)

lemma first_token:
  obtains t ts where "json_tokens j = t # ts" "t \<noteq> TPunct (CHR '']'')"
  by (cases j) auto

lemma run_first:
  "run_tokens (json_tokens j @ ts) (Some (ValueOrEnd, Elems us # fs)) =
   run_tokens (json_tokens j @ ts) (Some (Value, Elems us # fs))"
  by (cases rule: first_token [of j]) simp

lemma depth_max_ge: "a \<le> fold max xs a" "x \<in> set xs \<Longrightarrow> x \<le> fold max xs a" for a :: nat
proof -
  show start: "a \<le> fold max xs a" for xs and a :: nat
    by (induction xs arbitrary: a) (simp, metis fold_simps(2) max.boundedE)
  show "x \<in> set xs \<Longrightarrow> x \<le> fold max xs a"
    by (induction xs arbitrary: a) (auto intro: order_trans [OF _ start])
qed

lemma run_elems:
  assumes "\<forall>v \<in> set vs. accepts v \<and> depth v + Suc (length fs) \<le> maxNestingDepth" and "vs \<noteq> []"
  shows "run_tokens (separated [TPunct (CHR '','')] (map json_tokens vs) @ TPunct (CHR '']'') # ts)
      (Some (Value, Elems us # fs)) = run_tokens ts (deliver (JArr (us @ map clean vs)) fs)"
  using assms
proof (induction vs arbitrary: us rule: induct_list012)
  case (2 v)
  then show ?case by (simp add: acceptsD)
next
  case (3 v w vs)
  then show ?case by (simp add: acceptsD)
qed simp

lemma run_members:
  assumes "\<forall>(k, v) \<in> set kvs. accepts v \<and> depth v + Suc (length fs) \<le> maxNestingDepth" and "kvs \<noteq> []"
    and "m \<in> {Key, KeyOrEnd}"
  shows "run_tokens (separated [TPunct (CHR '','')]
        (map (\<lambda>(k, v). TStr (to_valid k) # TPunct (CHR '':'') # json_tokens v) kvs) @ TPunct (CHR ''}'') # ts)
      (Some (m, Members us # fs)) = run_tokens ts (deliver (JObj (us @ map (\<lambda>(k, v). (to_valid k, clean v)) kvs)) fs)"
  using assms
proof (induction kvs arbitrary: us m rule: induct_list012)
  case (2 kv)
  then show ?case by (cases kv) (auto simp: acceptsD)
next
  case (3 kv kw kvs)
  then show ?case by (cases kv; cases kw) (auto simp: acceptsD)
qed simp

lemma accepts_all: "accepts j"
proof (induction j)
  case (JArr vs)
  show ?case
    unfolding accepts_def
  proof (intro allI impI)
    fix fs :: "frame list" and ts assume deep: "depth (JArr vs) + length fs \<le> maxNestingDepth"
    have inner: "\<forall>v \<in> set vs. accepts v \<and> depth v + Suc (length fs) \<le> maxNestingDepth"
    proof
      fix v assume v: "v \<in> set vs"
      with depth_max_ge(2) [of "depth v" "map depth vs" 0] deep JArr show "accepts v \<and> depth v + Suc (length fs) \<le> maxNestingDepth"
        by simp
    qed
    have open_array: "run_tokens (json_tokens (JArr vs) @ ts) (Some (Value, fs)) =
        run_tokens (separated [TPunct (CHR '','')] (map json_tokens vs) @ TPunct (CHR '']'') # ts)
          (Some (ValueOrEnd, Elems [] # fs))" using deep by (simp add: push_def)
    show "run_tokens (json_tokens (JArr vs) @ ts) (Some (Value, fs)) = run_tokens ts (deliver (clean (JArr vs)) fs)"
    proof (cases vs)
      case Nil
      with open_array show ?thesis by simp
    next
      case (Cons v ws)
      obtain rest where "separated [TPunct (CHR '','')] (map json_tokens vs) @ TPunct (CHR '']'') # ts = json_tokens v @ rest"
        by (cases ws) (auto simp: Cons)
      with open_array run_elems [OF inner, of ts "[]"] Cons show ?thesis by (simp add: run_first)
    qed
  qed
next
  case (JObj kvs)
  show ?case
    unfolding accepts_def
  proof (intro allI impI)
    fix fs :: "frame list" and ts assume deep: "depth (JObj kvs) + length fs \<le> maxNestingDepth"
    have inner: "\<forall>(k, v) \<in> set kvs. accepts v \<and> depth v + Suc (length fs) \<le> maxNestingDepth"
    proof (clarify, intro conjI)
      fix k v assume kv: "(k, v) \<in> set kvs"
      with JObj show "accepts v" by fastforce
      have "depth v \<le> fold max (map (\<lambda>(k, v). depth v) kvs) 0" using kv by (intro depth_max_ge(2)) force
      with deep show "depth v + Suc (length fs) \<le> maxNestingDepth" by simp
    qed
    show "run_tokens (json_tokens (JObj kvs) @ ts) (Some (Value, fs)) = run_tokens ts (deliver (clean (JObj kvs)) fs)"
    proof (cases "kvs = []")
      case False
      with run_members [OF inner False, of KeyOrEnd ts "[]"] deep show ?thesis by (simp add: push_def)
    qed (use deep in \<open>simp add: push_def\<close>)
  qed
qed (simp_all add: accepts_def)

text \<open>What \<open>Marshal\<close> writes is read back, with every string made valid UTF-8.\<close>

theorem parse_json_text:
  assumes "writable j" "depth j \<le> maxNestingDepth"
  shows "parse_json (json_text j) = Some (clean j)"
proof -
  have "tokenize (json_text j) = Some (json_tokens j)"
    using tokens_text [OF assms(1), of "[]"] by (simp add: ends_number_def)
  moreover have "run_tokens (json_tokens j) (Some (Value, [])) = Some (Finished (clean j), [])"
    using acceptsD [OF accepts_all, of j "[]" "[]"] assms(2) by simp
  ultimately show ?thesis by (simp add: parse_json_def)
qed

text \<open>A text that is one value decodes to that value.\<close>

lemma run_tokens_None [simp]: "run_tokens ts None = None"
  by (induction ts) simp_all

lemma decode_from_tokens:
  "tokenize s = Some ts \<Longrightarrow> run_tokens ts (Some m) = Some (Finished j, fs) \<Longrightarrow> decode_from s m = Some j"
proof (induction s arbitrary: ts m rule: tokenize.induct)
  case 1
  then show ?case by (simp add: decode_from.simps)
next
  case (2 c s)
  show ?case
  proof (cases "space c")
    case True
    with "2.prems" "2.IH"(1) [OF True, of ts m] show ?thesis
      by (subst decode_from.simps) (auto simp: tokenize.simps(2) decode_from.simps [of s] split: mode.split)
  next
    case False
    with "2.prems"(1) obtain t rest us where t: "next_token (c # s) = Some (t, rest)" and us: "tokenize rest = Some us" "ts = t # us"
      by (auto simp: tokenize.simps(2) split: option.splits)
    with "2.prems"(2) obtain m' where m': "token_step t m = Some m'" "run_tokens us (Some m') = Some (Finished j, fs)"
      by (cases "token_step t m") auto
    have "decode_from rest m' = Some j" using "2.IH"(2) [OF False t refl us(1) m'(2)] .
    moreover have "\<nexists>k. fst m = Finished k" using m'(1) by (cases m) auto
    ultimately show ?thesis using False t m'(1) by (subst decode_from.simps) (simp split: mode.split)
  qed
qed

lemma Decode_parse: "parse_json s = Some j \<Longrightarrow> Decode s = Some j"
  by (auto simp: parse_json_def Decode_def bind_eq_Some_conv decode_from_tokens split: option.splits prod.splits mode.splits)

lemma Decode_Nil [simp]: "Decode [] = None"
  by (simp add: Decode_def decode_from.simps)

end
