(* ===== verification/Cursor.thy ===== *)
theory Cursor
  imports Cli Url JsonText
begin

text \<open>
  The hooks for the Cursor editor, \<open>cmd/hearsay/cursor.go\<close>: before a tool runs its file is claimed,
  afterwards the claim is released; the claims of a session are kept in a file of its own. The state
  is that of the files and of the store. The digest of SHA-256 in hexadecimal is a parameter; writing or removing a file either fails and leaves it alone or succeeds.
\<close>

section \<open>Session files\<close>

text \<open>\<open>path.Clean\<close> and \<open>filepath.Join\<close> of non-empty parts, on Unix.\<close>

fun clean_parts :: "bool \<Rightarrow> string list \<Rightarrow> string list \<Rightarrow> string list" where
  "clean_parts rooted done [] = rev done"
| "clean_parts rooted done (p # ps) =
     (if p = [] \<or> p = ''.'' then clean_parts rooted done ps
      else if p = ''..'' then
        (if done \<noteq> [] \<and> hd done \<noteq> ''..'' then clean_parts rooted (tl done) ps
         else if rooted then clean_parts rooted done ps
         else clean_parts rooted (p # done) ps)
      else clean_parts rooted (p # done) ps)"

definition Clean :: "string \<Rightarrow> string" where
  "Clean path =
     (let rooted = HasPrefix path ''/'';
          p = (if rooted then ''/'' else []) @ Join (clean_parts rooted [] (split_char (CHR ''/'') path)) ''/''
      in if p = [] then ''.'' else p)"

definition Join_path :: "string list \<Rightarrow> string" where
  "Join_path parts = Clean (Join parts ''/'')"

datatype stored = Missing | Unreadable error | Content raw

type_synonym files = "string \<Rightarrow> stored"

record session_io =
  io_ConfigDir :: "error + string"
  io_TempDir :: string
  io_WriteError :: "error option"
  io_Sha256 :: "string \<Rightarrow> string"

definition cursorStateDir :: "session_io \<Rightarrow> string" where
  "cursorStateDir io =
     (let configDir = (case io_ConfigDir io of Inl err \<Rightarrow> io_TempDir io | Inr dir \<Rightarrow> dir)
      in Join_path [configDir, ''hearsay'', ''cursor''])"

definition cursorStateFilePath :: "session_io \<Rightarrow> string \<Rightarrow> string" where
  "cursorStateFilePath io sessionID =
     Join_path [cursorStateDir io, ''hearsay-cursor-'' @ sessionID @ ''.json'']"

text \<open>A map is an association list; its order has no meaning. The nil map is the empty one.\<close>

record cursor_state =
  cs_SessionID :: string
  cs_Namespace :: string
  cs_AgentID :: string
  cs_ActiveClaims :: "(string \<times> string) list"

definition string_map_field ::
  "(((string \<times> string) list \<Rightarrow> (string \<times> string) list) \<Rightarrow> 'r \<Rightarrow> 'r) \<Rightarrow> 'r field" where
  "string_map_field upd v r =
     (case v of
        JNull \<Rightarrow> (upd (\<lambda>_. []) r, True)
      | JObj kvs \<Rightarrow>
          (upd (fold (\<lambda>(k, v). AList.update k (case v of JStr s \<Rightarrow> s | _ \<Rightarrow> [])) kvs) r,
           list_all (\<lambda>(k, v). case v of JStr s \<Rightarrow> True | JNull \<Rightarrow> True | _ \<Rightarrow> False) kvs)
      | _ \<Rightarrow> (r, False))"

definition cursor_fields :: "(string \<times> cursor_state field) list" where
  "cursor_fields =
     [(''session_id'', string_field cs_SessionID_update), (''namespace'', string_field cs_Namespace_update),
      (''agent_id'', string_field cs_AgentID_update), (''active_claims'', string_map_field cs_ActiveClaims_update)]"

definition cursor_json :: "cursor_state \<Rightarrow> json" where
  "cursor_json st = JObj [(''session_id'', JStr (cs_SessionID st)), (''namespace'', JStr (cs_Namespace st)),
     (''agent_id'', JStr (cs_AgentID st)),
     (''active_claims'', JObj (sort_key fst (map (\<lambda>(k, v). (k, JStr v)) (cs_ActiveClaims st))))]"

definition new_session :: "string \<Rightarrow> cursor_state" where
  "new_session sessionID =
     \<lparr>cs_SessionID = sessionID, cs_Namespace = [], cs_AgentID = [], cs_ActiveClaims = []\<rparr>"

definition loadCursorState :: "session_io \<Rightarrow> files \<Rightarrow> string \<Rightarrow> error + cursor_state" where
  "loadCursorState io fs sessionID =
     (case fs (cursorStateFilePath io sessionID) of
        Missing \<Rightarrow> Inr (new_session sessionID)
      | Unreadable err \<Rightarrow> Inl err
      | Content data \<Rightarrow>
          (case decode cursor_fields (new_session []) data of
             None \<Rightarrow> Inl (ExternalError ''invalid session file'')
           | Some st \<Rightarrow> Inr st))"

definition saveCursorState :: "session_io \<Rightarrow> cursor_state \<Rightarrow> files \<Rightarrow> error option \<times> files" where
  "saveCursorState io st fs =
     (case io_WriteError io of
        Some err \<Rightarrow> (Some err, fs)
      | None \<Rightarrow> (None, fs(cursorStateFilePath io (cs_SessionID st) := Content (Some (cursor_json st)))))"

section \<open>Arguments and answers\<close>

fun pair_args :: "string list \<Rightarrow> (string \<times> string) list" where
  "pair_args (k # v # args) = (k, v) # pair_args args"
| "pair_args _ = []"

text \<open>The last value counts.\<close>

definition argument :: "string list \<Rightarrow> string \<Rightarrow> string" where
  "argument args name = (case map_of (rev (pair_args args)) name of None \<Rightarrow> [] | Some v \<Rightarrow> v)"

definition allowed :: string where
  \<open>allowed = ''{"permission":"allow"}''\<close>

definition denied :: string where
  \<open>denied = ''{"permission":"deny"}''\<close>

definition allowed_with :: "string \<Rightarrow> string" where
  \<open>allowed_with msg = ''{"permission":"allow","agent_message":"'' @ msg @ ''"}''\<close>

definition unavailable :: string where
  "unavailable = allowed_with (''hearsay coordination unavailable '' @ [CHR 0xE2, CHR 0x80, CHR 0x94]
     @ '' proceeding uncoordinated'')"

definition warning_sign :: string where
  "warning_sign = [CHR 0xE2, CHR 0x9A, CHR 0xA0, CHR 0xEF, CHR 0xB8, CHR 0x8F]"

definition toolCallId :: "session_io \<Rightarrow> string \<Rightarrow> string \<Rightarrow> string" where
  "toolCallId io toolName toolInput = toolName @ '':'' @ take 8 (io_Sha256 io toolInput)"

section \<open>The hooks\<close>

definition cmdCursorSessionStart :: "session_io \<Rightarrow> string list \<Rightarrow> files \<Rightarrow> cli \<times> files" where
  "cmdCursorSessionStart io args fs =
     (let sessionID = argument args ''--session-id''
      in if sessionID = [] then (fails 1 ''Missing --session-id'', fs)
         else (case saveCursorState io \<lparr>cs_SessionID = sessionID, cs_Namespace = argument args ''--namespace'',
                   cs_AgentID = argument args ''--agent-id'', cs_ActiveClaims = []\<rparr> fs of
             (Some err, fs') \<Rightarrow> (fails 1 (''Failed to save state: '' @ error_text err), fs')
           | (None, fs') \<Rightarrow> (succeeds [Line allowed], fs')))"

text \<open>A text that decodes into a Go map: its members, or the error. A map reads as the last member.\<close>

definition decode_map :: "raw \<Rightarrow> (string \<times> json) list option" where
  "decode_map r = (case r of Some JNull \<Rightarrow> Some [] | Some (JObj kvs) \<Rightarrow> Some kvs | _ \<Rightarrow> None)"

definition string_member :: "(string \<times> json) list \<Rightarrow> string \<Rightarrow> string option" where
  "string_member kvs k = (case map_of (rev kvs) k of Some (JStr s) \<Rightarrow> Some s | _ \<Rightarrow> None)"

text \<open>The resource and the operation of a tool, or the answer that ends the hook. The text of a JSON error is left out.\<close>

definition tool_target :: "session_io \<Rightarrow> string \<Rightarrow> string \<Rightarrow> cli + string \<times> string" where
  "tool_target io toolName toolInput =
     (let none = Inl (succeeds [Line allowed]);
          found = (\<lambda>uri op. if uri = [] then none else Inr (uri, op))
      in if toolName \<in> set [''Read'', ''Write'', ''Edit''] then
           (case decode_map (parse_json toolInput) of
              None \<Rightarrow> Inl \<lparr>cl_Code = 0, cl_Stdout = [Line allowed],
                cl_Stderr = [Line ''Failed to parse tool input: '']\<rparr>
            | Some input \<Rightarrow>
                found (case string_member input ''path'' of
                    Some path \<Rightarrow> ''file://'' @ path
                  | None \<Rightarrow> (case string_member input ''file_path'' of Some path \<Rightarrow> ''file://'' @ path | None \<Rightarrow> []))
                  (if toolName = ''Read'' then ''read'' else ''write''))
         else if toolName = ''Bash'' then
           found (case decode_map (parse_json toolInput) of
               None \<Rightarrow> []
             | Some input \<Rightarrow> (case string_member input ''command'' of
                   Some cmd \<Rightarrow> ''exec://bash/'' @ take 6 (io_Sha256 io cmd) | None \<Rightarrow> []))
             ''write''
         else none)"

definition tool_request :: "cursor_state \<Rightarrow> string \<Rightarrow> string \<Rightarrow> string \<Rightarrow> claim_request" where
  "tool_request st toolName uri op =
     \<lparr>rq_ResourceURI = uri, rq_AgentID = cs_AgentID st, rq_Operation = op,
      rq_Intent = ''cursor-'' @ toolName @ '': '' @ uri, rq_ProjectedEnd = [], rq_TTLSeconds = 300,
      rq_ParentClaimID = []\<rparr>"

text \<open>What the hook answers to a response that carries a conflict.\<close>

definition conflict_answer :: "string \<Rightarrow> conflict_report \<Rightarrow> cli" where
  "conflict_answer onConflict report =
     (let c = hd (Conflicts report);
          msg = ''Conflict: '' @ cf_AgentID c @ '' is '' @ cf_Operation c @ '' '' @ cf_Resource c
            @ '' ('' @ cf_Intent c @ '')''
      in if onConflict = ''block'' then \<lparr>cl_Code = 2, cl_Stdout = [Line denied], cl_Stderr = []\<rparr>
         else if onConflict = ''allow'' then succeeds [Line allowed]
         else succeeds [Line (allowed_with (warning_sign @ '' '' @ msg))])"

text \<open>\<open>state.ActiveClaims[id] = claim\<close> and \<open>delete(state.ActiveClaims, id)\<close>.\<close>

definition add_claim :: "string \<Rightarrow> string \<Rightarrow> cursor_state \<Rightarrow> cursor_state" where
  "add_claim callId claimId st = st\<lparr>cs_ActiveClaims := AList.update callId claimId (cs_ActiveClaims st)\<rparr>"

definition drop_claim :: "string \<Rightarrow> cursor_state \<Rightarrow> cursor_state" where
  "drop_claim callId st = st\<lparr>cs_ActiveClaims := AList.delete callId (cs_ActiveClaims st)\<rparr>"

definition cmdCursorPreToolUse ::
  "session_io \<Rightarrow> 's host \<Rightarrow> envs \<Rightarrow> string list \<Rightarrow> files \<times> 's \<Rightarrow> cli \<times> files \<times> 's" where
  "cmdCursorPreToolUse io h es args world =
     (let (fs, s) = world;
          sessionID = argument args ''--session-id''; toolName = argument args ''--tool'';
          toolInput = argument args ''--input''; onConflict = argument args ''--on-conflict'';
          onConflict = (if onConflict = [] then ho_Getenv h ''HEARSAY_ON_CONFLICT'' else onConflict);
          onConflict = (if onConflict = [] then ''warn'' else onConflict)
      in if sessionID = [] \<or> toolName = [] then (fails 1 ''Missing --session-id or --tool'', fs, s)
         else case loadCursorState io fs sessionID of
           Inl err \<Rightarrow> (succeeds [Line unavailable], fs, s)
         | Inr st \<Rightarrow>
             (case loadClient h es s of
                (Inl err, s) \<Rightarrow> (succeeds [Line unavailable], fs, s)
              | (Inr (P, ns), s) \<Rightarrow>
                  (case tool_target io toolName toolInput of
                     Inl answer \<Rightarrow> (answer, fs, s)
                   | Inr (uri, op) \<Rightarrow>
                       (case client_Claim P ns (after 2 es) (tool_request st toolName uri op) s of
                          ((Some resp, None), s) \<Rightarrow>
                            if (case rs_Conflict resp of None \<Rightarrow> False | Some report \<Rightarrow> HasConflict report)
                            then (conflict_answer onConflict (the (rs_Conflict resp)), fs, s)
                            else (succeeds [Line allowed],
                              snd (saveCursorState io (add_claim (toolCallId io toolName toolInput) (rs_ClaimID resp) st) fs), s)
                        | (_, s) \<Rightarrow> (succeeds [Line unavailable], fs, s)))))"

text \<open>After the tool. Without a client nothing is released, but the claim is forgotten all the same.\<close>

definition cmdCursorPostToolUse ::
  "session_io \<Rightarrow> 's host \<Rightarrow> envs \<Rightarrow> string list \<Rightarrow> files \<times> 's \<Rightarrow> cli \<times> files \<times> 's" where
  "cmdCursorPostToolUse io h es args world =
     (let (fs, s) = world;
          sessionID = argument args ''--session-id''; toolName = argument args ''--tool'';
          toolInput = argument args ''--input''
      in if sessionID = [] then (fails 1 ''Missing --session-id'', fs, s)
         else case loadCursorState io fs sessionID of
           Inl err \<Rightarrow> (succeeds [], fs, s)
         | Inr st \<Rightarrow>
             (let (client, s) = loadClient h es s;
                  callId = toolCallId io toolName toolInput
              in case map_of (cs_ActiveClaims st) callId of
                   None \<Rightarrow> (succeeds [], fs, s)
                 | Some claimId \<Rightarrow>
                     (let s = (case client of Inl err \<Rightarrow> s
                         | Inr (P, ns) \<Rightarrow> snd (client_Release P ns (after 2 es) claimId OutcomeSucceeded s))
                      in (succeeds [Line allowed], snd (saveCursorState io (drop_claim callId st) fs), s))))"

fun release_claims :: "'s provider \<Rightarrow> string \<Rightarrow> envs \<Rightarrow> string list \<Rightarrow> 's \<Rightarrow> 's" where
  "release_claims P ns es [] s = s"
| "release_claims P ns es (claimId # claimIds) s =
     release_claims P ns (after 2 es) claimIds (snd (client_Release P ns es claimId OutcomeAbandoned s))"

text \<open>At the end of a session: a loop over the map, in any order.\<close>

definition cmdCursorSessionEnd ::
  "session_io \<Rightarrow> 's host \<Rightarrow> envs \<Rightarrow> string list \<Rightarrow> files \<times> 's \<Rightarrow> cli \<times> files \<times> 's" where
  "cmdCursorSessionEnd io h es args world =
     (let (fs, s) = world;
          sessionID = argument args ''--session-id''
      in if sessionID = [] then (fails 1 ''Missing --session-id'', fs, s)
         else case loadCursorState io fs sessionID of
           Inl err \<Rightarrow> (succeeds [], fs, s)
         | Inr st \<Rightarrow>
             (let (client, s) = loadClient h es s;
                  claimIds = map snd (sort_slice (Tie (es 0)) (\<lambda>_. 0) (cs_ActiveClaims st));
                  s = (case client of Inl err \<Rightarrow> s | Inr (P, ns) \<Rightarrow> release_claims P ns (after 2 es) claimIds s);
                  fs = (if io_WriteError io = None then fs(cursorStateFilePath io sessionID := Missing) else fs)
              in (succeeds [Line allowed], fs, s)))"

definition cmdCursor ::
  "session_io \<Rightarrow> 's host \<Rightarrow> envs \<Rightarrow> string list \<Rightarrow> files \<times> 's \<Rightarrow> cli \<times> files \<times> 's" where
  "cmdCursor io h es args world =
     (case args of
        [] \<Rightarrow> (\<lparr>cl_Code = 1, cl_Stdout = [], cl_Stderr = [Line ''Usage: hearsay cursor <subcommand>'',
            Line ''Subcommands: session-start, pre-tool-use, post-tool-use, session-end'']\<rparr>, world)
      | sub # subArgs \<Rightarrow>
          if sub = ''session-start'' then
            (case cmdCursorSessionStart io subArgs (fst world) of (r, fs) \<Rightarrow> (r, fs, snd world))
          else if sub = ''pre-tool-use'' then cmdCursorPreToolUse io h es subArgs world
          else if sub = ''post-tool-use'' then cmdCursorPostToolUse io h es subArgs world
          else if sub = ''session-end'' then cmdCursorSessionEnd io h es subArgs world
          else (fails 1 (''Unknown cursor subcommand: '' @ sub), world))"

section \<open>The session file\<close>

lemma fold_update_map:
  "map_of (fold (\<lambda>(k, v). AList.update k (f v)) kvs m) = map_of m ++ map_of (rev (map (\<lambda>(k, v). (k, f v)) kvs))"
  by (induction kvs arbitrary: m) (auto simp: update_conv' fun_eq_iff map_add_def split: option.split)

lemma fold_update_distinct:
  "distinct (map fst m) \<Longrightarrow> distinct (map fst (fold (\<lambda>(k, v). AList.update k (f v)) kvs m))"
  by (induction kvs arbitrary: m) (auto simp: distinct_update)

lemma map_of_rev_distinct: "distinct (map fst xs) \<Longrightarrow> map_of (rev xs) = map_of xs"
  by (subst map_of_inject_set) (simp_all add: rev_map [symmetric])

definition sample_io :: session_io where
  "sample_io = \<lparr>io_ConfigDir = Inr ''/home/u/.config'', io_TempDir = ''/tmp'', io_WriteError = None,
     io_Sha256 = \<lambda>s. s\<rparr>"

text \<open>The input of a tool that edits \<open>a.go\<close>.\<close>

definition sample_input :: string where
  \<open>sample_input = ''{"path":"a.go"}''\<close>

lemma parse_sample_input: "parse_json sample_input = Some (JObj [(''path'', JStr ''a.go'')])"
proof -
  let ?j = "JObj [(''path'', JStr ''a.go'')]"
  have "sample_input = json_text ?j" "clean ?j = ?j"
    by (simp_all add: sample_input_def quoted_def escape_char_def byte_def)
  then show ?thesis using parse_json_text [of ?j] by (simp add: maxNestingDepth_def)
qed

definition same_session :: "cursor_state \<Rightarrow> cursor_state \<Rightarrow> bool" where
  "same_session st st' \<longleftrightarrow> cs_SessionID st' = cs_SessionID st \<and> cs_Namespace st' = cs_Namespace st \<and>
     cs_AgentID st' = cs_AgentID st \<and> map_of (cs_ActiveClaims st') = map_of (cs_ActiveClaims st)"

text \<open>What a hook writes into the file of a session is what the next one reads:
  the same session, namespace and agent, and the same claims of its tool calls.\<close>

lemma load_saved:
  assumes "io_WriteError io = None" and "distinct (map fst (cs_ActiveClaims st))"
  shows "\<exists>st'. loadCursorState io (snd (saveCursorState io st fs)) (cs_SessionID st) = Inr st' \<and>
    same_session st st' \<and> distinct (map fst (cs_ActiveClaims st'))"
proof -
  let ?kvs = "sort_key fst (map (\<lambda>(k, v). (k, JStr v)) (cs_ActiveClaims st))"
  let ?text = "\<lambda>v. case v of JStr s \<Rightarrow> s | _ \<Rightarrow> []"
  let ?m = "fold (\<lambda>(k, v). AList.update k (?text v)) ?kvs []"
  have strings: "list_all (\<lambda>(k, v). case v of JStr s \<Rightarrow> True | JNull \<Rightarrow> True | _ \<Rightarrow> False) ?kvs"
    by (auto simp: list_all_iff)
  have keys: "map fst (map (\<lambda>(k, v). (k, JStr v)) (cs_ActiveClaims st)) = map fst (cs_ActiveClaims st)" by auto
  have "mset ?kvs = mset (map (\<lambda>(k, v). (k, JStr v)) (cs_ActiveClaims st))" by (rule mset_sort)
  then have "mset (map fst ?kvs) = mset (map fst (cs_ActiveClaims st))" unfolding keys [symmetric] mset_map by (rule arg_cong)
  then have d: "distinct (map fst ?kvs)" using assms(2) by (metis mset_eq_imp_distinct_iff)
  have back_text: "map (\<lambda>(k, v). (k, ?text v)) (map (\<lambda>(k, v). (k, JStr v)) xs) = xs" for xs :: "(string \<times> string) list"
    by (induction xs) auto
  have "map_of (map (\<lambda>(k, v). (k, ?text v)) ?kvs) = map_of (cs_ActiveClaims st)"
  proof (subst map_of_inject_set)
    show "distinct (map fst (map (\<lambda>(k, v). (k, ?text v)) ?kvs))" using d by (simp add: o_def split_beta)
    have "set (map (\<lambda>(k, v). (k, ?text v)) ?kvs) =
        set (map (\<lambda>(k, v). (k, ?text v)) (map (\<lambda>(k, v). (k, JStr v)) (cs_ActiveClaims st)))"
      by (simp only: set_map set_sort)
    then show "set (map (\<lambda>(k, v). (k, ?text v)) ?kvs) = set (cs_ActiveClaims st)" unfolding back_text .
  qed (rule assms(2))
  moreover have "distinct (map fst (map (\<lambda>(k, v). (k, ?text v)) ?kvs))" using d by (simp add: o_def split_beta)
  ultimately have m: "map_of ?m = map_of (cs_ActiveClaims st)"
    unfolding fold_update_map by (simp add: map_of_rev_distinct)
  have dm: "distinct (map fst ?m)" by (rule fold_update_distinct) simp
  have "decode cursor_fields (new_session []) (Some (cursor_json st)) =
      Some (st\<lparr>cs_ActiveClaims := ?m\<rparr>)"
    using strings
    by (simp add: cursor_json_def decode_obj decode_members_exact cursor_fields_def string_field_JStr
        string_map_field_def new_session_def)
  then show ?thesis
    using m dm by (simp add: saveCursorState_def assms(1) loadCursorState_def same_session_def)
qed

section \<open>Conflicts\<close>

lemma client_Claim_response: "client_Claim P ns es req s = ((Some resp, None), s') \<Longrightarrow> rs_Conflict resp = None"
  by (auto simp: client_Claim_def Let_def split: sum.splits if_splits prod.splits option.splits)

lemma client_Claim_conflict:
  assumes "p_ActiveClaims P (es 0) ns (rq_ResourceURI req) s = Inr active"
    and "report = CheckConflict (request_claim (default_ttl req) (Now (es 1) 0) (Now (es 1) 1)) active" "HasConflict report"
  shows "\<exists>resp. client_Claim P ns es req s = ((resp, Some (ConflictError report)), s)"
  using assms by (auto simp: client_Claim_def Let_def)

lemma default_ttl_tool [simp]: "default_ttl (tool_request st toolName uri op) = tool_request st toolName uri op"
  by (simp add: default_ttl_def tool_request_def)

lemma tool_target_answer:
  "tool_target io toolName toolInput = Inl r \<Longrightarrow> cl_Code r = 0 \<and> cl_Stdout r = [Line allowed]"
  by (auto simp: tool_target_def Let_def succeeds_def split: if_splits option.splits)

text \<open>C25: Over any back end, and whatever \<open>--on-conflict\<close> says, the hook before a tool
  never denies: it exits with 0 and allows the tool, unless an argument is missing. When the file is
  claimed by another agent it reports that the coordination is unavailable, stores nothing, and the
  tool runs; the branches for a conflict are never reached, because \<open>Claim\<close> returns conflicts as errors.\<close>

theorem cursor_never_denies:
  assumes "cmdCursorPreToolUse io h es args (fs, s) = (r, fs', s')"
    and "argument args ''--session-id'' \<noteq> []" and "argument args ''--tool'' \<noteq> []"
  shows "cl_Code r = 0 \<and> (cl_Stdout r = [Line allowed] \<or> cl_Stdout r = [Line unavailable]) \<and>
    (\<forall>st P ns s1 uri op active. loadCursorState io fs (argument args ''--session-id'') = Inr st \<longrightarrow>
      loadClient h es s = (Inr (P, ns), s1) \<longrightarrow>
      tool_target io (argument args ''--tool'') (argument args ''--input'') = Inr (uri, op) \<longrightarrow>
      p_ActiveClaims P (es 2) ns uri s1 = Inr active \<longrightarrow>
      HasConflict (CheckConflict (request_claim (tool_request st (argument args ''--tool'') uri op)
        (Now (es 3) 0) (Now (es 3) 1)) active) \<longrightarrow>
      r = succeeds [Line unavailable] \<and> fs' = fs \<and> s' = s1)"
proof (intro conjI allI impI)
  note run = assms(1) [unfolded cmdCursorPreToolUse_def Let_def prod.case]
  have "cl_Code r = 0 \<and> (cl_Stdout r = [Line allowed] \<or> cl_Stdout r = [Line unavailable])"
    using run assms(2,3)
    by (auto simp: succeeds_def client_Claim_response dest!: tool_target_answer
        split: sum.splits prod.splits option.splits if_splits)
  then show "cl_Code r = 0" "cl_Stdout r = [Line allowed] \<or> cl_Stdout r = [Line unavailable]" by simp_all
next
  fix st P ns s1 uri op active
  let ?req = "tool_request st (argument args ''--tool'') uri op"
  assume "loadCursorState io fs (argument args ''--session-id'') = Inr st" "loadClient h es s = (Inr (P, ns), s1)"
    and "tool_target io (argument args ''--tool'') (argument args ''--input'') = Inr (uri, op)"
    and active: "p_ActiveClaims P (es 2) ns uri s1 = Inr active"
    and conflict: "HasConflict (CheckConflict (request_claim ?req (Now (es 3) 0) (Now (es 3) 1)) active)"
  moreover have "after 2 es 1 = es 3" by (simp add: after_def del: One_nat_def)
  then have "HasConflict (CheckConflict (request_claim (default_ttl ?req)
      (Now (after 2 es 1) 0) (Now (after 2 es 1) 1)) active)" using conflict by (simp del: One_nat_def)
  from client_Claim_conflict [where es = "after 2 es" and P = P and ns = ns and s = s1, OF _ refl this] active
  obtain resp report where "client_Claim P ns (after 2 es) ?req s1 = ((resp, Some (ConflictError report)), s1)"
    by (metis (no_types, lifting) add_0_right after_def claim_request.select_convs(1) tool_request_def)
  ultimately have "(r, fs', s') = (succeeds [Line unavailable], fs, s1)"
    using assms by (cases resp) (simp_all add: cmdCursorPreToolUse_def Let_def)
  then show "r = succeeds [Line unavailable]" "fs' = fs" "s' = s1" by simp_all
qed

definition sqlite_host :: "sqlite host" where
  "sqlite_host = \<lparr>ho_Config = Inr (NewConfig ''n'' ''sqlite'' [] []), ho_Connect = \<lambda>_. Inr sqlite_provider,
     ho_Getenv = \<lambda>_. []\<rparr>"

lemma loadClient_sqlite:
  "loadClient sqlite_host es s = (Inr (sqlite_provider, ''n''),
     snd (sq_CreateNamespace (es 1) \<lparr>ns_ID = ''n'', ns_CreatedAt = Now (es 0) 0\<rparr> s))"
  by (simp add: loadClient_def loadProvider_def sqlite_host_def NewConfig_def Let_def chosen_backend_def
      loadClientFromProvider_def split: prod.split)

lemma sq_CreateNamespace_messages: "sq_messages (snd (sq_CreateNamespace e ns s)) = sq_messages s"
  unfolding sq_CreateNamespace_def by (rule committed_field) (auto simp: bindE_def split: sum.splits)

lemma sq_CreateNamespace_log:
  "sq_log (snd (sq_CreateNamespace e n s)) ns = sq_log s ns" "sq_ok (snd (sq_CreateNamespace e n s)) = sq_ok s"
  by (simp_all add: sq_log_def rows_of_def sq_ok_def sq_CreateNamespace_messages)

text \<open>A file that another agent has claimed, and \<open>--on-conflict block\<close>.\<close>

theorem cursor_never_denies_witness:
  "fst (cmdCursorPreToolUse sample_io sqlite_host (\<lambda>_. calm sample_time)
     [''--session-id'', ''s'', ''--tool'', ''Edit'', ''--input'', sample_input, ''--on-conflict'', ''block'']
     (\<lambda>_. Missing, one_claim_db)) = succeeds [Line unavailable]"
proof -
  let ?args = "[''--session-id'', ''s'', ''--tool'', ''Edit'', ''--input'', sample_input, ''--on-conflict'', ''block'']"
  let ?es = "\<lambda>_. calm sample_time"
  let ?run = "cmdCursorPreToolUse sample_io sqlite_host ?es ?args (\<lambda>_. Missing, one_claim_db)"
  let ?s1 = "snd (sq_CreateNamespace (?es (1::nat)) \<lparr>ns_ID = ''n'', ns_CreatedAt = Now (?es (0::nat)) 0\<rparr> one_claim_db)"
  let ?req = "tool_request (new_session ''s'') ''Edit'' ''file://a.go'' ''write''"
  have args: "argument ?args ''--session-id'' = ''s''" "argument ?args ''--tool'' = ''Edit''"
      "argument ?args ''--input'' = sample_input"
    by (simp_all add: argument_def sample_input_def)
  have load: "loadCursorState sample_io (\<lambda>_. Missing) ''s'' = Inr (new_session ''s'')"
    by (simp add: loadCursorState_def)
  have target: "tool_target sample_io ''Edit'' sample_input = Inr (''file://a.go'', ''write'')"
    by (simp add: tool_target_def parse_sample_input decode_map_def string_member_def Let_def)
  have "FilterActiveClaims sample_time (filter sq_seen (sq_log one_claim_db ''n'')) = [sample_claim ''c'' 60]"
    by (simp add: sq_log_def one_claim_db_eq rows_of_def row_message_def sq_seen_def FilterActiveClaims_eq
        live_def deadline_def released_in_def is_release_def seconds_exact nanos_per_second_def)
  moreover have "ResourceMatchesPattern ''file://a.go'' ''file://a.go''"
    by (simp add: ResourceMatchesPattern_def resourceMatches_refl)
  ultimately have active: "p_ActiveClaims sqlite_provider (?es 2) ''n'' ''file://a.go'' ?s1 = Inr [sample_claim ''c'' 60]"
    by (subst sqlite_provider_simps, subst sq_ActiveClaims_eq)
      (simp_all add: sq_CreateNamespace_log one_claim_db_ok matching_claims_def)
  have "blocks (sample_claim ''c'' 60) (request_claim ?req sample_time sample_time)"
    by (simp add: blocks_def isConflicting_def tool_request_def new_session_def)
  then have conflict: "HasConflict (CheckConflict (request_claim ?req (Now (?es 3) 0) (Now (?es 3) 1)) [sample_claim ''c'' 60])"
    by (simp add: CheckConflict_eq)
  obtain r fs' s' where run: "?run = (r, fs', s')" by (metis prod.collapse)
  have "r = succeeds [Line unavailable]"
    using cursor_never_denies [OF run] load loadClient_sqlite target active conflict unfolding args by blast
  with run show ?thesis by simp
qed

section \<open>A tool call from beginning to end\<close>

lemma add_claim_simps [simp]:
  "cs_SessionID (add_claim k c st) = cs_SessionID st" "cs_SessionID (drop_claim k st) = cs_SessionID st"
  "map_of (cs_ActiveClaims (add_claim k c st)) = (map_of (cs_ActiveClaims st))(k \<mapsto> c)"
  "map_of (cs_ActiveClaims (drop_claim k st)) = (map_of (cs_ActiveClaims st))(k := None)"
  "distinct (map fst (cs_ActiveClaims st)) \<Longrightarrow> distinct (map fst (cs_ActiveClaims (add_claim k c st)))"
  "distinct (map fst (cs_ActiveClaims st)) \<Longrightarrow> distinct (map fst (cs_ActiveClaims (drop_claim k st)))"
  by (simp_all add: add_claim_def drop_claim_def update_conv' delete_conv' distinct_update distinct_delete)

lemma pre_hook_claims:
  assumes "sq_ok s" "loadCursorState io fs (argument args ''--session-id'') = Inr st"
    and "cmdCursorPreToolUse io sqlite_host es args (fs, s) = (r, fs1, s1)" "sq_log s1 ''n'' \<noteq> sq_log s ''n''"
  obtains req resp s0 where "sq_ok s0" "sq_log s0 ''n'' = sq_log s ''n''"
    "client_Claim sqlite_provider ''n'' (after 2 es) req s0 = ((Some resp, None), s1)"
    "fs1 = snd (saveCursorState io (add_claim (toolCallId io (argument args ''--tool'') (argument args ''--input''))
      (rs_ClaimID resp) st) fs)"
proof -
  let ?s0 = "snd (sq_CreateNamespace (es 1) \<lparr>ns_ID = ''n'', ns_CreatedAt = Now (es 0) 0\<rparr> s)"
  have ok: "sq_ok ?s0" and log: "sq_log ?s0 ''n'' = sq_log s ''n''" using assms(1) by (simp_all add: sq_CreateNamespace_log)
  note run = assms(3) [unfolded cmdCursorPreToolUse_def Let_def prod.case assms(2) sum.case loadClient_sqlite]
  from run assms(4) log obtain uri op where
    target: "tool_target io (argument args ''--tool'') (argument args ''--input'') = Inr (uri, op)"
    by (auto split: sum.splits prod.splits if_splits)
  have given: "\<not> (argument args ''--session-id'' = [] \<or> argument args ''--tool'' = [])"
    using run assms(4) by (auto split: if_splits)
  let ?req = "tool_request st (argument args ''--tool'') uri op"
  obtain resp err s' where claim: "client_Claim sqlite_provider ''n'' (after 2 es) ?req ?s0 = ((resp, err), s')"
    by (metis prod.collapse)
  have "resp \<noteq> None \<and> err = None"
  proof (rule ccontr)
    assume other: "\<not> (resp \<noteq> None \<and> err = None)"
    then have "s1 = s'"
      using run target claim given by (auto split: if_splits option.splits)
    moreover obtain e where "err = Some e"
      using other claim by (cases err) (auto simp: client_Claim_def Let_def split: sum.splits if_splits prod.splits option.splits)
    ultimately show False using sq.claim_refused [OF ok] claim assms(4) log by fastforce
  qed
  then obtain x where claim: "client_Claim sqlite_provider ''n'' (after 2 es) ?req ?s0 = ((Some x, None), s')"
    using claim by auto
  moreover have "s1 = s' \<and> fs1 = snd (saveCursorState io (add_claim (toolCallId io (argument args ''--tool'')
      (argument args ''--input'')) (rs_ClaimID x) st) fs)"
    using run target claim client_Claim_response [OF claim] assms(4) log by (auto split: if_splits)
  ultimately show thesis using that [OF ok log] by simp
qed

text \<open>The hook after the tool, when the session file has the claim.\<close>

lemma post_hook_claims:
  assumes "sq_ok s" "io_WriteError io = None" "loadCursorState io fs (argument args ''--session-id'') = Inr st"
    and "cs_SessionID st = argument args ''--session-id''" "argument args ''--session-id'' \<noteq> []"
    and "distinct (map fst (cs_ActiveClaims st))"
    and call: "call = toolCallId io (argument args ''--tool'') (argument args ''--input'')"
    and "map_of (cs_ActiveClaims st) call = Some cid"
    and "release_offsets (sq_log s ''n'') cid = []" "cid \<noteq> []"
    and "cmdCursorPostToolUse io sqlite_host es args (fs, s) = (r, fs', s')"
  shows "r = succeeds [Line allowed]"
    and "\<exists>st'. loadCursorState io fs' (argument args ''--session-id'') = Inr st' \<and> same_session (drop_claim call st) st'"
    and "sq_log s' ''n'' \<noteq> sq_log s ''n'' \<Longrightarrow> FilterActiveClaims now (filter sq_seen (sq_log s' ''n'')) =
      filter (\<lambda>c. c_ClaimID c \<noteq> cid) (FilterActiveClaims now (filter sq_seen (sq_log s ''n'')))"
proof -
  let ?s0 = "snd (sq_CreateNamespace (es 1) \<lparr>ns_ID = ''n'', ns_CreatedAt = Now (es 0) 0\<rparr> s)"
  have ok: "sq_ok ?s0" and log: "sq_log ?s0 ''n'' = sq_log s ''n''" using assms(1) by (simp_all add: sq_CreateNamespace_log)
  obtain err t where release: "client_Release sqlite_provider ''n'' (after 2 es) cid OutcomeSucceeded ?s0 = (err, t)"
    by fastforce
  have post: "r = succeeds [Line allowed]" "fs' = snd (saveCursorState io (drop_claim call st) fs)" "s' = t"
    using assms(11,5,8) unfolding call
    by (simp_all add: cmdCursorPostToolUse_def Let_def assms(3) loadClient_sqlite release del: One_nat_def)
  show "r = succeeds [Line allowed]" by (fact post(1))
  show "\<exists>st'. loadCursorState io fs' (argument args ''--session-id'') = Inr st' \<and> same_session (drop_claim call st) st'"
    using load_saved [OF assms(2), of "drop_claim call st" fs] assms(4,6) by (auto simp: post(2))
  assume changed: "sq_log s' ''n'' \<noteq> sq_log s ''n''"
  have "err = None"
  proof (rule ccontr)
    assume "err \<noteq> None"
    then have "t = ?s0" using release sq_Append_error by (auto simp: client_Release_def)
    with changed log show False by (simp add: post(3))
  qed
  moreover have "release_offsets (filter sq_seen (sq_log ?s0 ''n'')) cid = []"
    unfolding log using assms(9) by (auto simp: release_offsets_def filter_empty_conv)
  then have "no_early_release (filter sq_seen (sq_log ?s0 ''n'')) cid" by (simp add: no_early_release_def)
  ultimately show "FilterActiveClaims now (filter sq_seen (sq_log s' ''n'')) =
      filter (\<lambda>c. c_ClaimID c \<noteq> cid) (FilterActiveClaims now (filter sq_seen (sq_log s ''n'')))"
    using sq.client_release_effect [OF ok, of "''n''" "after 2 es" cid OutcomeSucceeded t now] release assms(10)
    by (simp add: sq.active_at_def sq_CreateNamespace_log post(3))
qed



end
