(* ===== verification/Composition.thy ===== *)
theory Composition
  imports ServerFacts A2AFacts Watcher Cursor
begin

text \<open>
  What every entry of the program does to the store it shares with the others: the REST server, the
  A2A server, the commands, the hooks, the watcher, the audit logger and the background loops of
  \<open>hearsay serve\<close>. The locale \<open>shared_store\<close> states what a property of the store needs so that no entry breaks
  it. Each entry makes at most one claim, so the property may be one of the time before that claim
  (\<open>K False\<close>) and after it (\<open>K True\<close>).
\<close>

section \<open>Processes of one deployment\<close>

text \<open>A process that is configured for the same store and namespace.\<close>

definition at_home :: "'s provider \<Rightarrow> string \<Rightarrow> 's host \<Rightarrow> bool" where
  "at_home P home h \<longleftrightarrow> (\<forall>cfg. ho_Config h = Inr cfg \<longrightarrow> cfg_Namespace cfg = home) \<and>
     (\<forall>backend P'. ho_Connect h backend = Inr P' \<longrightarrow> P' = P)"

section \<open>The operations\<close>

locale shared_store =
  fixes P :: "'s provider"
    and home :: string
    and fair :: "envs \<Rightarrow> bool"
    and K :: "bool \<Rightarrow> 's \<Rightarrow> bool"
  assumes fair_after: "fair es \<Longrightarrow> fair (after k es)"
    and claimed: "K False s \<Longrightarrow> K True s"
    and create_namespace: "K b s \<Longrightarrow> K b (snd (p_CreateNamespace P e n s))"
    and delete_namespace: "K b s \<Longrightarrow> K b (snd (p_DeleteNamespace P e ns s))"
    and sweep: "K b s \<Longrightarrow> K b (snd (p_ReleaseExpired P e ns before s))"
    and send_mail: "K b s \<Longrightarrow> K b (snd (p_SendMessage P e ns mail s))"
    and mark_mail: "K b s \<Longrightarrow> K b (snd (p_MarkRead P e ns mid s))"
    and archive_mail: "K b s \<Longrightarrow> K b (snd (p_ArchiveMessage P e ns mid s))"
    and append_audit: "K b s \<Longrightarrow> K b (snd (p_AppendAudit P e ns evs s))"
    and append_other: "m_Type m \<noteq> MsgClaim \<Longrightarrow> K b s \<Longrightarrow> K b (snd (p_Append P e ns [m] s))"
    and claim: "fair es \<Longrightarrow> K False s \<Longrightarrow> K True (snd (client_Claim P home es req s))"
begin

lemma K_mono: "K b s \<Longrightarrow> b \<longrightarrow> b' \<Longrightarrow> K b' s"
  using claimed by (cases b; cases b') auto

lemma client_messages:
  "K b s \<Longrightarrow> K b (snd (client_Release P ns es cid out s))"
  "K b s \<Longrightarrow> K b (snd (client_Heartbeat P ns es cid s))"
  "K b s \<Longrightarrow> K b (snd (client_Transfer P ns es cid to s))"
  "K b s \<Longrightarrow> K b (snd (client_UpdateIntent P ns es cid intent s))"
  by (simp_all add: client_Release_def client_Heartbeat_def client_Transfer_def client_UpdateIntent_def append_other)

lemma mailbox_operations:
  "K b s \<Longrightarrow> K b (snd (mailbox_Send P es ns from to ty content rel ttl s))"
  "K b s \<Longrightarrow> K b (snd (mailbox_MarkRead P e ns mid s))"
  "K b s \<Longrightarrow> K b (snd (mailbox_Archive P e ns mid s))"
  unfolding mailbox_Send_def mailbox_MarkRead_def mailbox_Archive_def Let_def
  by (auto simp: mark_mail archive_mail split: prod.split option.split) (metis send_mail snd_conv)+

section \<open>The REST server\<close>

lemma answer_kept: "K b (snd x) \<Longrightarrow> K b (sv_store (snd (answer code w x sv)))"
  by (cases x) (simp add: answer_def split: option.split)

definition kept_handler :: "'s handler \<Rightarrow> bool" where
  "kept_handler h \<longleftrightarrow> (\<forall>es r sv. sv_namespace sv = home \<longrightarrow> fair es \<longrightarrow> K False (sv_store sv) \<longrightarrow>
     K True (sv_store (snd (h P es r sv))))"

lemma kept_handlerI:
  assumes "\<And>es r sv. sv_namespace sv = home \<Longrightarrow> fair es \<Longrightarrow> K False (sv_store sv) \<Longrightarrow>
    K True (sv_store (snd (h P es r sv)))"
  shows "kept_handler h"
  using assms by (simp add: kept_handler_def)

lemma kept_handleClaim: "kept_handler handleClaim"
proof (rule kept_handlerI)
  fix es r and sv :: "'s server"
  assume a: "sv_namespace sv = home" "fair es" "K False (sv_store sv)"
  have "K True s'" if "client_Claim P home es req (sv_store sv) = (x, s')" for req x s'
    using claim [OF a(2,3), of req] that by simp
  moreover have "K True (sv_store sv)" using claimed [OF a(3)] .
  ultimately show "K True (sv_store (snd (handleClaim P es r sv)))"
    by (auto simp: handleClaim_def a(1) split: option.split prod.split)
qed

lemma kept_messages:
  "kept_handler handleRelease" "kept_handler handleHeartbeat" "kept_handler handleIntent"
proof -
  show "kept_handler handleRelease"
  proof (rule kept_handlerI)
    fix es r and sv :: "'s server"
    assume a: "sv_namespace sv = home" "fair es" "K False (sv_store sv)"
    have "K True s'" if "client_Release P home es cid out (sv_store sv) = (x, s')" for cid out x s'
      using client_messages(1) [OF claimed [OF a(3)], of home es cid out] that by simp
    with claimed [OF a(3)] show "K True (sv_store (snd (handleRelease P es r sv)))"
      by (auto simp: handleRelease_def a(1) split: option.split prod.split)
  qed
qed (auto simp: kept_handler_def handleHeartbeat_def handleIntent_def answer_kept claimed client_messages split: option.split)

lemma kept_provider_handlers:
  "kept_handler handleCreateNamespace" "kept_handler handleDeleteNamespace" "kept_handler handleReleaseExpired"
  by (auto simp: kept_handler_def handleCreateNamespace_def handleDeleteNamespace_def handleReleaseExpired_def
      answer_kept claimed create_namespace delete_namespace sweep split: option.split)

lemma kept_mailbox_handlers:
  "kept_handler handleSendMessage" "kept_handler handleMarkRead" "kept_handler handleArchiveMessage"
proof -
  show "kept_handler handleSendMessage"
  proof (rule kept_handlerI)
    fix es r and sv :: "'s server"
    assume a: "K False (sv_store sv)"
    have "K True s'" if "mailbox_Send P es ns from to ty content rel ttl (sv_store sv) = (x, s')"
      for ns "from" to ty content rel ttl x s'
      using mailbox_operations(1) [OF claimed [OF a], of es ns "from" to ty content rel ttl] that by simp
    with claimed [OF a] show "K True (sv_store (snd (handleSendMessage P es r sv)))"
      by (auto simp: handleSendMessage_def split: option.split prod.split sum.split)
  qed
qed (auto simp: kept_handler_def handleMarkRead_def handleArchiveMessage_def answer_kept claimed mailbox_operations
    split: option.split)

lemmas kept_handlers = kept_handleClaim kept_messages kept_provider_handlers kept_mailbox_handlers

lemma kept_auth: "kept_handler h \<Longrightarrow> kept_handler (auth_Wrap h)"
  by (simp add: kept_handler_def auth_Wrap_def claimed)

lemma kept_rate: "kept_handler h \<Longrightarrow> kept_handler (rate_Wrap h)"
  by (auto simp: kept_handler_def rate_Wrap_def Let_def claimed fair_after split_beta)

lemma kept_ServeHTTP:
  assumes "hr_Path r = ''/append'' \<Longrightarrow> kept_handler handleAppend"
    and "sv_namespace sv = home" "fair es" "K False (sv_store sv)"
  shows "K True (sv_store (snd (ServeHTTP subscribe P es r sv)))"
proof -
  have post: "kept_handler h" if "map_of post_routes (hr_Path r) = Some h" for h
    using that kept_handlers assms(1) by (auto simp: post_routes_def split: if_splits)
  have get: "snd (h P es r sv) = sv" if "map_of (get_routes subscribe) (hr_Path r) = Some h" for h
    using get_route_pure [OF that] .
  from post assms(2-4) kept_rate [OF kept_auth]
  have "map_of post_routes (hr_Path r) = Some h \<Longrightarrow> K True (sv_store (snd (rate_Wrap (auth_Wrap h) P es r sv)))" for h
    by (simp add: kept_handler_def)
  with get claimed [OF assms(4)] show ?thesis by (auto simp: ServeHTTP_def Let_def)
qed

section \<open>Background loops, audit log and watcher\<close>

lemma kept_sweeper: "K b s \<Longrightarrow> K b (sweeper_tick P es ns s)"
  by (simp add: sweeper_tick_def Let_def sweep)

lemma kept_release_all: "K b s \<Longrightarrow> K b (release_all P es ns a cs s)"
  by (induction cs arbitrary: es s) (simp_all add: append_other)

lemma kept_check_agents: "K b s \<Longrightarrow> K b (check_agents P es ns timeout now claims agents s)"
  by (induction agents arbitrary: es s) (auto simp: Let_def kept_release_all split: sum.split)

lemma kept_detector: "K b s \<Longrightarrow> K b (detector_tick P es ns timeout s)"
  by (simp add: detector_tick_def Let_def kept_check_agents split: sum.split)

lemma kept_worker: "K b s \<Longrightarrow> K b (snd (snd (worker_step P e i (lg, batch, s))))"
  by (cases i) (simp_all add: flush_def append_audit Let_def split: list.split)

lemma kept_watcher: "fair es \<Longrightarrow> K False s \<Longrightarrow> K True (handle_event P home cfg es ev s)"
  by (auto simp: handle_event_def handleChange_def Let_def claimed intro!: claim fair_after split: option.split)

section \<open>The commands and the hooks\<close>

lemma kept_loadClient:
  assumes "at_home P home h" "K b s" "loadClient h es s = (r, s')"
  shows "K b s' \<and> (\<forall>P' ns. r = Inr (P', ns) \<longrightarrow> P' = P \<and> ns = home)"
proof -
  have "K b s'" if "p_CreateNamespace P (es 1) nsp s = (x, s')" for nsp x
    using create_namespace [OF assms(2), of "es 1" nsp] that by simp
  with assms show ?thesis
    unfolding loadClient_def loadProvider_def loadClientFromProvider_def at_home_def
    by (auto split: sum.splits option.splits prod.splits)
qed

lemma kept_with_client:
  assumes "at_home P home h" "K False s"
    and "\<And>fs s'. K False s' \<Longrightarrow> K True (snd (run fs P home s'))"
  shows "K True (snd (with_client h es flags args required run s))"
proof -
  obtain r s' where l: "loadClient h es s = (r, s')" by fastforce
  with kept_loadClient [OF assms(1,2)] have "K False s'" "\<And>P' ns. r = Inr (P', ns) \<Longrightarrow> P' = P \<and> ns = home" by blast+
  with assms(3) claimed show ?thesis
    using claimed [OF assms(2)] by (auto simp: with_client_def l split: sum.split option.split if_split)
qed

lemma kept_commands:
  assumes "at_home P home h" "K False s"
  shows "fair es \<Longrightarrow> K True (snd (cmdClaim h es args s))"
    and "K True (snd (cmdRelease h es args s))" "K True (snd (cmdHeartbeat h es args s))"
    and "K True (snd (cmdQuery h es args s))" "K True (snd (cmdCheck h es args s))"
proof -
  have c: "K True s''" if "fair es" "K False s'" "client_Claim P home (after 2 es) req s' = (x, s'')" for req s' x s''
    using claim [OF fair_after [OF that(1)] that(2), of 2 req] that(3) by simp
  show "fair es \<Longrightarrow> K True (snd (cmdClaim h es args s))"
    unfolding cmdClaim_def
    by (rule kept_with_client [OF assms]) (auto simp: c split: prod.split option.split error.split)
  have r: "K True s''" if "K False s'" "client_Release P home (after 2 es) cid out s' = (x, s'')" for cid out s' x s''
    using client_messages(1) [OF claimed [OF that(1)], of home "after 2 es" cid out] that(2) by simp
  show "K True (snd (cmdRelease h es args s))"
    unfolding cmdRelease_def by (rule kept_with_client [OF assms]) (auto simp: r split: prod.split option.split)
  have b: "K True s''" if "K False s'" "client_Heartbeat P home (after 2 es) cid s' = (x, s'')" for cid s' x s''
    using client_messages(2) [OF claimed [OF that(1)], of home "after 2 es" cid] that(2) by simp
  show "K True (snd (cmdHeartbeat h es args s))"
    unfolding cmdHeartbeat_def by (rule kept_with_client [OF assms]) (auto simp: b split: prod.split option.split)
  show "K True (snd (cmdQuery h es args s))"
    unfolding cmdQuery_def by (rule kept_with_client [OF assms]) (auto simp: claimed split: sum.split)
  show "K True (snd (cmdCheck h es args s))"
    unfolding cmdCheck_def by (rule kept_with_client [OF assms]) (auto simp: claimed split: sum.split)
qed

lemma kept_release_claims: "K b s \<Longrightarrow> K b (release_claims P ns es ids s)"
  by (induction ids arbitrary: es s) (simp_all add: client_messages)

lemma kept_hooks:
  assumes "at_home P home h" "fair es" "K False (snd world)"
  shows "K True (snd (snd (cmdCursor io h es args world)))"
proof -
  obtain fs s where w: "world = (fs, s)" by fastforce
  obtain r s' where l: "loadClient h es s = (r, s')" by fastforce
  have k: "K False s" using assms(3) by (simp add: w)
  with kept_loadClient [OF assms(1) k l] have s': "K False s'" "\<And>P' ns. r = Inr (P', ns) \<Longrightarrow> P' = P \<and> ns = home"
    by blast+
  have c: "K True s''" if "client_Claim P home (after 2 es) req s' = (x, s'')" for req x s''
    using claim [OF fair_after [OF assms(2)] s'(1), of 2 req] that by simp
  have t: "K True s" "K True s'" using claimed k s'(1) by blast+
  have pre: "K True (snd (snd (cmdCursorPreToolUse io h es rest world)))" for rest
    using t s'(2) unfolding cmdCursorPreToolUse_def w Let_def prod.case l
    by (auto split: sum.split prod.split option.split dest: c)
  have post: "K True (snd (snd (cmdCursorPostToolUse io h es rest world)))" for rest
    using t s'(2) unfolding cmdCursorPostToolUse_def w Let_def prod.case l
    by (auto simp: client_messages split: sum.split prod.split option.split)
  have fin: "K True (snd (snd (cmdCursorSessionEnd io h es rest world)))" for rest
    using t s'(2) unfolding cmdCursorSessionEnd_def w Let_def prod.case l
    by (auto simp: kept_release_claims split: sum.split prod.split)
  show ?thesis
    using pre post fin t(1) unfolding cmdCursor_def by (auto simp: w split: list.split prod.split)
qed

end

section \<open>The A2A server\<close>

locale shared_tasks = shared_store +
  assumes create_task: "K b s \<Longrightarrow> K b (snd (p_CreateTask P e ns t s))"
    and update_task: "K b s \<Longrightarrow> K b (snd (p_UpdateTask P e ns t s))"
    and append_history: "K b s \<Longrightarrow> K b (snd (p_AppendTaskHistory P e ns tid n hm s))"
    and create_artifact: "K b s \<Longrightarrow> K b (snd (p_CreateArtifact P e ns tid art s))"
begin

lemma kept_store_artifacts: "K b s \<Longrightarrow> K b (snd (store_artifacts P ns es tid as s))"
proof (induction as arbitrary: es s)
  case (Cons a as)
  obtain r s' where c: "p_CreateArtifact P (es 0) ns tid (stored_artifact a) s = (r, s')" by fastforce
  then have "K b s'" using create_artifact [OF Cons.prems, of "es 0" ns tid "stored_artifact a"] by simp
  with c Cons.IH show ?case by (simp split: option.split)
qed simp

lemma kept_create_all: "K b s \<Longrightarrow> K b (create_all P ns es tid as s)"
  by (induction as arbitrary: es s) (simp_all add: create_artifact)

lemma kept_store_task: "K b s \<Longrightarrow> K b (store_task P ns es ev s)"
  by (simp add: store_task_def update_task split: option.split)

lemma kept_event_loop: "K b s \<Longrightarrow> K b (snd (event_loop P ns es i tid evs s))"
  by (induction evs arbitrary: es s) (simp_all add: kept_create_all kept_store_task split_beta)

lemma kept_skill:
  assumes "x_client x = home" "fair es" "K False s"
  shows "K True (snd (executeSkill P x es agent msg t s))"
proof -
  have c: "K True s'" if "client_Claim P home es req s = (y, s')" for req y s'
    using claim [OF assms(2,3), of req] that by simp
  have r: "K True s'" if "client_Release P home es cid out s = (y, s')" for cid out y s'
    using client_messages(1) [OF claimed [OF assms(3)], of home es cid out] that by simp
  have m: "K True s'" if "p_SendMessage P (es 0) ns mail s = (y, s')" for ns mail y s'
    using send_mail [OF claimed [OF assms(3)], of "es 0" ns mail] that by simp
  have k: "K True s" using claimed [OF assms(3)] .
  have "K True (snd (skillClaimResource P x es p t s))" for p
    using c by (auto simp: skillClaimResource_def Let_def assms(1) split: prod.split option.split error.split)
  moreover have "K True (snd (skillReleaseResource P x es p t s))" for p
    using r by (auto simp: skillReleaseResource_def Let_def assms(1) split: prod.split option.split)
  moreover have "K True (snd (skillSendMailbox P x es p t s))" for p
    using m by (auto simp: skillSendMailbox_def Let_def split: prod.split option.split)
  ultimately show ?thesis
    using k by (auto simp: executeSkill_def skillCheckConflict_def skillQueryMailbox_def Let_def split: sum.split)
qed

lemma kept_tasks_send:
  assumes "x_client x = home" "fair es" "K False s"
  shows "K True (snd (handleTasksSend P x es agent params s))"
proof (cases "decode task_params_fields zero_task_params params")
  case None
  with claimed [OF assms(3)] show ?thesis by (simp add: handleTasksSend_def)
next
  case (Some req)
  let ?ns = "x_namespace x"
  let ?t0 = "NewTask (Now (es 0) 0) (tp_ID req) (tp_SessionID req) ?ns"
  let ?t1 = "?t0\<lparr>tk_Status := (tk_Status ?t0)\<lparr>st_State := TaskWorking, st_Timestamp := Now (es 0) 2\<rparr>\<rparr>"
  obtain r1 s1 where c: "p_CreateTask P (es 1) ?ns (taskToStorage (Now (es 0) 1) ?t0) s = (r1, s1)" by fastforce
  obtain r2 s2 where h: "p_AppendTaskHistory P (es 2) ?ns (tk_ID ?t0) 0 (user_message (tp_Message req)) s1 = (r2, s2)"
    by fastforce
  obtain r3 t2 s3 where k: "executeSkill P x (after 4 es) agent (tp_Message req) ?t1 s2 = ((r3, t2), s3)"
    by (metis prod.collapse)
  obtain r4 s4 where a: "store_artifacts P ?ns (after 7 es) (tk_ID t2) (tk_Artifacts t2) s3 = (r4, s4)" by fastforce
  have s1: "K False s1" using create_task [OF assms(3)] c by (metis snd_conv)
  have s2: "K False s2" using append_history [OF s1] h by (metis snd_conv)
  have s3: "K True s3" using kept_skill [OF assms(1) fair_after [OF assms(2)] s2] k by (metis snd_conv)
  have s4: "K True s4" using kept_store_artifacts [OF s3] a by (metis snd_conv)
  show ?thesis
  proof (cases "tp_ID req = [] \<or> r1 \<noteq> None \<or> r2 \<noteq> None")
    case True
    then show ?thesis
      using claimed assms(3) s1 s2 c h by (auto simp: handleTasksSend_def Let_def Some split: option.split)
  next
    case False
    then have id: "tp_ID req \<noteq> []" by simp
    from False c h have c': "p_CreateTask P (es 1) ?ns (taskToStorage (Now (es 0) 1) ?t0) s = (None, s1)"
      and h': "p_AppendTaskHistory P (es 2) ?ns (tk_ID ?t0) 0 (user_message (tp_Message req)) s1 = (None, s2)" by simp_all
    have u: "K True s''" if "p_UpdateTask P (es 3) ?ns t s' = (y, s'')" "K True s'" for t s' y s''
      using update_task [OF that(2)] that(1) by (metis snd_conv)
    show ?thesis
      unfolding handleTasksSend_eq(1) [OF Some id refl refl c' h' k refl a]
      using s4 u update_task [OF s3] by (auto split: option.split prod.split)
  qed
qed

lemma kept_tasks_cancel:
  assumes "K b s"
  shows "K b (snd (handleTasksCancel P x es params s))"
proof -
  have "K b s2" if "p_UpdateTask P e ns t s1 = (y, s2)" "K b s1" for e ns t y s1 s2
    using update_task [OF that(2)] that(1) by (metis snd_conv)
  with assms show ?thesis
    unfolding handleTasksCancel_def Let_def
    by (auto simp: client_messages split: option.split sum.split prod.split)
qed

lemma kept_executor:
  assumes "x_client x = home" "fair es" "K False s"
  shows "K True (snd (StartTaskExecution P x es agent gone t msg s))"
proof -
  have "snd (StartTaskExecution P x es agent gone t msg s) = s \<or>
      (\<exists>u. snd (StartTaskExecution P x es agent gone t msg s) = snd (executeSkill P x (after 1 es) agent msg u s))"
    unfolding StartTaskExecution_def Let_def by (auto split: prod.split option.split) (metis snd_conv)+
  then show ?thesis
    using kept_skill [OF assms(1) fair_after [OF assms(2)] assms(3)] claimed [OF assms(3)] by auto
qed

lemma kept_subscribe:
  assumes "x_client x = home" "fair es" "K False s"
  shows "K True (snd (handleTasksSendSubscribe P x es agent gone req s))"
proof (cases "decode task_params_fields zero_task_params (jr_Params req)")
  case None
  with claimed [OF assms(3)] show ?thesis by (simp add: handleTasksSendSubscribe_def Let_def)
next
  case (Some q)
  let ?ns = "x_namespace x"
  let ?t = "NewTask (Now (es 0) 0) (tp_ID q) (tp_SessionID q) ?ns"
  obtain r1 s1 where c: "p_CreateTask P (es 1) ?ns (taskToStorage (Now (es 0) 1) ?t) s = (r1, s1)" by fastforce
  have s1: "K False s1" using create_task [OF assms(3)] c by (metis snd_conv)
  let ?s2 = "snd (p_AppendTaskHistory P (es 2) ?ns (tk_ID ?t) 0 (user_message (tp_Message q)) s1)"
  have s2: "K False ?s2" by (rule append_history [OF s1])
  obtain evs s3 where k: "StartTaskExecution P x (after 3 es) agent gone ?t (tp_Message q) ?s2 = (evs, s3)" by fastforce
  have s3: "K True s3" using kept_executor [OF assms(1) fair_after [OF assms(2)] s2] k by (metis snd_conv)
  show ?thesis
    using kept_event_loop [OF s3] claimed [OF s1] claimed [OF s2] claimed [OF assms(3)]
    unfolding handleTasksSendSubscribe_def Let_def Some option.case c
    by (auto simp: k [unfolded NewTask_simps] split: option.split prod.split) (metis snd_conv)
qed

lemma kept_a2a:
  assumes "x_client x = home" "fair es" "K False s"
  shows "K True (snd (snd (a2a_serve P x es gone out r a s)))"
proof -
  have "K True (snd (handleJSONRPC P x es agent gone b s))" for agent b
    using claimed [OF assms(3)] kept_tasks_send [OF assms] kept_subscribe [OF assms]
      kept_tasks_cancel [OF claimed [OF assms(3)]]
    unfolding handleJSONRPC_def by (auto simp: split_beta split: option.split)
  with claimed [OF assms(3)] show ?thesis
    unfolding a2a_serve_def Middleware_def a2a_ServeHTTP_def by (auto simp: split_beta split: option.split)
qed

end

section \<open>A deployment step by step\<close>

text \<open>
  The state of a running \<open>hearsay serve\<close>, with the one of its audit worker and of its A2A
  authentication, the session files of the hooks and the present time. The store is that of the server.
\<close>

record 's deployment =
  dp_Server :: "'s server"
  dp_Auth :: a2a_auth
  dp_Batch :: "audit_event list"
  dp_Files :: files
  dp_Now :: time

abbreviation dp_store :: "'s deployment \<Rightarrow> 's" where
  "dp_store d \<equiv> sv_store (dp_Server d)"

definition with_store :: "'s deployment \<Rightarrow> time \<Rightarrow> 's \<Rightarrow> 's deployment" where
  "with_store d t s = d\<lparr>dp_Server := (dp_Server d)\<lparr>sv_store := s\<rparr>, dp_Now := t\<rparr>"

lemma with_store_simps [simp]:
  "dp_store (with_store d t s) = s" "dp_Now (with_store d t s) = t"
  "sv_namespace (dp_Server (with_store d t s)) = sv_namespace (dp_Server d)"
  by (simp_all add: with_store_def)

text \<open>All clock readings of a step lie between the instants before and after it.\<close>

definition within :: "time \<Rightarrow> time \<Rightarrow> envs \<Rightarrow> bool" where
  "within t t' es \<longleftrightarrow> (\<forall>k i. t \<le> Now (es k) i \<and> Now (es k) i \<le> t' \<and> time_ok (Now (es k) i))"

lemma within_later: "within t t' es \<Longrightarrow> within t t' (after k es)"
  by (simp add: within_def after_def)

text \<open>The server starts on a store, with any options of its command line.\<close>

definition sys_start :: "a2a_server \<Rightarrow> 's \<Rightarrow> 's deployment \<Rightarrow> bool" where
  "sys_start x s d \<longleftrightarrow> dp_Batch d = [] \<and> xa_jwks (dp_Auth d) = None \<and>
     (\<exists>locking token limit burst level.
        dp_Server d = New_server locking token limit burst level (x_client x) s)"

lemma sys_start_simps: "sys_start x s d \<Longrightarrow> dp_store d = s \<and> sv_namespace (dp_Server d) = x_client x"
  by (auto simp: sys_start_def New_server_def)

text \<open>
  One step: a request to either server, a tick of a background loop or of the audit worker, a command
  or a hook of another process, an event of the watcher, a restart of the server, or the passing of
  time. \<open>raw\<close> says whether
  \<open>POST /append\<close>, which stores any message as it comes, is used.
\<close>

inductive sys_step :: "'s provider \<Rightarrow> bool \<Rightarrow> a2a_server \<Rightarrow> 's deployment \<Rightarrow> 's deployment \<Rightarrow> bool"
  for P raw x where
  rest: "ServeHTTP subscribe P es r (dp_Server d) = (resp, sv') \<Longrightarrow> within (dp_Now d) t' es \<Longrightarrow>
    raw \<or> hr_Path r \<noteq> ''/append'' \<Longrightarrow> sys_step P raw x d (d\<lparr>dp_Server := sv', dp_Now := t'\<rparr>)"
| a2a: "a2a_serve P x es gone out r (dp_Auth d) (dp_store d) = (resp, a', s') \<Longrightarrow> within (dp_Now d) t' es \<Longrightarrow>
    sys_step P raw x d ((with_store d t' s')\<lparr>dp_Auth := a'\<rparr>)"
| sweeper: "within (dp_Now d) t' es \<Longrightarrow>
    sys_step P raw x d (with_store d t' (sweeper_tick P es (x_namespace x) (dp_store d)))"
| detector: "within (dp_Now d) t' es \<Longrightarrow> 0 < agentTimeout \<Longrightarrow>
    sys_step P raw x d (with_store d t' (detector_tick P es (x_namespace x) agentTimeout (dp_store d)))"
| audit: "worker_step P e i (sv_audit (dp_Server d), dp_Batch d, dp_store d) = (lg, batch, s') \<Longrightarrow>
    sys_step P raw x d (d\<lparr>dp_Server := (dp_Server d)\<lparr>sv_audit := lg, sv_store := s'\<rparr>, dp_Batch := batch\<rparr>)"
| command: "cmd \<in> {cmdClaim, cmdRelease, cmdHeartbeat, cmdQuery, cmdCheck} \<Longrightarrow> at_home P (x_client x) h \<Longrightarrow>
    cmd h es args (dp_store d) = (out, s') \<Longrightarrow> within (dp_Now d) t' es \<Longrightarrow> sys_step P raw x d (with_store d t' s')"
| hook: "cmdCursor io h es args (dp_Files d, dp_store d) = (out, fs', s') \<Longrightarrow> at_home P (x_client x) h \<Longrightarrow>
    within (dp_Now d) t' es \<Longrightarrow> sys_step P raw x d ((with_store d t' s')\<lparr>dp_Files := fs'\<rparr>)"
| watch: "within (dp_Now d) t' es \<Longrightarrow>
    sys_step P raw x d (with_store d t' (handle_event P (x_client x) cfg es ev (dp_store d)))"
| restart: "sys_start x (dp_store d) d' \<Longrightarrow> dp_Files d' = dp_Files d \<Longrightarrow> dp_Now d \<le> dp_Now d' \<Longrightarrow>
    sys_step P raw x d d'"
| wait: "dp_Now d \<le> t' \<Longrightarrow> sys_step P raw x d (d\<lparr>dp_Now := t'\<rparr>)"

inductive_cases sys_stepE: "sys_step P raw x d d'"

inductive sys_reachable :: "'s provider \<Rightarrow> bool \<Rightarrow> a2a_server \<Rightarrow> 's \<Rightarrow> 's deployment \<Rightarrow> bool"
  for P raw x s0 where
  start: "sys_start x s0 d \<Longrightarrow> sys_reachable P raw x s0 d"
| step: "sys_reachable P raw x s0 d \<Longrightarrow> sys_step P raw x d d' \<Longrightarrow> sys_reachable P raw x s0 d'"

inductive_simps sys_reachable_simps: "sys_reachable P raw x s0 d"

lemma within_mono: "within t t' es \<Longrightarrow> t \<le> t'"
  unfolding within_def by (meson order_trans)

lemma sys_step_time: "sys_step P raw x d d' \<Longrightarrow> dp_Now d \<le> dp_Now d'"
  by (erule sys_stepE) (auto dest: within_mono)

lemma answer_namespace: "sv_namespace (snd (answer code w r sv)) = sv_namespace sv"
  by (cases r) (simp add: answer_def split: option.split)

lemma post_namespace:
  assumes "map_of post_routes path = Some h"
  shows "sv_namespace (snd (h P es r sv)) = sv_namespace sv"
proof -
  have "h \<in> snd ` set post_routes" using map_of_SomeD [OF assms] by force
  then show ?thesis
    by (auto simp: post_routes_def handleClaim_def handleRelease_def handleHeartbeat_def handleIntent_def
        handleSendMessage_def handleMarkRead_def handleArchiveMessage_def handleCreateNamespace_def
        handleDeleteNamespace_def handleAppend_def handleReleaseExpired_def answer_namespace audit_def
        split: option.split prod.split sum.split)
qed

lemma ServeHTTP_namespace: "sv_namespace (snd (ServeHTTP subscribe P es r sv)) = sv_namespace sv"
proof -
  have auth: "sv_namespace (snd (auth_Wrap h P es r sv)) = sv_namespace sv"
    if "map_of post_routes (hr_Path r) = Some h" for h es sv
    using post_namespace [OF that] by (simp add: auth_Wrap_def audit_def)
  have "sv_namespace (snd (rate_Wrap (auth_Wrap h) P es r sv)) = sv_namespace sv"
    if "map_of post_routes (hr_Path r) = Some h" for h
    using auth [OF that] by (auto simp: rate_Wrap_def Let_def audit_def split_beta)
  then show ?thesis using get_route_pure by (auto simp: ServeHTTP_def Let_def) fastforce+
qed

lemma sys_step_namespace:
  assumes "sys_step P raw x d d'" "sv_namespace (dp_Server d) = x_client x"
  shows "sv_namespace (dp_Server d') = x_client x"
  using assms(1)
proof (cases rule: sys_step.cases)
  case (rest subscribe es r resp sv' t')
  with ServeHTTP_namespace [of subscribe P es r "dp_Server d"] assms(2) show ?thesis by simp
qed (simp_all add: assms(2) sys_start_simps)

context shared_store
begin

lemma kept_step:
  assumes "sys_step P raw x d d'" and "\<And>es. within (dp_Now d) (dp_Now d') es \<Longrightarrow> fair es"
    and home: "x_client x = home" "sv_namespace (dp_Server d) = home" and "K False (dp_store d)"
    and "raw \<Longrightarrow> kept_handler handleAppend"
    and a2a: "\<And>es gone out r a. fair es \<Longrightarrow> K True (snd (snd (a2a_serve P x es gone out r a (dp_store d))))"
  shows "K True (dp_store d')"
  using assms(1)
proof (cases rule: sys_step.cases)
  case (rest subscribe es r resp sv' t')
  with kept_ServeHTTP [OF _ home(2) _ assms(5), of r es subscribe] assms(2) [of es] assms(6) show ?thesis by auto
next
  case (a2a es gone out r resp a' s' t')
  with assms(7) [of es gone out r "dp_Auth d"] assms(2) [of es] show ?thesis by simp
next
  case (command cmd h es args out s' t')
  with assms(2) [of es] have "fair es" by simp
  with kept_commands [OF command(3) [unfolded home] assms(5), of es args] command show ?thesis by auto
next
  case (hook io h es args out fs' s' t')
  with assms(2) [of es] have "fair es" by simp
  with kept_hooks [OF hook(3) [unfolded home] this, of "(dp_Files d, dp_store d)" io args] assms(5) hook
  show ?thesis by simp
next
  case (audit e i lg batch s')
  with kept_worker [OF claimed [OF assms(5)], of e i "sv_audit (dp_Server d)" "dp_Batch d"] show ?thesis by simp
next
  case (watch t' es cfg ev)
  with assms(2) [of es] assms(5) home show ?thesis by (simp add: kept_watcher)
qed (simp_all add: claimed assms(5) kept_sweeper kept_detector sys_start_simps)

end

end
