(* ===== verification/System.thy ===== *)
theory System
  imports Composition
begin

text \<open>
  The whole deployment on one SQLite database: \<open>hearsay serve\<close> with its REST server, its A2A server
  and its background loops, the commands and the Cursor hooks as processes of their own, and the
  watcher. A step is one whole request, command or tick; any statement of the database may fail in
  any of them. The last section has what holds in every state that can be reached.
\<close>

section \<open>Logs without blocked claims\<close>

text \<open>In log order, no active claim is blocked by an older active one.\<close>

definition sealed :: "time \<Rightarrow> message list \<Rightarrow> bool" where
  "sealed t msgs \<longleftrightarrow> sorted_wrt (\<lambda>a b. \<not> blocks a b) (FilterActiveClaims t msgs)"

text \<open>Claim messages may disappear from a log, or all messages at once.\<close>

definition thinned :: "message list \<Rightarrow> message list \<Rightarrow> bool" where
  "thinned msgs msgs' \<longleftrightarrow> msgs' = [] \<or>
     (\<exists>Q. msgs' = filter Q msgs \<and> (\<forall>m \<in> set msgs. m_Type m \<noteq> MsgClaim \<longrightarrow> Q m))"

lemma thinnedI: "msgs' = filter Q msgs \<Longrightarrow> \<forall>m \<in> set msgs. m_Type m \<noteq> MsgClaim \<longrightarrow> Q m \<Longrightarrow> thinned msgs msgs'"
  by (auto simp: thinned_def)

lemma thinned_Nil [simp]: "thinned msgs []"
  by (simp add: thinned_def)

lemma thinned_refl [simp]: "thinned msgs msgs"
  by (rule thinnedI [of _ "\<lambda>_. True"]) simp_all

lemma filter_filter_comm: "filter R (filter Q xs) = filter Q (filter R xs)"
  by (induction xs) simp_all

lemma thinned_filter:
  assumes "thinned msgs msgs'"
  shows "thinned (filter R msgs) (filter R msgs')"
proof (cases "msgs' = []")
  case False
  with assms obtain Q where Q: "msgs' = filter Q msgs" "\<forall>m \<in> set msgs. m_Type m \<noteq> MsgClaim \<longrightarrow> Q m"
    by (auto simp: thinned_def)
  show ?thesis
    by (rule thinnedI [of _ Q]) (simp_all only: Q(1) filter_filter_comm [of R Q], use Q(2) in auto)
qed simp

lemma live_filter:
  assumes "\<forall>m \<in> set msgs. m_Type m \<noteq> MsgClaim \<longrightarrow> Q m"
  shows "live t (filter Q msgs) e = live t msgs e"
proof -
  have "filter (\<lambda>m. is_release m \<and> decode_ref (m_Payload m) = Some cid) (filter Q msgs) =
      filter (\<lambda>m. is_release m \<and> decode_ref (m_Payload m) = Some cid) msgs" for cid
    unfolding filter_filter by (rule filter_cong) (use assms in \<open>auto simp: is_release_def\<close>)
  moreover have "filter (\<lambda>m. m_Type m = MsgHeartbeat \<and> decode_ref (m_Payload m) = Some cid) (filter Q msgs) =
      filter (\<lambda>m. m_Type m = MsgHeartbeat \<and> decode_ref (m_Payload m) = Some cid) msgs" for cid
    unfolding filter_filter by (rule filter_cong) (use assms in auto)
  ultimately show ?thesis
    by (simp only: live_def released_in_def deadline_def release_offsets_def heartbeat_times_def)
qed

lemma sorted_wrt_subseq: "subseq xs ys \<Longrightarrow> sorted_wrt R ys \<Longrightarrow> sorted_wrt R xs"
  by (induction rule: list_emb.induct) (auto dest: list_emb_set)

lemma subseq_entries: "subseq (claim_entries (filter Q msgs)) (claim_entries msgs)"
  by (induction msgs) (auto split: option.split)

lemma sealed_thinned:
  assumes "sealed t msgs" "thinned msgs msgs'"
  shows "sealed t msgs'"
proof (cases "msgs' = []")
  case True
  then show ?thesis by (simp add: sealed_def FilterActiveClaims_eq)
next
  case False
  with assms(2) obtain Q where Q: "msgs' = filter Q msgs" "\<forall>m \<in> set msgs. m_Type m \<noteq> MsgClaim \<longrightarrow> Q m"
    by (auto simp: thinned_def)
  have "live t msgs' = live t msgs" using live_filter [OF Q(2)] by (auto simp: Q(1) fun_eq_iff)
  then have "subseq (FilterActiveClaims t msgs') (FilterActiveClaims t msgs)"
    unfolding FilterActiveClaims_eq Q(1) by (simp add: subseq_map subseq_filter subseq_entries)
  with assms(1) show ?thesis unfolding sealed_def by (rule sorted_wrt_subseq [rotated])
qed

lemma sealed_later:
  assumes "sealed t msgs" "t \<le> t'"
  shows "sealed t' msgs"
  using assms(1) unfolding sealed_def FilterActiveClaims_eq
  by (rule sorted_wrt_map_filter [rotated]) (rule live_time_mono [OF assms(2)])

text \<open>A message that is neither a claim nor a heartbeat can only end claims.\<close>

lemma sealed_other:
  assumes "sealed t msgs" "follows msgs m" "m_Type m \<noteq> MsgClaim" "m_Type m \<noteq> MsgHeartbeat"
  shows "sealed t (msgs @ [m])"
proof -
  have "live t msgs e" if "e \<in> set (claim_entries msgs)" "live t (msgs @ [m]) e" for e
    using live_append_other [of t msgs m "fst e" "snd e"] follows_entry [OF assms(2), of "fst e" "snd e"] that assms(4)
    by simp
  note old = this
  show ?thesis
    using assms(1) unfolding sealed_def FilterActiveClaims_eq claim_entries_not_claim [OF assms(3)]
    by (rule sorted_wrt_map_filter [rotated]) (rule old)
qed

text \<open>A new claim that no claim active at an instant up to \<open>t'\<close> blocks.\<close>

lemma sealed_claim:
  assumes "sealed t msgs" "follows msgs m" "m_Type m = MsgClaim" "decode_claim (m_Payload m) \<in> {None, Some c}"
    and "\<forall>a \<in> set (FilterActiveClaims u msgs). \<not> blocks a c" "t \<le> t'" "u \<le> t'"
  shows "sealed t' (msgs @ [m])"
proof -
  have old: "live t' msgs e" if "e \<in> set (claim_entries msgs)" "live t' (msgs @ [m]) e" for e
    using live_append_other [of t' msgs m "fst e" "snd e"] follows_entry [OF assms(2), of "fst e" "snd e"] that assms(3)
    by simp
  have ex: "sorted_wrt (\<lambda>a b. \<not> blocks a b) (map snd (filter (live t' (msgs @ [m])) (claim_entries msgs)))"
    by (rule sorted_wrt_map_filter [OF old])
      (use sealed_later [OF assms(1,6)] in \<open>simp_all add: sealed_def FilterActiveClaims_eq\<close>)
  have free: "\<not> blocks (snd e) c" if "e \<in> set (claim_entries msgs)" "live t' (msgs @ [m]) e" for e
  proof -
    have "live u msgs e" using live_time_mono [OF assms(7) old [OF that]] .
    with that(1) have "snd e \<in> set (FilterActiveClaims u msgs)" by (force simp: FilterActiveClaims_eq)
    with assms(5) show ?thesis by blast
  qed
  show ?thesis
    using ex free assms(3,4) unfolding sealed_def FilterActiveClaims_eq by (auto simp: sorted_wrt_append)
qed

section \<open>What is stored for a claim\<close>

lemma decode_members_failed: "snd (decode_members fs kvs (r, False)) = False"
proof (induction kvs arbitrary: r)
  case (Cons kv kvs)
  then show ?case
    by (cases kv) (simp add: decode_members.simps(2) split: option.split prod.split)
qed simp

text \<open>A TTL beyond 64 bits makes the stored claim unreadable.\<close>

lemma decode_claim_cases:
  assumes "time_ok (c_CreatedAt c)"
  shows "decode_claim (Some (claim_json c)) \<in> {None, Some c}"
proof (cases "claim_ok c")
  case True
  then show ?thesis by (simp add: decode_claim_json)
next
  case False
  with assms have "\<not> (- (2 ^ 63) \<le> c_TTLSeconds c \<and> c_TTLSeconds c < 2 ^ 63)" by (simp add: claim_ok_def)
  then have ttl: "int_field c_TTLSeconds_update (JNum (c_TTLSeconds c)) r = (r, False)" for r :: claim
    by (simp only: int_field_def json.case if_False)
  have "snd (decode_members claim_fields
    ([(''claim_id'', JStr (c_ClaimID c)), (''agent_id'', JStr (c_AgentID c)),
      (''resource_uri'', JStr (c_ResourceURI c)), (''operation'', JStr (c_Operation c)),
      (''intent'', JStr (c_Intent c))]
     @ omit_empty ''projected_end'' (c_ProjectedEnd c)
     @ [(''ttl_seconds'', JNum (c_TTLSeconds c))]
     @ omit_empty ''parent_claim_id'' (c_ParentClaimID c)
     @ [(''created_at'', time_json (c_CreatedAt c))]) (zero_claim, True)) = False"
    by (simp add: decode_members_exact claim_fields_def decode_omit_empty string_field_JStr ttl zero_claim_def
        decode_members_failed split: prod.split)
  then show ?thesis
    by (simp add: decode_claim_def claim_json_def decode_obj split: prod.split) (metis snd_conv)
qed

section \<open>Back ends that do not count heartbeats\<close>

text \<open>An operation that keeps the invariant and removes nothing but claims from the logs.\<close>

definition thins :: "('s \<Rightarrow> bool) \<Rightarrow> ('s \<Rightarrow> string \<Rightarrow> message list) \<Rightarrow> ('s \<Rightarrow> 'r \<times> 's) \<Rightarrow> bool" where
  "thins ok log f \<longleftrightarrow> (\<forall>s. ok s \<longrightarrow> ok (snd (f s)) \<and> (\<forall>ns. thinned (log s ns) (log (snd (f s)) ns)))"

locale deaf_store = claim_store P log ok seen
  for P :: "'s provider" and log :: "'s \<Rightarrow> string \<Rightarrow> message list" and ok :: "'s \<Rightarrow> bool"
    and seen :: "message \<Rightarrow> bool" +
  assumes deaf: "seen m \<Longrightarrow> m_Type m \<noteq> MsgHeartbeat"
    and create_namespace_thins: "thins ok log (p_CreateNamespace P e n)"
    and delete_namespace_thins: "thins ok log (p_DeleteNamespace P e ns)"
    and sweep_thins: "thins ok log (p_ReleaseExpired P e ns before)"
    and send_mail_thins: "thins ok log (p_SendMessage P e ns mail)"
    and mark_mail_thins: "thins ok log (p_MarkRead P e ns mid)"
    and archive_mail_thins: "thins ok log (p_ArchiveMessage P e ns mid)"
    and append_audit_thins: "thins ok log (p_AppendAudit P e ns evs)"
    and create_task_thins: "thins ok log (p_CreateTask P e ns tk)"
    and update_task_thins: "thins ok log (p_UpdateTask P e ns tk)"
    and append_history_thins: "thins ok log (p_AppendTaskHistory P e ns tid k hm)"
    and create_artifact_thins: "thins ok log (p_CreateArtifact P e ns tid art)"
begin

lemmas all_thin = create_namespace_thins delete_namespace_thins sweep_thins send_mail_thins mark_mail_thins
  archive_mail_thins append_audit_thins create_task_thins update_task_thins append_history_thins create_artifact_thins

definition sealed_at :: "string \<Rightarrow> time \<Rightarrow> 's \<Rightarrow> bool" where
  "sealed_at home t s \<longleftrightarrow> ok s \<and> sealed t (filter seen (log s home))"

lemma sealed_at_thins: "thins ok log f \<Longrightarrow> sealed_at home t s \<Longrightarrow> sealed_at home t (snd (f s))"
  unfolding sealed_at_def thins_def using sealed_thinned [OF _ thinned_filter] by blast

lemma sealed_at_later: "sealed_at home t s \<Longrightarrow> t \<le> t' \<Longrightarrow> sealed_at home t' s"
  unfolding sealed_at_def using sealed_later by blast

lemma sealed_at_message:
  assumes "sealed_at home t s" "m_Type m \<noteq> MsgClaim"
  shows "sealed_at home t (snd (p_Append P e ns [m] s))"
proof -
  have ok: "ok s" using assms(1) by (simp add: sealed_at_def)
  obtain r s' where app: "p_Append P e ns [m] s = (r, s')" by fastforce
  show ?thesis
  proof (cases r)
    case (Some err)
    with app have "p_Append P e ns [m] s = (Some err, s')" by simp
    from append_atomic [OF ok this] app assms(1) show ?thesis by simp
  next
    case None
    with app have app': "p_Append P e ns [m] s = (None, s')" by simp
    obtain m' where m': "log s' ns = log s ns @ [m']" "stamped ns m m'" "follows (log s ns) m'" "ok s'"
      using append_one [OF ok app'] .
    have "sealed t (filter seen (log s' home))"
    proof (cases "ns = home \<and> seen m'")
      case True
      have "m_Type m' \<noteq> MsgClaim" "m_Type m' \<noteq> MsgHeartbeat"
        using True deaf m'(2) assms(2) by (auto simp: stamped_def)
      moreover have "log s' home = log s home @ [m']" using m'(1) True by simp
      ultimately show ?thesis
        using sealed_other [OF _ follows_seen [OF m'(3)]] assms(1) True by (simp add: sealed_at_def)
    next
      case False
      then have "filter seen (log s' home) = filter seen (log s home)"
        using append_other [OF ok app', of home] m'(1) by (cases "ns = home") auto
      with assms(1) show ?thesis by (simp add: sealed_at_def)
    qed
    with app' m'(4) show ?thesis by (simp add: sealed_at_def)
  qed
qed

lemma sealed_at_claim:
  assumes "sealed_at home t s" "within t t' es"
  shows "sealed_at home t' (snd (client_Claim P home es req s))"
proof -
  let ?c = "request_claim (default_ttl req) (Now (es 1) 0) (Now (es 1) 1)"
  have ok: "ok s" and sl: "sealed t (filter seen (log s home))" using assms(1) by (simp_all add: sealed_at_def)
  have tt: "t \<le> t'" "Now (es 0) 0 \<le> t'" "time_ok (Now (es 1) 1)"
    using assms(2) unfolding within_def by (meson order_trans, blast, blast)
  obtain resp err s' where run: "client_Claim P home es req s = ((resp, err), s')" by (metis prod.collapse)
  show ?thesis
  proof (cases err)
    case (Some er)
    with run claim_refused [OF ok] have "s' = s" by blast
    with run sealed_at_later [OF assms(1) tt(1)] show ?thesis by simp
  next
    case None
    with run obtain r where "client_Claim P home es req s = ((Some r, None), s')"
      by (cases resp) (auto simp: client_Claim_def Let_def split: sum.splits if_splits prod.splits option.splits)
    from claim_granted [OF ok this] obtain m where
      free: "\<forall>a \<in> set (active_at (Now (es 0) 0) home s). \<not> blocks a ?c" and "ok s'" and
      m: "log s' home = log s home @ [m]" "m_Type m = MsgClaim" "m_Payload m = Some (claim_json ?c)"
        "follows (log s home) m"
      by (auto simp: Let_def)
    moreover have "seen m" using m(2) by (intro seen_types) simp
    moreover have "decode_claim (m_Payload m) \<in> {None, Some ?c}"
      unfolding m(3) by (rule decode_claim_cases) (use tt(3) in \<open>simp only: request_claim_simps\<close>)
    ultimately show ?thesis
      using sealed_claim [OF sl follows_seen [OF m(4)] m(2), of ?c "Now (es 0) 0" t'] tt run
      by (simp add: sealed_at_def active_at_def)
  qed
qed

lemma shared: "shared_tasks P home (within t t') (\<lambda>b. sealed_at home (if b then max t t' else t))"
proof (unfold_locales, goal_cases)
  case (1 es k)
  then show ?case by (rule within_later)
next
  case (2 s)
  then show ?case by (auto intro: sealed_at_later)
next
  case (10 m b s e ns)
  then show ?case by (intro sealed_at_message)
next
  case (11 es s req)
  then have "sealed_at home t' (snd (client_Claim P home es req s))" by (simp add: sealed_at_claim)
  then show ?case by (auto intro: sealed_at_later)
qed (rule sealed_at_thins; (rule all_thin | assumption))+

end

section \<open>The SQLite database is such a back end\<close>

lemma thins_untouched:
  assumes "\<And>s. sq_messages (snd (f s)) = sq_messages s"
  shows "thins sq_ok sq_log f"
  by (simp add: thins_def sq_ok_def sq_log_def rows_of_def assms)

lemma sq_audit_loop_fields:
  "sq_messages (snd (sq_audit_loop e ns i evs s)) = sq_messages s"
  "sq_namespaces (snd (sq_audit_loop e ns i evs s)) = sq_namespaces s"
  "sq_mailbox (snd (sq_audit_loop e ns i evs s)) = sq_mailbox s"
  "sq_tasks (snd (sq_audit_loop e ns i evs s)) = sq_tasks s"
  "sq_history (snd (sq_audit_loop e ns i evs s)) = sq_history s"
  "sq_artifacts (snd (sq_audit_loop e ns i evs s)) = sq_artifacts s"
  by (induction e ns i evs s rule: sq_audit_loop.induct) (auto split: sum.split)

lemma untouched_messages:
  "sq_messages (snd (sq_CreateNamespace e n s)) = sq_messages s"
  "sq_messages (snd (sq_SendMessage e ns mail s)) = sq_messages s"
  "sq_messages (snd (sq_MarkRead e ns mid s)) = sq_messages s"
  "sq_messages (snd (sq_ArchiveMessage e ns mid s)) = sq_messages s"
  "sq_messages (snd (sq_CreateTask e ns tk s)) = sq_messages s"
  "sq_messages (snd (sq_UpdateTask e ns tk s)) = sq_messages s"
  "sq_messages (snd (sq_AppendTaskHistory e ns tid k hm s)) = sq_messages s"
  "sq_messages (snd (sq_CreateArtifact e ns tid art s)) = sq_messages s"
  "sq_messages (snd (sq_AppendAudit e ns evs s)) = sq_messages s"
  unfolding sq_CreateNamespace_def sq_SendMessage_def sq_MarkRead_def sq_ArchiveMessage_def sq_CreateTask_def
    sq_UpdateTask_def sq_AppendTaskHistory_def sq_CreateArtifact_def sq_AppendAudit_def
  by (auto simp: sq_audit_loop_fields intro!: committed_field [where f = sq_messages])

lemma sq_DeleteNamespace_messages:
  "sq_messages (snd (sq_DeleteNamespace e ns s)) \<in> {sq_messages s, filter (\<lambda>r. r_Namespace r \<noteq> ns) (sq_messages s)}"
proof -
  obtain r s' where run: "sq_DeleteNamespace e ns s = (r, s')" by fastforce
  then have "sq_messages s' \<in> {sq_messages s, filter (\<lambda>r. r_Namespace r \<noteq> ns) (sq_messages s)}"
    by (cases r) (auto simp: sq_DeleteNamespace_def)
  with run show ?thesis by simp
qed

lemma sq_DeleteNamespace_thins: "thins sq_ok sq_log (sq_DeleteNamespace e ns)"
  unfolding thins_def
proof (intro allI impI)
  fix s assume ok: "sq_ok s"
  let ?s = "snd (sq_DeleteNamespace e ns s)"
  consider "sq_messages ?s = sq_messages s" | (gone) "sq_messages ?s = filter (\<lambda>r. r_Namespace r \<noteq> ns) (sq_messages s)"
    using sq_DeleteNamespace_messages [of e ns s] by blast
  then show "sq_ok ?s \<and> (\<forall>ns'. thinned (sq_log s ns') (sq_log ?s ns'))"
  proof cases
    case gone
    have "rows_of ns' ?s = (if ns' = ns then [] else rows_of ns' s)" for ns'
      by (auto simp: rows_of_def gone intro!: filter_cong)
    with ok show ?thesis by (simp add: sq_ok_def gone distinct_map_filter sq_log_def)
  qed (use ok in \<open>simp add: sq_ok_def sq_log_def rows_of_def\<close>)
qed

text \<open>A sweep removes rows of claims, by their offsets; it may stop half-way.\<close>

lemma delete_loop_rows:
  "\<exists>D \<subseteq> set offs. snd (delete_loop e ns i offs s) =
     s\<lparr>sq_messages := filter (\<lambda>r. \<not> (r_Namespace r = ns \<and> r_Offset r \<in> D)) (sq_messages s)\<rparr>"
proof (induction e ns i offs s rule: delete_loop.induct)
  case (1 e ns i s)
  have "s = s\<lparr>sq_messages := filter (\<lambda>r. \<not> (r_Namespace r = ns \<and> r_Offset r \<in> {})) (sq_messages s)\<rparr>" by simp
  then show ?case by auto
next
  case (2 e ns i off offs s)
  show ?case
  proof (cases "Fault e i")
    case (Some err)
    have "s = s\<lparr>sq_messages := filter (\<lambda>r. \<not> (r_Namespace r = ns \<and> r_Offset r \<in> {})) (sq_messages s)\<rparr>" by simp
    with Some show ?thesis by (intro exI [of _ "{}"]) simp
  next
    case None
    from 2 [OF this] obtain D where D: "D \<subseteq> set offs" "snd (delete_loop e ns i (off # offs) s) =
        s\<lparr>sq_messages := filter (\<lambda>r. \<not> (r_Namespace r = ns \<and> r_Offset r \<in> D))
          (filter (\<lambda>r. \<not> (r_Namespace r = ns \<and> r_Offset r = off)) (sq_messages s))\<rparr>"
      using None by auto
    moreover have "filter (\<lambda>r. \<not> (r_Namespace r = ns \<and> r_Offset r \<in> D))
          (filter (\<lambda>r. \<not> (r_Namespace r = ns \<and> r_Offset r = off)) (sq_messages s)) =
        filter (\<lambda>r. \<not> (r_Namespace r = ns \<and> r_Offset r \<in> insert off D)) (sq_messages s)"
      unfolding filter_filter by (rule filter_cong) auto
    ultimately show ?thesis by (intro exI [of _ "insert off D"]) auto
  qed
qed

lemma expired_offsets_rows: "off \<in> set (expired_offsets e before i rows) \<Longrightarrow> \<exists>r \<in> set rows. r_Offset r = off"
  by (induction e before i rows rule: expired_offsets.induct) (auto split: if_splits option.splits)

lemma sq_ReleaseExpired_rows:
  assumes "sq_ok s"
  shows "\<exists>D. snd (sq_ReleaseExpired e ns before s) =
      s\<lparr>sq_messages := filter (\<lambda>r. \<not> (r_Namespace r = ns \<and> r_Offset r \<in> D)) (sq_messages s)\<rparr> \<and>
    (\<forall>r \<in> set (sq_messages s). r_Namespace r = ns \<and> r_Offset r \<in> D \<longrightarrow> r_Type r = MsgClaim)"
proof (cases "Fault e 0")
  case (Some err)
  then show ?thesis by (intro exI [of _ "{}"]) (simp add: sq_ReleaseExpired_def exec_def)
next
  case None
  let ?rows = "filter (\<lambda>r. r_Type r = MsgClaim) (rows_of ns s)"
  obtain D where D: "D \<subseteq> set (expired_offsets e before 1 ?rows)" "snd (sq_ReleaseExpired e ns before s) =
      s\<lparr>sq_messages := filter (\<lambda>r. \<not> (r_Namespace r = ns \<and> r_Offset r \<in> D)) (sq_messages s)\<rparr>"
    using delete_loop_rows [of "expired_offsets e before 1 ?rows" e ns "1 + length ?rows" s] None
    by (auto simp: sq_ReleaseExpired_def)
  have "r_Type r = MsgClaim" if r: "r \<in> set (sq_messages s)" "r_Namespace r = ns" "r_Offset r \<in> D" for r
  proof -
    obtain q where q: "q \<in> set ?rows" "r_Offset q = r_Offset r"
      using D(1) r(3) expired_offsets_rows by (meson subsetD)
    then have "message_key q = message_key r" using r(2) by (simp add: message_key_def)
    then have "q = r" using assms q(1) r(1) unfolding sq_ok_def distinct_map inj_on_def by simp
    with q(1) show ?thesis by simp
  qed
  with D(2) show ?thesis by blast
qed

lemma sq_ReleaseExpired_thins: "thins sq_ok sq_log (sq_ReleaseExpired e ns before)"
  unfolding thins_def
proof (intro allI impI conjI)
  fix s assume ok: "sq_ok s"
  let ?s = "snd (sq_ReleaseExpired e ns before s)"
  obtain D where D: "?s = s\<lparr>sq_messages := filter (\<lambda>r. \<not> (r_Namespace r = ns \<and> r_Offset r \<in> D)) (sq_messages s)\<rparr>"
    and claims: "\<forall>r \<in> set (sq_messages s). r_Namespace r = ns \<and> r_Offset r \<in> D \<longrightarrow> r_Type r = MsgClaim"
    using sq_ReleaseExpired_rows [OF ok] by blast
  show "sq_ok ?s" using ok unfolding D sq_ok_def by (simp add: distinct_map_filter)
  fix ns'
  let ?Q = "\<lambda>off. \<not> (ns' = ns \<and> off \<in> D)"
  have "rows_of ns' ?s = filter (\<lambda>r. ?Q (r_Offset r)) (rows_of ns' s)"
    unfolding D rows_of_def by (auto intro!: filter_cong)
  then have "sq_log ?s ns' = filter (\<lambda>m. ?Q (m_Offset m)) (sq_log s ns')"
    by (simp add: sq_log_def filter_map o_def row_message_def filter_sort)
  then show "thinned (sq_log s ns') (sq_log ?s ns')"
    by (rule thinnedI) (use claims in \<open>auto simp: sq_log_def row_message_def\<close>)
qed

interpretation sq_deaf: deaf_store sqlite_provider sq_log sq_ok sq_seen
  by unfold_locales
    (auto simp: sq_seen_def thins_untouched untouched_messages sq_DeleteNamespace_thins sq_ReleaseExpired_thins)

interpretation sq_sealed: shared_tasks sqlite_provider home "within t t'"
  "\<lambda>b. sq_deaf.sealed_at home (if b then max t t' else t)" for home t t'
  by (rule sq_deaf.shared)

section \<open>Well-formed tables\<close>

text \<open>Every primary key of the schema, positive offsets, and a sequence number for each message that
  is its offset.\<close>

definition sq_typed :: "sqlite \<Rightarrow> bool" where
  "sq_typed s \<longleftrightarrow> sq_ok s \<and> (\<forall>r \<in> set (sq_messages s). r_Seq r = Some (r_Offset r)) \<and>
     distinct (map ns_ID (sq_namespaces s)) \<and> distinct (map (\<lambda>b. mb_MessageID (b_Message b)) (sq_mailbox s)) \<and>
     distinct (map t_ID (sq_tasks s)) \<and> distinct (map (\<lambda>y. (y_TaskID y, y_Seq y)) (sq_history s)) \<and>
     distinct (map artifact_key (sq_artifacts s))"

lemma committed_keeps:
  assumes "T s" "\<And>s'. T s \<Longrightarrow> r = Inr s' \<Longrightarrow> T s'"
  shows "T (snd (committed s r))"
  using assms by (cases r) (simp_all add: committed_def)

lemma insert_row_distinct: "insert_row key r rows = Inr rows' \<Longrightarrow> distinct (map key rows) \<Longrightarrow> distinct (map key rows')"
  by (auto simp: insert_row_def split: if_splits)

lemma typed_fewer_messages: "sq_typed s \<Longrightarrow> sq_typed (s\<lparr>sq_messages := filter Q (sq_messages s)\<rparr>)"
  by (simp add: sq_typed_def sq_ok_def distinct_map_filter)

lemma typed_CreateNamespace: "sq_typed s \<Longrightarrow> sq_typed (snd (sq_CreateNamespace e n s))"
  unfolding sq_CreateNamespace_def
  by (erule committed_keeps) (auto simp: sq_typed_def sq_ok_def dest: insert_row_distinct)

lemma typed_DeleteNamespace: "sq_typed s \<Longrightarrow> sq_typed (snd (sq_DeleteNamespace e ns s))"
  unfolding sq_DeleteNamespace_def
  by (erule committed_keeps) (auto simp: sq_typed_def sq_ok_def distinct_map_filter)

lemma typed_SendMessage: "sq_typed s \<Longrightarrow> sq_typed (snd (sq_SendMessage e ns mail s))"
  unfolding sq_SendMessage_def
  by (erule committed_keeps) (auto simp: sq_typed_def sq_ok_def dest: insert_row_distinct)

lemma update_rows_key:
  assumes "\<And>m. mb_MessageID (f m) = mb_MessageID m"
  shows "map (\<lambda>b. mb_MessageID (b_Message b)) (update_rows f ns mid rows) = map (\<lambda>b. mb_MessageID (b_Message b)) rows"
  by (simp add: update_rows_def assms)

lemma typed_mailbox_updates:
  "sq_typed s \<Longrightarrow> sq_typed (snd (sq_MarkRead e ns mid s))"
  "sq_typed s \<Longrightarrow> sq_typed (snd (sq_ArchiveMessage e ns mid s))"
  unfolding sq_MarkRead_def sq_ArchiveMessage_def
  by (erule committed_keeps; auto simp: sq_typed_def sq_ok_def update_rows_key)+

lemma typed_AppendAudit: "sq_typed s \<Longrightarrow> sq_typed (snd (sq_AppendAudit e ns evs s))"
  by (simp add: sq_AppendAudit_def sq_typed_def sq_ok_def sq_audit_loop_fields)

lemma typed_tasks:
  "sq_typed s \<Longrightarrow> sq_typed (snd (sq_CreateTask e ns tk s))"
  "sq_typed s \<Longrightarrow> sq_typed (snd (sq_AppendTaskHistory e ns tid k hm s))"
  "sq_typed s \<Longrightarrow> sq_typed (snd (sq_CreateArtifact e ns tid art s))"
  unfolding sq_CreateTask_def sq_AppendTaskHistory_def sq_CreateArtifact_def
  by (erule committed_keeps; auto simp: sq_typed_def sq_ok_def dest: insert_row_distinct)+

lemma typed_same_ids: "sq_typed s \<Longrightarrow> map t_ID ts = map t_ID (sq_tasks s) \<Longrightarrow> sq_typed (s\<lparr>sq_tasks := ts\<rparr>)"
  by (simp add: sq_typed_def sq_ok_def)

lemma typed_UpdateTask: "sq_typed s \<Longrightarrow> sq_typed (snd (sq_UpdateTask e ns tk s))"
  unfolding sq_UpdateTask_def
proof (erule committed_keeps)
  fix s'
  let ?f = "\<lambda>r. if t_Namespace r = ns \<and> t_ID r = t_ID tk
        then r\<lparr>t_SessionID := t_SessionID tk, t_State := t_State tk, t_StatusMsg := t_StatusMsg tk,
               t_StatusTime := t_StatusTime tk, t_ClaimID := t_ClaimID tk, t_Metadata := t_Metadata tk\<rparr>
        else r"
  assume "sq_typed s" and "exec (Fault e 0) (Inr (s\<lparr>sq_tasks := map ?f (sq_tasks s)\<rparr>)) = Inr s'"
  then have t: "sq_typed s" and s': "s' = s\<lparr>sq_tasks := map ?f (sq_tasks s)\<rparr>" by simp_all
  have ids: "map t_ID (map ?f ts) = map t_ID ts" for ts by (induction ts) simp_all
  show "sq_typed s'" unfolding s' by (rule typed_same_ids [OF t ids])
qed

lemma typed_ReleaseExpired: "sq_typed s \<Longrightarrow> sq_typed (snd (sq_ReleaseExpired e ns before s))"
proof -
  assume t: "sq_typed s"
  then have "sq_ok s" by (simp add: sq_typed_def)
  from sq_ReleaseExpired_rows [OF this, of e ns before] typed_fewer_messages [OF t] show ?thesis by auto
qed

lemma new_rows_seq: "r \<in> set (new_rows e ns i n n msgs) \<Longrightarrow> r_Seq r = Some (r_Offset r)"
  by (induction msgs arbitrary: i n) (auto simp: new_row_def)

lemma map_filter_Some: "\<forall>x \<in> set xs. f x = Some (g x) \<Longrightarrow> List.map_filter f xs = map g xs"
  by (induction xs) (simp_all add: List.map_filter_simps)

lemma typed_Append:
  assumes "sq_typed s"
  shows "sq_typed (snd (sq_Append e ns msgs s))"
proof -
  obtain r s' where app: "sq_Append e ns msgs s = (r, s')" by fastforce
  show ?thesis
  proof (cases r)
    case None
    with app have run: "sq_Append e ns msgs s = (None, s')" by simp
    let ?n = "next_number (map r_Offset (rows_of ns s))"
    have "List.map_filter r_Seq (rows_of ns s) = map r_Offset (rows_of ns s)"
      by (rule map_filter_Some) (use assms in \<open>auto simp: sq_typed_def\<close>)
    then have rows: "sq_messages s' = sq_messages s @ new_rows e ns 0 ?n ?n msgs"
      using sq_Append_rows [OF run] by simp
    have same: "s' = s\<lparr>sq_messages := sq_messages s'\<rparr>" using sq_Append_rows [OF run] by blast
    have seq: "\<forall>r \<in> set (sq_messages s'). r_Seq r = Some (r_Offset r)"
      using assms new_rows_seq unfolding rows sq_typed_def by auto
    have "sq_ok s'" by (rule sq_Append_ok [OF _ run]) (use assms in \<open>simp add: sq_typed_def\<close>)
    with seq assms have "sq_typed (s\<lparr>sq_messages := sq_messages s'\<rparr>)"
      unfolding sq_typed_def sq_ok_def by simp
    with same app show ?thesis by simp
  next
    case (Some err)
    with app have "sq_Append e ns msgs s = (Some err, s')" by simp
    from sq_Append_error [OF this] app assms show ?thesis by simp
  qed
qed

interpretation sq_types: shared_tasks sqlite_provider home "\<lambda>_. True" "\<lambda>_. sq_typed" for home
proof (unfold_locales, goal_cases)
  case (11 es s req)
  then show ?case
    using client_Claim_snd [of sqlite_provider home es req s] by (auto simp: typed_Append)
qed (simp_all add: typed_CreateNamespace typed_DeleteNamespace typed_SendMessage typed_mailbox_updates
    typed_AppendAudit typed_tasks typed_UpdateTask typed_ReleaseExpired typed_Append)

lemma typed_New: "sq_typed sq_New"
  by (simp add: sq_typed_def sq_ok_New) (simp add: sq_New_def)

text \<open>Only the A2A server creates or changes tasks.\<close>

definition sq_tidy :: "sqlite \<Rightarrow> bool" where
  "sq_tidy s \<longleftrightarrow> tidy (\<lambda>s. set (sq_tasks s)) s"

lemma untouched_tasks:
  "sq_tasks (snd (sq_CreateNamespace e n s)) = sq_tasks s"
  "sq_tasks (snd (sq_SendMessage e ns mail s)) = sq_tasks s"
  "sq_tasks (snd (sq_MarkRead e ns mid s)) = sq_tasks s"
  "sq_tasks (snd (sq_ArchiveMessage e ns mid s)) = sq_tasks s"
  "sq_tasks (snd (sq_Append e ns msgs s)) = sq_tasks s"
  "sq_tasks (snd (sq_AppendAudit e ns evs s)) = sq_tasks s"
  unfolding sq_CreateNamespace_def sq_SendMessage_def sq_MarkRead_def sq_ArchiveMessage_def sq_Append_def
    sq_AppendAudit_def
  by (auto simp: sq_audit_loop_fields intro!: committed_field [where f = sq_tasks])

lemma tidy_untouched: "sq_tasks s' = sq_tasks s \<Longrightarrow> sq_tidy s \<Longrightarrow> sq_tidy s'"
  by (simp add: sq_tidy_def tidy_def)

lemma tidy_DeleteNamespace:
  assumes "sq_tidy s"
  shows "sq_tidy (snd (sq_DeleteNamespace e ns s))"
proof -
  obtain r s' where run: "sq_DeleteNamespace e ns s = (r, s')" by fastforce
  then have "set (sq_tasks s') \<subseteq> set (sq_tasks s)" by (cases r) (auto simp: sq_DeleteNamespace_def)
  with run assms show ?thesis by (auto simp: sq_tidy_def tidy_def)
qed

interpretation sq_settled: shared_store sqlite_provider home "\<lambda>_. True" "\<lambda>_. sq_tidy" for home
proof (unfold_locales, goal_cases)
  case (4 b s e ns)
  then show ?case by (simp add: tidy_DeleteNamespace)
next
  case (5 b s e ns before)
  have "sq_tasks (snd (delete_loop e ns i offs s)) = sq_tasks s" for i offs
  proof -
    obtain D where "snd (delete_loop e ns i offs s) =
        s\<lparr>sq_messages := filter (\<lambda>r. \<not> (r_Namespace r = ns \<and> r_Offset r \<in> D)) (sq_messages s)\<rparr>"
      using delete_loop_rows [of offs e ns i s] by blast
    then show ?thesis by simp
  qed
  then have "sq_tasks (snd (sq_ReleaseExpired e ns before s)) = sq_tasks s"
    by (simp add: sq_ReleaseExpired_def split: sum.split)
  with 5 show ?case by (simp add: tidy_untouched)
next
  case (11 es s req)
  then show ?case
    using client_Claim_snd [of sqlite_provider home es req s]
    by (metis sqlite_provider_simps(3) tidy_untouched untouched_tasks(5))
qed (simp_all add: tidy_untouched [OF untouched_tasks(1)] tidy_untouched [OF untouched_tasks(2)]
    tidy_untouched [OF untouched_tasks(3)] tidy_untouched [OF untouched_tasks(4)] tidy_untouched [OF untouched_tasks(5)]
    tidy_untouched [OF untouched_tasks(6)])

section \<open>What holds in every state\<close>

lemma typed_handleAppend: "sq_types.kept_handler home handleAppend"
  by (auto simp: sq_types.kept_handler_def handleAppend_def sq_types.answer_kept typed_Append split: option.split)

lemma tidy_handleAppend: "sq_settled.kept_handler home handleAppend"
proof -
  have "sq_tidy (snd (sq_Append e ns msgs s))" if "sq_tidy s" for e ns msgs s
    using tidy_untouched [OF untouched_tasks(5) that] .
  then show ?thesis
    by (auto simp: sq_settled.kept_handler_def handleAppend_def sq_settled.answer_kept split: option.split)
qed

lemma types_step:
  assumes "sys_step sqlite_provider raw x d d'" "sv_namespace (dp_Server d) = x_client x"
    and "sq_typed (dp_store d)" "sq_tidy (dp_store d)"
  shows "sq_typed (dp_store d') \<and> sq_tidy (dp_store d')"
proof
  show "sq_typed (dp_store d')"
    by (rule sq_types.kept_step [OF assms(1) _ refl assms(2) assms(3)])
      (simp_all add: typed_handleAppend sq_types.kept_a2a [OF refl _ assms(3)])
  have "sq_tidy (snd (snd (a2a_serve sqlite_provider x es gone out r a (dp_store d))))" for es gone out r a
    using sq_task.a2a_serve_tidy assms(4) by (simp add: sq_tidy_def)
  then show "sq_tidy (dp_store d')"
    by (intro sq_settled.kept_step [OF assms(1) _ refl assms(2) assms(4)]) (simp_all add: tidy_handleAppend)
qed

lemma types_reachable:
  assumes "sys_reachable sqlite_provider raw x sq_New d"
  shows "sv_namespace (dp_Server d) = x_client x \<and> sq_typed (dp_store d) \<and> sq_tidy (dp_store d)"
  using assms
proof (induction rule: sys_reachable.induct)
  case (start d)
  then show ?case by (simp add: sys_start_simps typed_New sq_tidy_def tidy_def) (simp add: sq_New_def)
next
  case (step d d')
  then show ?case using types_step sys_step_namespace by blast
qed

subsection \<open>Two claims over REST\<close>

definition write_request :: "string \<Rightarrow> string \<Rightarrow> claim_request" where
  "write_request uri agent = zero_request\<lparr>rq_ResourceURI := uri, rq_AgentID := agent,
     rq_Operation := OpWrite, rq_TTLSeconds := 60\<rparr>"

definition claim_post :: "string \<Rightarrow> string \<Rightarrow> request" where
  "claim_post uri agent = post_request ''/claim'' (JObj [(''ResourceURI'', JStr uri), (''AgentID'', JStr agent),
     (''Operation'', JStr OpWrite), (''TTLSeconds'', JNum 60)])"

definition fresh_deployment :: "time \<Rightarrow> sqlite \<Rightarrow> sqlite deployment" where
  "fresh_deployment t s = \<lparr>dp_Server = New_server False [] 0 0 0 ''n'' s, dp_Auth = sample_auth, dp_Batch = [],
     dp_Files = (\<lambda>_. Missing), dp_Now = t\<rparr>"

lemma fresh_start: "sys_start sample_server (dp_store d) (fresh_deployment t (dp_store d))"
  unfolding sys_start_def fresh_deployment_def sample_auth_def sample_server_def by simp blast

lemma claim_post_store:
  assumes "claim_valid (write_request uri agent)"
  shows "sv_store (snd (ServeHTTP sub P es (claim_post uri agent) (New_server False [] 0 0 0 ''n'' s))) =
    snd (client_Claim P ''n'' es (write_request uri agent) s)"
proof -
  have body: "decode claim_request_fields zero_request (hr_Body (claim_post uri agent)) = Some (write_request uri agent)"
    by (simp add: claim_post_def write_request_def decode_obj decode_members_exact claim_request_fields_def
        string_field_JStr int_field_JNum)
  have path: "hr_Path (claim_post uri agent) = ''/claim''" "hr_Method (claim_post uri agent) = ''POST''"
    by (simp_all add: claim_post_def)
  have v: "ValidateAgentID (rq_AgentID (write_request uri agent)) = None"
    "ValidateResourceURI (rq_ResourceURI (write_request uri agent)) = None"
    "ValidateIntent (rq_Intent (write_request uri agent)) = None"
    using assms unfolding claim_valid_iff by blast+
  obtain resp err s' where run: "client_Claim P ''n'' es (write_request uri agent) s = ((resp, err), s')"
    by (metis prod.collapse)
  let ?sv = "New_server False [] 0 0 0 ''n'' s"
  have "sv_namespace ?sv = ''n''" "sv_store ?sv = s" by (simp_all add: New_server_def)
  then have "sv_store (snd (handleClaim P es (claim_post uri agent) ?sv)) = s'"
    unfolding handleClaim_def body option.case v by (cases err) (simp_all add: run)
  moreover have "ServeHTTP sub P es (claim_post uri agent) ?sv = handleClaim P es (claim_post uri agent) ?sv"
    by (simp add: ServeHTTP_def path post_routes_def rate_Wrap_def auth_Wrap_def New_server_def NewRateLimiter_def)
  ultimately show ?thesis by (simp add: run)
qed

lemma sq_claim_free:
  assumes "sq_ok s"
    and "\<forall>a \<in> set (FilterActiveClaims t (filter sq_seen (sq_log s ns))). \<not> blocks a (request_claim (default_ttl req) t t)"
  obtains m where "sq_log (snd (client_Claim sqlite_provider ns (\<lambda>_. calm t) req s)) ns = sq_log s ns @ [m]"
    "m_Type m = MsgClaim" "m_Payload m = Some (claim_json (request_claim (default_ttl req) t t))"
    "sq_ok (snd (client_Claim sqlite_provider ns (\<lambda>_. calm t) req s))"
proof -
  let ?c = "request_claim (default_ttl req) t t"
  let ?m = "new_message MsgClaim (rq_AgentID (default_ttl req)) (claim_json ?c)"
  have "fst (sq_Append (calm t) ns [?m] s) = None" by (intro sq_Append_one) simp
  then obtain s' where "sq_Append (calm t) ns [?m] s = (None, s')" by (metis prod.collapse)
  then have run: "client_Claim sqlite_provider ns (\<lambda>_. calm t) req s =
      ((Some \<lparr>rs_ClaimID = c_ClaimID ?c, rs_Conflict = None\<rparr>, None), s')"
    using assms by (simp add: client_Claim_def Let_def sq_ActiveClaims_eq CheckConflict_eq matching_claims_def filter_empty_conv)
  from sq.claim_granted [OF assms(1) this] run that show ?thesis by (auto simp: Let_def)
qed

definition after_bob :: "sqlite deployment" where
  "after_bob = (fresh_deployment sample_time sq_New)\<lparr>dp_Server := snd (ServeHTTP (\<lambda>_ _ _. Inr []) sqlite_provider
     (\<lambda>_. calm sample_time) (claim_post ''file://a.go'' ''bob'') (dp_Server (fresh_deployment sample_time sq_New)))\<rparr>"

definition after_alice :: "sqlite deployment" where
  "after_alice = (fresh_deployment sample_time (dp_store after_bob))\<lparr>dp_Server := snd (ServeHTTP (\<lambda>_ _ _. Inr []) sqlite_provider
     (\<lambda>_. calm sample_time) (claim_post ''file://b.go'' ''alice'') (dp_Server (fresh_deployment sample_time (dp_store after_bob))))\<rparr>"

lemma rest_step:
  "sys_step sqlite_provider False sample_server (fresh_deployment sample_time s)
     ((fresh_deployment sample_time s)\<lparr>dp_Server := snd (ServeHTTP sub sqlite_provider (\<lambda>_. calm sample_time)
        (claim_post uri agent) (dp_Server (fresh_deployment sample_time s)))\<rparr>)"
proof -
  have "within sample_time sample_time (\<lambda>_. calm sample_time)" by (simp add: within_def)
  from sys_step.rest [OF prod.collapse [symmetric], of "fresh_deployment sample_time s" sample_time
      "\<lambda>_. calm sample_time" False "claim_post uri agent" sqlite_provider sample_server sub] this
  show ?thesis by (simp add: fresh_deployment_def claim_post_def)
qed

lemma after_alice_reachable: "sys_reachable sqlite_provider False sample_server sq_New after_alice"
proof -
  have "sys_reachable sqlite_provider False sample_server sq_New (fresh_deployment sample_time sq_New)"
    by (rule sys_reachable.start) (use fresh_start [of "fresh_deployment sample_time sq_New"] in \<open>simp add: fresh_deployment_def New_server_def\<close>)
  from sys_reachable.step [OF this rest_step]
  have "sys_reachable sqlite_provider False sample_server sq_New after_bob" unfolding after_bob_def .
  moreover have "sys_step sqlite_provider False sample_server after_bob (fresh_deployment sample_time (dp_store after_bob))"
    by (rule sys_step.restart [OF fresh_start]) (simp_all add: fresh_deployment_def after_bob_def)
  ultimately have "sys_reachable sqlite_provider False sample_server sq_New (fresh_deployment sample_time (dp_store after_bob))"
    by (rule sys_reachable.step)
  from sys_reachable.step [OF this rest_step] show ?thesis unfolding after_alice_def .
qed

text \<open>C3: In every state of a deployment on SQLite, whatever requests, commands,
  hooks, file changes and ticks came before, with any failures of the database and any restarts, the
  tables keep their primary keys, every message has a positive offset that is also its sequence
  number, no task is stored as working, and only completed tasks have a claim.\<close>

theorem deployment_types:
  assumes "sys_reachable sqlite_provider raw x sq_New d"
  shows "sq_typed (dp_store d) \<and> (\<forall>t \<in> set (sq_tasks (dp_store d)). settled (t_State t) (t_ClaimID t))"
  using types_reachable [OF assms] by (simp add: sq_tidy_def tidy_def)

theorem deployment_types_witness:
  "sq_typed (dp_store after_alice)"
  using deployment_types [OF after_alice_reachable] by blast

lemma sealed_step:
  assumes "sys_step sqlite_provider False x d d'" "sv_namespace (dp_Server d) = x_client x"
    and "sq_deaf.sealed_at (x_client x) (dp_Now d) (dp_store d)"
  shows "sq_deaf.sealed_at (x_client x) (dp_Now d') (dp_store d')"
proof -
  let ?K = "\<lambda>b. sq_deaf.sealed_at (x_client x) (if b then max (dp_Now d) (dp_Now d') else dp_Now d)"
  have start: "?K False (dp_store d)" using assms(3) by simp
  have "?K True (dp_store d')"
  proof (rule sq_sealed.kept_step [OF assms(1) _ refl assms(2)])
    show "sq_deaf.sealed_at (x_client x) (if False then max (dp_Now d) (dp_Now d') else dp_Now d) (dp_store d)"
      by (rule start)
    show "sq_deaf.sealed_at (x_client x) (if True then max (dp_Now d) (dp_Now d') else dp_Now d)
        (snd (snd (a2a_serve sqlite_provider x es gone out r a (dp_store d))))"
      if "within (dp_Now d) (dp_Now d') es" for es gone out r a
      by (rule sq_sealed.kept_a2a [OF refl that start])
  qed simp_all
  with sys_step_time [OF assms(1)] show ?thesis by (simp add: max_absorb2)
qed

lemma sealed_reachable:
  assumes "sys_reachable sqlite_provider False x sq_New d"
  shows "sq_deaf.sealed_at (x_client x) (dp_Now d) (dp_store d)"
  using assms
proof (induction rule: sys_reachable.induct)
  case (start d)
  then show ?case
    by (simp add: sys_start_simps sq_deaf.sealed_at_def sq_ok_New sealed_def)
      (simp add: sq_log_def rows_of_def sq_New_def FilterActiveClaims_eq)
next
  case (step d d')
  then show ?case using sealed_step types_reachable [of False x d] by blast
qed



end
