(* ===== verification/Contract.thy ===== *)
theory Contract
  imports ManagedFacts System
begin

text \<open>
  The contract that every back end is tested against, \<open>internal/contract.go\<close>, as a program over the
  provider interface: each subtest is a function of what its factory returns, and yields the failure
  that stops it, if any. What a test prints of a value with \<open>%+v\<close> is left out.
\<close>

section \<open>The tests\<close>

text \<open>\<open>t.Fatal\<close> of an error, \<open>t.Fatalf\<close>, and the panic of a nil pointer.\<close>

datatype failure = Fatal error | Fatalf string | NilPointer

text \<open>A factory makes a provider: a fresh store, or the one that is there. \<open>es 0\<close> is the test itself,
  then come its calls in order.\<close>

type_synonym 's factory = "'s \<Rightarrow> error + 's"
type_synonym 's subtest = "'s provider \<Rightarrow> envs \<Rightarrow> 's factory \<Rightarrow> string \<Rightarrow> 's \<Rightarrow> failure option \<times> 's"

definition testCreateNamespace :: "'s subtest" where
  "testCreateNamespace P es factory nsID s =
     (case factory s of
        Inl err \<Rightarrow> (Some (Fatal err), s)
      | Inr s \<Rightarrow>
          let s = snd (p_DeleteNamespace P (es 1) nsID s)
          in case p_CreateNamespace P (es 2) \<lparr>ns_ID = nsID, ns_CreatedAt = Now (es 0) 0\<rparr> s of
               (Some err, s) \<Rightarrow> (Some (Fatal err), s)
             | (None, s) \<Rightarrow> (None, s))"

text \<open>What the others do first: here the error of creating the namespace is ignored.\<close>

definition emptied :: "'s provider \<Rightarrow> envs \<Rightarrow> string \<Rightarrow> 's \<Rightarrow> 's" where
  "emptied P es nsID s =
     snd (p_CreateNamespace P (es 2) \<lparr>ns_ID = nsID, ns_CreatedAt = Now (es 0) 0\<rparr>
       (snd (p_DeleteNamespace P (es 1) nsID s)))"

definition testAppendAndQuery :: "'s subtest" where
  "testAppendAndQuery P es factory nsID s =
     (case factory s of
        Inl err \<Rightarrow> (Some (Fatal err), s)
      | Inr s \<Rightarrow>
          let s = emptied P es nsID s
          in case p_Append P (es 3) nsID [new_message MsgClaim ''a1'' (JObj [(''x'', JNum 1)])] s of
               (Some err, s) \<Rightarrow> (Some (Fatal err), s)
             | (None, s) \<Rightarrow>
                 (case p_Query P (es 4) nsID no_opts s of
                    Inl err \<Rightarrow> (Some (Fatal err), s)
                  | Inr msgs \<Rightarrow>
                      (if length msgs \<noteq> 1 then
                         (Some (Fatalf (''expected 1, got '' @ itoa (int (length msgs)))), s)
                       else if m_Offset (msgs ! 0) < 1 then
                         (Some (Fatalf (''expected offset >= 1, got '' @ itoa (m_Offset (msgs ! 0)))), s)
                       else (None, s))))"

definition test_claim :: "time \<Rightarrow> claim" where
  "test_claim now = zero_claim\<lparr>c_ClaimID := ''c1'', c_AgentID := ''a1'', c_ResourceURI := ''file://x.ts'',
     c_Operation := OpWrite, c_TTLSeconds := 300, c_CreatedAt := now\<rparr>"

definition claim_appended :: "'s provider \<Rightarrow> envs \<Rightarrow> string \<Rightarrow> 's \<Rightarrow> 's" where
  "claim_appended P es nsID s =
     snd (p_Append P (es 3) nsID [new_message MsgClaim ''a1'' (claim_json (test_claim (Now (es 0) 1)))] s)"

definition testActiveClaims :: "'s subtest" where
  "testActiveClaims P es factory nsID s =
     (case factory s of
        Inl err \<Rightarrow> (Some (Fatal err), s)
      | Inr s \<Rightarrow>
          let s = claim_appended P es nsID (emptied P es nsID s)
          in case p_ActiveClaims P (es 4) nsID ''file://x.ts'' s of
               Inl err \<Rightarrow> (Some (Fatal err), s)
             | Inr claims \<Rightarrow>
                 (if length claims \<noteq> 1 \<or> c_ClaimID (claims ! 0) \<noteq> ''c1''
                  then (Some (Fatalf ''expected claim c1, got ''), s) else (None, s)))"

definition testRelease :: "'s subtest" where
  "testRelease P es factory nsID s =
     (case factory s of
        Inl err \<Rightarrow> (Some (Fatal err), s)
      | Inr s \<Rightarrow>
          let s = claim_appended P es nsID (emptied P es nsID s);
              s = snd (p_Append P (es 4) nsID [new_message MsgRelease []
                    (JObj [(''claim_id'', JStr ''c1''), (''outcome'', JStr ''succeeded'')])] s)
          in case p_ActiveClaims P (es 5) nsID ''file://x.ts'' s of
               Inl err \<Rightarrow> (Some (Fatal err), s)
             | Inr claims \<Rightarrow>
                 (if length claims \<noteq> 0 then
                    (Some (Fatalf (''expected 0 active claims after release, got '' @ itoa (int (length claims)))), s)
                  else (None, s)))"

definition test_task :: "string \<Rightarrow> time \<Rightarrow> time \<Rightarrow> a2a_task" where
  "test_task nsID status created = zero_a2a_task\<lparr>t_ID := ''task-1'', t_State := ''submitted'',
     t_StatusTime := status, t_Namespace := nsID, t_CreatedAt := created\<rparr>"

text \<open>The error of the last \<open>GetTask\<close> is ignored, although it comes with a nil pointer.\<close>

definition testA2ATaskCRUD :: "'s subtest" where
  "testA2ATaskCRUD P es factory nsID s =
     (case factory s of
        Inl err \<Rightarrow> (Some (Fatal err), s)
      | Inr s \<Rightarrow>
          let s = emptied P es nsID s; task = test_task nsID (Now (es 0) 1) (Now (es 0) 2)
          in case p_CreateTask P (es 3) nsID task s of
               (Some err, s) \<Rightarrow> (Some (Fatal err), s)
             | (None, s) \<Rightarrow>
                 (case p_GetTask P (es 4) nsID ''task-1'' s of
                    Inl err \<Rightarrow> (Some (Fatal err), s)
                  | Inr got \<Rightarrow>
                      if t_ID got \<noteq> ''task-1'' \<or> t_State got \<noteq> ''submitted'' then
                        (Some (Fatalf ''expected task-1 submitted, got ''), s)
                      else (case p_UpdateTask P (es 5) nsID (task\<lparr>t_State := ''completed''\<rparr>) s of
                          (Some err, s) \<Rightarrow> (Some (Fatal err), s)
                        | (None, s) \<Rightarrow>
                            (case p_GetTask P (es 6) nsID ''task-1'' s of
                               Inl err \<Rightarrow> (Some NilPointer, s)
                             | Inr got \<Rightarrow>
                                 if t_State got \<noteq> ''completed'' then
                                   (Some (Fatalf (''expected completed, got '' @ t_State got)), s)
                                 else (None, s)))))"

text \<open>The suite runs its subtests in order, whatever becomes of them.\<close>

definition subtests :: "(string \<times> 's subtest) list" where
  "subtests = [(''CreateNamespace'', testCreateNamespace), (''AppendAndQuery'', testAppendAndQuery),
     (''ActiveClaims'', testActiveClaims), (''Release'', testRelease), (''A2ATaskCRUD'', testA2ATaskCRUD)]"

fun run_subtests ::
  "'s provider \<Rightarrow> (nat \<Rightarrow> envs) \<Rightarrow> string \<Rightarrow> 's factory \<Rightarrow> (string \<times> 's subtest) list \<Rightarrow> 's \<Rightarrow>
     (string \<times> failure option) list" where
  "run_subtests P ess name factory [] s = []"
| "run_subtests P ess name factory ((sub, test) # tests) s =
     (case test P (ess 0) factory (''ns-'' @ name @ ''-'' @ sub) s of
        (res, s') \<Rightarrow> (name @ ''/'' @ sub, res) # run_subtests P (\<lambda>i. ess (Suc i)) name factory tests s')"

definition RunProviderContractTests ::
  "'s provider \<Rightarrow> (nat \<Rightarrow> envs) \<Rightarrow> string \<Rightarrow> 's factory \<Rightarrow> 's \<Rightarrow> (string \<times> failure option) list" where
  "RunProviderContractTests P ess name factory s = run_subtests P ess name factory subtests s"

definition passes :: "(string \<times> failure option) list \<Rightarrow> bool" where
  "passes results \<longleftrightarrow> list_all (\<lambda>(sub, res). res = None) results"

section \<open>What a back end needs to pass\<close>

text \<open>\<open>works e\<close>: nothing fails in this call. \<open>task_of\<close> is the stored task, and \<open>vacant\<close> says that
  an id can be used for a new task of a namespace once that has been emptied.\<close>

locale tested_store = query_store P log ok seen
  for P :: "'s provider" and log :: "'s \<Rightarrow> string \<Rightarrow> message list" and ok :: "'s \<Rightarrow> bool"
    and seen :: "message \<Rightarrow> bool" +
  fixes works :: "env \<Rightarrow> bool"
    and task_of :: "'s \<Rightarrow> string \<Rightarrow> string \<Rightarrow> a2a_task option"
    and vacant :: "string \<Rightarrow> string \<Rightarrow> 's \<Rightarrow> bool"
  assumes log_positive: "ok s \<Longrightarrow> m \<in> set (log s ns) \<Longrightarrow> 0 < m_Offset m"
    and recreated: "ok s \<Longrightarrow> works e \<Longrightarrow> works e' \<Longrightarrow> p_CreateNamespace P e' n (snd (p_DeleteNamespace P e (ns_ID n) s)) = (r, s') \<Longrightarrow>
      r = None \<and> ok s' \<and> log s' (ns_ID n) = [] \<and> (i \<noteq> [] \<longrightarrow> vacant (ns_ID n) i s \<longrightarrow> task_of s' (ns_ID n) i = None \<and> vacant (ns_ID n) i s')"
    and append_works: "ok s \<Longrightarrow> works e \<Longrightarrow> fst (p_Append P e ns [m] s) = None"
    and query_works: "ok s \<Longrightarrow> works e \<Longrightarrow> \<exists>msgs. p_Query P e ns opts s = Inr msgs"
    and active_works: "ok s \<Longrightarrow> works e \<Longrightarrow> \<exists>cs. p_ActiveClaims P e ns pat s = Inr cs"
    and create_works: "works e \<Longrightarrow> task_of s ns (t_ID t) = None \<Longrightarrow> vacant ns (t_ID t) s \<Longrightarrow> p_CreateTask P e ns t s = (r, s') \<Longrightarrow>
      r = None \<and> map_option (\<lambda>x. (t_ID x, t_State x)) (task_of s' ns (t_ID t)) = Some (t_ID t, t_State t)"
    and update_works: "works e \<Longrightarrow> task_of s ns (t_ID t) \<noteq> None \<Longrightarrow> p_UpdateTask P e ns t s = (r, s') \<Longrightarrow>
      r = None \<and> map_option (\<lambda>x. (t_ID x, t_State x)) (task_of s' ns (t_ID t)) = Some (t_ID t, t_State t)"
    and get_works: "works e \<Longrightarrow> task_of s ns i = Some t \<Longrightarrow> p_GetTask P e ns i s = Inr t"
begin

lemma emptied_works:
  assumes "ok s" "works (es 1)" "works (es 2)"
  shows "ok (emptied P es nsID s) \<and> log (emptied P es nsID s) nsID = []"
proof -
  let ?n = "\<lparr>ns_ID = nsID, ns_CreatedAt = Now (es 0) 0\<rparr>"
  from recreated [OF assms, of ?n _ _ "''i''"] show ?thesis
    by (simp add: emptied_def) (metis prod.collapse)
qed

lemma emptied_vacant:
  assumes "ok s" "works (es 1)" "works (es 2)" "vacant nsID i s" "i \<noteq> []"
  shows "task_of (emptied P es nsID s) nsID i = None \<and> vacant nsID i (emptied P es nsID s)"
proof -
  let ?n = "\<lparr>ns_ID = nsID, ns_CreatedAt = Now (es 0) 0\<rparr>"
  from recreated [OF assms(1-3), of ?n _ _ i] assms(4,5) show ?thesis
    by (simp add: emptied_def) (metis prod.collapse)
qed

lemma append_works_one:
  assumes "ok s" "works e"
  obtains m' where "p_Append P e ns [m] s = (None, snd (p_Append P e ns [m] s))"
    "log (snd (p_Append P e ns [m] s)) ns = log s ns @ [m']" "stamped ns m m'" "follows (log s ns) m'"
    "ok (snd (p_Append P e ns [m] s))"
proof -
  have run: "p_Append P e ns [m] s = (None, snd (p_Append P e ns [m] s))"
    using append_works [OF assms, of ns m] by (metis prod.collapse)
  from append_one [OF assms(1) run] run that show thesis by metis
qed

lemma create_passes:
  assumes "\<forall>k. works (es k)" "factory s = Inr s0" "ok s0"
  shows "fst (testCreateNamespace P es factory nsID s) = None"
proof -
  let ?n = "\<lparr>ns_ID = nsID, ns_CreatedAt = Now (es 0) 0\<rparr>"
  obtain r s' where "p_CreateNamespace P (es 2) ?n (snd (p_DeleteNamespace P (es 1) nsID s0)) = (r, s')" by fastforce
  with recreated [OF assms(3), of "es 1" "es 2" ?n r s' "''i''"] assms(1,2) show ?thesis
    by (simp add: testCreateNamespace_def Let_def)
qed

lemma query_passes:
  assumes "\<forall>k. works (es k)" "factory s = Inr s0" "ok s0"
  shows "fst (testAppendAndQuery P es factory nsID s) = None"
proof -
  let ?s1 = "emptied P es nsID s0" and ?m = "new_message MsgClaim ''a1'' (JObj [(''x'', JNum 1)])"
  have ok1: "ok ?s1" "log ?s1 nsID = []" using emptied_works [OF assms(3)] assms(1) by blast+
  define s2 where "s2 = snd (p_Append P (es 3) nsID [?m] ?s1)"
  obtain m' where app: "p_Append P (es 3) nsID [?m] ?s1 = (None, s2)" and m': "log s2 nsID = [m']" "ok s2"
    using append_works_one [OF ok1(1), of "es 3" nsID ?m] assms(1) ok1(2) unfolding s2_def [symmetric] by auto
  obtain msgs where q: "p_Query P (es 4) nsID no_opts s2 = Inr msgs" using query_works [OF m'(2)] assms(1) by blast
  have pos: "0 < m_Offset m'" using log_positive [OF m'(2), of m' nsID] m'(1) by simp
  have "msgs = [m']"
    using query [OF m'(2) q] query_result_no_opts [of "log s2 nsID"] pos m'(1) by simp
  with pos show ?thesis unfolding testAppendAndQuery_def assms(2) sum.case Let_def app prod.case option.case q by simp
qed

lemma claim_appended_works:
  assumes "\<forall>k. works (es k)" "ok s0" "s1 = claim_appended P es nsID (emptied P es nsID s0)" "time_ok (Now (es 0) 1)"
  obtains m where "ok s1" "log s1 nsID = [m]" "m_Type m = MsgClaim" "decode_claim (m_Payload m) = Some (test_claim (Now (es 0) 1))"
proof -
  let ?m = "new_message MsgClaim ''a1'' (claim_json (test_claim (Now (es 0) 1)))"
  have ok1: "ok (emptied P es nsID s0)" "log (emptied P es nsID s0) nsID = []" using emptied_works [OF assms(2)] assms(1) by blast+
  obtain m' where m': "log s1 nsID = [m']" "stamped nsID ?m m'" "ok s1"
    using append_works_one [OF ok1(1), of "es 3" nsID ?m] assms(1) ok1(2) unfolding assms(3) claim_appended_def by auto
  have "claim_ok (test_claim (Now (es 0) 1))" using assms(4) by (simp add: claim_ok_def test_claim_def zero_claim_def)
  then have "decode_claim (m_Payload m') = Some (test_claim (Now (es 0) 1))"
    using m'(2) by (simp add: stamped_def decode_claim_json)
  with m' that show thesis by (simp add: stamped_def)
qed

lemma claims_pass:
  assumes "\<forall>k. works (es k)" "factory s = Inr s0" "ok s0" "time_ok (Now (es 0) 1)"
    and "Now (es 4) 0 \<le> Now (es 0) 1 + seconds 300"
  shows "fst (testActiveClaims P es factory nsID s) = None"
proof -
  let ?s1 = "claim_appended P es nsID (emptied P es nsID s0)"
  obtain m where m: "ok ?s1" "log ?s1 nsID = [m]" "m_Type m = MsgClaim" "decode_claim (m_Payload m) = Some (test_claim (Now (es 0) 1))"
    using claim_appended_works [OF assms(1,3) refl assms(4)] .
  obtain cs where cs: "p_ActiveClaims P (es 4) nsID ''file://x.ts'' ?s1 = Inr cs" using active_works [OF m(1)] assms(1) by blast
  have "seen m" using m(3) by (intro seen_types) simp
  moreover have "deadline [m] (test_claim (Now (es 0) 1)) = Now (es 0) 1 + seconds 300"
    using m(3) by (simp add: deadline_def test_claim_def)
  ultimately have "FilterActiveClaims (Now (es 4) 0) (filter seen [m]) = [test_claim (Now (es 0) 1)]"
    using m(3,4) assms(5) by (simp add: FilterActiveClaims_eq live_def released_in_def is_release_def)
  then have "cs = [test_claim (Now (es 0) 1)]"
    using active_claims [OF m(1) cs] m(2)
    by (simp add: matching_claims_def test_claim_def ResourceMatchesPattern_def resourceMatches_refl)
  then show ?thesis unfolding testActiveClaims_def assms(2) sum.case Let_def cs by (simp add: test_claim_def)
qed

lemma release_passes:
  assumes "\<forall>k. works (es k)" "factory s = Inr s0" "ok s0" "time_ok (Now (es 0) 1)"
  shows "fst (testRelease P es factory nsID s) = None"
proof -
  let ?s1 = "claim_appended P es nsID (emptied P es nsID s0)"
  let ?m = "new_message MsgRelease [] (JObj [(''claim_id'', JStr ''c1''), (''outcome'', JStr ''succeeded'')])"
  obtain m where m: "ok ?s1" "log ?s1 nsID = [m]" "m_Type m = MsgClaim" "decode_claim (m_Payload m) = Some (test_claim (Now (es 0) 1))"
    using claim_appended_works [OF assms(1,3) refl assms(4)] .
  let ?s2 = "snd (p_Append P (es 4) nsID [?m] ?s1)"
  obtain m' where m': "log ?s2 nsID = [m, m']" "stamped nsID ?m m'" "follows [m] m'" "ok ?s2"
    using append_works_one [OF m(1), of "es 4" nsID ?m] assms(1) m(2) by auto
  obtain cs where cs: "p_ActiveClaims P (es 5) nsID ''file://x.ts'' ?s2 = Inr cs" using active_works [OF m'(4)] assms(1) by blast
  have "fold_name ''outcome'' \<noteq> ''claim_id''" by (rule fold_name_keys)
  then have rel: "decode_ref (m_Payload m') = Some ''c1''" "is_release m'"
    using m'(2) by (simp_all add: stamped_def is_release_def decode_ref_first)
  then have "seen m'" by (intro seen_types) (auto simp: is_release_def)
  moreover have "seen m" using m(3) by (intro seen_types) simp
  moreover have "m_Offset m < m_Offset m'" using m'(3) by (simp add: follows_def)
  moreover have "m_Type m' \<noteq> MsgClaim" "m_Type m' \<noteq> MsgHeartbeat" using m'(2) by (simp_all add: stamped_def)
  ultimately have "FilterActiveClaims (Now (es 5) 0) (filter seen [m, m']) = []"
    using m(3,4) rel by (simp add: FilterActiveClaims_eq live_def released_in_def is_release_def test_claim_def)
  then have "cs = []" using active_claims [OF m'(4) cs] m'(1) by (simp add: matching_claims_def)
  then show ?thesis unfolding testRelease_def assms(2) sum.case Let_def cs by simp
qed

lemma tasks_pass:
  assumes "\<forall>k. works (es k)" "factory s = Inr s0" "ok s0" "vacant nsID ''task-1'' s0"
  shows "fst (testA2ATaskCRUD P es factory nsID s) = None"
proof -
  let ?s1 = "emptied P es nsID s0" and ?t = "test_task nsID (Now (es 0) 1) (Now (es 0) 2)"
  have t: "t_ID ?t = ''task-1''" "t_State ?t = ''submitted''" by (simp_all add: test_task_def)
  have v: "task_of ?s1 nsID ''task-1'' = None" "vacant nsID ''task-1'' ?s1"
    using emptied_vacant [OF assms(3) _ _ assms(4)] assms(1) by blast+
  obtain r2 s2 where c: "p_CreateTask P (es 3) nsID ?t ?s1 = (r2, s2)" by fastforce
  from create_works [OF _ _ _ this] v assms(1) t obtain t1 where
    t1: "r2 = None" "task_of s2 nsID ''task-1'' = Some t1" "t_ID t1 = ''task-1''" "t_State t1 = ''submitted''" by auto
  let ?u = "?t\<lparr>t_State := ''completed''\<rparr>"
  obtain r3 s3 where u: "p_UpdateTask P (es 5) nsID ?u s2 = (r3, s3)" by fastforce
  from update_works [OF _ _ this] t1 assms(1) t obtain t2 where
    t2: "r3 = None" "task_of s3 nsID ''task-1'' = Some t2" "t_State t2 = ''completed''" by auto
  have g: "p_GetTask P (es 4) nsID ''task-1'' s2 = Inr t1" "p_GetTask P (es 6) nsID ''task-1'' s3 = Inr t2"
    using get_works t1(2) t2(2) assms(1) by blast+
  show ?thesis
    unfolding testA2ATaskCRUD_def assms(2) sum.case Let_def c t1(1) prod.case option.case g u t2(1)
    using t1 t2 by simp
qed

text \<open>Every subtest passes if each call works, no more than 300 seconds pass, and the factory makes
  well-formed stores in which the id of the test's task is free.\<close>

lemma contract_passed:
  assumes "\<forall>i k. works (ess i k)" and "\<forall>i. within t (t + seconds 300) (ess i)"
    and "\<forall>s. \<exists>s0. factory s = Inr s0 \<and> ok s0 \<and> vacant (''ns-'' @ name @ ''-A2ATaskCRUD'') ''task-1'' s0"
  shows "passes (RunProviderContractTests P ess name factory s)"
proof -
  have clock: "time_ok (Now (ess i k) j)" "Now (ess i k) j \<le> Now (ess i l) n + seconds 300" for i k j l n
  proof -
    have "Now (ess i k) j \<le> t + seconds 300" "t \<le> Now (ess i l) n" using assms(2) by (auto simp: within_def)
    then show "Now (ess i k) j \<le> Now (ess i l) n + seconds 300" by linarith
    show "time_ok (Now (ess i k) j)" using assms(2) by (simp add: within_def)
  qed
  have w: "\<forall>k. works (ess i k)" for i using assms(1) by blast
  have each: "fst (testCreateNamespace P (ess i) factory ns s) = None"
    "fst (testAppendAndQuery P (ess i) factory ns s) = None" "fst (testActiveClaims P (ess i) factory ns s) = None"
    "fst (testRelease P (ess i) factory ns s) = None"
    "fst (testA2ATaskCRUD P (ess i) factory (''ns-'' @ name @ ''-A2ATaskCRUD'') s) = None" for i ns s
  proof -
    obtain s0 where s0: "factory s = Inr s0" "ok s0" "vacant (''ns-'' @ name @ ''-A2ATaskCRUD'') ''task-1'' s0"
      using assms(3) by blast
    note w = w [of i]
    show "fst (testCreateNamespace P (ess i) factory ns s) = None" by (rule create_passes [where es = "ess i" and factory = factory, OF w s0(1,2)])
    show "fst (testAppendAndQuery P (ess i) factory ns s) = None" by (rule query_passes [where es = "ess i" and factory = factory, OF w s0(1,2)])
    show "fst (testActiveClaims P (ess i) factory ns s) = None" by (rule claims_pass [where es = "ess i" and factory = factory, OF w s0(1,2) clock])
    show "fst (testRelease P (ess i) factory ns s) = None" by (rule release_passes [where es = "ess i" and factory = factory, OF w s0(1,2) clock(1)])
    show "fst (testA2ATaskCRUD P (ess i) factory (''ns-'' @ name @ ''-A2ATaskCRUD'') s) = None"
      by (rule tasks_pass [where es = "ess i" and factory = factory, OF w s0])
  qed
  show ?thesis
    by (simp add: passes_def RunProviderContractTests_def subtests_def split_beta each(1-4) each(5) [simplified])
qed

end

section \<open>The in-memory and the SQLite back end\<close>

lemma mem_recreated:
  assumes "mem_ok s" "mem_CreateNamespace e' n (snd (mem_DeleteNamespace e (ns_ID n) s)) = (r, s')"
  shows "r = None \<and> mem_ok s' \<and> mem_log s' (ns_ID n) = [] \<and>
    (i \<noteq> [] \<longrightarrow> mem_tasks s' (task_key (ns_ID n) i) = None)"
proof -
  have "key_in (ns_ID n) (task_key (ns_ID n) i)" if "i \<noteq> []"
    using that by (simp add: key_in_def task_key_def)
  with assms show ?thesis
    by (auto simp: mem_CreateNamespace_def mem_DeleteNamespace_def mem_ok_def mem_log_def Let_def split: if_splits)
qed

interpretation mem_test: tested_store memory_provider mem_log mem_ok "\<lambda>_. True" "\<lambda>_. True"
  "\<lambda>s ns i. mem_tasks s (task_key ns i)" "\<lambda>_ _ _. True"
proof (unfold_locales, goal_cases)
  case (1 s m ns)
  then show ?case by (rule mem_ok_positive)
next
  case (2 s e e' n r s' i)
  then show ?case using mem_recreated [of s e' n e r s' i] by simp
qed (auto simp: mem_Append_def mem_Query_def mem_ActiveClaims_def mem_CreateTask_def mem_UpdateTask_def mem_GetTask_def Let_def
    split: if_splits)

definition sq_task_of :: "sqlite \<Rightarrow> string \<Rightarrow> string \<Rightarrow> a2a_task option" where
  "sq_task_of s ns i = find (\<lambda>t. t_Namespace t = ns \<and> t_ID t = i) (sq_tasks s)"

definition sq_vacant :: "string \<Rightarrow> string \<Rightarrow> sqlite \<Rightarrow> bool" where
  "sq_vacant ns i s \<longleftrightarrow> (\<forall>t \<in> set (sq_tasks s). t_ID t = i \<longrightarrow> t_Namespace t = ns)"

definition sq_works :: "env \<Rightarrow> bool" where
  "sq_works e \<longleftrightarrow> (\<forall>i. Fault e i = None)"

lemma sq_recreated:
  assumes "sq_ok s" "sq_works e" "sq_works e'"
    and "sq_CreateNamespace e' n (snd (sq_DeleteNamespace e (ns_ID n) s)) = (r, s')"
  shows "r = None \<and> sq_ok s' \<and> sq_log s' (ns_ID n) = [] \<and>
    (sq_vacant (ns_ID n) i s \<longrightarrow> sq_task_of s' (ns_ID n) i = None \<and> sq_vacant (ns_ID n) i s')"
proof -
  let ?d = "snd (sq_DeleteNamespace e (ns_ID n) s)"
  have d: "sq_messages ?d = filter (\<lambda>r. r_Namespace r \<noteq> ns_ID n) (sq_messages s)"
      "sq_tasks ?d = filter (\<lambda>t. t_Namespace t \<noteq> ns_ID n) (sq_tasks s)"
      "sq_namespaces ?d = filter (\<lambda>m. ns_ID m \<noteq> ns_ID n) (sq_namespaces s)"
    using assms(2) by (simp_all add: sq_DeleteNamespace_def sq_works_def committed_def)
  have "ns_ID n \<notin> ns_ID ` set (sq_namespaces ?d)" by (auto simp: d(3))
  then have c: "r = None" "s' = ?d\<lparr>sq_namespaces := sq_namespaces ?d @ [n]\<rparr>"
    using assms(3,4) by (simp_all add: sq_CreateNamespace_def sq_works_def insert_row_def committed_def)
  have "sq_task_of s' (ns_ID n) i = None"
    by (auto simp: sq_task_of_def find_None_iff c(2) d(2))
  with c assms(1) show ?thesis
    by (auto simp: sq_ok_def sq_log_def rows_of_def d distinct_map_filter sq_vacant_def filter_empty_conv)
qed

lemma find_append_None: "find Q xs = None \<Longrightarrow> find Q (xs @ ys) = find Q ys"
  by (induction xs) (auto split: if_splits)

lemma find_map_same: "(\<And>x. Q (f x) = Q x) \<Longrightarrow> find Q (map f xs) = map_option f (find Q xs)"
  by (induction xs) simp_all

lemma find_filter: "find Q xs = Some t \<Longrightarrow> \<exists>ts. filter Q xs = t # ts"
  by (induction xs) (auto split: if_splits)

interpretation sq_test: tested_store sqlite_provider sq_log sq_ok sq_seen sq_works sq_task_of sq_vacant
proof (unfold_locales, goal_cases)
  case (1 s m ns)
  then show ?case by (rule sq_log_positive)
next
  case (2 s e e' n r s' i)
  then show ?case using sq_recreated [of s e e' n r s' i] by simp
next
  case (3 s e ns m)
  then show ?case by (simp add: sq_Append_one sq_works_def)
next
  case (6 e s ns t r s')
  have "t_ID x \<noteq> t_ID t" if x: "x \<in> set (sq_tasks s)" for x
  proof
    assume "t_ID x = t_ID t"
    with x 6(3) have "t_Namespace x = ns \<and> t_ID x = t_ID t" by (simp add: sq_vacant_def)
    with x 6(2) show False by (auto simp: sq_task_of_def find_None_iff)
  qed
  then have "t_ID t \<notin> t_ID ` set (sq_tasks s)" by force
  with 6 show ?case
    by (simp add: sq_CreateTask_def sq_works_def insert_row_def committed_def)
      (auto simp: sq_task_of_def find_append_None)
next
  case (7 e s ns t r s')
  let ?f = "\<lambda>r. if t_Namespace r = ns \<and> t_ID r = t_ID t
        then r\<lparr>t_SessionID := t_SessionID t, t_State := t_State t, t_StatusMsg := t_StatusMsg t,
               t_StatusTime := t_StatusTime t, t_ClaimID := t_ClaimID t, t_Metadata := t_Metadata t\<rparr>
        else r"
  obtain t0 where t0: "find (\<lambda>x. t_Namespace x = ns \<and> t_ID x = t_ID t) (sq_tasks s) = Some t0"
    using 7(2) by (auto simp: sq_task_of_def)
  then have "t_Namespace t0 = ns" "t_ID t0 = t_ID t" by (auto simp: find_Some_iff)
  with 7 t0 show ?case
    by (simp add: sq_UpdateTask_def sq_works_def committed_def)
      (auto simp: sq_task_of_def find_map_same)
next
  case (8 e s ns i t)
  from find_filter [OF 8(2) [unfolded sq_task_of_def]] 8(1) show ?case
    by (auto simp: sq_GetTask_def sq_works_def)
qed (simp_all add: sq_Query_def sq_ActiveClaims_def sq_works_def Let_def)

section \<open>Who passes\<close>



section \<open>Who fails\<close>

lemma tasks_fail:
  assumes "\<And>s0. factory s = Inr s0 \<Longrightarrow>
    fst (p_CreateTask P (es 3) nsID (test_task nsID (Now (es 0) 1) (Now (es 0) 2)) (emptied P es nsID s0)) \<noteq> None"
  shows "fst (testA2ATaskCRUD P es factory nsID s) \<noteq> None"
proof (cases "factory s")
  case (Inr s0)
  let ?t = "test_task nsID (Now (es 0) 1) (Now (es 0) 2)"
  obtain r s' where c: "p_CreateTask P (es 3) nsID ?t (emptied P es nsID s0) = (r, s')" by fastforce
  with assms [OF Inr] have "r \<noteq> None" by simp
  then show ?thesis unfolding testA2ATaskCRUD_def Inr sum.case Let_def c prod.case by (cases r) simp_all
qed (simp add: testA2ATaskCRUD_def)

lemma suite_fails:
  assumes "\<And>s i. fst (testA2ATaskCRUD P (ess i) factory (''ns-'' @ name @ ''-A2ATaskCRUD'') s) \<noteq> None"
  shows "\<not> list_all (\<lambda>(sub, res). res = None) (RunProviderContractTests P ess name factory s)"
  using assms by (simp add: RunProviderContractTests_def subtests_def split_beta)

lemma taken_id:
  assumes "x \<in> set (sq_tasks d)" "t_ID x = t_ID t" "t_Namespace x \<noteq> ns"
  shows "fst (sq_CreateTask e ns t (emptied sqlite_provider es ns d)) \<noteq> None"
proof -
  obtain r d' where del: "sq_DeleteNamespace (es 1) ns d = (r, d')" by fastforce
  then have "x \<in> set (sq_tasks d')" using assms(1,3) by (cases r) (auto simp: sq_DeleteNamespace_def)
  then have "x \<in> set (sq_tasks (emptied sqlite_provider es ns d))"
    using del by (simp add: emptied_def untouched_tasks(1))
  then have "t_ID t \<in> t_ID ` set (sq_tasks (emptied sqlite_provider es ns d))" using assms(2) by (metis image_eqI)
  then show ?thesis by (simp add: sq_CreateTask_def insert_row_def exec_def committed_def split: option.split)
qed

lemma managed_tasks_refused:
  "fst (mg_CreateTask (over_rest base subscribe P es_of) (mg_New base token) e ns t sv) \<noteq> None"
  using refused_post [of "''/tasks/create''" sv base subscribe P es_of token e]
  by (simp add: mg_CreateTask_def unserved_def refused_def)

text \<open>C30: Two deployments never pass the contract, whatever the factory returns: the
  managed provider against the repository's own server, which has no task routes (its test talks to a
  mock that has them), and SQLite as soon as another namespace has a task of the same id, because the
  primary key of the tasks does not include the namespace.\<close>

theorem contract_fails:
  assumes "\<And>s. \<exists>d x. db s = Inr d \<and> x \<in> set (sq_tasks d) \<and> t_ID x = ''task-1'' \<and>
    t_Namespace x \<noteq> ''ns-sqlite-A2ATaskCRUD''"
  shows "\<not> list_all (\<lambda>(sub, res). res = None) (RunProviderContractTests
      (managed_provider (over_rest base subscribe P es_of) (mg_New base token)) ess ''managed'' factory sv) \<and>
    \<not> list_all (\<lambda>(sub, res). res = None) (RunProviderContractTests sqlite_provider ess ''sqlite'' db s)"
proof
  show "\<not> list_all (\<lambda>(sub, res). res = None) (RunProviderContractTests
      (managed_provider (over_rest base subscribe P es_of) (mg_New base token)) ess ''managed'' factory sv)"
    by (rule suite_fails, rule tasks_fail) (simp add: managed_provider_def managed_tasks_refused)
  show "\<not> list_all (\<lambda>(sub, res). res = None) (RunProviderContractTests sqlite_provider ess ''sqlite'' db s)"
  proof (rule suite_fails, rule tasks_fail)
    fix s i d assume d: "db s = Inr d"
    with assms [of s] obtain x where x: "x \<in> set (sq_tasks d)" "t_ID x = ''task-1''"
      "t_Namespace x \<noteq> ''ns-sqlite-A2ATaskCRUD''" by auto
    have ns: "''ns-'' @ ''sqlite'' @ ''-A2ATaskCRUD'' = ''ns-sqlite-A2ATaskCRUD''" by simp
    show "fst (p_CreateTask sqlite_provider (ess i 3) (''ns-'' @ ''sqlite'' @ ''-A2ATaskCRUD'')
        (test_task (''ns-'' @ ''sqlite'' @ ''-A2ATaskCRUD'') (Now (ess i 0) 1) (Now (ess i 0) 2))
        (emptied sqlite_provider (ess i) (''ns-'' @ ''sqlite'' @ ''-A2ATaskCRUD'') d)) \<noteq> None"
      unfolding ns sqlite_provider_simps by (rule taken_id [OF x(1) _ x(3)]) (simp add: x(2) test_task_def)
  qed
qed

theorem contract_fails_witness:
  "\<not> list_all (\<lambda>(sub, res). res = None) (RunProviderContractTests sqlite_provider (\<lambda>_ _. calm 5) ''sqlite''
     (\<lambda>_. Inr (sq_New\<lparr>sq_tasks := [test_task ''team'' 1 1]\<rparr>)) sq_New)"
  by (rule contract_fails [THEN conjunct2]) (simp add: test_task_def)

end
