(* ===== verification/RequestLog.thy ===== *)
theory RequestLog
  imports Server Cli
begin

text \<open>
  The logging middleware of the REST server, \<open>internal/server/middleware.go\<close>, with the text of a
  \<open>time.Duration\<close> that it prints and the line that Go's \<open>log\<close> package makes of a message. The response
  of the wrapped handler is passed on unchanged.
\<close>

section \<open>Durations\<close>

text \<open>\<open>fmtFrac\<close>: the fraction of \<open>prec\<close> digits without its trailing zeros, and no point if it is zero.\<close>

definition frac_text :: "nat \<Rightarrow> nat \<Rightarrow> string" where
  "frac_text prec v = (let ds = strip_zeros (pad prec v) in if ds = [] then [] else CHR ''.'' # ds)"

definition with_frac :: "nat \<Rightarrow> nat \<Rightarrow> string" where
  "with_frac prec v = utoa (v div 10 ^ prec) @ frac_text prec v"

text \<open>\<open>Duration.String\<close>: below a second in nanoseconds, microseconds or milliseconds, otherwise in
  hours, minutes and seconds. The micro sign is UTF-8.\<close>

definition Duration_String :: "duration \<Rightarrow> string" where
  "Duration_String d =
     (let u = nat \<bar>d\<bar>; secs = u div 10 ^ 9; mins = secs div 60
      in (if d < 0 then ''-'' else []) @
         (if u = 0 then ''0s''
          else if u < 10 ^ 3 then utoa u @ ''ns''
          else if u < 10 ^ 6 then with_frac 3 u @ [CHR 0xC2, CHR 0xB5, CHR ''s'']
          else if u < 10 ^ 9 then with_frac 6 u @ ''ms''
          else (if mins > 0 then (if mins div 60 > 0 then utoa (mins div 60) @ ''h'' else [])
                  @ utoa (mins mod 60) @ ''m'' else [])
               @ utoa (secs mod 60) @ frac_text 9 u @ ''s''))"

definition Milliseconds :: "duration \<Rightarrow> int" where
  "Milliseconds d = (if d < 0 then - (- d div 10 ^ 6) else d div 10 ^ 6)"

section \<open>The middleware\<close>

datatype LogFormat = LogFormatText | LogFormatJSON

text \<open>The two formats. \<open>now\<close> is the clock when the line is written.\<close>

definition log_text :: "string \<Rightarrow> string \<Rightarrow> string \<Rightarrow> int \<Rightarrow> duration \<Rightarrow> string" where
  "log_text meth path agentID code d =
     meth @ '' '' @ path @ '' '' @ agentID @ '' '' @ itoa code @ '' '' @ Duration_String d"

definition log_json :: "time \<Rightarrow> string \<Rightarrow> string \<Rightarrow> string \<Rightarrow> int \<Rightarrow> duration \<Rightarrow> string" where
  "log_json now meth path agentID code d =
     ''{\"time\":\"'' @ format_rfc3339 (now - now mod nanos_per_second) @ ''\",\"method\":\"'' @ meth
     @ ''\",\"path\":\"'' @ path @ ''\",\"agent_id\":\"'' @ agentID @ ''\",\"status\":'' @ itoa code
     @ '',\"duration_ms\":'' @ itoa (Milliseconds d) @ ''}''"

text \<open>\<open>e\<close> is the clock of the middleware: when the request comes, when the handler is done, when the line
  is written.\<close>

definition logging_Wrap :: "LogFormat \<Rightarrow> env \<Rightarrow> 's handler \<Rightarrow> 's provider \<Rightarrow> envs \<Rightarrow> request \<Rightarrow> 's server \<Rightarrow>
    (response \<times> 's server) \<times> string" where
  "logging_Wrap format e next P es r sv =
     (let agentID = (if hr_Header r ''X-Agent-ID'' = [] then ''-'' else hr_Header r ''X-Agent-ID'');
          res = next P es r sv;
          d = time_sub (Now e 1) (Now e 0)
      in (res, case format of
            LogFormatJSON \<Rightarrow> log_json (Now e 2) (hr_Method r) (hr_Path r) agentID (w_Status (fst res)) d
          | LogFormatText \<Rightarrow> log_text (hr_Method r) (hr_Path r) agentID (w_Status (fst res)) d))"

text \<open>The logger puts date and time in front and ends the message with a line break if it has none.\<close>

definition log_Output :: "string \<Rightarrow> string \<Rightarrow> string" where
  "log_Output stamp msg = stamp @ msg @ (if msg = [] \<or> last msg \<noteq> CHR 0x0A then [CHR 0x0A] else [])"

section \<open>Facts\<close>

lemma logging_transparent: "fst (logging_Wrap format e next P es r sv) = next P es r sv"
  by (simp add: logging_Wrap_def Let_def)

lemma strip_zeros_pad_0: "strip_zeros (pad k n) = []" if "n mod 10 ^ k = 0"
  using that
proof (induction k)
  case (Suc k)
  have "n mod 10 ^ k = 0" using Suc.prems by (metis dvd_eq_mod_eq_0 dvd_trans le_imp_power_dvd lessI less_imp_le)
  moreover have "n div 10 ^ k mod 10 = 0"
    using Suc.prems by (metis mod_0_imp_dvd dvd_eq_mod_eq_0 dvd_div_eq_0_iff dvd_mult_imp_div mult.commute power_Suc)
  ultimately show ?case using Suc.IH by (simp add: strip_zeros_def digit_char_def)
qed (simp add: strip_zeros_def)

text \<open>On whole seconds \<open>Duration.String\<close> is the text that the \<open>status\<close> command prints.\<close>

lemma Duration_String_seconds: "Duration_String (secs * nanos_per_second) = duration_text secs"
proof (cases "secs = 0")
  case True
  then show ?thesis by (simp add: Duration_String_def duration_text_def itoa_def utoa.simps [of 0] digit_char_def)
next
  case False
  define u where "u = nat \<bar>secs\<bar>"
  have u: "\<bar>secs\<bar> = int u" "u > 0" "secs * 1000000000 < 0 \<longleftrightarrow> secs < 0" using False by (auto simp: u_def)
  have abs: "nat \<bar>secs * nanos_per_second\<bar> = u * 10 ^ 9"
    by (simp add: abs_mult nanos_per_second_def nat_mult_distrib u_def)
  have frac: "frac_text 9 (u * 1000000000) = []"
    using strip_zeros_pad_0 [of "u * 1000000000" 9] by (simp add: frac_text_def del: pad.simps)
  have big: "\<not> u * 10 ^ 9 < 10 ^ k" if "k \<le> 9" for k :: nat
  proof -
    have "(10 :: nat) ^ k \<le> 10 ^ 9" using that by (intro power_increasing) simp_all
    then show ?thesis using u(2) by (metis One_nat_def Suc_leI mult_le_mono1 nat_mult_1 not_less order_trans)
  qed
  have "itoa (int k) = utoa k" for k by (simp add: itoa_def)
  from this [of "u div 3600"] this [of "u div 60 mod 60"] this [of "u div 60"] this [of "u mod 60"]
  have parts: "itoa (int u div 3600) = utoa (u div 3600)" "itoa (int u div 60 mod 60) = utoa (u div 60 mod 60)"
      "itoa (int u div 60) = utoa (u div 60)" "itoa (int u mod 60) = utoa (u mod 60)"
    by (simp_all add: zdiv_int zmod_int)
  show ?thesis
    unfolding Duration_String_def duration_text_def Let_def abs
    using big [of 3] big [of 6] big [of 9] u
    by (simp add: parts frac nanos_per_second_def div_greater_zero_iff div_mult2_eq [symmetric])
qed

text \<open>The text of a duration ends with the letter of its unit.\<close>

lemma ends_append: "\<exists>u. t = u @ w \<Longrightarrow> \<exists>u. s @ t = u @ w"
  by (metis append_assoc)

lemma ends_if: "\<exists>u. s = u @ w \<Longrightarrow> \<exists>u. t = u @ w \<Longrightarrow> \<exists>u. (if b then s else t) = u @ w"
  by simp

lemma ends_cons: "\<exists>u. t = u @ w \<Longrightarrow> \<exists>u. c # t = u @ w"
  by (metis append_Cons)

lemma ends_self: "\<exists>u. w = u @ w"
  by (rule exI [of _ "[]"]) simp

lemma Duration_String_ends: "\<exists>u. Duration_String d = u @ ''s''"
  unfolding Duration_String_def Let_def
  by ((rule ends_self | rule ends_if | rule ends_append | rule ends_cons)+)

text \<open>A line break in a path, which a client may send as \<open>%0A\<close>, goes to the log as it is: one request
  writes the lines of two.\<close>

lemma log_forged:
  "log_Output stamp (log_text meth (path @ '' '' @ agentID @ '' '' @ itoa code @ '' '' @ Duration_String d
      @ [CHR 0x0A] @ stamp' @ meth' @ '' '' @ path') agentID' code' d') =
   log_Output stamp (log_text meth path agentID code d) @ log_Output stamp' (log_text meth' path' agentID' code' d')"
proof -
  obtain u v where "Duration_String d = u @ ''s''" "Duration_String d' = v @ ''s''"
    using Duration_String_ends by metis
  then show ?thesis by (simp add: log_Output_def log_text_def)
qed

end
