(* ===== verification/Tls.thy ===== *)
theory Tls
  imports A2AAuth ProviderIface
begin

text \<open>
  The self-signed certificate of \<open>hearsay serve --tls-auto\<close>, \<open>internal/server/tls.go\<close>, with the PEM
  encoding of Go's \<open>encoding/pem\<close>. Generating a key, signing and marshalling are cryptography outside
  the repository and parameters, like the failures of the files; the files are a map from paths to
  contents.
\<close>

section \<open>PEM\<close>

definition base64_alphabet :: string where
  "base64_alphabet = ''ABCDEFGHIJKLMNOPQRSTUVWXYZabcdefghijklmnopqrstuvwxyz0123456789+/''"

text \<open>Groups of six bits, and how many padding characters follow.\<close>

fun sextets :: "nat list \<Rightarrow> nat list" where
  "sextets [] = []"
| "sextets [a] = [a div 4, 16 * (a mod 4)]"
| "sextets [a, b] = [a div 4, 16 * (a mod 4) + b div 16, 4 * (b mod 16)]"
| "sextets (a # b # c # bs) =
     [a div 4, 16 * (a mod 4) + b div 16, 4 * (b mod 16) + c div 64, c mod 64] @ sextets bs"

definition base64_encode :: "nat list \<Rightarrow> string" where
  "base64_encode bs =
     map (\<lambda>x. base64_alphabet ! x) (sextets bs) @ replicate ((3 - length bs mod 3) mod 3) (CHR ''='')"

text \<open>Lines of 64 characters, each ended with a line break.\<close>

function pem_lines :: "string \<Rightarrow> string" where
  "pem_lines s = (if s = [] then [] else take 64 s @ [CHR 0x0A] @ pem_lines (drop 64 s))"
  by auto

termination
  by (relation "measure length") auto

declare pem_lines.simps [simp del]

definition pem_Encode :: "string \<Rightarrow> nat list \<Rightarrow> string" where
  "pem_Encode ty bytes = ''-----BEGIN '' @ ty @ ''-----'' @ [CHR 0x0A] @ pem_lines (base64_encode bytes)
     @ ''-----END '' @ ty @ ''-----'' @ [CHR 0x0A]"

text \<open>What is encoded is read back by the decoder of the A2A server's keys.\<close>

lemma byte_parts:
  assumes "(b :: nat) < 256"
  shows "b div 16 mod 16 = b div 16" "b div 16 div 16 = 0" "b div 64 mod 4 = b div 64" "b div 64 div 4 = 0"
    "16 * (b div 16) + b mod 16 = b" "64 * (b div 64) + b mod 64 = b"
proof -
  have "b div 16 < 16" "b div 64 < 4" using assms by (simp_all add: less_mult_imp_div_less)
  then show "b div 16 mod 16 = b div 16" "b div 16 div 16 = 0" "b div 64 mod 4 = b div 64" "b div 64 div 4 = 0"
    by simp_all
qed simp_all

lemma decode_sextets_sextets: "\<forall>b \<in> set bs. b < 256 \<Longrightarrow> decode_sextets (sextets bs) = Some bs"
  by (induction bs rule: sextets.induct) (simp_all add: byte_parts)

section \<open>The certificate\<close>

text \<open>The fields of \<open>x509.Certificate\<close> that the template sets.\<close>

record certificate =
  ct_SerialNumber :: int
  ct_Organization :: "string list"
  ct_CommonName :: string
  ct_NotBefore :: time
  ct_NotAfter :: time
  ct_KeyUsage :: "string list"
  ct_ExtKeyUsage :: "string list"
  ct_BasicConstraintsValid :: bool
  ct_IPAddresses :: "string list"
  ct_DNSNames :: "string list"

text \<open>\<open>ti_Written\<close> is what a file holds after a text was written to it: less than the text when the disk
  is full, which \<open>pem.Encode\<close> reports and nobody looks at.\<close>

record 'k tls_io =
  ti_GenerateKey :: "error + 'k"
  ti_CreateCertificate :: "certificate \<Rightarrow> certificate \<Rightarrow> 'k \<Rightarrow> 'k \<Rightarrow> error + nat list"
  ti_MarshalKey :: "'k \<Rightarrow> nat list"
  ti_Create :: "string \<Rightarrow> error option"
  ti_Written :: "string \<Rightarrow> string \<Rightarrow> string"

type_synonym disk = "string \<rightharpoonup> string"

definition autoCertFile :: string where
  "autoCertFile = ''.hearsay.crt''"

definition autoKeyFile :: string where
  "autoKeyFile = ''.hearsay.key''"

definition cert_template :: "env \<Rightarrow> certificate" where
  "cert_template e = \<lparr>ct_SerialNumber = 1, ct_Organization = [''hearsay-local''], ct_CommonName = ''hearsay-local'',
     ct_NotBefore = Now e 0, ct_NotAfter = Now e 1 + 365 * nanos_per_day,
     ct_KeyUsage = [''KeyEncipherment'', ''DigitalSignature''], ct_ExtKeyUsage = [''ServerAuth''],
     ct_BasicConstraintsValid = True, ct_IPAddresses = [''127.0.0.1'', ''::1''], ct_DNSNames = [''localhost'']\<rparr>"

definition GenerateSelfSignedCert ::
  "'k tls_io \<Rightarrow> env \<Rightarrow> string \<Rightarrow> string \<Rightarrow> disk \<Rightarrow> (error + string \<times> string) \<times> disk" where
  "GenerateSelfSignedCert io e certPath0 keyPath0 fs =
     (let certPath = (if certPath0 = [] then autoCertFile else certPath0);
          keyPath = (if keyPath0 = [] then autoKeyFile else keyPath0);
          template = cert_template e
      in if fs certPath \<noteq> None \<and> fs keyPath \<noteq> None then (Inr (certPath, keyPath), fs)
         else case ti_GenerateKey io of
           Inl err \<Rightarrow> (Inl (Errorf (''generate key: '' @ error_text err)), fs)
         | Inr priv \<Rightarrow>
             (case ti_CreateCertificate io template template priv priv of
                Inl err \<Rightarrow> (Inl (Errorf (''create certificate: '' @ error_text err)), fs)
              | Inr der \<Rightarrow>
                  (case ti_Create io certPath of
                     Some err \<Rightarrow> (Inl (Errorf (''create cert file: '' @ error_text err)), fs)
                   | None \<Rightarrow>
                       let fs1 = fs(certPath \<mapsto> ti_Written io certPath (pem_Encode ''CERTIFICATE'' der))
                       in case ti_Create io keyPath of
                            Some err \<Rightarrow> (Inl (Errorf (''create key file: '' @ error_text err)), fs1)
                          | None \<Rightarrow>
                              (Inr (certPath, keyPath),
                               fs1(keyPath \<mapsto> ti_Written io keyPath
                                 (pem_Encode ''RSA PRIVATE KEY'' (ti_MarshalKey io priv)))))))"

section \<open>A certificate is never renewed\<close>

text \<open>What a successful call leaves: the chosen paths, both there, and no other file touched.\<close>

lemma GenerateSelfSignedCert_ok:
  assumes "GenerateSelfSignedCert io e c k fs = (Inr (c', k'), fs')"
  shows "c' = (if c = [] then autoCertFile else c)" "k' = (if k = [] then autoKeyFile else k)"
    "fs' c' \<noteq> None" "fs' k' \<noteq> None" "\<And>p. p \<noteq> c' \<Longrightarrow> p \<noteq> k' \<Longrightarrow> fs' p = fs p"
  using assms by (auto simp: GenerateSelfSignedCert_def Let_def split: if_splits sum.splits option.splits)

text \<open>C36: A certificate that was made once is never made again. A successful call names the two
  files, both of which exist afterwards, and touches no other file; every later call with the same paths
  returns the same files unchanged, whatever the clock says by then: the certificate, which is valid for
  365 days, is served after it has expired, and so is a file that was cut short when it was written.\<close>

theorem certificate_kept:
  assumes "GenerateSelfSignedCert io e c k fs = (Inr (c', k'), fs')"
  shows "c' = (if c = [] then ''.hearsay.crt'' else c) \<and> k' = (if k = [] then ''.hearsay.key'' else k) \<and>
    (\<forall>p. p \<noteq> c' \<and> p \<noteq> k' \<longrightarrow> fs' p = fs p) \<and>
    GenerateSelfSignedCert io' later c k fs' = (Inr (c', k'), fs') \<and>
    (fs c' = None \<and> c' \<noteq> k' \<longrightarrow> (\<exists>priv der. ti_GenerateKey io = Inr priv \<and>
       ti_CreateCertificate io (cert_template e) (cert_template e) priv priv = Inr der \<and>
       fs' c' = Some (ti_Written io c' (pem_Encode ''CERTIFICATE'' der))))"
proof (intro conjI allI impI)
  note ok = GenerateSelfSignedCert_ok [OF assms]
  show "c' = (if c = [] then ''.hearsay.crt'' else c)" "k' = (if k = [] then ''.hearsay.key'' else k)"
    using ok(1,2) by (simp_all add: autoCertFile_def autoKeyFile_def)
  show "fs' p = fs p" if "p \<noteq> c' \<and> p \<noteq> k'" for p using ok(5) that by blast
  show "GenerateSelfSignedCert io' later c k fs' = (Inr (c', k'), fs')"
    using ok(3,4) by (simp add: GenerateSelfSignedCert_def ok(1,2) [symmetric])
  show "\<exists>priv der. ti_GenerateKey io = Inr priv \<and>
      ti_CreateCertificate io (cert_template e) (cert_template e) priv priv = Inr der \<and>
      fs' c' = Some (ti_Written io c' (pem_Encode ''CERTIFICATE'' der))" if "fs c' = None \<and> c' \<noteq> k'"
    using that assms by (auto simp: GenerateSelfSignedCert_def Let_def split: if_splits sum.splits option.splits)
qed

definition sample_tls :: "unit tls_io" where
  "sample_tls = \<lparr>ti_GenerateKey = Inr (), ti_CreateCertificate = (\<lambda>_ _ _ _. Inr [1, 2, 3]),
     ti_MarshalKey = (\<lambda>_. [4]), ti_Create = (\<lambda>_. None), ti_Written = (\<lambda>_ t. t)\<rparr>"

theorem certificate_kept_witness:
  "\<exists>fs'. GenerateSelfSignedCert sample_tls (calm 0) [] [] Map.empty = (Inr (''.hearsay.crt'', ''.hearsay.key''), fs') \<and>
     GenerateSelfSignedCert sample_tls (calm (400 * nanos_per_day)) [] [] fs' = (Inr (''.hearsay.crt'', ''.hearsay.key''), fs')"
proof -
  obtain fs' where "GenerateSelfSignedCert sample_tls (calm 0) [] [] Map.empty = (Inr (''.hearsay.crt'', ''.hearsay.key''), fs')"
    by (simp add: GenerateSelfSignedCert_def sample_tls_def autoCertFile_def autoKeyFile_def Let_def)
  with certificate_kept [OF this, of sample_tls "calm (400 * nanos_per_day)"] show ?thesis by blast
qed

end
