(* ===== verification/Serve.thy ===== *)
theory Serve
  imports RequestLog Tls Composition
begin

text \<open>
  The commands that stay: \<open>cmdServe\<close> of \<open>cmd/hearsay/cmd_serve.go\<close> up to the point where its servers and
  loops run, and \<open>cmdWatch\<close> of \<open>cmd_other.go\<close>; reading and writing the configuration file
  (\<open>pkg/hearsay/config.go\<close>), and \<open>main\<close> of \<open>main_native.go\<close>. The TOML codec is not part of the repository and
  a parameter.
\<close>

section \<open>The configuration file\<close>

text \<open>\<open>tm_Encode\<close> gives what is written and the error of the encoder; \<open>tm_ReadError\<close> is the error of reading
  a path that holds no readable file.\<close>

record toml =
  tm_Unmarshal :: "string \<Rightarrow> error + config"
  tm_Encode :: "config \<Rightarrow> string \<times> error option"
  tm_Create :: "string \<Rightarrow> error option"
  tm_ReadError :: "string \<Rightarrow> error"

definition LoadConfig :: "toml \<Rightarrow> string \<Rightarrow> disk \<Rightarrow> error + config" where
  "LoadConfig tm path fs =
     (case fs path of
        None \<Rightarrow> Inl (Errorf (''read config: '' @ error_text (tm_ReadError tm path)))
      | Some data \<Rightarrow>
          (case tm_Unmarshal tm data of
             Inl err \<Rightarrow> Inl (Errorf (''parse config: '' @ error_text err))
           | Inr cfg \<Rightarrow> Inr cfg))"

definition Save :: "toml \<Rightarrow> config \<Rightarrow> string \<Rightarrow> disk \<Rightarrow> error option \<times> disk" where
  "Save tm cfg path fs =
     (case tm_Create tm path of
        Some err \<Rightarrow> (Some err, fs)
      | None \<Rightarrow> (case tm_Encode tm cfg of (data, err) \<Rightarrow> (err, fs(path \<mapsto> data))))"

text \<open>\<open>hearsay init\<close> on the disk.\<close>

definition run_init :: "toml \<Rightarrow> string list \<Rightarrow> disk \<Rightarrow> cli \<times> disk" where
  "run_init tm args fs =
     (case cmdInit None args of
        (out, None) \<Rightarrow> (out, fs)
      | (_, Some cfg) \<Rightarrow> (case Save tm cfg ''.hearsay.toml'' fs of (err, fs') \<Rightarrow> (fst (cmdInit err args), fs')))"

text \<open>The process that finds this disk.\<close>

definition disk_host ::
  "toml \<Rightarrow> (backend \<Rightarrow> error + 's provider) \<Rightarrow> (string \<Rightarrow> string) \<Rightarrow> disk \<Rightarrow> 's host" where
  "disk_host tm connect getenv fs =
     \<lparr>ho_Config = LoadConfig tm ''.hearsay.toml'' fs, ho_Connect = connect, ho_Getenv = getenv\<rparr>"

section \<open>serve\<close>

definition serve_flags :: flag_set where
  "serve_flags =
     [(''addr'', FString ''localhost:8080''), (''a2a-addr'', FString []), (''a2a-api-key'', FString []),
      (''a2a-bearer-validator-url'', FString []), (''a2a-bearer-jwks-url'', FString []),
      (''auth-token'', FString []), (''log-format'', FString ''text''), (''tls-cert'', FString []),
      (''tls-key'', FString []), (''tls-auto'', FBool False), (''rate-limit'', FInt 0), (''rate-burst'', FInt 10),
      (''agent-timeout'', FInt 60), (''audit-level'', FString ''off'')]"

text \<open>The A2A server is configured by the flags or by the file, never by both.\<close>

definition serve_a2a :: "flag_set \<Rightarrow> config \<Rightarrow> a2a_config option" where
  "serve_a2a fl cfg =
     (if string_flag fl ''a2a-addr'' \<noteq> [] then
        Some \<lparr>a2c_Addr = string_flag fl ''a2a-addr'', a2c_APIKey = string_flag fl ''a2a-api-key'',
          a2c_BearerValidatorURL = string_flag fl ''a2a-bearer-validator-url'',
          a2c_BearerJWKSURL = string_flag fl ''a2a-bearer-jwks-url''\<rparr>
      else case cfg_A2A cfg of None \<Rightarrow> None | Some a \<Rightarrow> if a2c_Addr a \<noteq> [] then Some a else None)"

text \<open>What runs when the command has set everything up: the REST server with its address, log format and
  files for TLS, the A2A server with its address and authentication, the store and namespace of the
  background loops, and the timeout of the death detector.\<close>

record 's launch =
  la_Server :: "'s server"
  la_Addr :: string
  la_TLS :: "(string \<times> string) option"
  la_Format :: LogFormat
  la_A2A :: "(string \<times> a2a_server \<times> a2a_auth) option"
  la_Provider :: "'s provider"
  la_Namespace :: string
  la_Timeout :: int

definition launch_a2a :: "string \<Rightarrow> string \<Rightarrow> a2a_config \<Rightarrow> string \<times> a2a_server \<times> a2a_auth" where
  "launch_a2a client ns a = (a2c_Addr a,
     \<lparr>x_cfg = Some a, x_client = client, x_namespace = ns, x_flusher = True\<rparr>,
     \<lparr>xa_APIKey = a2c_APIKey a, xa_BearerValidatorURL = a2c_BearerValidatorURL a,
      xa_BearerJWKSURL = a2c_BearerJWKSURL a, xa_jwks = None\<rparr>)"

text \<open>The files of the certificate: made only if neither is named, used only if both are.\<close>

definition serve_tls ::
  "'k tls_io \<Rightarrow> env \<Rightarrow> flag_set \<Rightarrow> disk \<Rightarrow> (error + string \<times> string) \<times> disk" where
  "serve_tls io e fl fs =
     (let cert = string_flag fl ''tls-cert''; key = string_flag fl ''tls-key''
      in if bool_flag fl ''tls-auto'' \<and> cert = [] \<and> key = [] then GenerateSelfSignedCert io e [] [] fs
         else (Inr (cert, key), fs))"

text \<open>\<open>e\<close> is the clock of the certificate, \<open>es\<close> that of the client. The result is the end of the process or
  what it runs.\<close>

definition cmdServe ::
  "'s host \<Rightarrow> 'k tls_io \<Rightarrow> env \<Rightarrow> envs \<Rightarrow> string list \<Rightarrow> disk \<times> 's \<Rightarrow> (cli + 's launch) \<times> disk \<times> 's" where
  "cmdServe h io e es args st =
     (case st of (fs, s) \<Rightarrow>
      case parse_flags serve_flags args of
        Inl err \<Rightarrow> (Inl (flag_exit err), st)
      | Inr (fl, _) \<Rightarrow>
          (case ho_Config h of
             Inl err \<Rightarrow> (Inl (fails 1 (''Error loading config: '' @ error_text err)), st)
           | Inr cfg \<Rightarrow>
               (case loadProviderFromConfig h cfg of
                  Inl err \<Rightarrow> (Inl (fails 1 (''Error: '' @ error_text err)), st)
                | Inr P \<Rightarrow>
                    (case loadClientFromProvider h es P s of
                       (Inl err, s') \<Rightarrow> (Inl (fails 1 (''Error: '' @ error_text err)), fs, s')
                     | (Inr (_, client), s') \<Rightarrow>
                         (case serve_tls io e fl fs of
                            (Inl err, fs') \<Rightarrow> (Inl (fails 1 (''Error generating TLS cert: '' @ error_text err)), fs', s')
                          | (Inr (cert, key), fs') \<Rightarrow>
                              (Inr \<lparr>la_Server = New_server (df_Locking (cfg_Defaults cfg)) (string_flag fl ''auth-token'')
                                   (int_flag fl ''rate-limit'') (int_flag fl ''rate-burst'')
                                   (ParseAuditLevel (string_flag fl ''audit-level'')) (cfg_Namespace cfg) s',
                                 la_Addr = string_flag fl ''addr'',
                                 la_TLS = (if cert \<noteq> [] \<and> key \<noteq> [] then Some (cert, key) else None),
                                 la_Format = (if string_flag fl ''log-format'' = ''json'' then LogFormatJSON else LogFormatText),
                                 la_A2A = map_option (launch_a2a client (cfg_Namespace cfg)) (serve_a2a fl cfg),
                                 la_Provider = P, la_Namespace = cfg_Namespace cfg,
                                 la_Timeout = int_flag fl ''agent-timeout''\<rparr>, fs', s'))))))"

section \<open>watch\<close>

definition watch_flags :: flag_set where
  "watch_flags = [(''path'', FString []), (''namespace'', FString ''default''), (''claim-ttl'', FInt 60)]"

definition watch_config :: "flag_set \<Rightarrow> watcher_config" where
  "watch_config fl = New_watcher \<lparr>wc_Path = string_flag fl ''path'', wc_Namespace = string_flag fl ''namespace'',
     wc_PollInterval = 0, wc_ClaimTTL = int_flag fl ''claim-ttl'', wc_Include = [], wc_Exclude = []\<rparr>"

definition watch_line :: "flag_set \<Rightarrow> string" where
  "watch_line fl = ''Watching '' @ string_flag fl ''path'' @ '' (namespace: '' @ string_flag fl ''namespace''
     @ '', claim TTL: '' @ itoa (int_flag fl ''claim-ttl'') @ ''s)''"

text \<open>What the watcher meets: its creation, the directories it adds, the tree, the events. \<open>None\<close> is a
  process that still runs.\<close>

record watch_world =
  ww_Created :: "error option"
  ww_Add :: "string \<Rightarrow> error option"
  ww_Tree :: fs_tree
  ww_Inputs :: "watch_input list"

definition cmdWatch :: "'s host \<Rightarrow> watch_world \<Rightarrow> envs \<Rightarrow> string list \<Rightarrow> 's \<Rightarrow> cli option \<times> 's" where
  "cmdWatch h ww es args s =
     (case parse_flags watch_flags args of
        Inl err \<Rightarrow> (Some (flag_exit err), s)
      | Inr (fl, _) \<Rightarrow>
          if string_flag fl ''path'' = [] then
            (Some (fails 1 ''Usage: hearsay watch --path <dir> --namespace <id> [--claim-ttl <seconds>]''), s)
          else case loadClient h es s of
            (Inl err, s') \<Rightarrow> (Some (fails 1 (''Error loading client: '' @ error_text err)), s')
          | (Inr (P, ns), s') \<Rightarrow>
              (case Run P ns (watch_config fl) (ww_Created ww) (ww_Add ww) (ww_Tree ww) (ww_Inputs ww) s' of
                 (Running, s'') \<Rightarrow> (None, s'')
               | (Returned None, s'') \<Rightarrow> (Some (succeeds [Line (watch_line fl)]), s'')
               | (Returned (Some err), s'') \<Rightarrow>
                   (Some \<lparr>cl_Code = 1, cl_Stdout = [Line (watch_line fl)],
                      cl_Stderr = [Line (''Watcher error: '' @ error_text err)]\<rparr>, s'')))"

section \<open>main\<close>

text \<open>What a process meets, and what it may change.\<close>

record ('s, 'k) world =
  wo_Toml :: toml
  wo_Connect :: "backend \<Rightarrow> error + 's provider"
  wo_Getenv :: "string \<Rightarrow> string"
  wo_Tls :: "'k tls_io"
  wo_Clock :: env
  wo_Session :: session_io
  wo_Watch :: watch_world

record 's machine =
  mc_Disk :: disk
  mc_Files :: files
  mc_Store :: 's

datatype 's outcome = Exits cli | Serves "'s launch" | Stays

definition usage_exit :: cli where
  "usage_exit = \<lparr>cl_Code = 1, cl_Stdout = [], cl_Stderr = [Line ''Usage: hearsay <command> [args]'',
     Line ''Commands: init, claim, release, heartbeat, query, check, namespace, serve, cursor, watch, status'']\<rparr>"

text \<open>A command that changes only the store.\<close>

definition on_store :: "'s machine \<Rightarrow> cli \<times> 's \<Rightarrow> 's outcome \<times> 's machine" where
  "on_store m r = (case r of (out, s) \<Rightarrow> (Exits out, m\<lparr>mc_Store := s\<rparr>))"

definition client_commands ::
  "(string \<times> ('s host \<Rightarrow> envs \<Rightarrow> string list \<Rightarrow> 's \<Rightarrow> cli \<times> 's)) list" where
  "client_commands = [(''claim'', cmdClaim), (''release'', cmdRelease), (''heartbeat'', cmdHeartbeat),
     (''query'', cmdQuery), (''check'', cmdCheck)]"

text \<open>\<open>args\<close> is \<open>os.Args\<close> without the name of the program.\<close>

definition main_native ::
  "('s, 'k) world \<Rightarrow> envs \<Rightarrow> string list \<Rightarrow> 's machine \<Rightarrow> 's outcome \<times> 's machine" where
  "main_native w es args m =
     (let h = disk_host (wo_Toml w) (wo_Connect w) (wo_Getenv w) (mc_Disk m)
      in case args of
           [] \<Rightarrow> (Exits usage_exit, m)
         | cmd # rest \<Rightarrow>
             (case map_of client_commands cmd of
                Some run \<Rightarrow> on_store m (run h es rest (mc_Store m))
              | None \<Rightarrow>
                  if cmd = ''init'' then
                    (case run_init (wo_Toml w) rest (mc_Disk m) of (out, fs) \<Rightarrow> (Exits out, m\<lparr>mc_Disk := fs\<rparr>))
                  else if cmd = ''namespace'' then (Exits (cmdNamespace rest), m)
                  else if cmd = ''serve'' then
                    (case cmdServe h (wo_Tls w) (wo_Clock w) es rest (mc_Disk m, mc_Store m) of
                       (r, fs, s) \<Rightarrow> (case r of Inl out \<Rightarrow> Exits out | Inr l \<Rightarrow> Serves l,
                         m\<lparr>mc_Disk := fs, mc_Store := s\<rparr>))
                  else if cmd = ''watch'' then
                    (case cmdWatch h (wo_Watch w) es rest (mc_Store m) of
                       (r, s) \<Rightarrow> (case r of Some out \<Rightarrow> Exits out | None \<Rightarrow> Stays, m\<lparr>mc_Store := s\<rparr>))
                  else if cmd = ''cursor'' then
                    (case cmdCursor (wo_Session w) h es rest (mc_Files m, mc_Store m) of
                       (out, fs, s) \<Rightarrow> (Exits out, m\<lparr>mc_Files := fs, mc_Store := s\<rparr>))
                  else if cmd = ''status'' then (Exits (cmdStatus h es rest (mc_Store m)), m)
                  else (Exits (fails 1 (''Unknown command: '' @ cmd)), m)))"

section \<open>What serve sets up\<close>

text \<open>Everything a successful start reports about its configuration, its flags and its files.\<close>

lemma cmdServe_launch:
  assumes "cmdServe h io e es args (fs, s) = (Inr l, fs', s')"
  obtains fl rest cfg P cert key where "parse_flags serve_flags args = Inr (fl, rest)" "ho_Config h = Inr cfg"
    "loadProviderFromConfig h cfg = Inr P" "serve_tls io e fl fs = (Inr (cert, key), fs')"
    "la_TLS l = (if cert \<noteq> [] \<and> key \<noteq> [] then Some (cert, key) else None)"
    "la_A2A l = map_option (launch_a2a (cfg_Namespace cfg) (cfg_Namespace cfg)) (serve_a2a fl cfg)"
    "la_Server l = New_server (df_Locking (cfg_Defaults cfg)) (string_flag fl ''auth-token'')
       (int_flag fl ''rate-limit'') (int_flag fl ''rate-burst'')
       (ParseAuditLevel (string_flag fl ''audit-level'')) (cfg_Namespace cfg) s'"
    "la_Provider l = P" "la_Namespace l = cfg_Namespace cfg"
proof -
  obtain fl rest where fl: "parse_flags serve_flags args = Inr (fl, rest)"
    using assms by (auto simp: cmdServe_def split: sum.splits)
  obtain cfg where cfg: "ho_Config h = Inr cfg" using assms fl by (auto simp: cmdServe_def split: sum.splits)
  obtain P where P: "loadProviderFromConfig h cfg = Inr P"
    using assms fl cfg by (auto simp: cmdServe_def split: sum.splits)
  have client: "loadClientFromProvider h es P s = (Inr (P, cfg_Namespace cfg),
      snd (p_CreateNamespace P (es 1) \<lparr>ns_ID = cfg_Namespace cfg, ns_CreatedAt = Now (es 0) 0\<rparr> s))"
    by (simp add: loadClientFromProvider_def cfg split: prod.split)
  obtain cert key where tls: "serve_tls io e fl fs = (Inr (cert, key), fs')"
    using assms fl cfg P client by (auto simp: cmdServe_def split: sum.splits prod.splits)
  show thesis
    using that [OF fl cfg P tls] assms by (auto simp: cmdServe_def fl cfg P client tls)
qed

text \<open>The deployment that a start begins, if it has an A2A server.\<close>

definition deployed :: "'s launch \<Rightarrow> a2a_auth \<Rightarrow> files \<Rightarrow> time \<Rightarrow> 's deployment" where
  "deployed l a fs t = \<lparr>dp_Server = la_Server l, dp_Auth = a, dp_Batch = [], dp_Files = fs, dp_Now = t\<rparr>"

lemma serve_starts_deployment:
  assumes "cmdServe h io e es args (fs, s) = (Inr l, fs', s')" and "la_A2A l = Some (addr, x, a)"
  shows "sys_start x s' (deployed l a files t)" "x_client x = la_Namespace l" "x_namespace x = la_Namespace l"
proof -
  from assms(1) obtain cfg fl where cfg: "la_Namespace l = cfg_Namespace cfg"
      "la_A2A l = map_option (launch_a2a (cfg_Namespace cfg) (cfg_Namespace cfg)) (serve_a2a fl cfg)"
      "la_Server l = New_server (df_Locking (cfg_Defaults cfg)) (string_flag fl ''auth-token'')
       (int_flag fl ''rate-limit'') (int_flag fl ''rate-burst'')
       (ParseAuditLevel (string_flag fl ''audit-level'')) (cfg_Namespace cfg) s'"
    by (rule cmdServe_launch)
  then obtain c where "launch_a2a (cfg_Namespace cfg) (cfg_Namespace cfg) c = (addr, x, a)"
    using assms(2) by (cases "serve_a2a fl cfg") auto
  then have x: "x_client x = cfg_Namespace cfg" "x_namespace x = cfg_Namespace cfg" "xa_jwks a = None"
    by (auto simp: launch_a2a_def)
  then show "x_client x = la_Namespace l" "x_namespace x = la_Namespace l" by (simp_all add: cfg(1))
  show "sys_start x s' (deployed l a files t)"
    unfolding sys_start_def deployed_def using x cfg(3) by (simp, blast)
qed

section \<open>TLS\<close>

text \<open>\<open>hearsay serve\<close> speaks TLS only if it ends up with both a certificate and a key: with
  both flags given it uses them, with none of them and \<open>--tls-auto\<close> the generated pair, and in every
  other case it starts without an error and speaks plain HTTP. In particular \<open>--tls-auto\<close> together with one
  of the two flags turns TLS off.\<close>

theorem tls_needs_both:
  assumes "cmdServe h io e es args (fs, s) = (Inr l, fs', s')" and "parse_flags serve_flags args = Inr (fl, rest)"
  shows "la_TLS l =
      (if string_flag fl ''tls-cert'' \<noteq> [] \<and> string_flag fl ''tls-key'' \<noteq> []
       then Some (string_flag fl ''tls-cert'', string_flag fl ''tls-key'')
       else if string_flag fl ''tls-cert'' = [] \<and> string_flag fl ''tls-key'' = [] \<and> bool_flag fl ''tls-auto''
       then Some (''.hearsay.crt'', ''.hearsay.key'') else None)"
proof -
  from assms(1) obtain fl' rest' cert key where l: "parse_flags serve_flags args = Inr (fl', rest')"
      "serve_tls io e fl' fs = (Inr (cert, key), fs')"
      "la_TLS l = (if cert \<noteq> [] \<and> key \<noteq> [] then Some (cert, key) else None)"
    by (rule cmdServe_launch)
  have fl: "fl' = fl" using l(1) assms(2) by simp
  show ?thesis
  proof (cases "bool_flag fl ''tls-auto'' \<and> string_flag fl ''tls-cert'' = [] \<and> string_flag fl ''tls-key'' = []")
    case True
    then have "GenerateSelfSignedCert io e [] [] fs = (Inr (cert, key), fs')"
      using l(2) by (simp add: serve_tls_def fl)
    from GenerateSelfSignedCert_ok(1,2) [OF this] True l(3) show ?thesis
      by (simp add: autoCertFile_def autoKeyFile_def)
  next
    case False
    then show ?thesis using l(2,3) by (auto simp: serve_tls_def fl Let_def)
  qed
qed

lemma sample_serve:
  "parse_flags serve_flags [''--tls-auto'', ''--tls-cert'', ''c.pem''] =
     Inr (AList.update ''tls-cert'' (FString ''c.pem'') (AList.update ''tls-auto'' (FBool True) serve_flags), [])"
  by (simp add: split_flag_def serve_flags_def set_value_def)

theorem tls_needs_both_witness:
  "\<exists>l s'. cmdServe sqlite_host sample_tls (calm 0) (\<lambda>_. calm 0) [''--tls-auto'', ''--tls-cert'', ''c.pem'']
      (Map.empty, sq_New) = (Inr l, Map.empty, s') \<and> la_TLS l = None"
proof -
  let ?serve = "cmdServe sqlite_host sample_tls (calm 0) (\<lambda>_. calm 0) [''--tls-auto'', ''--tls-cert'', ''c.pem'']
      (Map.empty, sq_New)"
  have "\<exists>l s'. ?serve = (Inr l, Map.empty, s')"
    unfolding cmdServe_def sample_serve
    by (simp add: sqlite_host_def NewConfig_def Let_def loadProviderFromConfig_def chosen_backend_def
        loadClientFromProvider_def serve_tls_def string_flag_def update_conv' split: prod.split)
  then obtain l s' where l: "?serve = (Inr l, Map.empty, s')" by blast
  from tls_needs_both [OF l sample_serve] have "la_TLS l = None"
    by (simp add: string_flag_def update_conv' serve_flags_def)
  with l show ?thesis by blast
qed

section \<open>The A2A server of the configuration file\<close>

text \<open>C35: The flags that authenticate A2A clients count only together with \<open>--a2a-addr\<close>. If the
  address comes from the configuration file and the file names no key and no validator, the A2A server
  that \<open>hearsay serve\<close> starts answers every request with 401 and changes nothing, also a request with the
  key that was given as \<open>--a2a-api-key\<close>.\<close>

theorem a2a_key_ignored:
  assumes "cmdServe h io e es args (fs, s) = (Inr l, fs', s')" and "parse_flags serve_flags args = Inr (fl, rest)"
    and "string_flag fl ''a2a-addr'' = []" and "ho_Config h = Inr cfg" and "cfg_A2A cfg = Some c" and "a2c_Addr c \<noteq> []"
    and "a2c_APIKey c = []" and "a2c_BearerValidatorURL c = []" and "a2c_BearerJWKSURL c = []"
  shows "\<exists>x a. la_A2A l = Some (a2c_Addr c, x, a) \<and>
    (\<forall>P es gone out r s. a2a_serve P x es gone out r a s = (unauthorized, a, s))"
proof -
  from assms(1) obtain fl' rest' cfg' where l: "parse_flags serve_flags args = Inr (fl', rest')" "ho_Config h = Inr cfg'"
      "la_A2A l = map_option (launch_a2a (cfg_Namespace cfg') (cfg_Namespace cfg')) (serve_a2a fl' cfg')"
    by (rule cmdServe_launch)
  have same: "fl' = fl" "cfg' = cfg" using l(1,2) assms(2,4) by simp_all
  obtain x a where xa: "launch_a2a (cfg_Namespace cfg) (cfg_Namespace cfg) c = (a2c_Addr c, x, a)"
    by (simp add: launch_a2a_def)
  then have a: "xa_APIKey a = []" "xa_BearerValidatorURL a = []" "xa_BearerJWKSURL a = []"
    using assms(7,8,9) by (auto simp: launch_a2a_def)
  have "la_A2A l = Some (a2c_Addr c, x, a)" using l(3) assms(3,5,6) xa by (simp add: same serve_a2a_def)
  moreover have "CheckAuth out r a = (None, a)" for out r using a by (simp add: CheckAuth_def Let_def)
  then have "a2a_serve P x es gone out r a t = (unauthorized, a, t)" for P es gone out r and t :: 'c
    by (simp add: a2a_serve_def Middleware_def)
  ultimately show ?thesis by blast
qed

section \<open>From init to the other commands\<close>


text \<open>A codec that knows one configuration, and an attempt to use DynamoDB.\<close>

definition one_config :: "config \<Rightarrow> toml" where
  "one_config cfg = \<lparr>tm_Unmarshal = \<lambda>_. Inr cfg, tm_Encode = \<lambda>_. ([], None), tm_Create = \<lambda>_. None,
     tm_ReadError = \<lambda>_. Errorf ''no such file''\<rparr>"

definition dynamo_args :: "string list" where
  "dynamo_args = [''--provider'', ''dynamodb'', ''--path'', [], ''--postgresql-url'', [], ''--endpoint'', [],
     ''--token'', [], ''--namespace'', ''team'']"

definition dynamo_config :: config where
  "dynamo_config = init_config [(''provider'', FString ''dynamodb''), (''namespace'', FString ''team'')]"


section \<open>A deployment on TLS, with A2A in the file\<close>

definition file_a2a :: a2a_config where
  "file_a2a = \<lparr>a2c_Addr = '':8081'', a2c_APIKey = [], a2c_BearerValidatorURL = [], a2c_BearerJWKSURL = []\<rparr>"

definition a2a_host :: "sqlite host" where
  "a2a_host = sqlite_host\<lparr>ho_Config := Inr ((NewConfig ''n'' ''sqlite'' [] [])\<lparr>cfg_A2A := Some file_a2a\<rparr>)\<rparr>"

theorem a2a_key_ignored_witness:
  "\<exists>l st x a. cmdServe a2a_host sample_tls (calm 0) (\<lambda>_. calm 0) [''--a2a-api-key'', ''secret''] (Map.empty, sq_New) = (Inr l, st) \<and>
     la_A2A l = Some ('':8081'', x, a) \<and>
     (\<forall>out. fst (a2a_serve sqlite_provider x (\<lambda>_. calm 0) (\<lambda>_. False) out
       \<lparr>hr_Method = ''GET'', hr_Path = ''/.well-known/agent.json'',
        hr_Header = (\<lambda>_. [])(''X-Api-Key'' := ''secret''), hr_Param = \<lambda>_. [], hr_Body = None\<rparr> a sq_New) = unauthorized)"
proof -
  have flags: "parse_flags serve_flags [''--a2a-api-key'', ''secret''] =
      Inr (AList.update ''a2a-api-key'' (FString ''secret'') serve_flags, [])"
    by (simp add: split_flag_def serve_flags_def set_value_def)
  let ?serve = "cmdServe a2a_host sample_tls (calm 0) (\<lambda>_. calm 0) [''--a2a-api-key'', ''secret''] (Map.empty, sq_New)"
  have "\<exists>l fs' s'. ?serve = (Inr l, fs', s')"
    unfolding cmdServe_def flags
    by (simp add: a2a_host_def sqlite_host_def NewConfig_def Let_def loadProviderFromConfig_def chosen_backend_def
        loadClientFromProvider_def serve_tls_def string_flag_def bool_flag_def update_conv' serve_flags_def split: prod.split)
  then obtain l fs' s' where l: "?serve = (Inr l, fs', s')" by blast
  have "\<exists>x a. la_A2A l = Some (a2c_Addr file_a2a, x, a) \<and>
      (\<forall>P es gone out r (s :: sqlite). a2a_serve P x es gone out r a s = (unauthorized, a, s))"
    by (rule a2a_key_ignored [OF l flags, where c = file_a2a
        and cfg = "(NewConfig ''n'' ''sqlite'' [] [])\<lparr>cfg_A2A := Some file_a2a\<rparr>"])
      (simp_all add: string_flag_def update_conv' serve_flags_def a2a_host_def file_a2a_def NewConfig_def Let_def)
  then obtain x a where "la_A2A l = Some ('':8081'', x, a)"
      "\<And>P es gone out r (s :: sqlite). a2a_serve P x es gone out r a s = (unauthorized, a, s)"
    by (auto simp: file_a2a_def)
  with l show ?thesis by fastforce
qed

end
