(* ===== verification/Shutdown.thy ===== *)
theory Shutdown
  imports Prelude
begin

text \<open>
  How \<open>hearsay serve\<close> ends: the main goroutine, the one that waits for a signal and shuts the REST server
  down, and the one that shuts the A2A server down afterwards, the end of \<open>cmdServe\<close> in
  \<open>cmd/hearsay/cmd_serve.go\<close>. What the program does and what clients do are the steps of a relation, and
  the clock ticks once a second.
\<close>

section \<open>The process\<close>

text \<open>Where the goroutines are: main serves, waits for \<open>idleConnsClosed\<close>, or the process has ended with a
  code; the signal handler waits for a signal, is in \<open>httpSrv.Shutdown\<close> with some seconds of its context
  left, or has closed the channel; the last one waits for the channel, is in \<open>a2aHttpSrv.Shutdown\<close>, or is
  done (or was never started).\<close>

datatype main_pc = Listening | AwaitIdle | Exited int

datatype signal_pc = AwaitSignal | Draining nat | IdleClosed

datatype stop_pc = AwaitClosed | Stopping nat | AllStopped

text \<open>\<open>pr_Rest\<close> and \<open>pr_Tasks\<close> count the connections of the two servers that are not idle.\<close>

record process =
  pr_Main :: main_pc
  pr_Signal :: signal_pc
  pr_Stop :: stop_pc
  pr_A2A :: bool
  pr_Rest :: nat
  pr_Tasks :: nat

definition serving :: "bool \<Rightarrow> process" where
  "serving a2a = \<lparr>pr_Main = Listening, pr_Signal = AwaitSignal, pr_Stop = (if a2a then AwaitClosed else AllStopped),
     pr_A2A = a2a, pr_Rest = 0, pr_Tasks = 0\<rparr>"

datatype act = RestStart | RestEnd | TaskStart | TaskEnd | ListenFails | A2AFails | Signal
  | MainWakes | Drained | Exit | StopWakes | StopDone | Tick

text \<open>What the program does by itself, time included; the rest is up to clients, the network and the user.\<close>

definition own_acts :: "act set" where
  "own_acts = {MainWakes, Drained, Exit, StopWakes, StopDone, Tick}"

text \<open>A goroutine that can go on does so before the clock ticks. Finding the connections idle may take the
  poll of \<open>Shutdown\<close> until after the tick, the end of a context may not.\<close>

definition urgent :: "process \<Rightarrow> bool" where
  "urgent p \<longleftrightarrow> pr_Main p = Listening \<and> pr_Signal p \<noteq> AwaitSignal \<or> pr_Signal p = Draining 0 \<or>
     pr_Main p = AwaitIdle \<and> pr_Signal p = IdleClosed \<or>
     pr_Signal p = IdleClosed \<and> pr_Stop p = AwaitClosed \<or> pr_Stop p = Stopping 0"

fun tick_signal :: "signal_pc \<Rightarrow> signal_pc" where
  "tick_signal (Draining k) = Draining (k - 1)"
| "tick_signal pc = pc"

fun tick_stop :: "stop_pc \<Rightarrow> stop_pc" where
  "tick_stop (Stopping k) = Stopping (k - 1)"
| "tick_stop pc = pc"

text \<open>
  A signal closes the listener of the REST server, so that \<open>ListenAndServe\<close> returns \<open>ErrServerClosed\<close>; any
  other error of it, a failing start included, ends the process with code 1 (\<open>ListenFails\<close>), while an error of the A2A listener is only logged. The
  channel of signals holds one more, which nobody reads.
\<close>

inductive proc_step :: "process \<Rightarrow> act \<Rightarrow> process \<Rightarrow> bool" where
  rest_start: "pr_Main p = Listening \<Longrightarrow> pr_Signal p = AwaitSignal \<Longrightarrow>
    proc_step p RestStart (p\<lparr>pr_Rest := Suc (pr_Rest p)\<rparr>)"
| rest_end: "pr_Main p \<in> {Listening, AwaitIdle} \<Longrightarrow> pr_Rest p = Suc k \<Longrightarrow> proc_step p RestEnd (p\<lparr>pr_Rest := k\<rparr>)"
| task_start: "pr_Main p \<in> {Listening, AwaitIdle} \<Longrightarrow> pr_A2A p \<Longrightarrow>
    proc_step p TaskStart (p\<lparr>pr_Tasks := Suc (pr_Tasks p)\<rparr>)"
| task_end: "pr_Main p \<in> {Listening, AwaitIdle} \<Longrightarrow> pr_Tasks p = Suc k \<Longrightarrow> proc_step p TaskEnd (p\<lparr>pr_Tasks := k\<rparr>)"
| listen_fails: "pr_Main p = Listening \<Longrightarrow> pr_Signal p = AwaitSignal \<Longrightarrow>
    proc_step p ListenFails (p\<lparr>pr_Main := Exited 1\<rparr>)"
| a2a_fails: "pr_Main p \<in> {Listening, AwaitIdle} \<Longrightarrow> pr_A2A p \<Longrightarrow> proc_step p A2AFails (p\<lparr>pr_A2A := False\<rparr>)"
| signal: "pr_Main p \<in> {Listening, AwaitIdle} \<Longrightarrow> pr_Signal p = AwaitSignal \<Longrightarrow>
    proc_step p Signal (p\<lparr>pr_Signal := Draining 10\<rparr>)"
| signal_again: "pr_Main p \<in> {Listening, AwaitIdle} \<Longrightarrow> pr_Signal p \<noteq> AwaitSignal \<Longrightarrow> proc_step p Signal p"
| main_wakes: "pr_Main p = Listening \<Longrightarrow> pr_Signal p \<noteq> AwaitSignal \<Longrightarrow>
    proc_step p MainWakes (p\<lparr>pr_Main := AwaitIdle\<rparr>)"
| drained: "pr_Main p \<in> {Listening, AwaitIdle} \<Longrightarrow> pr_Signal p = Draining k \<Longrightarrow> pr_Rest p = 0 \<or> k = 0 \<Longrightarrow>
    proc_step p Drained (p\<lparr>pr_Signal := IdleClosed\<rparr>)"
| exit: "pr_Main p = AwaitIdle \<Longrightarrow> pr_Signal p = IdleClosed \<Longrightarrow> proc_step p Exit (p\<lparr>pr_Main := Exited 0\<rparr>)"
| stop_wakes: "pr_Main p \<in> {Listening, AwaitIdle} \<Longrightarrow> pr_Signal p = IdleClosed \<Longrightarrow> pr_Stop p = AwaitClosed \<Longrightarrow>
    proc_step p StopWakes (p\<lparr>pr_Stop := Stopping 5, pr_A2A := False\<rparr>)"
| stop_done: "pr_Main p \<in> {Listening, AwaitIdle} \<Longrightarrow> pr_Stop p = Stopping k \<Longrightarrow> pr_Tasks p = 0 \<or> k = 0 \<Longrightarrow>
    proc_step p StopDone (p\<lparr>pr_Stop := AllStopped\<rparr>)"
| tick: "pr_Main p \<in> {Listening, AwaitIdle} \<Longrightarrow> \<not> urgent p \<Longrightarrow>
    proc_step p Tick (p\<lparr>pr_Signal := tick_signal (pr_Signal p), pr_Stop := tick_stop (pr_Stop p)\<rparr>)"

inductive_cases proc_stepE: "proc_step p a p'"

inductive proc_run :: "process \<Rightarrow> act list \<Rightarrow> process \<Rightarrow> bool" where
  stay: "proc_run p [] p"
| go: "proc_step p a q \<Longrightarrow> proc_run q as r \<Longrightarrow> proc_run p (a # as) r"

inductive_cases proc_run_NilE: "proc_run p [] r"
inductive_cases proc_run_ConsE: "proc_run p (a # as) r"

section \<open>The way down\<close>

text \<open>A bound of what the program still has to do.\<close>

fun main_work :: "main_pc \<Rightarrow> nat" where
  "main_work Listening = 2"
| "main_work AwaitIdle = 1"
| "main_work (Exited c) = 0"

fun signal_work :: "signal_pc \<Rightarrow> nat" where
  "signal_work (Draining k) = k + 1"
| "signal_work pc = 0"

fun stop_work :: "stop_pc \<Rightarrow> nat" where
  "stop_work AwaitClosed = 7"
| "stop_work (Stopping k) = k + 1"
| "stop_work AllStopped = 0"

definition work :: "process \<Rightarrow> nat" where
  "work p = main_work (pr_Main p) + signal_work (pr_Signal p) + stop_work (pr_Stop p)"

fun seconds_left :: "signal_pc \<Rightarrow> nat" where
  "seconds_left (Draining k) = k"
| "seconds_left pc = 0"

text \<open>What holds from the signal on: the process ends with code 0, and while it has connections of the REST
  server that are not idle, the channel is closed only when the context has expired.\<close>

definition ending :: "process \<Rightarrow> bool" where
  "ending p \<longleftrightarrow> pr_Signal p \<noteq> AwaitSignal \<and> (\<forall>c. pr_Main p = Exited c \<longrightarrow> c = 0 \<and> pr_Signal p = IdleClosed)"

lemma ticking:
  assumes "\<not> urgent p" "ending p" "pr_Main p \<in> {Listening, AwaitIdle}"
  obtains k where "pr_Signal p = Draining (Suc k)" "pr_Stop p \<noteq> Stopping 0"
proof (cases "pr_Signal p")
  case (Draining k)
  with assms that show thesis by (cases k) (auto simp: urgent_def)
qed (use assms in \<open>auto simp: ending_def urgent_def\<close>)

lemma tick_stop_work: "stop_work (tick_stop pc) \<le> stop_work pc"
  by (cases pc) simp_all

lemma ending_step:
  assumes "proc_step p a q" "ending p"
  shows "ending q \<and> (if a \<in> own_acts then work q < work p else work q \<le> work p) \<and> pr_Rest q \<le> pr_Rest p \<and>
    (if a = Tick then seconds_left (pr_Signal p) = Suc (seconds_left (pr_Signal q))
     else seconds_left (pr_Signal q) \<le> seconds_left (pr_Signal p) \<and>
       (0 < pr_Rest q \<longrightarrow> seconds_left (pr_Signal q) = seconds_left (pr_Signal p)))"
  using assms(1)
proof cases
  case tick
  obtain k where "pr_Signal p = Draining (Suc k)" using ticking [OF tick(4) assms(2) tick(3)] .
  with tick assms(2) show ?thesis
    using tick_stop_work [of "pr_Stop p"] by (simp add: ending_def own_acts_def work_def)
qed (use assms(2) in \<open>simp_all add: ending_def own_acts_def work_def, auto\<close>)

lemma ending_run:
  assumes "proc_run p tr q" "ending p"
  shows "ending q \<and> work q + length (filter (\<lambda>a. a \<in> own_acts) tr) \<le> work p \<and> pr_Rest q \<le> pr_Rest p \<and>
    seconds_left (pr_Signal q) + count_list tr Tick \<le> seconds_left (pr_Signal p) \<and>
    (0 < pr_Rest q \<longrightarrow> seconds_left (pr_Signal q) + count_list tr Tick = seconds_left (pr_Signal p))"
  using assms
proof (induction rule: proc_run.induct)
  case (go p a q as r)
  note step = ending_step [OF go.hyps(1) go.prems]
  with go.IH have "ending r" "work r + length (filter (\<lambda>a. a \<in> own_acts) as) \<le> work q" "pr_Rest r \<le> pr_Rest q"
      "seconds_left (pr_Signal r) + count_list as Tick \<le> seconds_left (pr_Signal q)"
      "0 < pr_Rest r \<longrightarrow> seconds_left (pr_Signal r) + count_list as Tick = seconds_left (pr_Signal q)"
    by blast+
  with step show ?case by (auto split: if_splits)
qed simp

text \<open>Until the process has ended, something that it does by itself is possible.\<close>

lemma ending_goes_on:
  assumes "ending p" "\<And>c. pr_Main p \<noteq> Exited c"
  shows "\<exists>a \<in> own_acts. \<exists>q. proc_step p a q"
proof -
  have main: "pr_Main p \<in> {Listening, AwaitIdle}" using assms(2) by (cases "pr_Main p") auto
  consider "pr_Main p = Listening" | "pr_Main p = AwaitIdle" "pr_Signal p = IdleClosed" | "pr_Stop p = Stopping 0"
    | "pr_Signal p = Draining 0" | k where "pr_Main p = AwaitIdle" "pr_Signal p = Draining (Suc k)" "pr_Stop p \<noteq> Stopping 0"
  proof (cases "pr_Signal p")
    case (Draining k)
    then show thesis using that main by (cases k) auto
  qed (use assms(1) main that in \<open>auto simp: ending_def\<close>)
  then show ?thesis
  proof cases
    case 1
    then have "proc_step p MainWakes (p\<lparr>pr_Main := AwaitIdle\<rparr>)" using assms(1) by (auto simp: ending_def intro: main_wakes)
    then show ?thesis by (auto simp: own_acts_def)
  next
    case 2
    then have "proc_step p Exit (p\<lparr>pr_Main := Exited 0\<rparr>)" by (rule exit)
    then show ?thesis by (auto simp: own_acts_def)
  next
    case 3
    then have "proc_step p StopDone (p\<lparr>pr_Stop := AllStopped\<rparr>)" using main by (auto intro: stop_done)
    then show ?thesis by (auto simp: own_acts_def)
  next
    case 4
    then have "proc_step p Drained (p\<lparr>pr_Signal := IdleClosed\<rparr>)" using main by (auto intro: drained)
    then show ?thesis by (auto simp: own_acts_def)
  next
    case 5
    then have "\<not> urgent p" by (simp add: urgent_def)
    with main have "proc_step p Tick (p\<lparr>pr_Signal := tick_signal (pr_Signal p), pr_Stop := tick_stop (pr_Stop p)\<rparr>)"
      by (rule tick)
    then show ?thesis by (auto simp: own_acts_def)
  qed
qed

text \<open>Before the signal.\<close>

definition up :: "process \<Rightarrow> bool" where
  "up p \<longleftrightarrow> pr_Signal p = AwaitSignal \<longrightarrow> pr_Main p \<noteq> AwaitIdle \<and> pr_Stop p \<in> {AwaitClosed, AllStopped}"

lemma tick_pcs [simp]:
  "tick_signal pc = AwaitSignal \<longleftrightarrow> pc = AwaitSignal" "tick_signal pc = IdleClosed \<longleftrightarrow> pc = IdleClosed"
  "tick_stop sc = AwaitClosed \<longleftrightarrow> sc = AwaitClosed" "tick_stop sc = AllStopped \<longleftrightarrow> sc = AllStopped"
  by (cases pc; cases sc; simp)+

lemma up_run: "proc_run p tr q \<Longrightarrow> up p \<Longrightarrow> up q"
proof (induction rule: proc_run.induct)
  case (go p a q as r)
  from go.hyps(1) go.prems have "up q" by cases (auto simp: up_def)
  with go.IH show ?case .
qed simp

text \<open>C31: A signal ends \<open>hearsay serve\<close>, whatever the clients do. From the signal on the process
  takes at most 20 steps of its own and at most ten seconds, can always take a next step until it has
  ended, and ends with code 0; connections of the REST server that are not idle, such as an event stream,
  are cut only after ten full seconds.\<close>

theorem shutdown_ends:
  assumes "proc_run (serving a2a) before p" and "pr_Signal p = AwaitSignal" and "proc_step p Signal p'"
    and "proc_run p' tr q"
  shows "length (filter (\<lambda>a. a \<in> own_acts) tr) \<le> 20 \<and> count_list tr Tick \<le> 10 \<and>
    ((\<forall>c. pr_Main q \<noteq> Exited c) \<longrightarrow> (\<exists>a \<in> own_acts. \<exists>r. proc_step q a r)) \<and>
    (\<forall>c. pr_Main q = Exited c \<longrightarrow> c = 0 \<and> (0 < pr_Rest q \<longrightarrow> count_list tr Tick = 10))"
proof -
  have "up p" by (rule up_run [OF assms(1)]) (simp add: serving_def up_def)
  with assms(2) have p: "pr_Main p \<noteq> AwaitIdle" "pr_Stop p \<in> {AwaitClosed, AllStopped}" by (simp_all add: up_def)
  from assms(3) have p': "pr_Main p \<in> {Listening, AwaitIdle}" "p' = p\<lparr>pr_Signal := Draining 10\<rparr>"
    using assms(2) by (cases; simp)+
  then have "ending p'" "work p' \<le> 20" "seconds_left (pr_Signal p') = 10"
    using p by (auto simp: ending_def work_def)
  with ending_run [OF assms(4)] have q: "ending q" "length (filter (\<lambda>a. a \<in> own_acts) tr) \<le> 20" "count_list tr Tick \<le> 10"
      "0 < pr_Rest q \<longrightarrow> seconds_left (pr_Signal q) + count_list tr Tick = 10"
    by auto
  moreover have "(\<forall>c. pr_Main q \<noteq> Exited c) \<longrightarrow> (\<exists>a \<in> own_acts. \<exists>r. proc_step q a r)"
    using ending_goes_on [OF q(1)] by blast
  moreover have "c = 0 \<and> (0 < pr_Rest q \<longrightarrow> count_list tr Tick = 10)" if "pr_Main q = Exited c" for c
    using q(1,4) that by (auto simp: ending_def)
  ultimately show ?thesis by blast
qed

text \<open>A client of the event stream is connected when the signal comes.\<close>

theorem shutdown_ends_witness:
  "\<exists>p p' q. proc_run (serving False) [RestStart] p \<and> proc_step p Signal p' \<and>
     proc_run p' (MainWakes # replicate 10 Tick @ [Drained, Exit]) q \<and>
     pr_Main q = Exited 0 \<and> pr_Rest q = 1 \<and> count_list (MainWakes # replicate 10 Tick @ [Drained, Exit]) Tick \<le> 10"
proof -
  define p where "p = (serving False)\<lparr>pr_Rest := 1\<rparr>"
  define p' where "p' = p\<lparr>pr_Signal := Draining 10\<rparr>"
  define drain where "drain k = p\<lparr>pr_Main := AwaitIdle, pr_Signal := Draining k\<rparr>" for k
  define q where "q = p\<lparr>pr_Main := Exited 0, pr_Signal := IdleClosed\<rparr>"
  have start: "proc_run (serving False) [RestStart] p"
    using rest_start [of "serving False"] by (auto simp: p_def serving_def intro: proc_run.intros)
  have sig: "proc_step p Signal p'"
    unfolding p'_def by (rule signal) (simp_all add: p_def serving_def)
  have wakes: "proc_step p' MainWakes (drain 10)"
    using main_wakes [of p'] by (simp add: p'_def p_def serving_def drain_def)
  have ticks: "proc_run (drain k) (replicate k Tick @ [Drained, Exit]) q" for k
  proof (induction k)
    case 0
    have "proc_step (drain 0) Drained (p\<lparr>pr_Main := AwaitIdle, pr_Signal := IdleClosed\<rparr>)"
      using drained [of "drain 0" 0] by (simp add: drain_def p_def serving_def)
    moreover have "proc_step (p\<lparr>pr_Main := AwaitIdle, pr_Signal := IdleClosed\<rparr>) Exit q"
      using exit [of "p\<lparr>pr_Main := AwaitIdle, pr_Signal := IdleClosed\<rparr>"] by (simp add: q_def p_def serving_def)
    ultimately show ?case by (auto intro: proc_run.intros)
  next
    case (Suc k)
    have "proc_step (drain (Suc k)) Tick (drain k)"
      using tick [of "drain (Suc k)"] by (simp add: drain_def p_def serving_def urgent_def)
    with Suc show ?case by (auto intro: proc_run.intros)
  qed
  have run: "proc_run p' (MainWakes # replicate 10 Tick @ [Drained, Exit]) q" by (rule go [OF wakes ticks])
  have "pr_Signal p = AwaitSignal" by (simp add: p_def serving_def)
  from shutdown_ends [OF start this sig run]
  have "count_list (MainWakes # replicate 10 Tick @ [Drained, Exit]) Tick \<le> 10" by blast
  moreover have "pr_Main q = Exited 0" "pr_Rest q = 1" by (simp_all add: q_def p_def)
  ultimately show ?thesis using start sig run by blast
qed

section \<open>The A2A server is not waited for\<close>

lemma stop_run:
  "proc_run p tr q \<Longrightarrow> pr_Stop p \<in> {AwaitClosed, Stopping 5, AllStopped} \<and> (pr_Stop p = Stopping 5 \<longrightarrow> pr_Signal p = IdleClosed) \<Longrightarrow>
   pr_Stop q \<in> {AwaitClosed, Stopping 5, AllStopped}"
proof (induction rule: proc_run.induct)
  case (go p a q as r)
  from go.hyps(1) go.prems
  have "pr_Stop q \<in> {AwaitClosed, Stopping 5, AllStopped} \<and> (pr_Stop q = Stopping 5 \<longrightarrow> pr_Signal q = IdleClosed)"
    by cases (auto simp: urgent_def)
  with go.IH show ?case .
qed simp

lemma run_append: "proc_run p as q \<Longrightarrow> proc_run q bs r \<Longrightarrow> proc_run p (as @ bs) r"
  by (induction rule: proc_run.induct) (auto intro: proc_run.intros)

lemma tasks_start: "proc_run (serving True) (replicate k TaskStart) ((serving True)\<lparr>pr_Tasks := k\<rparr>)"
proof (induction k)
  case 0
  show ?case using stay [of "serving True"] by (simp add: serving_def)
next
  case (Suc k)
  have "proc_step ((serving True)\<lparr>pr_Tasks := k\<rparr>) TaskStart ((serving True)\<lparr>pr_Tasks := Suc k\<rparr>)"
    using task_start [of "(serving True)\<lparr>pr_Tasks := k\<rparr>"] by (simp add: serving_def)
  from run_append [OF Suc go [OF this stay]] show ?case by (simp add: replicate_append_same)
qed

text \<open>C32: The graceful shutdown of the A2A server does not happen: main waits only for the REST
  server. However many A2A requests are in progress, a signal may end the process with all of them, before
  the shutdown of the A2A server has begun and without a second passing; and in no run does that shutdown
  use up one of its five seconds.\<close>

theorem a2a_requests_cut:
  "(\<exists>tr q. proc_run (serving True) tr q \<and> Signal \<in> set tr \<and> Tick \<notin> set tr \<and>
     pr_Main q = Exited 0 \<and> pr_Tasks q = n \<and> pr_Stop q = AwaitClosed) \<and>
   pr_Stop ` {q. \<exists>tr. proc_run (serving True) tr q} \<subseteq> {AwaitClosed, Stopping 5, AllStopped}"
proof (intro conjI)
  let ?p = "(serving True)\<lparr>pr_Tasks := n\<rparr>"
  let ?q = "?p\<lparr>pr_Main := Exited 0, pr_Signal := IdleClosed\<rparr>"
  have "proc_run ?p [Signal, MainWakes, Drained, Exit] ?q"
    using signal [of ?p] main_wakes [of "?p\<lparr>pr_Signal := Draining 10\<rparr>"]
      drained [of "?p\<lparr>pr_Main := AwaitIdle, pr_Signal := Draining 10\<rparr>" 10]
      exit [of "?p\<lparr>pr_Main := AwaitIdle, pr_Signal := IdleClosed\<rparr>"]
    by (auto simp: serving_def intro!: proc_run.intros elim!: go)
  from run_append [OF tasks_start this]
  show "\<exists>tr q. proc_run (serving True) tr q \<and> Signal \<in> set tr \<and> Tick \<notin> set tr \<and>
      pr_Main q = Exited 0 \<and> pr_Tasks q = n \<and> pr_Stop q = AwaitClosed"
    by (intro exI [of _ "replicate n TaskStart @ [Signal, MainWakes, Drained, Exit]"] exI [of _ ?q])
      (simp add: serving_def)
  show "pr_Stop ` {q. \<exists>tr. proc_run (serving True) tr q} \<subseteq> {AwaitClosed, Stopping 5, AllStopped}"
  proof (rule image_subsetI)
    fix q assume "q \<in> {q. \<exists>tr. proc_run (serving True) tr q}"
    then obtain tr where "proc_run (serving True) tr q" by blast
    then show "pr_Stop q \<in> {AwaitClosed, Stopping 5, AllStopped}" by (rule stop_run) (simp add: serving_def)
  qed
qed

end
