(* ===== verification/D1.thy ===== *)
theory D1
  imports Managed
begin

text \<open>
  The Cloudflare D1 back end, \<open>internal/d1/d1.go\<close>, with the part of Go's \<open>syscall/js\<close> that it uses. The
  database binding is a JavaScript object that is not part of the repository: what \<open>run\<close> and \<open>all\<close>
  answer to a statement and its \<open>bind\<close> calls is a parameter. An operation may panic: its outcome is
  then \<open>Inl\<close> with the message.
\<close>

section \<open>syscall/js\<close>

datatype js =
    JsUndefined
  | JsNull
  | JsBool bool
  | JsNumber int
  | JsString string
  | JsArray "js list"
  | JsObject "(string \<times> js) list"

type_synonym 'a outcome = "string + 'a"

text \<open>A Go value of a basic type, or of another type, such as \<open>time.Time\<close> or a named string.\<close>

datatype go_value = GoString string | GoInt int | GoBool bool | GoOther string

definition ValueOf :: "go_value \<Rightarrow> js outcome" where
  "ValueOf v = (case v of
     GoString s \<Rightarrow> Inr (JsString s) | GoInt n \<Rightarrow> Inr (JsNumber n) | GoBool b \<Rightarrow> Inr (JsBool b)
   | GoOther t \<Rightarrow> Inl ''ValueOf: invalid value'')"

definition bindP :: "'a outcome \<Rightarrow> ('a \<Rightarrow> 'b outcome) \<Rightarrow> 'b outcome" where
  "bindP r f = (case r of Inl p \<Rightarrow> Inl p | Inr a \<Rightarrow> f a)"

definition Get :: "js \<Rightarrow> string \<Rightarrow> js outcome" where
  "Get v k = (case v of
     JsObject kvs \<Rightarrow> Inr (case map_of kvs k of None \<Rightarrow> JsUndefined | Some x \<Rightarrow> x)
   | JsArray xs \<Rightarrow> Inr (if k = ''length'' then JsNumber (int (length xs)) else JsUndefined)
   | _ \<Rightarrow> Inl ''syscall/js: call of Value.Get on a value that is no object'')"

text \<open>\<open>Value.String\<close> does not panic; another kind of value is described in angle brackets.\<close>

definition StringOf :: "js \<Rightarrow> string" where
  "StringOf v = (case v of
     JsString s \<Rightarrow> s | JsUndefined \<Rightarrow> ''<undefined>'' | JsNull \<Rightarrow> ''<null>''
   | JsBool b \<Rightarrow> ''<boolean: '' @ (if b then ''true'' else ''false'') @ ''>''
   | JsNumber n \<Rightarrow> ''<number: '' @ itoa n @ ''>'' | _ \<Rightarrow> ''<object>'')"

definition IntOf :: "js \<Rightarrow> int outcome" where
  "IntOf v = (case v of JsNumber n \<Rightarrow> Inr n | _ \<Rightarrow> Inl ''syscall/js: call of Value.Int on another type'')"

definition BoolOf :: "js \<Rightarrow> bool outcome" where
  "BoolOf v = (case v of JsBool b \<Rightarrow> Inr b | _ \<Rightarrow> Inl ''syscall/js: call of Value.Bool on another type'')"

definition Truthy :: "js \<Rightarrow> bool" where
  "Truthy v = (case v of
     JsUndefined \<Rightarrow> False | JsNull \<Rightarrow> False | JsBool b \<Rightarrow> b | JsNumber n \<Rightarrow> n \<noteq> 0 | JsString s \<Rightarrow> s \<noteq> []
   | _ \<Rightarrow> True)"

definition LengthOf :: "js \<Rightarrow> nat outcome" where
  "LengthOf v = (case v of
     JsArray xs \<Rightarrow> Inr (length xs)
   | JsObject kvs \<Rightarrow> Inr (case map_of kvs ''length'' of Some (JsNumber n) \<Rightarrow> nat n | _ \<Rightarrow> 0)
   | _ \<Rightarrow> Inl ''syscall/js: call of Value.Length on a value that is no object'')"

definition IndexOf :: "js \<Rightarrow> nat \<Rightarrow> js" where
  "IndexOf v i = (case v of JsArray xs \<Rightarrow> if i < length xs then xs ! i else JsUndefined | _ \<Rightarrow> JsUndefined)"

text \<open>A loop over the rows of a result: \<open>for i := 0; i < results.Length(); i++\<close>.\<close>

fun map_from :: "(js \<Rightarrow> 'a outcome) \<Rightarrow> js \<Rightarrow> nat \<Rightarrow> nat \<Rightarrow> 'a list outcome" where
  "map_from f results i 0 = Inr []"
| "map_from f results i (Suc n) =
     bindP (f (IndexOf results i)) (\<lambda>x. bindP (map_from f results (Suc i) n) (\<lambda>xs. Inr (x # xs)))"

definition map_rows :: "(js \<Rightarrow> 'a outcome) \<Rightarrow> js \<Rightarrow> 'a list outcome" where
  "map_rows f results = bindP (LengthOf results) (map_from f results 0)"

definition string_of :: "js \<Rightarrow> string \<Rightarrow> string outcome" where
  "string_of row k = bindP (Get row k) (\<lambda>v. Inr (StringOf v))"

definition int_of_row :: "js \<Rightarrow> string \<Rightarrow> int outcome" where
  "int_of_row row k = bindP (Get row k) IntOf"

definition bool_of :: "js \<Rightarrow> string \<Rightarrow> bool outcome" where
  "bool_of row k = bindP (Get row k) BoolOf"

section \<open>time.Parse\<close>

text \<open>A number of two digits, or of one where the layout allows it.\<close>

definition getnum :: "bool \<Rightarrow> string \<Rightarrow> (int \<times> string) option" where
  "getnum fixed s =
     (case s of
        [] \<Rightarrow> None
      | c # s' \<Rightarrow>
          (case digit_val c of
             None \<Rightarrow> None
           | Some d \<Rightarrow>
               (case (case s' of [] \<Rightarrow> None | e # _ \<Rightarrow> digit_val e) of
                  Some d' \<Rightarrow> Some (int (10 * d + d'), tl s')
                | None \<Rightarrow> if fixed then None else Some (int d, s'))))"

definition skip_char :: "char \<Rightarrow> string \<Rightarrow> string option" where
  "skip_char c s = (case s of [] \<Rightarrow> None | d # s' \<Rightarrow> if d = c then Some s' else None)"

definition guard :: "bool \<Rightarrow> unit option" where
  "guard b = (if b then Some () else None)"

text \<open>The zone of RFC 3339 in seconds; offsets of 24 hours and of 60 minutes are accepted.\<close>

definition parse_offset :: "string \<Rightarrow> int option" where
  "parse_offset s =
     (if s = ''Z'' then Some 0
      else do {
        guard (length s = 6 \<and> s ! 3 = CHR '':'');
        (hr, _) \<leftarrow> getnum True (take 2 (drop 1 s));
        (mm, _) \<leftarrow> getnum True (take 2 (drop 4 s));
        guard (hr \<le> 24 \<and> mm \<le> 60);
        (if s ! 0 = CHR ''+'' then Some ((hr * 60 + mm) * 60)
         else if s ! 0 = CHR ''-'' then Some (- ((hr * 60 + mm) * 60)) else None) })"

text \<open>The layouts \<open>time.RFC3339\<close> (\<open>zoned\<close>) and \<open>2006-01-02 15:04:05\<close>, whose blank stands for any number
  of them. A fraction may follow the seconds, after a point or a comma.\<close>

definition parse_layout :: "bool \<Rightarrow> string \<Rightarrow> time option" where
  "parse_layout zoned s = do {
     y \<leftarrow> (if length s < 4 then None else parse_digits 0 (take 4 s));
     s \<leftarrow> skip_char (CHR ''-'') (drop 4 s);
     (m, s) \<leftarrow> getnum True s;
     guard (1 \<le> m \<and> m \<le> 12);
     s \<leftarrow> skip_char (CHR ''-'') s;
     (d, s) \<leftarrow> getnum True s;
     s \<leftarrow> (if zoned then skip_char (CHR ''T'') s
          else map_option (dropWhile (\<lambda>c. c = CHR '' '')) (skip_char (CHR '' '') s));
     (h, s) \<leftarrow> getnum False s;
     s \<leftarrow> skip_char (CHR '':'') s;
     (mi, s) \<leftarrow> getnum True s;
     s \<leftarrow> skip_char (CHR '':'') s;
     (sc, s) \<leftarrow> getnum True s;
     guard (h < 24 \<and> mi < 60 \<and> sc < 60);
     (case parse_frac (case s of c # s' \<Rightarrow> if c = CHR '','' then CHR ''.'' # s' else s | [] \<Rightarrow> []) of (ns, rest) \<Rightarrow> do {
        guard (1 \<le> d \<and> d \<le> month_lengths (is_leap (int y)) ! nat (m - 1));
        off \<leftarrow> (if zoned then parse_offset rest else if rest = [] then Some 0 else None);
        Some (days_of_date (int y) m d * nanos_per_day
          + (h * 3600 + mi * 60 + sc - off) * nanos_per_second + ns) }) }"

definition parseTime :: "string \<Rightarrow> time" where
  "parseTime s =
     (case parse_layout True s of
        Some t \<Rightarrow> t
      | None \<Rightarrow> (case parse_layout False s of Some t \<Rightarrow> t | None \<Rightarrow> 0))"

section \<open>Statements\<close>

text \<open>
  The binding: \<open>prepare(q).bind(..).bind(..)\<close>, then \<open>run()\<close> or \<open>all()\<close>, given the text of the statement and
  the arguments of each \<open>bind\<close>. An exception of JavaScript is a panic. \<open>d1_json\<close> is the JSON that a text denotes.
\<close>

record 'd d1 =
  d1_run :: "string \<Rightarrow> js list list \<Rightarrow> 'd \<Rightarrow> js outcome \<times> 'd"
  d1_all :: "string \<Rightarrow> js list list \<Rightarrow> 'd \<Rightarrow> js outcome \<times> 'd"
  d1_json :: "string \<Rightarrow> raw"

fun bind_params :: "int \<Rightarrow> go_value list \<Rightarrow> js list list outcome" where
  "bind_params i [] = Inr []"
| "bind_params i (p # ps) =
     bindP (ValueOf p) (\<lambda>v. bindP (bind_params (i + 1) ps) (\<lambda>vs. Inr ([JsNumber (i + 1), v] # vs)))"

text \<open>One call after the other; a panic ends the operation.\<close>

definition andthen :: "'a outcome \<times> 'd \<Rightarrow> ('a \<Rightarrow> 'd \<Rightarrow> 'b outcome \<times> 'd) \<Rightarrow> 'b outcome \<times> 'd" where
  "andthen r f = (case r of (Inl p, s) \<Rightarrow> (Inl p, s) | (Inr a, s) \<Rightarrow> f a s)"

definition d1Exec :: "'d d1 \<Rightarrow> string \<Rightarrow> go_value list \<Rightarrow> 'd \<Rightarrow> error option outcome \<times> 'd" where
  "d1Exec B query params s =
     (case bind_params 0 params of
        Inl p \<Rightarrow> (Inl p, s)
      | Inr binds \<Rightarrow> andthen (d1_run B query binds s) (\<lambda>result s.
          (bindP (Get result ''error'') (\<lambda>err.
             Inr (if Truthy err then Some (Errorf (''d1 error: '' @ StringOf err)) else None)), s)))"

definition d1All :: "'d d1 \<Rightarrow> string \<Rightarrow> go_value list \<Rightarrow> 'd \<Rightarrow> js outcome \<times> 'd" where
  "d1All B query params s =
     (case bind_params 0 params of
        Inl p \<Rightarrow> (Inl p, s)
      | Inr binds \<Rightarrow> andthen (d1_all B query binds s) (\<lambda>result s.
          (bindP (Get result ''error'') (\<lambda>err. if Truthy err then Inr JsNull else Get result ''results''), s)))"

definition d1First :: "'d d1 \<Rightarrow> string \<Rightarrow> go_value list \<Rightarrow> 'd \<Rightarrow> js outcome \<times> 'd" where
  "d1First B query params s = andthen (d1All B query params s) (\<lambda>results s.
     (if results = JsNull then Inr JsNull
      else bindP (LengthOf results) (\<lambda>n. Inr (if n = 0 then JsNull else IndexOf results 0)), s))"

text \<open>The rows of a result, nothing for null.\<close>

definition rows_or_nil :: "(js \<Rightarrow> 'a outcome) \<Rightarrow> js \<Rightarrow> 'd \<Rightarrow> 'a list outcome \<times> 'd" where
  "rows_or_nil f results s = (if results = JsNull then Inr [] else map_rows f results, s)"

section \<open>Namespaces and audit\<close>

text \<open>The text of a payload.\<close>

definition raw_text :: "raw \<Rightarrow> string" where
  "raw_text r = (case r of None \<Rightarrow> [] | Some j \<Rightarrow> json_text j)"

definition d1_CreateNamespace :: "'d d1 \<Rightarrow> namespace \<Rightarrow> 'd \<Rightarrow> error option outcome \<times> 'd" where
  "d1_CreateNamespace B ns = d1Exec B ''INSERT INTO namespaces (id, created_at) VALUES (?, ?)''
     [GoString (ns_ID ns), GoOther ''time.Time'']"

text \<open>Only the error of the last statement is returned.\<close>

definition d1_DeleteNamespace :: "'d d1 \<Rightarrow> string \<Rightarrow> 'd \<Rightarrow> error option outcome \<times> 'd" where
  "d1_DeleteNamespace B ns s =
     andthen (d1Exec B ''DELETE FROM a2a_task_history WHERE task_id IN (SELECT id FROM a2a_tasks WHERE namespace = ?)'' [GoString ns] s) (\<lambda>_ s.
     andthen (d1Exec B ''DELETE FROM a2a_artifacts WHERE task_id IN (SELECT id FROM a2a_tasks WHERE namespace = ?)'' [GoString ns] s) (\<lambda>_ s.
     andthen (d1Exec B ''DELETE FROM a2a_tasks WHERE namespace = ?'' [GoString ns] s) (\<lambda>_ s.
     andthen (d1Exec B ''DELETE FROM messages WHERE namespace = ?'' [GoString ns] s) (\<lambda>_ s.
     andthen (d1Exec B ''DELETE FROM mailbox_messages WHERE namespace = ?'' [GoString ns] s) (\<lambda>_ s.
     andthen (d1Exec B ''DELETE FROM audit_events WHERE namespace = ?'' [GoString ns] s) (\<lambda>_ s.
     d1Exec B ''DELETE FROM namespaces WHERE id = ?'' [GoString ns] s))))))"

fun d1_AppendAudit :: "'d d1 \<Rightarrow> string \<Rightarrow> audit_event list \<Rightarrow> 'd \<Rightarrow> error option outcome \<times> 'd" where
  "d1_AppendAudit B ns [] s = (Inr None, s)"
| "d1_AppendAudit B ns (e # events) s =
     andthen (d1Exec B ''INSERT INTO audit_events (namespace, timestamp, level, event_type, agent_id, resource_uri, outcome, metadata) VALUES (?, ?, ?, ?, ?, ?, ?, ?)''
       [GoString ns, GoOther ''time.Time'', GoString (ae_Level e), GoString (ae_EventType e), GoString (ae_AgentID e),
        GoString (ae_ResourceURI e), GoString (ae_Outcome e), GoString (raw_text (ae_Metadata e))] s)
       (\<lambda>err s. case err of Some x \<Rightarrow> (Inr (Some x), s) | None \<Rightarrow> d1_AppendAudit B ns events s)"

section \<open>The message log\<close>

fun d1_Append :: "'d d1 \<Rightarrow> string \<Rightarrow> message list \<Rightarrow> 'd \<Rightarrow> error option outcome \<times> 'd" where
  "d1_Append B ns [] s = (Inr None, s)"
| "d1_Append B ns (m # msgs) s =
     andthen (d1First B ''SELECT COALESCE(MAX(offset), 0) + 1 as next_offset FROM messages WHERE namespace = ?'' [GoString ns] s) (\<lambda>row s.
     andthen (int_of_row row ''next_offset'', s) (\<lambda>nextOffset s.
     andthen (d1First B ''SELECT COALESCE(MAX(seq), 0) + 1 as next_seq FROM messages WHERE namespace = ?'' [GoString ns] s) (\<lambda>row s.
     andthen (int_of_row row ''next_seq'', s) (\<lambda>nextSeq s.
     andthen (d1Exec B ''INSERT INTO messages (namespace, offset, seq, type, agent_id, payload, timestamp) VALUES (?, ?, ?, ?, ?, ?, ?)''
         [GoString ns, GoInt nextOffset, GoInt nextSeq, GoString (m_Type m), GoString (m_AgentID m),
          GoString (raw_text (m_Payload m)), GoOther ''time.Time''] s) (\<lambda>err s.
       case err of Some x \<Rightarrow> (Inr (Some x), s) | None \<Rightarrow> d1_Append B ns msgs s)))))"

definition d1_message :: "'d d1 \<Rightarrow> string \<Rightarrow> js \<Rightarrow> message outcome" where
  "d1_message B ns row =
     bindP (int_of_row row ''offset'') (\<lambda>off. bindP (string_of row ''type'') (\<lambda>ty.
     bindP (string_of row ''agent_id'') (\<lambda>agent. bindP (string_of row ''payload'') (\<lambda>payload.
     bindP (string_of row ''timestamp'') (\<lambda>ts.
       Inr \<lparr>m_Offset = off, m_Type = ty, m_Namespace = ns, m_AgentID = agent,
            m_Payload = d1_json B payload, m_Timestamp = parseTime ts\<rparr>)))))"

definition d1_query_text :: "query_opts \<Rightarrow> string" where
  "d1_query_text opts =
     ''SELECT offset, type, agent_id, payload, timestamp FROM messages WHERE namespace = ? AND offset > ?''
     @ (if length (q_Types opts) > 0
        then '' AND type IN ('' @ Join (replicate (length (q_Types opts)) ''?'') '','' @ '')'' else [])
     @ (if q_AgentID opts \<noteq> [] then '' AND agent_id = ?'' else [])
     @ '' ORDER BY offset''
     @ (if q_Limit opts > 0 then '' LIMIT '' @ itoa (q_Limit opts) else [])"

text \<open>\<open>opts.Since\<close> is an \<open>Offset\<close>, a type of its own.\<close>

definition d1_query_args :: "string \<Rightarrow> query_opts \<Rightarrow> go_value list" where
  "d1_query_args ns opts =
     [GoString ns, GoOther ''hearsay.Offset''] @ map GoString (q_Types opts)
     @ (if q_AgentID opts \<noteq> [] then [GoString (q_AgentID opts)] else [])"

definition d1_Query :: "'d d1 \<Rightarrow> string \<Rightarrow> query_opts \<Rightarrow> 'd \<Rightarrow> message list outcome \<times> 'd" where
  "d1_Query B ns opts s =
     andthen (d1All B (d1_query_text opts) (d1_query_args ns opts) s) (rows_or_nil (d1_message B ns))"

definition d1_ActiveClaims :: "'d d1 \<Rightarrow> env \<Rightarrow> string \<Rightarrow> string \<Rightarrow> 'd \<Rightarrow> claim list outcome \<times> 'd" where
  "d1_ActiveClaims B e ns resourcePattern s =
     andthen (d1_Query B ns (no_opts\<lparr>q_Types := [MsgClaim, MsgRelease, MsgTransfer]\<rparr>) s) (\<lambda>msgs s.
       (Inr (matching_claims resourcePattern (FilterActiveClaims (Now e 0) msgs)), s))"

definition d1_AgentState :: "'d d1 \<Rightarrow> env \<Rightarrow> string \<Rightarrow> string \<Rightarrow> 'd \<Rightarrow> agent_state outcome \<times> 'd" where
  "d1_AgentState B e ns agentID s =
     andthen (d1_Query B ns no_opts s) (\<lambda>msgs s. (Inr (agent_state_of (Now e 0) agentID msgs), s))"

text \<open>A failing read is an empty one, and the errors of the deletions are dropped.\<close>

fun d1_sweep_loop :: "'d d1 \<Rightarrow> string \<Rightarrow> time \<Rightarrow> js \<Rightarrow> nat \<Rightarrow> nat \<Rightarrow> 'd \<Rightarrow> error option outcome \<times> 'd" where
  "d1_sweep_loop B ns before results i 0 s = (Inr None, s)"
| "d1_sweep_loop B ns before results i (Suc n) s =
     (let row = IndexOf results i
      in andthen (int_of_row row ''offset'', s) (\<lambda>off s.
         andthen (string_of row ''payload'', s) (\<lambda>payload s.
           case decode_claim (d1_json B payload) of
             None \<Rightarrow> d1_sweep_loop B ns before results (Suc i) n s
           | Some c \<Rightarrow>
               if c_CreatedAt c + seconds (c_TTLSeconds c) < before then
                 andthen (d1Exec B ''DELETE FROM messages WHERE namespace = ? AND offset = ?'' [GoString ns, GoInt off] s)
                   (\<lambda>_ s. d1_sweep_loop B ns before results (Suc i) n s)
               else d1_sweep_loop B ns before results (Suc i) n s)))"

definition select_claims_text :: string where
  "select_claims_text = ''SELECT offset, payload FROM messages WHERE namespace = ? AND type = ''
     @ [CHR 0x27] @ ''claim'' @ [CHR 0x27]"

definition d1_ReleaseExpired :: "'d d1 \<Rightarrow> string \<Rightarrow> time \<Rightarrow> 'd \<Rightarrow> error option outcome \<times> 'd" where
  "d1_ReleaseExpired B ns before s =
     andthen (d1All B select_claims_text [GoString ns] s) (\<lambda>results s.
       if results = JsNull then (Inr None, s)
       else andthen (LengthOf results, s) (\<lambda>n s. d1_sweep_loop B ns before results 0 n s))"

section \<open>Subscriptions\<close>

text \<open>The messages sent over the states that the polls find, and the panic that ends the process.\<close>

fun d1_Subscribe ::
  "'d d1 \<Rightarrow> (nat \<Rightarrow> nat \<Rightarrow> bool) \<Rightarrow> nat \<Rightarrow> string \<Rightarrow> 'd list \<Rightarrow> int \<Rightarrow> message list \<times> string option" where
  "d1_Subscribe B cancelled k ns [] current = ([], None)"
| "d1_Subscribe B cancelled k ns (s # ss) current =
     (case fst (d1_Query B ns (no_opts\<lparr>q_Since := current\<rparr>) s) of
        Inl p \<Rightarrow> ([], Some p)
      | Inr msgs \<Rightarrow>
          (case mg_send_loop (cancelled k) 0 msgs current of
             (sent, cur, stop) \<Rightarrow>
               if stop then (sent, None)
               else (case d1_Subscribe B cancelled (Suc k) ns ss cur of (rest, p) \<Rightarrow> (sent @ rest, p))))"

definition msgTypeStringToEvent :: "string \<Rightarrow> string" where
  "msgTypeStringToEvent t =
     (if t = MsgClaim then EventClaim else if t = MsgRelease then EventRelease
      else if t = MsgHeartbeat then EventHeartbeat else t)"

definition d1_event :: "'d d1 \<Rightarrow> js \<Rightarrow> event outcome" where
  "d1_event B row =
     bindP (int_of_row row ''seq'') (\<lambda>n. bindP (string_of row ''type'') (\<lambda>ty.
     bindP (string_of row ''payload'') (\<lambda>payload. bindP (string_of row ''timestamp'') (\<lambda>ts.
       Inr \<lparr>ev_Seq = n, ev_Type = msgTypeStringToEvent ty, ev_Payload = d1_json B payload,
            ev_Timestamp = parseTime ts\<rparr>))))"

datatype stream_end = Goes_on | Stopped | Panicked string

fun d1_event_loop :: "'d d1 \<Rightarrow> (nat \<Rightarrow> bool) \<Rightarrow> js \<Rightarrow> nat \<Rightarrow> nat \<Rightarrow> int \<Rightarrow> event list \<times> int \<times> stream_end" where
  "d1_event_loop B cancelled results i 0 since = ([], since, Goes_on)"
| "d1_event_loop B cancelled results i (Suc n) since =
     (case d1_event B (IndexOf results i) of
        Inl p \<Rightarrow> ([], since, Panicked p)
      | Inr ev \<Rightarrow>
          if cancelled i then ([], since, Stopped)
          else (case d1_event_loop B cancelled results (Suc i) n (ev_Seq ev) of
            (evs, cur, stop) \<Rightarrow> (ev # evs, cur, stop)))"

text \<open>The replay and the polls are the same statement; a null result is no event.\<close>

fun d1_SubscribeEvents ::
  "'d d1 \<Rightarrow> (nat \<Rightarrow> nat \<Rightarrow> bool) \<Rightarrow> nat \<Rightarrow> string \<Rightarrow> 'd list \<Rightarrow> int \<Rightarrow> event list \<times> string option" where
  "d1_SubscribeEvents B cancelled k ns [] since = ([], None)"
| "d1_SubscribeEvents B cancelled k ns (s # ss) since =
     (case fst (d1All B ''SELECT seq, type, payload, timestamp FROM messages WHERE namespace = ? AND seq > ? ORDER BY seq''
          [GoString ns, GoInt since] s) of
        Inl p \<Rightarrow> ([], Some p)
      | Inr results \<Rightarrow>
          if results = JsNull then d1_SubscribeEvents B cancelled (Suc k) ns ss since
          else (case LengthOf results of
              Inl p \<Rightarrow> ([], Some p)
            | Inr n \<Rightarrow>
                (case d1_event_loop B (cancelled k) results 0 n since of
                   (evs, cur, Stopped) \<Rightarrow> (evs, None)
                 | (evs, cur, Panicked p) \<Rightarrow> (evs, Some p)
                 | (evs, cur, Goes_on) \<Rightarrow>
                     (case d1_SubscribeEvents B cancelled (Suc k) ns ss cur of (rest, p) \<Rightarrow> (evs @ rest, p)))))"

section \<open>The mailbox\<close>

definition d1_SendMessage :: "'d d1 \<Rightarrow> env \<Rightarrow> string \<Rightarrow> mailbox_message \<Rightarrow> 'd \<Rightarrow> error option outcome \<times> 'd" where
  "d1_SendMessage B e ns msg0 =
     (let msg = fill_times (Now e 0) msg0
      in d1Exec B ''INSERT INTO mailbox_messages (message_id, namespace, from_agent, to_agent, message_type, content, related_claim_id, read, archived, created_at, expires_at) VALUES (?, ?, ?, ?, ?, ?, ?, ?, ?, ?, ?)''
        [GoString (mb_MessageID msg), GoString ns, GoString (mb_From msg), GoString (mb_To msg),
         GoOther ''hearsay.MailboxType'', GoString (mb_Content msg), GoString (mb_RelatedClaimID msg),
         GoBool (mb_Read msg), GoBool (mb_Archived msg), GoOther ''time.Time'', GoOther ''time.Time''])"

definition d1_mailbox_message :: "js \<Rightarrow> mailbox_message outcome" where
  "d1_mailbox_message row =
     bindP (string_of row ''message_id'') (\<lambda>mid. bindP (string_of row ''from_agent'') (\<lambda>sender.
     bindP (string_of row ''to_agent'') (\<lambda>to. bindP (string_of row ''message_type'') (\<lambda>ty.
     bindP (string_of row ''content'') (\<lambda>cont. bindP (string_of row ''related_claim_id'') (\<lambda>rel.
     bindP (bool_of row ''read'') (\<lambda>rd. bindP (bool_of row ''archived'') (\<lambda>arch.
     bindP (string_of row ''created_at'') (\<lambda>cr. bindP (string_of row ''expires_at'') (\<lambda>ex.
       Inr \<lparr>mb_MessageID = mid, mb_From = sender, mb_To = to, mb_Type = ty, mb_Content = cont,
            mb_RelatedClaimID = rel, mb_Read = rd, mb_Archived = arch, mb_CreatedAt = parseTime cr,
            mb_ExpiresAt = parseTime ex\<rparr>))))))))))"

definition d1_GetMailbox ::
  "'d d1 \<Rightarrow> string \<Rightarrow> string \<Rightarrow> mailbox_query_opts \<Rightarrow> 'd \<Rightarrow> mailbox_message list outcome \<times> 'd" where
  "d1_GetMailbox B ns agentID opts s =
     andthen (d1All B (''SELECT message_id, from_agent, to_agent, message_type, content, related_claim_id, read, archived, created_at, expires_at FROM mailbox_messages WHERE namespace = ? AND (to_agent = ? OR to_agent = ?) AND archived = FALSE''
         @ (if mq_Unread opts then '' AND read = FALSE'' else []) @ '' ORDER BY created_at DESC''
         @ (if mq_Limit opts > 0 then '' LIMIT '' @ itoa (mq_Limit opts) else []))
       [GoString ns, GoString agentID, GoString MailboxToBroadcast] s) (rows_or_nil d1_mailbox_message)"

definition d1_MarkRead :: "'d d1 \<Rightarrow> string \<Rightarrow> string \<Rightarrow> 'd \<Rightarrow> error option outcome \<times> 'd" where
  "d1_MarkRead B ns messageID = d1Exec B
     ''UPDATE mailbox_messages SET read = TRUE WHERE namespace = ? AND message_id = ?'' [GoString ns, GoString messageID]"

definition d1_ArchiveMessage :: "'d d1 \<Rightarrow> string \<Rightarrow> string \<Rightarrow> 'd \<Rightarrow> error option outcome \<times> 'd" where
  "d1_ArchiveMessage B ns messageID = d1Exec B
     ''UPDATE mailbox_messages SET archived = TRUE WHERE namespace = ? AND message_id = ?'' [GoString ns, GoString messageID]"

definition d1_ExpireMessages :: "'d d1 \<Rightarrow> string \<Rightarrow> time \<Rightarrow> 'd \<Rightarrow> error option outcome \<times> 'd" where
  "d1_ExpireMessages B ns before = d1Exec B
     ''DELETE FROM mailbox_messages WHERE namespace = ? AND expires_at < ?'' [GoString ns, GoOther ''time.Time'']"

section \<open>Tasks\<close>

definition d1_CreateTask :: "'d d1 \<Rightarrow> string \<Rightarrow> a2a_task \<Rightarrow> 'd \<Rightarrow> error option outcome \<times> 'd" where
  "d1_CreateTask B ns t = d1Exec B
     ''INSERT INTO a2a_tasks (id, session_id, state, status_message, status_time, claim_id, namespace, metadata, created_at) VALUES (?, ?, ?, ?, ?, ?, ?, ?, ?)''
     [GoString (t_ID t), GoString (t_SessionID t), GoString (t_State t), GoString (raw_text (t_StatusMsg t)),
      GoOther ''time.Time'', GoString (t_ClaimID t), GoString ns, GoString (raw_text (t_Metadata t)), GoOther ''time.Time'']"

definition d1_task :: "'d d1 \<Rightarrow> js \<Rightarrow> a2a_task outcome" where
  "d1_task B row =
     bindP (string_of row ''id'') (\<lambda>tid. bindP (string_of row ''session_id'') (\<lambda>sid.
     bindP (string_of row ''state'') (\<lambda>state. bindP (string_of row ''status_message'') (\<lambda>msg.
     bindP (string_of row ''status_time'') (\<lambda>st. bindP (string_of row ''claim_id'') (\<lambda>cid.
     bindP (string_of row ''namespace'') (\<lambda>ns. bindP (string_of row ''metadata'') (\<lambda>meta.
     bindP (string_of row ''created_at'') (\<lambda>cr.
       Inr \<lparr>t_ID = tid, t_SessionID = sid, t_State = state, t_StatusMsg = d1_json B msg, t_StatusTime = parseTime st,
            t_ClaimID = cid, t_Namespace = ns, t_Metadata = d1_json B meta, t_CreatedAt = parseTime cr\<rparr>)))))))))"

definition d1_GetTask :: "'d d1 \<Rightarrow> string \<Rightarrow> string \<Rightarrow> 'd \<Rightarrow> (error + a2a_task) outcome \<times> 'd" where
  "d1_GetTask B ns taskID s =
     andthen (d1First B ''SELECT id, session_id, state, status_message, status_time, claim_id, namespace, metadata, created_at FROM a2a_tasks WHERE namespace = ? AND id = ?''
       [GoString ns, GoString taskID] s) (\<lambda>row s.
       if row = JsNull then (Inr (Inl (Errorf (''task '' @ taskID @ '' not found''))), s)
       else (bindP (d1_task B row) (\<lambda>t. Inr (Inr t)), s))"

definition d1_UpdateTask :: "'d d1 \<Rightarrow> string \<Rightarrow> a2a_task \<Rightarrow> 'd \<Rightarrow> error option outcome \<times> 'd" where
  "d1_UpdateTask B ns t = d1Exec B
     ''UPDATE a2a_tasks SET session_id = ?, state = ?, status_message = ?, status_time = ?, claim_id = ?, metadata = ? WHERE namespace = ? AND id = ?''
     [GoString (t_SessionID t), GoString (t_State t), GoString (raw_text (t_StatusMsg t)), GoOther ''time.Time'',
      GoString (t_ClaimID t), GoString (raw_text (t_Metadata t)), GoString ns, GoString (t_ID t)]"

definition d1_AppendTaskHistory :: "'d d1 \<Rightarrow> string \<Rightarrow> string \<Rightarrow> int \<Rightarrow> a2a_message \<Rightarrow> 'd \<Rightarrow> error option outcome \<times> 'd" where
  "d1_AppendTaskHistory B ns taskID seqno msg = d1Exec B
     ''INSERT INTO a2a_task_history (task_id, seq, role, parts, metadata, timestamp) VALUES (?, ?, ?, ?, ?, ?)''
     [GoString taskID, GoInt seqno, GoString (h_Role msg), GoString (raw_text (h_Parts msg)),
      GoString (raw_text (h_Metadata msg)), GoOther ''time.Time'']"

definition d1_history :: "'d d1 \<Rightarrow> js \<Rightarrow> a2a_message outcome" where
  "d1_history B row =
     bindP (string_of row ''role'') (\<lambda>rl. bindP (string_of row ''parts'') (\<lambda>ps.
     bindP (string_of row ''metadata'') (\<lambda>meta.
       Inr \<lparr>h_Role = rl, h_Parts = d1_json B ps, h_Metadata = d1_json B meta\<rparr>)))"

definition d1_GetTaskHistory :: "'d d1 \<Rightarrow> string \<Rightarrow> string \<Rightarrow> int \<Rightarrow> 'd \<Rightarrow> a2a_message list outcome \<times> 'd" where
  "d1_GetTaskHistory B ns taskID limit s =
     andthen (d1All B (''SELECT role, parts, metadata FROM a2a_task_history WHERE task_id = ? ORDER BY seq''
         @ (if limit > 0 then '' LIMIT '' @ itoa limit else [])) [GoString taskID] s) (rows_or_nil (d1_history B))"

definition d1_CreateArtifact :: "'d d1 \<Rightarrow> string \<Rightarrow> string \<Rightarrow> a2a_artifact \<Rightarrow> 'd \<Rightarrow> error option outcome \<times> 'd" where
  "d1_CreateArtifact B ns taskID art = d1Exec B
     ''INSERT INTO a2a_artifacts (task_id, name, description, parts, index_num, append, last_chunk, metadata, created_at) VALUES (?, ?, ?, ?, ?, ?, ?, ?, ?)''
     [GoString taskID, GoString (art_Name art), GoString (art_Description art), GoString (raw_text (art_Parts art)),
      GoInt (art_Index art), GoBool (art_Append art), GoBool (art_LastChunk art), GoString (raw_text (art_Metadata art)),
      GoOther ''time.Time'']"

definition d1_artifact :: "'d d1 \<Rightarrow> js \<Rightarrow> a2a_artifact outcome" where
  "d1_artifact B row =
     bindP (Get row ''index_num'') (\<lambda>num. bindP (if num = JsNull then Inr 0 else IntOf num) (\<lambda>idx.
     bindP (string_of row ''name'') (\<lambda>nm. bindP (string_of row ''description'') (\<lambda>desc.
     bindP (string_of row ''parts'') (\<lambda>ps. bindP (bool_of row ''append'') (\<lambda>ap.
     bindP (bool_of row ''last_chunk'') (\<lambda>lc. bindP (string_of row ''metadata'') (\<lambda>meta.
       Inr \<lparr>art_Name = nm, art_Description = desc, art_Parts = d1_json B ps, art_Index = idx, art_Append = ap,
            art_LastChunk = lc, art_Metadata = d1_json B meta\<rparr>))))))))"

definition d1_GetArtifacts :: "'d d1 \<Rightarrow> string \<Rightarrow> string \<Rightarrow> 'd \<Rightarrow> a2a_artifact list outcome \<times> 'd" where
  "d1_GetArtifacts B ns taskID s =
     andthen (d1All B ''SELECT name, description, parts, index_num, append, last_chunk, metadata FROM a2a_artifacts WHERE task_id = ? ORDER BY name, index_num''
       [GoString taskID] s) (rows_or_nil (d1_artifact B))"

section \<open>What panics\<close>

lemma bind_params_other: "GoOther t \<in> set params \<Longrightarrow> bind_params i params = Inl ''ValueOf: invalid value''"
proof (induction params arbitrary: i)
  case (Cons p ps)
  then show ?case by (cases p) (auto simp: ValueOf_def bindP_def)
qed simp

lemma d1_other:
  "GoOther t \<in> set params \<Longrightarrow> d1Exec B query params s = (Inl ''ValueOf: invalid value'', s)"
  "GoOther t \<in> set params \<Longrightarrow> d1All B query params s = (Inl ''ValueOf: invalid value'', s)"
  by (simp_all add: d1Exec_def d1All_def bind_params_other)

lemma d1_Query_panics: "d1_Query B ns opts s = (Inl ''ValueOf: invalid value'', s)"
  unfolding d1_Query_def by (subst d1_other(2) [where t = "''hearsay.Offset''"]) (simp_all add: d1_query_args_def andthen_def)

text \<open>C28: Whatever the database answers, on Cloudflare no claim can be made: \<open>Query\<close> passes an
  \<open>Offset\<close> to JavaScript, which \<open>js.ValueOf\<close> refuses with a panic before the statement runs, and \<open>Query\<close>
  is the first thing that every claim, conflict check and agent state does. The writes that carry a
  time or a mailbox type panic as well, without a change to the database: namespaces, messages of the
  mailbox, tasks, histories and artifacts; and an append of any message ends in a panic.\<close>

theorem d1_panics:
  "fst (d1_Query B ns opts s) = Inl ''ValueOf: invalid value'' \<and>
   d1_ActiveClaims B e ns pat s = (Inl ''ValueOf: invalid value'', s) \<and>
   d1_AgentState B e ns agent s = (Inl ''ValueOf: invalid value'', s) \<and>
   d1_CreateNamespace B nsp s = (Inl ''ValueOf: invalid value'', s) \<and>
   d1_SendMessage B e ns mail s = (Inl ''ValueOf: invalid value'', s) \<and>
   d1_ExpireMessages B ns before s = (Inl ''ValueOf: invalid value'', s) \<and>
   d1_CreateTask B ns t s = (Inl ''ValueOf: invalid value'', s) \<and>
   d1_UpdateTask B ns t s = (Inl ''ValueOf: invalid value'', s) \<and>
   d1_AppendTaskHistory B ns tid n hm s = (Inl ''ValueOf: invalid value'', s) \<and>
   d1_CreateArtifact B ns tid art s = (Inl ''ValueOf: invalid value'', s) \<and>
   d1_AppendAudit B ns (ae # aes) s = (Inl ''ValueOf: invalid value'', s) \<and>
   (\<exists>p s'. d1_Append B ns (m # msgs) s = (Inl p, s'))"
proof (intro conjI)
  have "d1Exec B q ([GoString ns, GoInt i, GoInt j, GoString (m_Type m), GoString (m_AgentID m),
      GoString (raw_text (m_Payload m)), GoOther ''time.Time'']) s' = (Inl ''ValueOf: invalid value'', s')" for q i j s'
    by (rule d1_other(1) [where t = "''time.Time''"]) simp
  then show "\<exists>p s'. d1_Append B ns (m # msgs) s = (Inl p, s')"
    by (simp add: andthen_def split: prod.split sum.split)
qed (simp_all add: d1_Query_panics d1_ActiveClaims_def d1_AgentState_def d1_CreateNamespace_def d1_SendMessage_def
    d1_ExpireMessages_def d1_CreateTask_def d1_UpdateTask_def d1_AppendTaskHistory_def d1_CreateArtifact_def
    d1_other(1) [where t = "''time.Time''"] andthen_def Let_def)

end
