(* ===== verification/Worker.thy ===== *)
theory Worker
  imports D1 ServerFacts A2AStream Url JsonText
begin

text \<open>
  The Cloudflare worker: \<open>handleRequest\<close> of \<open>cmd/hearsay/main_wasm.go\<close>, which \<open>worker.js\<close> calls with every
  request, and the Durable Object of \<open>internal/do/do.go\<close>. The back end is a provider; what D1 does under it is
  in the theory of D1.
\<close>

section \<open>Requests of the Fetch API\<close>

text \<open>\<open>jq_Body\<close> says whether \<open>request.body\<close> is truthy, \<open>jq_Text\<close> is what \<open>request.text()\<close> returns, and
  \<open>jq_Headers\<close> are the entries of \<open>request.headers\<close>.\<close>

record js_request =
  jq_URL :: string
  jq_Method :: string
  jq_Body :: bool
  jq_Text :: js
  jq_Headers :: "(string \<times> string) list option"

record js_response =
  jp_Status :: int
  jp_Headers :: "(string \<times> string) list"
  jp_Body :: body

definition newResponse :: "int \<Rightarrow> body \<Rightarrow> js_response" where
  "newResponse statusCode b =
     \<lparr>jp_Status = statusCode, jp_Headers = [(''Content-Type'', ''application/json'')], jp_Body = b\<rparr>"

section \<open>Header keys\<close>

definition token_char :: "char \<Rightarrow> bool" where
  "token_char c \<longleftrightarrow>
     (let n = of_char c :: nat
      in 48 \<le> n \<and> n \<le> 57 \<or> 65 \<le> n \<and> n \<le> 90 \<or> 97 \<le> n \<and> n \<le> 122 \<or> c \<in> set ''!#$%&*+-.^_`|~'' \<or> n = 39)"

definition upper_char :: "char \<Rightarrow> char" where
  "upper_char c = (let n = of_char c :: nat in if 97 \<le> n \<and> n \<le> 122 then char_of (n - 32) else c)"

fun canonical :: "bool \<Rightarrow> string \<Rightarrow> string" where
  "canonical upper [] = []"
| "canonical upper (c # s) = (if upper then upper_char c else lower_char c) # canonical (c = CHR ''-'') s"

definition CanonicalHeaderKey :: "string \<Rightarrow> string" where
  "CanonicalHeaderKey s = (if list_all token_char s then canonical True s else s)"

text \<open>The loop of \<open>Header.Set\<close> over the entries, and \<open>Header.Get\<close> of the result.\<close>

definition header_map :: "(string \<times> string) list \<Rightarrow> string \<Rightarrow> string" where
  "header_map kvs name =
     fold (\<lambda>(k, v) h. h(CanonicalHeaderKey k := v)) kvs (\<lambda>_. []) (CanonicalHeaderKey name)"

section \<open>URLs\<close>

text \<open>\<open>strings.SplitN\<close> at a slash.\<close>

fun SplitN :: "nat \<Rightarrow> string \<Rightarrow> string list" where
  "SplitN 0 s = []"
| "SplitN (Suc 0) s = [s]"
| "SplitN (Suc (Suc n)) s =
     (if CHR ''/'' \<in> set s then
        (case Url.cut (CHR ''/'') s of (u, v) \<Rightarrow> u # SplitN (Suc n) v)
      else [s])"

text \<open>The unescaping of a path, which leaves a plus sign alone.\<close>

fun path_unescape :: "string \<Rightarrow> string option" where
  "path_unescape [] = Some []"
| "path_unescape (c # s) =
     (if c = CHR ''%'' then
        (case s of
           a # b # s' \<Rightarrow>
             (case (hex_val a, hex_val b) of
                (Some x, Some y) \<Rightarrow> map_option (\<lambda>t. char_of (16 * x + y) # t) (path_unescape s')
              | _ \<Rightarrow> None)
         | _ \<Rightarrow> None)
      else map_option (\<lambda>t. c # t) (path_unescape s))"

text \<open>\<open>url.Parse\<close> of a text that starts with a slash: its path. Two slashes start an authority; its syntax
  is the parameter \<open>authority\<close>.\<close>

definition parse_rooted :: "(string \<Rightarrow> bool) \<Rightarrow> string \<Rightarrow> string option" where
  "parse_rooted authority raw =
     (case Url.cut (CHR ''#'') raw of (u, frag) \<Rightarrow>
        if list_ex control u then None
        else
          let rest = fst (Url.cut (CHR ''?'') u);
              two = HasPrefix rest ''//'' \<and> \<not> HasPrefix rest ''///'';
              auth = takeWhile (\<lambda>c. c \<noteq> CHR ''/'') (drop 2 rest);
              path = (if two then drop (length auth + 2) rest else rest)
          in if two \<and> \<not> authority auth then None
             else case path_unescape path of
                    None \<Rightarrow> None
                  | Some p \<Rightarrow> if path_unescape frag = None then None else Some p)"

definition valid_method :: "string \<Rightarrow> bool" where
  "valid_method m \<longleftrightarrow> m \<noteq> [] \<and> list_all token_char m"

section \<open>The worker\<close>

text \<open>The globals: the server, once it is made, and the database behind it.\<close>

record 's worker =
  wk_Server :: "'s server option"
  wk_Store :: 's

definition worker_server :: "'s worker \<Rightarrow> 's server" where
  "worker_server g =
     (case wk_Server g of
        None \<Rightarrow> New_server False [] 0 0 AuditOff ''default'' (wk_Store g)
      | Some sv \<Rightarrow> sv\<lparr>sv_store := wk_Store g\<rparr>)"

definition worker_a2a :: a2a_server where
  "worker_a2a = \<lparr>x_cfg = None, x_client = ''default'', x_namespace = ''default'', x_flusher = False\<rparr>"

definition request_body :: "js_request \<Rightarrow> string" where
  "request_body jq =
     (if jq_Body jq then
        (case jq_Text jq of JsString s \<Rightarrow> s | _ \<Rightarrow> [])
      else [])"

text \<open>The namespace and the path behind \<open>/ns/<namespace>\<close>.\<close>

definition split_url :: "string \<Rightarrow> (string \<times> string) option" where
  "split_url url =
     (let path = TrimPrefix (TrimPrefix url ''http://'') ''https://'';
          path = (if CHR ''/'' \<in> set path then dropWhile (\<lambda>c. c \<noteq> CHR ''/'') path else path);
          parts = SplitN 4 (TrimPrefix path ''/'')
      in if length parts < 3 \<or> parts ! 0 \<noteq> ''ns'' then None
         else Some (parts ! 1, ''/'' @ Join (drop 2 parts) ''/''))"

definition go_request ::
  "(string \<Rightarrow> bool) \<Rightarrow> js_request \<Rightarrow> string \<Rightarrow> string \<Rightarrow> request option" where
  "go_request authority jq namespace remaining =
     (let meth = (if jq_Method jq = [] then ''GET'' else jq_Method jq)
      in if \<not> valid_method meth then None
         else case parse_rooted authority remaining of
           None \<Rightarrow> None
         | Some path \<Rightarrow>
             Some \<lparr>hr_Method = meth, hr_Path = path,
               hr_Header = header_map ((case jq_Headers jq of None \<Rightarrow> [] | Some kvs \<Rightarrow> kvs)
                 @ [(''X-Hearsay-Namespace'', namespace)]),
               hr_Param = first_value (parse_query (''namespace='' @ namespace)),
               hr_Body = Decode (request_body jq)\<rparr>)"

definition isA2A :: "string \<Rightarrow> string \<Rightarrow> bool" where
  "isA2A remaining meth \<longleftrightarrow> remaining = ''/'' \<and> meth = ''POST'' \<or>
     remaining = ''/.well-known/agent.json'' \<and> meth = ''GET''"

text \<open>
  The recorder keeps status and body; the headers of the handler are dropped. Nothing leaves the worker
  before the handler has returned, and the context of the request is never cancelled: for \<open>/events\<close> over a
  back end whose stream ends only with the context, as that of D1 does, the response below is what the
  recorder has collected, and the call does not return.
\<close>

definition handleRequest ::
  "(string \<Rightarrow> bool) \<Rightarrow> (string \<Rightarrow> int \<Rightarrow> 's \<Rightarrow> error + event list) \<Rightarrow> 's provider \<Rightarrow>
     envs \<Rightarrow> (nat \<Rightarrow> bool) \<Rightarrow> bool \<Rightarrow> js_request \<Rightarrow> 's worker \<Rightarrow> js_response \<times> 's worker" where
  "handleRequest authority subscribe P es gone bound jq g =
     (if wk_Server g = None \<and> \<not> bound then
        (newResponse 500 (Text ''{\"error\":\"D1 binding not provided\"}''), g)
      else
        let sv = worker_server g; g1 = g\<lparr>wk_Server := Some sv\<rparr>
        in case split_url (jq_URL jq) of
             None \<Rightarrow> (newResponse 400 (Text ''{\"error\":\"invalid path, expected /ns/<namespace>/...\"}''), g1)
           | Some (namespace, remaining) \<Rightarrow>
               (case go_request authority jq namespace remaining of
                  None \<Rightarrow> (newResponse 400 (Text ''{\"error\":\"invalid request\"}''), g1)
                | Some r \<Rightarrow>
                    if isA2A remaining (jq_Method jq) then
                      (case a2a_ServeHTTP P worker_a2a es [] gone r (sv_store sv) of
                         (w, s') \<Rightarrow> (newResponse (w_Status w) (w_Body w),
                           \<lparr>wk_Server = Some (sv\<lparr>sv_store := s'\<rparr>), wk_Store = s'\<rparr>))
                    else
                      (case ServeHTTP subscribe P es r sv of
                         (w, sv') \<Rightarrow> (newResponse (w_Status w) (w_Body w),
                           \<lparr>wk_Server = Some sv', wk_Store = sv_store sv'\<rparr>))))"

section \<open>The Durable Object\<close>

text \<open>Making the object and every alarm set the next alarm a minute later; the alarm sweeps the namespace
  \<open>default\<close>, and requests are not answered.\<close>

definition NewCoordinatorDO :: "env \<Rightarrow> 's \<Rightarrow> 's server \<times> time" where
  "NewCoordinatorDO e s =
     ((New_server False [] 0 0 AuditOff ''default'' s)\<lparr>sv_audit := NewAuditLogger AuditOff []\<rparr>,
      Now e 0 + 60 * nanos_per_second)"

definition DO_Fetch :: js where
  "DO_Fetch = JsNull"

definition DO_Alarm :: "'s provider \<Rightarrow> env \<Rightarrow> 's \<Rightarrow> time \<times> 's" where
  "DO_Alarm P e s = (Now e 1 + 60 * nanos_per_second, snd (p_ReleaseExpired P e ''default'' (Now e 0) s))"

text \<open>\<open>RunSweeper\<close> of \<open>sweeper_wasm.go\<close>.\<close>

definition RunSweeper_wasm :: "'s provider \<Rightarrow> string \<Rightarrow> 's \<Rightarrow> 's" where
  "RunSweeper_wasm P ns s = s"

section \<open>What a handler does without a body\<close>

lemma decode_nothing [simp]: "decode fds r None = None"
  by (simp add: decode_def Unmarshal_def)

text \<open>The paths of the routes for POST.\<close>

definition post_paths :: "string list" where
  "post_paths = [''/claim'', ''/release'', ''/heartbeat'', ''/intent'', ''/message'', ''/message/read'',
     ''/message/archive'', ''/namespaces/create'', ''/namespaces/delete'', ''/append'', ''/expire'']"

lemma post_paths_routes: "p \<in> set post_paths \<Longrightarrow> \<exists>handler. map_of post_routes p = Some handler"
  by (auto simp: post_routes_def post_paths_def)

lemma post_without_body:
  assumes "map_of post_routes path = Some handler" and "hr_Body r = None" and "hr_Method r = ''POST''"
  shows "handler P es r sv = (bad_request, sv)"
  using assms
  by (auto simp: post_routes_def handleClaim_def handleRelease_def handleHeartbeat_def handleIntent_def
      handleSendMessage_def handleMarkRead_def handleArchiveMessage_def handleCreateNamespace_def
      handleDeleteNamespace_def handleAppend_def handleReleaseExpired_def decode_ref_def split: if_splits)

lemma ServeHTTP_without_body:
  fixes P :: "'s provider"
  assumes "hr_Body r = None" and "sv_token sv = []" and "rl_limit (sv_rate sv) \<le> 0"
  shows "snd (ServeHTTP subscribe P es r sv) = sv"
    and "hr_Method r = ''POST'' \<Longrightarrow> hr_Path r \<in> set post_paths \<Longrightarrow>
      fst (ServeHTTP subscribe P es r sv) = bad_request"
proof -
  have post: "rate_Wrap (auth_Wrap handler) P es r sv = (bad_request, sv)"
    if "map_of post_routes (hr_Path r) = Some handler" "hr_Method r = ''POST''" for handler
    using assms(2,3) post_without_body [OF that(1) assms(1) that(2)] by (simp add: rate_Wrap_def auth_Wrap_def)
  show "snd (ServeHTTP subscribe P es r sv) = sv"
  proof (cases "hr_Method r = ''POST'' \<and> map_of (post_routes :: (string \<times> 's handler) list) (hr_Path r) \<noteq> None")
    case True
    then show ?thesis using post by (auto simp: ServeHTTP_def)
  qed (rule ServeHTTP_other)
  assume meth: "hr_Method r = ''POST''" and "hr_Path r \<in> set post_paths"
  then obtain handler :: "'s handler" where "map_of post_routes (hr_Path r) = Some handler"
    using post_paths_routes by blast
  with meth show "fst (ServeHTTP subscribe P es r sv) = bad_request"
    using post by (simp add: ServeHTTP_def)
qed

lemma rpc_without_body: "hr_Body r = None \<Longrightarrow> snd (a2a_ServeHTTP P x es agent gone r s) = s"
  by (simp add: a2a_ServeHTTP_def handleJSONRPC_def)

section \<open>Every write is lost\<close>

text \<open>The servers of a worker have neither a token nor a limit.\<close>

definition worker_ok :: "'s worker \<Rightarrow> bool" where
  "worker_ok g \<longleftrightarrow> (\<forall>sv. wk_Server g = Some sv \<longrightarrow> sv_token sv = [] \<and> rl_limit (sv_rate sv) \<le> 0)"

lemma worker_server_open:
  "worker_ok g \<Longrightarrow> sv_token (worker_server g) = [] \<and> rl_limit (sv_rate (worker_server g)) \<le> 0"
  by (auto simp: worker_ok_def worker_server_def New_server_def NewRateLimiter_def split: option.split)

lemma worker_server_store: "sv_store (worker_server g) = wk_Store g"
  by (simp add: worker_server_def New_server_def split: option.split)

text \<open>A request is refused before it reaches a server, or goes to one of the two.\<close>

lemma handleRequest_cases:
  assumes "handleRequest authority subscribe P es gone bound jq g = (w, g')"
  obtains (refused) "g' = g \<or> g' = g\<lparr>wk_Server := Some (worker_server g)\<rparr>"
      "jp_Status w = 400 \<or> wk_Server g = None \<and> \<not> bound"
    | (a2a) ns rest r w0 s' where "split_url (jq_URL jq) = Some (ns, rest)" "go_request authority jq ns rest = Some r"
        "isA2A rest (jq_Method jq)" "a2a_ServeHTTP P worker_a2a es [] gone r (wk_Store g) = (w0, s')"
        "g' = \<lparr>wk_Server = Some ((worker_server g)\<lparr>sv_store := s'\<rparr>), wk_Store = s'\<rparr>"
    | (rest) ns rest r w0 sv' where "split_url (jq_URL jq) = Some (ns, rest)" "go_request authority jq ns rest = Some r"
        "ServeHTTP subscribe P es r (worker_server g) = (w0, sv')"
        "w = newResponse (w_Status w0) (w_Body w0)" "g' = \<lparr>wk_Server = Some sv', wk_Store = sv_store sv'\<rparr>"
proof (cases "wk_Server g = None \<and> \<not> bound \<or> split_url (jq_URL jq) = None")
  case True
  with assms show thesis by (intro refused) (auto simp: handleRequest_def Let_def newResponse_def split: if_splits)
next
  case False
  then obtain ns rest where url: "split_url (jq_URL jq) = Some (ns, rest)" by auto
  show thesis
  proof (cases "go_request authority jq ns rest")
    case None
    with assms False url show thesis by (intro refused) (auto simp: handleRequest_def newResponse_def)
  next
    case (Some r)
    note * = assms False url Some
    show thesis
    proof (cases "isA2A rest (jq_Method jq)")
      case True
      obtain w0 s' where "a2a_ServeHTTP P worker_a2a es [] gone r (wk_Store g) = (w0, s')" by fastforce
      with * True show thesis
        by (intro a2a [OF url Some True]) (auto simp: handleRequest_def worker_server_store)
    next
      case False
      obtain w0 sv' where "ServeHTTP subscribe P es r (worker_server g) = (w0, sv')" by fastforce
      with * False show thesis
        by (intro rest [OF url Some]) (auto simp: handleRequest_def)
    qed
  qed
qed

text \<open>A path without an escape, a query, a fragment or a double slash is its own path.\<close>

definition clean_path :: "string \<Rightarrow> bool" where
  "clean_path p \<longleftrightarrow> HasPrefix p ''/'' \<and> \<not> HasPrefix p ''//'' \<and> list_all (\<lambda>c. c \<notin> set ''#?%'' \<and> \<not> control c) p"

lemma path_unescape_same: "CHR ''%'' \<notin> set p \<Longrightarrow> path_unescape p = Some p"
  by (induction p) auto

lemma parse_rooted_clean: "clean_path p \<Longrightarrow> parse_rooted authority p = Some p"
proof -
  assume "clean_path p"
  then have p: "CHR ''#'' \<notin> set p" "CHR ''?'' \<notin> set p" "CHR ''%'' \<notin> set p" "\<not> list_ex control p" "\<not> HasPrefix p ''//''"
    by (auto simp: clean_path_def list_all_iff list_ex_iff)
  then show ?thesis
    by (simp add: parse_rooted_def cut_none path_unescape_same)
qed

lemma post_routes_clean: "p \<in> set post_paths \<Longrightarrow> clean_path p"
  by (auto simp: post_paths_def clean_path_def HasPrefix_def control_def)

text \<open>C33: On Cloudflare every write is refused, whatever the back end can do. The method \<open>text\<close> of
  a request returns a promise, which is no string, so the handlers see an empty body: no request changes
  the store, and every \<open>POST\<close> to a path of the REST server is answered with 400.\<close>

theorem worker_writes_lost:
  assumes "handleRequest authority subscribe P es gone bound jq g = (w, g')" and "worker_ok g"
    and "\<And>t. jq_Text jq \<noteq> JsString t"
  shows "wk_Store g' = wk_Store g \<and> worker_ok g' \<and>
    (jq_Method jq = ''POST'' \<and> split_url (jq_URL jq) = Some (ns, path) \<and> path \<in> set post_paths \<and>
       (wk_Server g \<noteq> None \<or> bound) \<longrightarrow> jp_Status w = 400)"
proof -
  have no_guard: "sv_token (worker_server g) = []" "rl_limit (sv_rate (worker_server g)) \<le> 0"
    using worker_server_open [OF assms(2)] by blast+
  have lost: "request_body jq = []" using assms(3) by (auto simp: request_body_def split: js.split)
  have nobody: "hr_Body r = None" if "go_request authority jq ns p = Some r" for ns p r
    using that lost by (auto simp: go_request_def Let_def split: if_splits option.splits)
  from assms(1) show ?thesis
  proof (cases rule: handleRequest_cases)
    case refused
    with assms(2) no_guard show ?thesis by (auto simp: worker_ok_def)
  next
    case (a2a ns' rest r w0 s')
    have "s' = wk_Store g" using a2a(4) rpc_without_body [OF nobody [OF a2a(2)]] by (metis snd_conv)
    moreover have "\<not> (jq_Method jq = ''POST'' \<and> rest \<in> set post_paths)"
      using a2a(3) by (auto simp: isA2A_def post_paths_def)
    ultimately show ?thesis using a2a(1,5) no_guard by (auto simp: worker_ok_def)
  next
    case (rest ns' p r w0 sv')
    note kept = ServeHTTP_without_body [OF nobody [OF rest(2)] no_guard, of subscribe P es, unfolded rest(3), simplified]
    have "w_Status w0 = 400" if "jq_Method jq = ''POST''" "p \<in> set post_paths"
    proof -
      have "hr_Method r = ''POST''" "hr_Path r = p"
        using rest(2) that(1) parse_rooted_clean [OF post_routes_clean [OF that(2)]]
        by (auto simp: go_request_def Let_def split: if_splits)
      with kept(2) that(2) show ?thesis by (simp add: bad_request_def)
    qed
    then show ?thesis using rest(1,4,5) kept(1) no_guard by (auto simp: worker_ok_def worker_server_store newResponse_def)
  qed
qed

definition claim_call :: js_request where
  "claim_call = \<lparr>jq_URL = ''https://w.dev/ns/team/claim'', jq_Method = ''POST'', jq_Body = True,
     jq_Text = JsObject [], jq_Headers = Some [(''content-type'', ''application/json'')]\<rparr>"

theorem worker_writes_lost_witness:
  "\<exists>w g'. handleRequest (\<lambda>_. True) (\<lambda>_ _ _. Inr []) memory_provider (\<lambda>_. calm 0) (\<lambda>_. False) True claim_call
      \<lparr>wk_Server = None, wk_Store = mem_New\<rparr> = (w, g') \<and> jp_Status w = 400 \<and> wk_Store g' = mem_New"
proof -
  let ?g = "\<lparr>wk_Server = None, wk_Store = mem_New\<rparr>"
  obtain w g' where run: "handleRequest (\<lambda>_. True) (\<lambda>_ _ _. Inr []) memory_provider (\<lambda>_. calm 0) (\<lambda>_. False) True
      claim_call ?g = (w, g')" by fastforce
  have url: "split_url (jq_URL claim_call) = Some (''team'', ''/claim'')"
    by (simp add: split_url_def claim_call_def TrimPrefix_def HasPrefix_def numeral_eq_Suc)
  have "wk_Store g' = wk_Store ?g \<and> worker_ok g' \<and>
      (jq_Method claim_call = ''POST'' \<and> split_url (jq_URL claim_call) = Some (''team'', ''/claim'') \<and>
       ''/claim'' \<in> set post_paths \<and> (wk_Server ?g \<noteq> None \<or> True) \<longrightarrow> jp_Status w = 400)"
    by (rule worker_writes_lost [OF run]) (simp_all add: worker_ok_def claim_call_def)
  then have "jp_Status w = 400" "wk_Store g' = mem_New" using url by (simp_all add: claim_call_def post_paths_def)
  with run show ?thesis by blast
qed

section \<open>Every namespace is the same\<close>

lemma SplitN_parts: "n > 0 \<Longrightarrow> Join (SplitN n s) ''/'' = s \<and> SplitN n s \<noteq> []"
proof (induction n s rule: SplitN.induct)
  case (3 n s)
  obtain u v where uv: "Url.cut (CHR ''/'') s = (u, v)" by fastforce
  have "s = u @ ''/'' @ v" if "CHR ''/'' \<in> set s"
    using that uv by (induction s arbitrary: u) (auto split: prod.splits if_splits)
  with 3 uv show ?case by (cases "SplitN (Suc n) v") auto
qed simp_all

lemma split_url_namespace:
  assumes "CHR ''/'' \<notin> set host" "CHR ''/'' \<notin> set ns"
  shows "split_url (''https://'' @ host @ ''/ns/'' @ ns @ ''/'' @ rest) = Some (ns, ''/'' @ rest)"
proof -
  let ?t = "''/ns/'' @ ns @ ''/'' @ rest"
  have trim: "TrimPrefix (TrimPrefix (''https://'' @ t) ''http://'') ''https://'' = t" for t
    by (simp add: TrimPrefix_def HasPrefix_def)
  have "\<forall>c \<in> set host. c \<noteq> CHR ''/''" using assms(1) by auto
  then have drop: "dropWhile (\<lambda>c. c \<noteq> CHR ''/'') (host @ ?t) = ?t" by (simp add: dropWhile_append2)
  have "TrimPrefix ?t ''/'' = ''ns/'' @ ns @ ''/'' @ rest" by (simp add: TrimPrefix_def HasPrefix_def)
  then have parts: "SplitN 4 (TrimPrefix ?t ''/'') = ''ns'' # ns # SplitN 2 rest"
    using cut_append [OF assms(2), of rest] by (simp add: numeral_eq_Suc)
  have "CHR ''/'' \<in> set (host @ ?t)" by simp
  then have "split_url (''https://'' @ host @ ?t) =
      (let parts = ''ns'' # ns # SplitN 2 rest
       in if length parts < 3 \<or> parts ! 0 \<noteq> ''ns'' then None else Some (parts ! 1, ''/'' @ Join (drop 2 parts) ''/''))"
    unfolding split_url_def trim Let_def by (simp only: if_True drop parts)
  moreover have "Join (SplitN 2 rest) ''/'' = rest" "SplitN 2 rest \<noteq> []" using SplitN_parts [of 2 rest] by simp_all
  ultimately show ?thesis by (cases "SplitN 2 rest") simp_all
qed

text \<open>On Cloudflare the claims of every namespace are those of the namespace \<open>default\<close>:
  \<open>GET /ns/<ns>/claims\<close> is answered with all active claims of \<open>default\<close>, whatever the namespace and whatever
  resource the query asks for.\<close>

theorem worker_reads_default:
  assumes "handleRequest authority subscribe P es gone bound jq g = (w, g')" and "wk_Server g = None" and "bound"
    and "jq_URL jq = ''https://'' @ host @ ''/ns/'' @ ns @ ''/claims'' @ query" and "jq_Method jq = ''GET''"
    and "CHR ''/'' \<notin> set host" and "CHR ''/'' \<notin> set ns" and "plain ns"
    and "query = [] \<or> hd query = CHR ''?''" and "CHR ''#'' \<notin> set query" and "\<not> list_ex control query"
  shows "w = (case client_ActiveClaims P ''default'' (es 0) [] (wk_Store g) of
      Inl err \<Rightarrow> newResponse 500 (Text (error_text err))
    | Inr claims \<Rightarrow> newResponse 200 (Json (slice_json claim_json claims)))"
proof -
  have url: "split_url (jq_URL jq) = Some (ns, ''/claims'' @ query)"
    using split_url_namespace [OF assms(6,7), of "''claims'' @ query"] by (simp add: assms(4))
  have "fst (Url.cut (CHR ''?'') (''/claims'' @ query)) = ''/claims''"
    using assms(9) by (cases query) auto
  moreover have "Url.cut (CHR ''#'') (''/claims'' @ query) = (''/claims'' @ query, [])"
    by (rule cut_none) (use assms(10) in simp)
  ultimately have path: "parse_rooted authority (''/claims'' @ query) = Some ''/claims''"
    using assms(11) by (simp add: parse_rooted_def HasPrefix_def control_def)
  have "parse_query (''namespace='' @ ns) = [(''namespace'', ns)]"
    using parse_query_of [of "[(''namespace'', ns)]"] assms(8) by (simp add: query_of_def control_def)
  then have query: "first_value (parse_query (''namespace='' @ ns)) ''resource'' = []" by (simp add: first_value_def)
  have "valid_method ''GET''" by (simp add: valid_method_def token_char_def)
  then have "\<exists>r. go_request authority jq ns (''/claims'' @ query) = Some r \<and> hr_Method r = ''GET'' \<and>
      hr_Path r = ''/claims'' \<and> hr_Param r ''resource'' = []"
    unfolding go_request_def Let_def path assms(5) by (simp del: append.append_Cons add: query)
  then obtain r where r: "go_request authority jq ns (''/claims'' @ query) = Some r" "hr_Method r = ''GET''"
      "hr_Path r = ''/claims''" "hr_Param r ''resource'' = []"
    by blast
  have "\<not> isA2A (''/claims'' @ query) (jq_Method jq)" by (simp add: isA2A_def)
  with assms(1,2,3) url r show ?thesis
    by (auto simp: handleRequest_def worker_server_def New_server_def ServeHTTP_def get_routes_def post_routes_def
        handleQueryClaims_def error_reply_def http_Error_def reply_def newResponse_def split: sum.splits)
qed

definition claims_call :: js_request where
  "claims_call = \<lparr>jq_URL = ''https://'' @ ''w.dev'' @ ''/ns/'' @ ''team'' @ ''/claims'' @ ''?resource=file:///x'',
     jq_Method = ''GET'', jq_Body = False, jq_Text = JsNull, jq_Headers = None\<rparr>"

theorem worker_reads_default_witness:
  "fst (handleRequest (\<lambda>_. True) (\<lambda>_ _ _. Inr []) sqlite_provider (\<lambda>_. calm 0) (\<lambda>_. False) True claims_call
     \<lparr>wk_Server = None, wk_Store = sq_New\<rparr>) = newResponse 200 (Json (slice_json claim_json []))"
proof -
  let ?g = "\<lparr>wk_Server = None, wk_Store = sq_New\<rparr>"
  obtain w g' where run: "handleRequest (\<lambda>_. True) (\<lambda>_ _ _. Inr []) sqlite_provider (\<lambda>_. calm 0) (\<lambda>_. False) True
      claims_call ?g = (w, g')" by fastforce
  have "w = (case client_ActiveClaims sqlite_provider ''default'' (calm 0) [] (wk_Store ?g) of
      Inl err \<Rightarrow> newResponse 500 (Text (error_text err))
    | Inr claims \<Rightarrow> newResponse 200 (Json (slice_json claim_json claims)))"
    by (rule worker_reads_default [OF run, where host = "''w.dev''" and ns = "''team''"
        and query = "''?resource=file:///x''"]) (simp_all add: claims_call_def control_def)
  moreover have "client_ActiveClaims sqlite_provider ''default'' (calm 0) [] sq_New = Inr []"
    by (simp add: client_ActiveClaims_def sqlite_provider_def sq_ActiveClaims_def sq_Query_def rows_of_def sq_New_def
        bindE_def exec_def calm_def FilterActiveClaims_def matching_claims_def)
  ultimately show ?thesis using run by simp
qed

end
