(* ===== verification/Payloads.thy ===== *)
theory Payloads
  imports JsonText ActiveClaims Client
begin

text \<open>
  What the payloads of the client look like once they have been written as bytes and read back: the
  bridge between the values that all the other theories store and the bytes that the back ends keep.
  Strings that are UTF-8 arrive unchanged; a resource that is not is stored under another name.
\<close>

section \<open>Valid strings\<close>

definition valid_utf8 :: "string \<Rightarrow> bool" where
  "valid_utf8 s \<longleftrightarrow> to_valid s = s"

lemma to_valid_ascii: "list_all (\<lambda>c. byte c < 128) s \<Longrightarrow> to_valid s = s"
  by (induction s) simp_all

lemma to_valid_rune:
  assumes "decode_rune (c # s) = (r, n)" "\<not> (r = RuneError \<and> n = 1)" "128 \<le> byte c"
  shows "to_valid (take n (c # s) @ t) = take n (c # s) @ to_valid t"
proof -
  obtain k where k: "n = Suc k" "0 < k" "k \<le> length s"
    by (cases rule: decode_rune_multi [OF assms]) (auto intro: that)
  have dec: "decode_rune (c # take k s @ t) = (r, n)" using decode_rune_take [OF assms] by (simp add: k)
  have rest: "drop k (take k s @ t) = t" "take k (take k s @ t) = take k s" using k(3) by simp_all
  have "\<not> byte c < 128" using assms(3) by simp
  then show ?thesis
    using k(2) by (simp only: k(1) take_Suc_Cons append_Cons to_valid.simps(2) if_False dec [unfolded k(1)] prod.case
        diff_Suc_1 rest) simp
qed

lemma to_valid_replacement: "to_valid (replacement @ t) = replacement @ to_valid t"
proof -
  have bytes: "byte CHR 0xEF = 239" "byte CHR 0xBF = 191" "byte CHR 0xBD = 189" by (simp_all add: byte_def)
  then have "decode_rune (CHR 0xEF # CHR 0xBF # CHR 0xBD # t) = (65533, 3)"
    by (simp add: decode_rune_def continuation_def)
  then show ?thesis by (simp add: replacement_def bytes RuneError_def)
qed

lemma to_valid_step:
  assumes "128 \<le> byte c"
  obtains u n where "to_valid (c # s) = u @ to_valid (drop (n - 1) s)" "\<And>t. to_valid (u @ t) = u @ to_valid t"
    "u = replacement \<or> u = take n (c # s)" "u \<noteq> []" "(fst (decode_rune (c # s)), n) = decode_rune (c # s)"
proof -
  obtain r n where rune: "decode_rune (c # s) = (r, n)" by fastforce
  show thesis
  proof (cases "r = RuneError \<and> n = 1")
    case True
    with assms rune that [of replacement n] to_valid_replacement show thesis by (auto simp: replacement_def)
  next
    case False
    from decode_rune_length [OF rune] that [of "take n (c # s)" n] to_valid_rune [OF rune False assms] assms rune False
    show thesis by auto
  qed
qed

lemma to_valid_idem [simp]: "to_valid (to_valid s) = to_valid s"
proof (induction s rule: to_valid.induct)
  case (2 c s)
  show ?case
  proof (cases "byte c < 128")
    case False
    then have "128 \<le> byte c" by simp
    then obtain u n where u: "to_valid (c # s) = u @ to_valid (drop (n - 1) s)"
      "\<And>t. to_valid (u @ t) = u @ to_valid t" "(fst (decode_rune (c # s)), n) = decode_rune (c # s)"
      using to_valid_step [of c s] by metis
    from "2.IH"(2) [OF False u(3)] have "to_valid (to_valid (drop (n - 1) s)) = to_valid (drop (n - 1) s)" .
    then show ?thesis by (simp only: u(1,2))
  qed (use "2.IH" in simp)
qed simp

lemma valid_to_valid [simp]: "valid_utf8 (to_valid s)"
  by (simp add: valid_utf8_def)

lemma to_valid_Nil [simp]: "to_valid s = [] \<longleftrightarrow> s = []"
proof (cases s)
  case (Cons c t)
  then show ?thesis
    by (cases "byte c < 128") (simp, metis Nil_is_append_conv list.distinct(1) not_less to_valid_step)
qed simp

lemma set_to_valid: "set (to_valid s) \<subseteq> set s \<union> set replacement"
proof (induction s rule: to_valid.induct)
  case (2 c s)
  show ?case
  proof (cases "byte c < 128")
    case False
    then have "128 \<le> byte c" by simp
    then obtain u n where u: "to_valid (c # s) = u @ to_valid (drop (n - 1) s)"
      "u = replacement \<or> u = take n (c # s)" "(fst (decode_rune (c # s)), n) = decode_rune (c # s)"
      using to_valid_step [of c s] by metis
    from "2.IH"(2) [OF False u(3)] have "set (to_valid (drop (n - 1) s)) \<subseteq> set s \<union> set replacement"
      using set_drop_subset [of "n - 1" s] by blast
    moreover have "set u \<subseteq> set (c # s) \<union> set replacement" using u(2) set_take_subset [of n "c # s"] by blast
    ultimately show ?thesis unfolding u(1) by auto
  qed (use "2.IH" in auto)
qed simp

section \<open>Claims\<close>

definition sent_claim :: "claim \<Rightarrow> claim" where
  "sent_claim c = c\<lparr>c_ClaimID := to_valid (c_ClaimID c), c_AgentID := to_valid (c_AgentID c),
     c_ResourceURI := to_valid (c_ResourceURI c), c_Operation := to_valid (c_Operation c),
     c_Intent := to_valid (c_Intent c), c_ProjectedEnd := to_valid (c_ProjectedEnd c),
     c_ParentClaimID := to_valid (c_ParentClaimID c)\<rparr>"

lemma ascii_digits: "list_all is_digit s \<Longrightarrow> list_all (\<lambda>c. byte c < 128) s"
proof -
  have "\<forall>c \<in> set ''0123456789''. byte c < 128" by (simp add: byte_def)
  then show "list_all is_digit s \<Longrightarrow> list_all (\<lambda>c. byte c < 128) s"
    unfolding list_all_iff is_digit_chars by blast
qed

lemma ascii_pad: "list_all (\<lambda>c. byte c < 128) (pad k n)"
  by (rule ascii_digits) (use set_pad_digits in \<open>auto simp: list_all_iff\<close>)

lemma ascii_strip_zeros: "list_all P ds \<Longrightarrow> list_all P (strip_zeros ds)"
  using set_strip_zeros [of ds] by (auto simp: list_all_iff)

lemma ascii_time: "to_valid (format_rfc3339 t) = format_rfc3339 t"
proof -
  have marks: "byte CHR ''-'' < 128" "byte CHR ''T'' < 128" "byte CHR '':'' < 128" "byte CHR ''.'' < 128" "byte CHR ''Z'' < 128"
    by (simp_all add: byte_def)
  show ?thesis
    by (rule to_valid_ascii)
      (simp add: format_rfc3339_def format_date_def format_clock_def format_frac_def Let_def ascii_pad
        ascii_strip_zeros marks split: prod.split)
qed

lemma clean_time [simp]: "clean (time_json t) = time_json t"
  by (simp add: time_json_def ascii_time)

lemma ascii_keys [simp]:
  "to_valid ''claim_id'' = ''claim_id''" "to_valid ''agent_id'' = ''agent_id''"
  "to_valid ''resource_uri'' = ''resource_uri''" "to_valid ''operation'' = ''operation''"
  "to_valid ''intent'' = ''intent''" "to_valid ''projected_end'' = ''projected_end''"
  "to_valid ''ttl_seconds'' = ''ttl_seconds''" "to_valid ''parent_claim_id'' = ''parent_claim_id''"
  "to_valid ''created_at'' = ''created_at''"
  by (simp_all add: byte_def)

lemma clean_omit_empty [simp]:
  "map (\<lambda>(k, v). (to_valid k, clean v)) (omit_empty k s) = omit_empty (to_valid k) (to_valid s)"
  by (simp add: omit_empty_def)

lemma sent_claim_simps [simp]:
  "c_ClaimID (sent_claim c) = to_valid (c_ClaimID c)" "c_AgentID (sent_claim c) = to_valid (c_AgentID c)"
  "c_ResourceURI (sent_claim c) = to_valid (c_ResourceURI c)" "c_Operation (sent_claim c) = to_valid (c_Operation c)"
  "c_Intent (sent_claim c) = to_valid (c_Intent c)" "c_ProjectedEnd (sent_claim c) = to_valid (c_ProjectedEnd c)"
  "c_ParentClaimID (sent_claim c) = to_valid (c_ParentClaimID c)" "c_TTLSeconds (sent_claim c) = c_TTLSeconds c"
  "c_CreatedAt (sent_claim c) = c_CreatedAt c"
  by (simp_all add: sent_claim_def)

lemma clean_claim: "clean (claim_json c) = claim_json (sent_claim c)"
  unfolding claim_json_def
  by (simp only: clean.simps map_append list.map prod.case clean_omit_empty ascii_keys clean_time sent_claim_simps)

lemma claim_writable: "writable (claim_json c)" "depth (claim_json c) \<le> maxNestingDepth"
  by (simp_all add: claim_json_def omit_empty_def time_json_def maxNestingDepth_def)

lemma sent_claim_ok: "claim_ok c \<Longrightarrow> claim_ok (sent_claim c)"
  by (simp add: claim_ok_def sent_claim_def)

lemma sent_claim_same:
  "sent_claim c = c \<longleftrightarrow> valid_utf8 (c_ClaimID c) \<and> valid_utf8 (c_AgentID c) \<and> valid_utf8 (c_ResourceURI c) \<and>
     valid_utf8 (c_Operation c) \<and> valid_utf8 (c_Intent c) \<and> valid_utf8 (c_ProjectedEnd c) \<and>
     valid_utf8 (c_ParentClaimID c)"
  by (cases c) (simp add: sent_claim_def valid_utf8_def)

lemma literal_to_valid: "literal s \<Longrightarrow> literal (to_valid s)"
  using set_to_valid [of s] by (auto simp: literal_def replacement_def)

section \<open>Logs\<close>

text \<open>A message with the payload that comes back from its bytes.\<close>

definition reread :: "message \<Rightarrow> message" where
  "reread m = m\<lparr>m_Payload := Option.bind (m_Payload m) (\<lambda>j. parse_json (json_text j))\<rparr>"

text \<open>The payloads that the client writes besides claims, all about the claim \<open>cid\<close>.\<close>

inductive about_claim :: "string \<Rightarrow> json \<Rightarrow> bool" where
  release: "about_claim cid (JObj [(''claim_id'', JStr cid), (''outcome'', JStr v), (''released_at'', time_json t)])"
| heartbeat: "about_claim cid (JObj [(''claim_id'', JStr cid), (''heartbeat_at'', time_json t)])"
| transfer: "about_claim cid (JObj [(''claim_id'', JStr cid), (''to_agent_id'', JStr v), (''transferred_at'', time_json t)])"
| intent: "about_claim cid (JObj [(''claim_id'', JStr cid), (''intent'', JStr v), (''updated_at'', time_json t)])"

definition client_message :: "message \<Rightarrow> bool" where
  "client_message m \<longleftrightarrow>
     (if m_Type m = MsgClaim then \<exists>c. m_Payload m = Some (claim_json c) \<and> claim_ok c \<and> valid_utf8 (c_ClaimID c)
      else \<exists>cid j. m_Payload m = Some j \<and> about_claim cid j \<and> valid_utf8 cid)"

lemma reread_simps [simp]:
  "m_Offset (reread m) = m_Offset m" "m_Type (reread m) = m_Type m" "m_Timestamp (reread m) = m_Timestamp m"
  "is_release (reread m) = is_release m"
  by (simp_all add: reread_def is_release_def)

lemma ascii_more_keys [simp]:
  "to_valid ''outcome'' = ''outcome''" "to_valid ''released_at'' = ''released_at''"
  "to_valid ''heartbeat_at'' = ''heartbeat_at''" "to_valid ''to_agent_id'' = ''to_agent_id''"
  "to_valid ''transferred_at'' = ''transferred_at''" "to_valid ''updated_at'' = ''updated_at''"
  by (simp_all add: byte_def)

lemma time_writable [simp]: "depth (time_json t) = 0" "writable (time_json t)"
  by (simp_all add: time_json_def)

lemma about_claim_clean: "about_claim cid j \<Longrightarrow> about_claim (to_valid cid) (clean j)"
  by (induction rule: about_claim.induct)
    (simp_all only: clean.simps list.map prod.case ascii_keys ascii_more_keys clean_time about_claim.intros)

lemma about_claim_writable: "about_claim cid j \<Longrightarrow> writable j \<and> depth j \<le> maxNestingDepth"
  by (induction rule: about_claim.induct) (simp_all add: maxNestingDepth_def)

lemma about_claim_ref: "about_claim cid j \<Longrightarrow> decode_ref (Some j) = Some cid"
  by (induction rule: about_claim.induct) (simp_all add: client_payload_ref)

lemma reread_claim:
  "claim_ok c \<Longrightarrow> m_Payload m = Some (claim_json c) \<Longrightarrow> m_Payload (reread m) = Some (claim_json (sent_claim c))"
  by (simp add: reread_def parse_json_text claim_writable clean_claim)

lemma reread_ref:
  assumes "client_message m"
  shows "decode_ref (m_Payload (reread m)) = decode_ref (m_Payload m)"
proof (cases "m_Type m = MsgClaim")
  case True
  with assms obtain c where c: "m_Payload m = Some (claim_json c)" "claim_ok c" "valid_utf8 (c_ClaimID c)"
    by (auto simp: client_message_def)
  with reread_claim [OF c(2,1)] show ?thesis by (simp add: valid_utf8_def)
next
  case False
  with assms obtain cid j where j: "m_Payload m = Some j" "about_claim cid j" "valid_utf8 cid"
    by (auto simp: client_message_def)
  have "about_claim cid (clean j)" using about_claim_clean [OF j(2)] j(3) by (simp add: valid_utf8_def)
  with j(1) about_claim_writable [OF j(2)] about_claim_ref [OF j(2)] about_claim_ref [of cid "clean j"]
  show ?thesis by (simp add: reread_def parse_json_text)
qed

lemma reread_offsets:
  assumes "\<forall>m \<in> set msgs. client_message m"
  shows "release_offsets (map reread msgs) cid = release_offsets msgs cid"
    and "heartbeat_times (map reread msgs) cid = heartbeat_times msgs cid"
  using assms by (induction msgs) (simp_all add: heartbeat_times_def reread_ref)

lemma reread_entries:
  assumes "\<forall>m \<in> set msgs. client_message m"
  shows "claim_entries (map reread msgs) = map (map_prod id sent_claim) (claim_entries msgs)"
    and "\<forall>e \<in> set (claim_entries msgs). valid_utf8 (c_ClaimID (snd e))"
proof -
  have one: "decode_claim (m_Payload (reread m)) = map_option sent_claim (decode_claim (m_Payload m)) \<and>
      (\<forall>c. decode_claim (m_Payload m) = Some c \<longrightarrow> valid_utf8 (c_ClaimID c))"
    if m: "m \<in> set msgs" "m_Type m = MsgClaim" for m
  proof -
    from bspec [OF assms m(1)] m(2) obtain c where c: "m_Payload m = Some (claim_json c)" "claim_ok c" "valid_utf8 (c_ClaimID c)"
      by (auto simp: client_message_def)
    with reread_claim [OF c(2,1)] sent_claim_ok [OF c(2)] show ?thesis by (simp add: decode_claim_json)
  qed
  then show "claim_entries (map reread msgs) = map (map_prod id sent_claim) (claim_entries msgs)"
    unfolding claim_entries_def
    by (induction msgs) (auto simp: List.map_filter_simps option.map_comp o_def split: option.split)
  from one show "\<forall>e \<in> set (claim_entries msgs). valid_utf8 (c_ClaimID (snd e))"
    by (auto simp: claim_entries_def List.map_filter_def split: if_splits)
qed

lemma live_reread:
  assumes "\<forall>m \<in> set msgs. client_message m" "valid_utf8 (c_ClaimID (snd e))"
  shows "live t (map reread msgs) (map_prod id sent_claim e) = live t msgs e"
  using assms(2) reread_offsets [OF assms(1)]
  by (cases e) (simp add: live_def released_in_def deadline_def valid_utf8_def)

text \<open>All that the client writes is such a message.\<close>

lemma generated_valid: "valid_utf8 (generateClaimID t)"
proof -
  have "list_all (\<lambda>c. byte c < 128) (itoa i)" for i
    using ascii_digits [OF utoa_digits] by (simp add: itoa_def byte_def)
  then show ?thesis
    unfolding valid_utf8_def generateClaimID_def by (intro to_valid_ascii) (simp add: byte_def)
qed

lemma client_writes:
  "stamped ns (new_message MsgClaim a (claim_json c)) m \<Longrightarrow> claim_ok c \<Longrightarrow> valid_utf8 (c_ClaimID c) \<Longrightarrow> client_message m"
  "stamped ns (new_message ty a j) m \<Longrightarrow> ty \<noteq> MsgClaim \<Longrightarrow> about_claim cid j \<Longrightarrow> valid_utf8 cid \<Longrightarrow> client_message m"
  by (auto simp: client_message_def stamped_def new_message_def)

text \<open>C17: The scan for active claims works on the bytes of the log as on the values that the
  client stored: it finds the same claims, each with its strings made valid UTF-8. So a claim on a
  resource whose name is not UTF-8 is found under another name, and it does not stop a second agent from
  claiming the very same resource.\<close>

theorem claim_bytes:
  assumes "\<forall>m \<in> set msgs. client_message m"
  shows "FilterActiveClaims t (map reread msgs) = map sent_claim (FilterActiveClaims t msgs) \<and>
    (literal (c_ResourceURI c) \<and> \<not> valid_utf8 (c_ResourceURI c) \<and> c_ResourceURI c' = c_ResourceURI c \<longrightarrow>
       \<not> blocks (sent_claim c) c')"
proof (intro conjI impI)
  have "filter (live t (map reread msgs)) (map (map_prod id sent_claim) (claim_entries msgs)) =
      map (map_prod id sent_claim) (filter (live t msgs) (claim_entries msgs))"
    unfolding filter_map o_def
    using live_reread [OF assms] reread_entries(2) [OF assms] by (intro arg_cong [of _ _ "map _"] filter_cong) auto
  then show "FilterActiveClaims t (map reread msgs) = map sent_claim (FilterActiveClaims t msgs)"
    by (simp add: FilterActiveClaims_eq reread_entries(1) [OF assms])
  assume c: "literal (c_ResourceURI c) \<and> \<not> valid_utf8 (c_ResourceURI c) \<and> c_ResourceURI c' = c_ResourceURI c"
  then have "\<not> resourceMatches (c_ResourceURI c') (to_valid (c_ResourceURI c))"
    using resourceMatches_literal [of "c_ResourceURI c" "to_valid (c_ResourceURI c)"] literal_to_valid
    by (auto simp: valid_utf8_def)
  then show "\<not> blocks (sent_claim c) c'" by (simp add: blocks_def isConflicting_def)
qed

text \<open>Alice holds a file whose name is Latin-1, and Bob asks for it.\<close>

definition latin1_claim :: claim where
  "latin1_claim = (sample_claim ''c'' 60)\<lparr>c_ResourceURI := ''file://caf'' @ [CHR 0xE9]\<rparr>"

definition latin1_message :: message where
  "latin1_message = (new_message MsgClaim ''alice'' (claim_json latin1_claim))\<lparr>m_Offset := 1, m_Timestamp := sample_time\<rparr>"

theorem claim_bytes_witness:
  "FilterActiveClaims sample_time (map reread [latin1_message]) = [sent_claim latin1_claim] \<and>
   blocks latin1_claim (latin1_claim\<lparr>c_AgentID := ''bob''\<rparr>) \<and>
   \<not> blocks (sent_claim latin1_claim) (latin1_claim\<lparr>c_AgentID := ''bob''\<rparr>)"
proof -
  have ok: "claim_ok latin1_claim" by (simp add: latin1_claim_def sample_claim_def claim_ok_def)
  then have "\<forall>m \<in> set [latin1_message]. client_message m"
    by (auto simp: client_message_def latin1_message_def new_message_def latin1_claim_def valid_utf8_def byte_def)
  moreover have "FilterActiveClaims sample_time [latin1_message] = [latin1_claim]"
    using decode_claim_json [OF ok]
    by (simp add: FilterActiveClaims_eq live_def released_in_def deadline_def is_release_def heartbeat_times_def
        latin1_message_def new_message_def) (simp add: latin1_claim_def sample_claim_def seconds_exact nanos_per_second_def)
  moreover have "literal (c_ResourceURI latin1_claim)" "\<not> valid_utf8 (c_ResourceURI latin1_claim)"
    by (simp_all add: latin1_claim_def literal_def valid_utf8_def byte_def decode_rune_def replacement_def)
  ultimately show ?thesis
    using claim_bytes [of "[latin1_message]" sample_time latin1_claim "latin1_claim\<lparr>c_AgentID := ''bob''\<rparr>"]
    by (simp add: blocks_def isConflicting_def resourceMatches_def latin1_claim_def)
qed

end
