(* ===== verification/Spec2Isabelle.thy ===== *)
theory Spec2Isabelle
  imports Exclusion Lifetimes A2AClaims A2ARoundTrip PostgresFacts Subscriptions Contract Serve Shutdown Worker Payloads
begin

text \<open>
  Verification of \<^bold>\<open>hearsay\<close>, a coordination log for coding agents written in Go. Agents announce what they
  are about to do to a resource by appending claim messages to the log of a namespace; whoever asks for
  a resource learns which active claims of other agents conflict. The development models the program as
  HOL functions, one definition per function of the code where that is possible, and proves what the
  parts promise, alone and together, and where they do not keep it.

  \<^bold>\<open>The program and its parts.\<close> The library \<open>pkg/hearsay\<close> holds the data, the scan of a log for active claims
  (\<open>activeclaims.go\<close>), conflict detection (\<open>claims.go\<close>), the interface of the back ends (\<open>provider.go\<close>) and the
  client (\<open>client.go\<close>), which reads the active claims through a provider, decides and appends. Back ends
  are in \<open>internal/memory\<close>, \<open>sqlite\<close>, \<open>postgres\<close>, \<open>managed\<close> (over HTTP) and \<open>d1\<close> (over JavaScript). The REST
  server (\<open>internal/server\<close>) and the A2A server (\<open>internal/a2a\<close>) offer the client's operations over HTTP;
  background loops sweep expired claims and release those of dead agents; \<open>internal/watcher\<close> claims files
  that change; \<open>cmd/hearsay\<close> has the commands, the hooks of the Cursor editor, the start and end of the
  servers and the entry of the Cloudflare worker. All of them meet in the store of one provider.

  \<^bold>\<open>Which theory models what.\<close>
  \<^item> Foundations: \<open>Prelude\<close> (names of types, strings, generic lemmas, named collections), \<open>GoTime\<close> (64-bit
    durations, instants, RFC 3339), \<open>GoJson\<close> and \<open>JsonText\<close> (\<open>encoding/json\<close>: values, and the bytes behind them),
    \<open>GoPath\<close> (\<open>path.Match\<close>), \<open>Http\<close> and \<open>Url\<close> (\<open>net/http\<close>, \<open>strconv\<close>, \<open>net/url\<close>).
  \<^item> The library: \<open>Types\<close>, \<open>Claims\<close>, \<open>ActiveClaims\<close>, \<open>Validation\<close>, \<open>ProviderIface\<close> (the interface as a record of
    operations over a store of any type, and its contract as locales) and \<open>Client\<close>.
  \<^item> Back ends: \<open>MemoryProvider\<close>, \<open>SqliteProvider\<close>, \<open>PostgresProvider\<close>, \<open>Managed\<close>, \<open>D1\<close>, \<open>Subscriptions\<close>
    (\<open>Subscribe\<close> of SQLite); \<open>MemoryFacts\<close>, \<open>SqliteFacts\<close>, \<open>PostgresFacts\<close> and \<open>ManagedFacts\<close> show what they keep
    of the contract; \<open>Contract\<close> is \<open>internal/contract.go\<close>, the tests that every back end is to pass.
  \<^item> Servers: \<open>RateLimit\<close>, \<open>AuditLog\<close>, \<open>Mailbox\<close>, \<open>RequestLog\<close>, \<open>Server\<close>, \<open>ServerFacts\<close>; \<open>A2ATask\<close>, \<open>A2AServer\<close>,
    \<open>A2AStream\<close>, \<open>A2AAuth\<close>, \<open>A2AFacts\<close>, \<open>A2AClaims\<close>, \<open>A2ARoundTrip\<close>.
  \<^item> Processes: \<open>Background\<close>, \<open>Watcher\<close>, \<open>Cli\<close>, \<open>Cursor\<close>, \<open>Tls\<close>, \<open>Serve\<close> (start), \<open>Shutdown\<close> (end), \<open>Worker\<close>.
  \<^item> Together: \<open>Payloads\<close> (the client's payloads as bytes), \<open>Lifetimes\<close> (how long a claim is active), \<open>ClientFacts\<close>, \<open>Exclusion\<close> (many clients on one store),
    \<open>Composition\<close> (every entry of the program as a step of one deployment) and \<open>System\<close> (what holds in every
    reachable state of a deployment on SQLite).

  \<^bold>\<open>Conventions.\<close> A Go struct is a record whose fields carry a short prefix, an error is a value of \<open>error\<close>,
  a result with an error a sum or a pair with an option. Operations are pure functions that take the
  state and return it changed. What a call observes of the outside is an environment \<open>env\<close>: the readings
  of its clock in order (\<open>Now\<close>), the failures of its statements (\<open>Fault\<close>), the order in which maps are
  iterated and equal elements are sorted (\<open>Tie\<close>), and fresh ids (\<open>Uuid\<close>). An operation that makes several
  calls gets a sequence of environments; the theorems hold for all of them unless they say which they need.
  Go's standard library is modelled as far as it is used. Code that is neither Go's nor the repository's is a
  parameter: the SQL engines appear as tables with the documented effect of each statement, the TOML codec,
  JWT verification, SHA-256, X.509, D1's binding, \<open>fsnotify\<close> and the network are arguments.

  \<^bold>\<open>Numbers, bounds and termination.\<close> Durations are 64-bit and wrap; instants and offsets are integers.
  All recursions terminate by the structure of their argument or by the measures given with them; no
  definition has fuel. Loops that poll for ever are functions of the list of states or ticks that they find. JSON is nested at most
  10000 deep, as in Go's decoder. The way
  down of a server is a step relation with a clock of seconds, shown to end within ten of them.

  \<^bold>\<open>What is shown.\<close>
  \<^item> The core: the scan for active claims equals a declarative specification, the conflict matrix and
    the matching of patterns, the life of a claim under TTL, heartbeat and release with overflow; a log that has been written as bytes
    and read back holds the same claims, where its strings are UTF-8.
  \<^item> One store: a claim request is decided completely, on every branch, by the log of the back end; two
    agents that ask one after the other never hold conflicting claims, and how two that interleave do.
  \<^item> Back ends: appends refine a log of messages with consecutive offsets, also under failures; event
    streams deliver once and in order, and when they do not; which operations of the managed provider the
    server of this repository answers; the test contract passes on the local back ends and fails on the
    managed one.
  \<^item> Servers: who may change the store, the bound of the rate limiter, the audit trail, the status codes of a
    claim; tasks through their states and their storage, and the claims they make and leave behind.
  \<^item> Processes: the death detector, the watcher, the hooks; what \<open>init\<close> writes is what the others read; TLS and
    A2A as they are configured; that a signal ends the server and what it cuts off; that the worker on
    Cloudflare loses every write.
  \<^item> The deployment: in every state that the servers, loops, commands, hooks and watchers reach together
    on an SQLite store, no two active claims of different agents conflict, as long as steps do not overlap and
    \<open>POST /append\<close> is not used; and what is stored stays well-formed.

  The contracts are locales, interpreted on the model's own definitions: \<open>claim_store\<close>, \<open>query_store\<close>,
  \<open>task_store\<close> (theory \<open>ProviderIface\<close>), \<open>watched_store\<close> (\<open>Background\<close>), \<open>shared_store\<close>, \<open>shared_tasks\<close>
  (\<open>Composition\<close>), \<open>deaf_store\<close> (\<open>System\<close>) and \<open>tested_store\<close> (\<open>Contract\<close>). Each property has a witness that
  applies it to concrete data where it has hypotheses.

  \<^bold>\<open>Not modelled.\<close> The bytes of HTTP messages (requests and bodies are parsed values), the
  SQL engines, connection pools and locks (operations are atomic except where a theory splits them), the
  redirects of the multiplexer for unclean paths, flushing of responses, the texts of usage messages and of
  JSON decoding errors, the log lines of the start, the opening of databases and sockets, and everything
  that is not Go: the SDKs, editor extensions, \<open>worker.js\<close> and the SQL files for D1.
\<close>

end
